(* ===== verification/Prelude.thy ===== *)
theory Prelude
  imports Complex_Main "HOL-Library.AList" "HOL-Library.Char_ord" "HOL-Library.List_Lexorder"
    "HOL-Library.Sublist"
begin

text \<open>
  Shared vocabulary of the development: JavaScript numbers, strings and Maps as the services
  use them, and the lemmas about them that the component theories share.

  Strings are lists of characters, compared in the lexicographic order of
  \<^verbatim>\<open>HOL-Library.List_Lexorder\<close>, which on ASCII text is the order of JavaScript's
  \<open><\<close> and of \<^verbatim>\<open>Array.prototype.sort()\<close>.  A JavaScript Map is an
  association list in insertion order: \<open>AList.update\<close> overwrites in place or appends, as
  \<^verbatim>\<open>Map.prototype.set\<close> does, and \<open>AList.delete\<close> is
  \<^verbatim>\<open>Map.prototype.delete\<close>.  Numbers are exact reals with the three special
  values; rounding is the identity on the integers below \<open>2 ^ 53\<close> that all the date
  arithmetic stays within.
\<close>

named_theorems js_simps \<open>evaluation rules for the JavaScript operations\<close>

section \<open>Numbers\<close>

datatype jsnum = NaN | PosInf | NegInf | Num real

fun num_is_nan :: "jsnum \<Rightarrow> bool" where
  "num_is_nan NaN = True"
| "num_is_nan _ = False"

text \<open>Strict equality on numbers: \<open>NaN\<close> differs from itself.\<close>

fun num_eq :: "jsnum \<Rightarrow> jsnum \<Rightarrow> bool" where
  "num_eq NaN _ = False"
| "num_eq _ NaN = False"
| "num_eq x y = (x = y)"

fun num_le :: "jsnum \<Rightarrow> jsnum \<Rightarrow> bool" where
  "num_le NaN _ = False"
| "num_le _ NaN = False"
| "num_le NegInf _ = True"
| "num_le _ PosInf = True"
| "num_le (Num x) (Num y) = (x \<le> y)"
| "num_le _ _ = False"

definition num_lt :: "jsnum \<Rightarrow> jsnum \<Rightarrow> bool" where
  "num_lt x y = (num_le x y \<and> \<not> num_eq x y)"

fun num_neg :: "jsnum \<Rightarrow> jsnum" where
  "num_neg NaN = NaN"
| "num_neg PosInf = NegInf"
| "num_neg NegInf = PosInf"
| "num_neg (Num x) = Num (- x)"

fun num_add :: "jsnum \<Rightarrow> jsnum \<Rightarrow> jsnum" where
  "num_add NaN _ = NaN"
| "num_add _ NaN = NaN"
| "num_add PosInf NegInf = NaN"
| "num_add NegInf PosInf = NaN"
| "num_add PosInf _ = PosInf"
| "num_add _ PosInf = PosInf"
| "num_add NegInf _ = NegInf"
| "num_add _ NegInf = NegInf"
| "num_add (Num x) (Num y) = Num (x + y)"

text \<open>Multiplication by a positive constant, the only product the date code forms.\<close>

fun num_scale :: "real \<Rightarrow> jsnum \<Rightarrow> jsnum" where
  "num_scale k (Num x) = Num (k * x)"
| "num_scale k x = x"

text \<open>The sign of the zero that a division or a product may carry is not modelled: a quotient
  by zero takes the sign of the dividend.\<close>

definition num_of_sign :: "real \<Rightarrow> jsnum" where
  "num_of_sign s = (if s = 0 then NaN else if 0 < s then PosInf else NegInf)"

fun num_mul :: "jsnum \<Rightarrow> jsnum \<Rightarrow> jsnum" where
  "num_mul NaN _ = NaN"
| "num_mul _ NaN = NaN"
| "num_mul (Num x) (Num y) = Num (x * y)"
| "num_mul (Num x) PosInf = num_of_sign x"
| "num_mul (Num x) NegInf = num_of_sign (- x)"
| "num_mul PosInf (Num y) = num_of_sign y"
| "num_mul NegInf (Num y) = num_of_sign (- y)"
| "num_mul PosInf PosInf = PosInf"
| "num_mul PosInf NegInf = NegInf"
| "num_mul NegInf PosInf = NegInf"
| "num_mul NegInf NegInf = PosInf"

fun num_div :: "jsnum \<Rightarrow> jsnum \<Rightarrow> jsnum" where
  "num_div (Num x) (Num y) = (if y = 0 then num_of_sign x else Num (x / y))"
| "num_div NaN _ = NaN"
| "num_div _ NaN = NaN"
| "num_div (Num x) _ = Num 0"
| "num_div PosInf (Num y) = (if 0 \<le> y then PosInf else NegInf)"
| "num_div NegInf (Num y) = (if 0 \<le> y then NegInf else PosInf)"
| "num_div _ _ = NaN"

definition num_sub :: "jsnum \<Rightarrow> jsnum \<Rightarrow> jsnum" where
  "num_sub x y = num_add x (num_neg y)"

lemma num_sub_Num [simp]: "num_sub (Num x) (Num y) = Num (x - y)"
  by (simp add: num_sub_def)

fun num_abs :: "jsnum \<Rightarrow> jsnum" where
  "num_abs (Num x) = Num \<bar>x\<bar>"
| "num_abs NegInf = PosInf"
| "num_abs x = x"

fun num_floor :: "jsnum \<Rightarrow> jsnum" where
  "num_floor (Num x) = Num (of_int \<lfloor>x\<rfloor>)"
| "num_floor x = x"

fun num_ceil :: "jsnum \<Rightarrow> jsnum" where
  "num_ceil (Num x) = Num (of_int \<lceil>x\<rceil>)"
| "num_ceil x = x"

lemma num_floor_div: "b \<noteq> 0 \<Longrightarrow>
    num_floor (num_div (Num (of_int a)) (Num (of_int b))) = Num (of_int (a div b))"
  by (simp add: floor_divide_of_int_eq)

lemma num_le_Num [simp]: "num_le (Num x) (Num y) \<longleftrightarrow> x \<le> y"
  by simp

lemma num_lt_Num [simp]: "num_lt (Num x) (Num y) \<longleftrightarrow> x < y"
  by (auto simp: num_lt_def)

section \<open>Strings\<close>

text \<open>\<^verbatim>\<open>s.split(c)\<close> for a one-character separator: never the empty list.\<close>

fun split_on :: "char \<Rightarrow> string \<Rightarrow> string list" where
  "split_on c [] = [[]]"
| "split_on c (x # xs) =
     (if x = c then [] # split_on c xs
      else (case split_on c xs of [] \<Rightarrow> [[x]] | p # ps \<Rightarrow> (x # p) # ps))"

lemma split_on_not_Nil [simp]: "split_on c s \<noteq> []"
  by (induction s) (auto split: list.splits)

lemma split_on_notin: "c \<notin> set s \<Longrightarrow> split_on c s = [s]"
  by (induction s) auto

lemma split_on_append: "c \<notin> set s \<Longrightarrow> split_on c (s @ c # t) = s # split_on c t"
  by (induction s) auto

text \<open>\<^verbatim>\<open>xs.join(sep)\<close>.\<close>

fun join_with :: "string \<Rightarrow> string list \<Rightarrow> string" where
  "join_with sep [] = []"
| "join_with sep [x] = x"
| "join_with sep (x # y # xs) = x @ sep @ join_with sep (y # xs)"

text \<open>\<^verbatim>\<open>s.indexOf(c)\<close> for one character: the least position, or \<open>-1\<close>.\<close>

fun index_of :: "char \<Rightarrow> string \<Rightarrow> int" where
  "index_of c [] = -1"
| "index_of c (x # xs) =
     (if x = c then 0 else let i = index_of c xs in if i = -1 then -1 else i + 1)"

lemma index_of_ge: "index_of c s \<ge> -1"
  by (induction s) (auto simp: Let_def)

lemma index_of_notin: "index_of c s = -1 \<longleftrightarrow> c \<notin> set s"
proof (induction s)
  case (Cons x xs)
  then show ?case using index_of_ge [of c xs] by (auto simp: Let_def)
qed simp

lemma index_of_append: "c \<notin> set s \<Longrightarrow> index_of c (s @ c # t) = int (length s)"
  by (induction s) (auto simp: Let_def)

text \<open>\<^verbatim>\<open>s.includes(p)\<close> for a substring.\<close>

fun includes_str :: "string \<Rightarrow> string \<Rightarrow> bool" where
  "includes_str [] p = (p = [])"
| "includes_str (x # xs) p = (prefix p (x # xs) \<or> includes_str xs p)"

text \<open>Case conversion of ASCII letters; other characters are unchanged.\<close>

definition upper_char :: "char \<Rightarrow> char" where
  "upper_char c =
     (let n = (of_char c :: nat) in if 97 \<le> n \<and> n \<le> 122 then char_of (n - 32) else c)"

definition lower_char :: "char \<Rightarrow> char" where
  "lower_char c =
     (let n = (of_char c :: nat) in if 65 \<le> n \<and> n \<le> 90 then char_of (n + 32) else c)"

definition to_upper :: "string \<Rightarrow> string" where
  "to_upper s = map upper_char s"

definition to_lower :: "string \<Rightarrow> string" where
  "to_lower s = map lower_char s"

text \<open>Equal-length prefixes decide the lexicographic order.\<close>

lemma append_less_iff:
  fixes a b x y :: "('a::linorder) list"
  assumes "length a = length b"
  shows "a @ x < b @ y \<longleftrightarrow> a < b \<or> (a = b \<and> x < y)"
  using assms by (induction a b rule: list_induct2) auto

lemma append_cong_less:
  fixes a x y :: "('a::linorder) list"
  shows "a @ x < a @ y \<longleftrightarrow> x < y"
  by (simp add: append_less_iff)

section \<open>Decimal numerals\<close>

definition digit_char :: "int \<Rightarrow> char" where
  "digit_char d = char_of (nat (48 + d))"

definition is_digit :: "char \<Rightarrow> bool" where
  "is_digit c = (let n = (of_char c :: nat) in 48 \<le> n \<and> n \<le> 57)"

definition digit_val :: "char \<Rightarrow> int" where
  "digit_val c = int (of_char c) - 48"

lemma of_char_digit_char: "0 \<le> d \<Longrightarrow> d \<le> 9 \<Longrightarrow> (of_char (digit_char d) :: nat) = nat (48 + d)"
  by (simp add: digit_char_def)

lemma is_digit_digit_char [simp]: "0 \<le> d \<Longrightarrow> d \<le> 9 \<Longrightarrow> is_digit (digit_char d)"
  by (auto simp: is_digit_def of_char_digit_char Let_def)

lemma digit_val_digit_char [simp]: "0 \<le> d \<Longrightarrow> d \<le> 9 \<Longrightarrow> digit_val (digit_char d) = d"
  by (simp add: digit_val_def of_char_digit_char)

lemma digit_char_less:
  "0 \<le> d \<Longrightarrow> d < e \<Longrightarrow> e \<le> 9 \<Longrightarrow> digit_char d < digit_char e"
  by (simp add: less_char_def of_char_digit_char)

text \<open>\<open>dec_pad w n\<close> is \<open>n\<close> in exactly \<open>w\<close> decimal digits, zero-padded.\<close>

fun dec_pad :: "nat \<Rightarrow> int \<Rightarrow> string" where
  "dec_pad 0 n = []"
| "dec_pad (Suc w) n = dec_pad w (n div 10) @ [digit_char (n mod 10)]"

lemma length_dec_pad [simp]: "length (dec_pad w n) = w"
  by (induction w arbitrary: n) auto

lemma dec_pad_less:
  "0 \<le> m \<Longrightarrow> m < n \<Longrightarrow> n < 10 ^ w \<Longrightarrow> dec_pad w m < dec_pad w n"
proof (induction w arbitrary: m n)
  case 0
  then show ?case by simp
next
  case (Suc w)
  have "m div 10 \<le> n div 10" using Suc.prems by (intro zdiv_mono1) auto
  then consider "m div 10 < n div 10" | "m div 10 = n div 10" by linarith
  then show ?case
  proof cases
    case 1
    moreover have "n div 10 < 10 ^ w" using Suc.prems by (simp add: div_less_iff_less_mult)
    ultimately have "dec_pad w (m div 10) < dec_pad w (n div 10)"
      using Suc.prems by (intro Suc.IH) auto
    then show ?thesis by (simp add: append_less_iff)
  next
    case 2
    then have "m mod 10 < n mod 10" using Suc.prems by (metis div_mult_mod_eq add_less_cancel_left)
    then show ?thesis using 2 by (simp add: append_less_iff digit_char_less)
  qed
qed

lemma dec_pad_less_iff:
  assumes "0 \<le> m" "m < 10 ^ w" "0 \<le> n" "n < 10 ^ w"
  shows "dec_pad w m < dec_pad w n \<longleftrightarrow> m < n"
  using dec_pad_less [of m n w] dec_pad_less [of n m w] assms
  by (metis less_asym less_irrefl linorder_neqE_linordered_idom)

lemma dec_pad_eq_iff:
  assumes "0 \<le> m" "m < 10 ^ w" "0 \<le> n" "n < 10 ^ w"
  shows "dec_pad w m = dec_pad w n \<longleftrightarrow> m = n"
  using dec_pad_less [of m n w] dec_pad_less [of n m w] assms
  by (metis less_irrefl linorder_neqE_linordered_idom)

text \<open>The value of a digit string, most significant digit first.\<close>

definition dec_val :: "string \<Rightarrow> int" where
  "dec_val s = foldl (\<lambda>acc c. 10 * acc + digit_val c) 0 s"

lemma dec_val_snoc: "dec_val (s @ [c]) = 10 * dec_val s + digit_val c"
  by (simp add: dec_val_def)

lemma dec_val_dec_pad: "0 \<le> n \<Longrightarrow> n < 10 ^ w \<Longrightarrow> dec_val (dec_pad w n) = n"
proof (induction w arbitrary: n)
  case 0
  then show ?case by (simp add: dec_val_def)
next
  case (Suc w)
  then have "n div 10 < 10 ^ w" by (simp add: div_less_iff_less_mult)
  with Suc have "dec_val (dec_pad w (n div 10)) = n div 10" by simp
  then show ?case by (simp add: dec_val_snoc)
qed

lemma digits_dec_pad: "0 \<le> n \<Longrightarrow> list_all is_digit (dec_pad w n)"
  by (induction w arbitrary: n) auto

text \<open>An integer in a template literal.  (From \<open>10 ^ 21\<close> on JavaScript switches to exponents.)\<close>

fun nat_string :: "nat \<Rightarrow> string" where
  "nat_string n = (if n < 10 then [digit_char (int n)] else nat_string (n div 10) @ [digit_char (int (n mod 10))])"

declare nat_string.simps [simp del]

definition int_string :: "int \<Rightarrow> string" where
  "int_string i = (if i < 0 then CHR ''-'' # nat_string (nat (- i)) else nat_string (nat i))"

lemma nat_string_digits: "list_all is_digit (nat_string n)"
proof (induction n rule: nat_string.induct)
  case (1 n)
  then show ?case by (subst nat_string.simps) simp
qed

lemma nat_string_not_Nil [simp]: "nat_string n \<noteq> []"
  by (subst nat_string.simps) simp

lemma dec_val_nat_string: "dec_val (nat_string n) = int n"
proof (induction n rule: nat_string.induct)
  case (1 n)
  show ?case
  proof (cases "n < 10")
    case True
    then show ?thesis by (subst nat_string.simps) (simp add: dec_val_def)
  next
    case False
    have e: "10 * int (n div 10) + int (n mod 10) = int n" by presburger
    then show ?thesis using 1 False by (subst nat_string.simps) (simp add: dec_val_snoc e)
  qed
qed

lemma nat_string_inject: "nat_string m = nat_string n \<longleftrightarrow> m = n"
  by (metis dec_val_nat_string of_nat_eq_iff)

section \<open>JavaScript Maps\<close>

type_synonym ('k, 'v) jsmap = "('k \<times> 'v) list"

definition map_get :: "('k, 'v) jsmap \<Rightarrow> 'k \<Rightarrow> 'v option" where
  "map_get m k = map_of m k"

definition map_set :: "'k \<Rightarrow> 'v \<Rightarrow> ('k, 'v) jsmap \<Rightarrow> ('k, 'v) jsmap" where
  "map_set k v m = AList.update k v m"

definition map_remove :: "'k \<Rightarrow> ('k, 'v) jsmap \<Rightarrow> ('k, 'v) jsmap" where
  "map_remove k m = AList.delete k m"

definition map_keys :: "('k, 'v) jsmap \<Rightarrow> 'k list" where
  "map_keys m = map fst m"

definition map_values :: "('k, 'v) jsmap \<Rightarrow> 'v list" where
  "map_values m = map snd m"

text \<open>A Map holds every key once.\<close>

definition map_ok :: "('k, 'v) jsmap \<Rightarrow> bool" where
  "map_ok m = distinct (map_keys m)"

lemma map_get_empty [simp, js_simps]: "map_get [] k = None"
  by (simp add: map_get_def)

lemma map_get_set [simp, js_simps]:
  "map_get (map_set k v m) j = (if j = k then Some v else map_get m j)"
  by (simp add: map_get_def map_set_def update_conv')

lemma map_get_remove [simp, js_simps]:
  "map_get (map_remove k m) j = (if j = k then None else map_get m j)"
  by (simp add: map_get_def map_remove_def delete_conv')

lemma map_ok_empty [simp, intro]: "map_ok []"
  by (simp add: map_ok_def map_keys_def)

lemma map_ok_set [simp, intro]: "map_ok m \<Longrightarrow> map_ok (map_set k v m)"
  by (simp add: map_ok_def map_keys_def map_set_def distinct_update)

lemma map_ok_remove [simp, intro]: "map_ok m \<Longrightarrow> map_ok (map_remove k m)"
  by (simp add: map_ok_def map_keys_def map_remove_def distinct_delete)

lemma set_map_keys_set [simp]: "set (map_keys (map_set k v m)) = insert k (set (map_keys m))"
  using dom_update [of k v m] by (simp add: map_keys_def map_set_def dom_map_of_conv_image_fst)

lemma map_keys_get: "k \<in> set (map_keys m) \<longleftrightarrow> map_get m k \<noteq> None"
  by (metis map_get_def map_keys_def dom_map_of_conv_image_fst domIff list.set_map)

lemma map_values_get:
  "map_ok m \<Longrightarrow> v \<in> set (map_values m) \<longleftrightarrow> (\<exists>k. map_get m k = Some v)"
  unfolding map_values_def map_get_def map_ok_def map_keys_def
  by (auto simp: image_iff intro!: bexI dest: map_of_SomeD)

lemma fold_map_set_map:
  "map_ok (acc @ m) \<Longrightarrow> fold (\<lambda>(e, v) f. map_set e (h v) f) m (map (\<lambda>(e, v). (e, h v)) acc)
    = map (\<lambda>(e, v). (e, h v)) (acc @ m)"
proof (induction m arbitrary: acc)
  case (Cons a m)
  obtain e v where a: "a = (e, v)" by force
  have "map_set e (h v) (map (\<lambda>(e, v). (e, h v)) acc) = map (\<lambda>(e, v). (e, h v)) (acc @ [a])"
    using Cons.prems by (induction acc) (auto simp: a map_set_def map_ok_def map_keys_def)
  with Cons.IH [of "acc @ [a]"] Cons.prems show ?case by (simp add: a)
qed simp

lemma map_get_map: "map_get (map (\<lambda>(e, v). (e, h v)) m) k = map_option h (map_get m k)"
  by (simp add: map_get_def map_of_map)

lemma map_get_fold_remove: "map_get (fold map_remove ks m) k = (if k \<in> set ks then None else map_get m k)"
  by (induction ks arbitrary: m) auto

lemma map_ok_fold_remove: "map_ok m \<Longrightarrow> map_ok (fold map_remove ks m)"
  by (induction ks arbitrary: m) auto

end
