(* ===== verification/Errors.thy ===== *)
theory Errors
  imports Prelude
begin

text \<open>
  What the services throw (\<^verbatim>\<open>src/lib/errors\<close>,
  \<^verbatim>\<open>src/lib/failure.ts\<close>) and the handlers that classify it
  (\<^verbatim>\<open>src/lib/handlers/errors.ts\<close>).  A fallible operation returns
  \<open>thrown + 'a\<close>, with \<open>Inl\<close> for the exception or the rejected promise.
  \<^verbatim>\<open>instanceof\<close> between error classes, most of which belong to moleculer and
  typeorm, is the parameter of the handlers; the locale \<open>error_classes\<close> holds the
  documented class tree.
\<close>

section \<open>Failures\<close>

datatype vg_error =
    FleekUploadFailure | InstrumentInfoFailure | CreateStreamFailure | ConfigurationFailure
  | FetchInstrumentsFailure | InsufficientDataFailure | RateServiceFailure

datatype err_class =
    ErrorClass | TypeErrorClass | RangeErrorClass
  | MoleculerErrorClass | MoleculerRetryableErrorClass | MoleculerServerErrorClass
  | MoleculerClientErrorClass | RequestTimeoutErrorClass | UnAuthorizedErrorClass
  | TypeORMErrorClass | QueryFailedErrorClass
  | VGServerErrorClass | VGIgnorableErrorClass | FatalDataSourceErrorClass
  | ParseErrorClass | RisklessRateTimeoutErrorClass | SecretClientErrorClass

text \<open>
  A thrown value: an error object (class, message, code and type tag), a failure record, a
  class itself, the number \<^verbatim>\<open>NaN\<close>, or any other value.
\<close>

datatype thrown =
    ErrObj (err_class: err_class) (err_message: string) (err_code: "int option")
      (err_type: "string option")
  | FailObj failure
  | ClassVal err_class
  | NaNVal
  | OtherVal string
and failure =
    Failure (failure_type: vg_error) (failure_reason: string)
      (failure_details: "string list option") (failure_wrapped: "thrown option")
      (failure_envVars: "string list option") (failure_configVars: "string list option")
      (failure_issues: "string list option") (failure_urls: "string list option")
      (failure_retryable: "bool option")

type_synonym 'a result = "thrown + 'a"

definition type_error :: thrown where
  "type_error = ErrObj TypeErrorClass [] None None"

definition range_error :: thrown where
  "range_error = ErrObj RangeErrorClass [] None None"

definition js_error :: "string \<Rightarrow> thrown" where
  "js_error msg = ErrObj ErrorClass msg None None"

text \<open>The argument is what the code passes to the constructor of the library's class.\<close>

definition unauthorized_error :: "string \<Rightarrow> thrown" where
  "unauthorized_error msg = ErrObj UnAuthorizedErrorClass msg None None"

text \<open>\<^verbatim>\<open>err.message\<close>: undefined on a value that is not an error
  object.\<close>

definition message_of :: "thrown \<Rightarrow> string option" where
  "message_of err = (case err of ErrObj _ m _ _ \<Rightarrow> Some m | _ \<Rightarrow> None)"

definition text_of :: "string option \<Rightarrow> string" where
  "text_of m = (case m of None \<Rightarrow> ''undefined'' | Some s \<Rightarrow> s)"

text \<open>\<^verbatim>\<open>super(msg, ...)\<close>: an undefined message becomes the empty one.\<close>

definition super_message :: "string option \<Rightarrow> string" where
  "super_message m = (case m of None \<Rightarrow> [] | Some s \<Rightarrow> s)"

definition res_bind :: "'a result \<Rightarrow> ('a \<Rightarrow> 'b result) \<Rightarrow> 'b result" where
  "res_bind r f = (case r of Inl e \<Rightarrow> Inl e | Inr x \<Rightarrow> f x)"

lemma res_bind_simps [simp, js_simps]:
  "res_bind (Inl e) f = Inl e" "res_bind (Inr x) f = f x"
  by (simp_all add: res_bind_def)

lemma res_bind_Inr_iff: "res_bind r f = Inr y \<longleftrightarrow> (\<exists>x. r = Inr x \<and> f x = Inr y)"
  by (cases r) auto

subsection \<open>Failure constructors\<close>

fun vg_error_tag :: "vg_error \<Rightarrow> string" where
  "vg_error_tag FleekUploadFailure = ''FleekUploadFailure''"
| "vg_error_tag InstrumentInfoFailure = ''InstrumentInfoFailure''"
| "vg_error_tag CreateStreamFailure = ''CreateStreamFailure''"
| "vg_error_tag ConfigurationFailure = ''ConfigurationFailure''"
| "vg_error_tag FetchInstrumentsFailure = ''FetchInstrumentsFailure''"
| "vg_error_tag InsufficientDataFailure = ''InsufficientDataFailure''"
| "vg_error_tag RateServiceFailure = ''RateServiceFailure''"

definition insufficientDataError :: "string \<Rightarrow> string list \<Rightarrow> failure" where
  "insufficientDataError reason details =
     Failure InsufficientDataFailure reason (Some details) None None None None None None"

definition fleekUploadFailure :: "thrown \<Rightarrow> failure" where
  "fleekUploadFailure err =
     Failure FleekUploadFailure ''Error uploading data to fleek''
       (Some [''Recoverable errors are not being handled. Check wrappedError for details''])
       (Some err) None (Some [''FLEEK_ID'', ''FLEEK_SECRET''])
       (Some [''Issue: http://github.com/volatilitygroup/automated-failures/issues#tag?FleekUploadFailure''])
       None None"

definition instrumentInfoFailure :: "thrown \<Rightarrow> failure" where
  "instrumentInfoFailure err =
     Failure InstrumentInfoFailure ''Error getting InstrumentInfo[]''
       (Some [''Check if the error is recoverable'']) (Some err)
       (Some [''TARDIS_API'', ''TARDIS_SECRET'']) None
       (Some [''Issue: '' @ text_of (message_of err)]) None None"

definition fetchInstrumentsError :: "thrown option \<Rightarrow> failure" where
  "fetchInstrumentsError wrapped =
     Failure FetchInstrumentsFailure ''Unhandled fetchInstruments Error'' None wrapped
       (Some [''TARDIS_API_KEY'']) (Some [''tardis.exchange'', ''mfiv.asset'']) None None None"

text \<open>An absent error (\<open>None\<close>) is \<^verbatim>\<open>undefined\<close>; the second argument is
  the environment's \<^verbatim>\<open>TARDIS_KEY\<close>, an empty one being falsy.\<close>

definition createStreamFailure :: "thrown option \<Rightarrow> string option \<Rightarrow> failure" where
  "createStreamFailure err tardisKey =
     Failure CreateStreamFailure ''Error creating tardis option stream''
       (Some [case err of
          Some e \<Rightarrow> ''Issue: '' @ text_of (message_of e)
        | None \<Rightarrow> ''Issue: process.env.TARDIS_KEY '' @
            (if tardisKey = None \<or> tardisKey = Some [] then ''not set'' else ''set'')])
       err None None None None None"

text \<open>In the template the empty name selects \<^verbatim>\<open>+""\<close>, the number 0.\<close>

definition configurationError :: "string \<Rightarrow> thrown option \<Rightarrow> failure" where
  "configurationError varName wrapped =
     Failure ConfigurationFailure
       (''Configuration error encountered '' @
          (if varName \<noteq> [] then ''(env:'' @ varName @ '')'' else ''0''))
       None wrapped (Some [varName]) None None None None"

text \<open>\<^verbatim>\<open>error.retryable\<close> is set by the library's class and is an argument.\<close>

definition risklessRateError :: "thrown \<Rightarrow> bool \<Rightarrow> failure" where
  "risklessRateError err retryable =
     Failure RateServiceFailure
       (case message_of err of Some m \<Rightarrow> m | None \<Rightarrow> ''Rate Service Error'')
       None (Some err) None None None None (Some retryable)"

text \<open>\<^verbatim>\<open>options?.type ?? "ERROR_ISE"\<close>, and the default message.\<close>

definition vg_server_error :: "string \<Rightarrow> failure option \<Rightarrow> thrown" where
  "vg_server_error msg options =
     ErrObj VGServerErrorClass (if msg = [] then ''Unhandled server error'' else msg) (Some 500)
       (Some (case options of None \<Rightarrow> ''ERROR_ISE'' | Some f \<Rightarrow> vg_error_tag (failure_type f)))"

definition vg_ignorable_error :: "thrown \<Rightarrow> thrown" where
  "vg_ignorable_error err =
     ErrObj VGIgnorableErrorClass (super_message (message_of err)) (Some 200) (Some ''ERROR_IGNORED'')"

definition fatal_data_source_error :: "thrown \<Rightarrow> thrown" where
  "fatal_data_source_error err =
     ErrObj FatalDataSourceErrorClass (super_message (message_of err)) (Some 500) (Some ''ERROR_TYPEORM'')"

definition parse_error :: "thrown \<Rightarrow> thrown" where
  "parse_error err =
     ErrObj ParseErrorClass ''Parse error'' (Some 500) (Some ''VG_SERIALIZATION_ERROR'')"

definition secret_client_error :: "string \<Rightarrow> thrown \<Rightarrow> string list \<Rightarrow> thrown" where
  "secret_client_error secretName err args =
     ErrObj SecretClientErrorClass ''AWS Secret Manager Error'' (Some 500)
       (Some ''VG_ENVIRONMENT_CONFIG_ERROR'')"

section \<open>Handlers\<close>

text \<open>Strict equality of a thrown value with itself and with a class.\<close>

definition same_value :: "thrown \<Rightarrow> bool" where
  "same_value err = (err \<noteq> NaNVal)"

text \<open>
  The \<^verbatim>\<open>switch (err)\<close> of both handlers compares by strict equality: a
  \<^verbatim>\<open>case SomeClass:\<close> is taken only when the thrown value is the class itself,
  and \<^verbatim>\<open>case err as T:\<close> compares the value with itself.
\<close>

definition handleTypeOrmError :: "thrown \<Rightarrow> thrown result" where
  "handleTypeOrmError err =
     (if err = ClassVal QueryFailedErrorClass then
        (if message_of err = Some ''duplicate key value violates unique constraint''
         then Inr (vg_ignorable_error err) else Inr (fatal_data_source_error err))
      else if err = ClassVal TypeORMErrorClass then Inr (fatal_data_source_error err)
      else Inl err)"

definition handleError :: "thrown \<Rightarrow> thrown result" where
  "handleError err =
     (if err = ClassVal MoleculerClientErrorClass then Inr err
      else if err = ClassVal MoleculerErrorClass then Inr err
      else if same_value err then Inr err
      else if same_value err then Inr err
      else Inl err)"

definition errorFromFailure :: "failure \<Rightarrow> thrown" where
  "errorFromFailure f =
     ErrObj (if failure_retryable f = Some True then MoleculerRetryableErrorClass
             else MoleculerErrorClass)
       (failure_reason f) (Some 500) (Some (vg_error_tag (failure_type f)))"

definition instance_of :: "(err_class \<Rightarrow> err_class \<Rightarrow> bool) \<Rightarrow> thrown \<Rightarrow> err_class \<Rightarrow> bool" where
  "instance_of isa err c = (case err of ErrObj d _ _ _ \<Rightarrow> isa d c | _ \<Rightarrow> False)"

definition handleAsMoleculerError ::
  "(err_class \<Rightarrow> err_class \<Rightarrow> bool) \<Rightarrow> thrown \<Rightarrow> thrown result" where
  "handleAsMoleculerError isa err =
     (if instance_of isa err MoleculerServerErrorClass then Inr err
      else if instance_of isa err MoleculerRetryableErrorClass then Inr err
      else if instance_of isa err MoleculerClientErrorClass then Inr err
      else if instance_of isa err MoleculerErrorClass then Inr err
      else if instance_of isa err ErrorClass then
        Inr (ErrObj MoleculerErrorClass (super_message (message_of err)) (Some 500)
          (Some ''UNCATEGORIZED_ERROR''))
      else Inl err)"

section \<open>What the handlers do\<close>

lemma handleError_returns: "err \<noteq> NaNVal \<Longrightarrow> handleError err = Inr err"
  by (simp add: handleError_def same_value_def)

lemma handleTypeOrmError_rethrows:
  "err \<noteq> ClassVal QueryFailedErrorClass \<Longrightarrow> err \<noteq> ClassVal TypeORMErrorClass
    \<Longrightarrow> handleTypeOrmError err = Inl err"
  by (simp add: handleTypeOrmError_def)

subsection \<open>The class tree\<close>

text \<open>The documented superclass edges that \<open>handleAsMoleculerError\<close> relies on.\<close>

locale error_classes =
  fixes isa :: "err_class \<Rightarrow> err_class \<Rightarrow> bool"
  assumes isa_refl: "isa c c"
    and server_retryable: "isa c MoleculerServerErrorClass \<Longrightarrow> isa c MoleculerRetryableErrorClass"
    and retryable_moleculer: "isa c MoleculerRetryableErrorClass \<Longrightarrow> isa c MoleculerErrorClass"
    and client_moleculer: "isa c MoleculerClientErrorClass \<Longrightarrow> isa c MoleculerErrorClass"
    and moleculer_error: "isa c MoleculerErrorClass \<Longrightarrow> isa c ErrorClass"
begin

lemma moleculer_unchanged:
  "instance_of isa err MoleculerErrorClass \<Longrightarrow> handleAsMoleculerError isa err = Inr err"
  by (simp add: handleAsMoleculerError_def)

lemma result_is_moleculer:
  "handleAsMoleculerError isa err = Inr e \<Longrightarrow> instance_of isa e MoleculerErrorClass"
  using isa_refl server_retryable retryable_moleculer client_moleculer
  by (auto simp: handleAsMoleculerError_def instance_of_def split: if_splits thrown.splits)

lemma fails_iff: "handleAsMoleculerError isa err = Inl e \<longleftrightarrow>
    e = err \<and> \<not> instance_of isa err ErrorClass"
  using server_retryable retryable_moleculer client_moleculer moleculer_error
  by (auto simp: handleAsMoleculerError_def instance_of_def split: if_splits thrown.splits)

lemma idempotent:
  "handleAsMoleculerError isa err = Inr e \<Longrightarrow> handleAsMoleculerError isa e = Inr e"
  by (blast intro: moleculer_unchanged result_is_moleculer)

end

text \<open>The tree itself: the classes the repository declares by their \<^verbatim>\<open>extends\<close>
  clauses, the library's by their documentation.\<close>

fun super_class :: "err_class \<Rightarrow> err_class option" where
  "super_class ErrorClass = None"
| "super_class MoleculerRetryableErrorClass = Some MoleculerErrorClass"
| "super_class MoleculerServerErrorClass = Some MoleculerRetryableErrorClass"
| "super_class MoleculerClientErrorClass = Some MoleculerErrorClass"
| "super_class RequestTimeoutErrorClass = Some MoleculerRetryableErrorClass"
| "super_class UnAuthorizedErrorClass = Some MoleculerErrorClass"
| "super_class QueryFailedErrorClass = Some TypeORMErrorClass"
| "super_class VGServerErrorClass = Some MoleculerErrorClass"
| "super_class VGIgnorableErrorClass = Some MoleculerErrorClass"
| "super_class FatalDataSourceErrorClass = Some MoleculerErrorClass"
| "super_class ParseErrorClass = Some MoleculerClientErrorClass"
| "super_class RisklessRateTimeoutErrorClass = Some RequestTimeoutErrorClass"
| "super_class SecretClientErrorClass = Some MoleculerClientErrorClass"
| "super_class _ = Some ErrorClass"

definition class_isa :: "err_class \<Rightarrow> err_class \<Rightarrow> bool" where
  "class_isa c d =
     (let up = (\<lambda>c. Option.bind c super_class); c1 = up (Some c); c2 = up c1; c3 = up c2; c4 = up c3
      in Some d \<in> {Some c, c1, c2, c3, c4})"

interpretation vg: error_classes class_isa
proof unfold_locales
  fix c
  show "class_isa c c" by (simp add: class_isa_def)
  show "class_isa c MoleculerServerErrorClass \<Longrightarrow> class_isa c MoleculerRetryableErrorClass"
    "class_isa c MoleculerRetryableErrorClass \<Longrightarrow> class_isa c MoleculerErrorClass"
    "class_isa c MoleculerClientErrorClass \<Longrightarrow> class_isa c MoleculerErrorClass"
    "class_isa c MoleculerErrorClass \<Longrightarrow> class_isa c ErrorClass"
    by (cases c; simp add: class_isa_def)+
qed

section \<open>Properties\<close>

text \<open>HandleTypeOrmError never classifies an error object.  Its cases compare the thrown
  value with the error classes, so a query error, the duplicate-key one included, is rethrown
  as it is.\<close>

theorem handleTypeOrmError_rethrows_objects:
  "handleTypeOrmError (ErrObj c msg code type) = Inl (ErrObj c msg code type)
    \<and> handleTypeOrmError (FailObj f) = Inl (FailObj f)"
  by (simp add: handleTypeOrmError_rethrows)

text \<open>HandleAsMoleculerError, for any class tree with the documented edges: a moleculer
  error is returned unchanged, every other Error becomes an uncategorised moleculer error with
  its message and code 500, and what is not an Error is rethrown.\<close>

theorem handleAsMoleculerError_cases:
  assumes "error_classes isa"
  shows "handleAsMoleculerError isa err =
    (if instance_of isa err MoleculerErrorClass then Inr err
     else if instance_of isa err ErrorClass
     then Inr (ErrObj MoleculerErrorClass (super_message (message_of err)) (Some 500)
       (Some ''UNCATEGORIZED_ERROR''))
     else Inl err)"
  using error_classes.server_retryable [OF assms] error_classes.retryable_moleculer [OF assms]
    error_classes.client_moleculer [OF assms]
  by (auto simp: handleAsMoleculerError_def instance_of_def split: thrown.splits)

lemma handleAsMoleculerError_cases_witness:
  "handleAsMoleculerError class_isa (js_error ''x'') =
    Inr (ErrObj MoleculerErrorClass ''x'' (Some 500) (Some ''UNCATEGORIZED_ERROR''))"
  using handleAsMoleculerError_cases [OF vg.error_classes_axioms, of "js_error ''x''"]
  by (simp add: instance_of_def js_error_def class_isa_def super_message_def message_of_def)

end
