(* ===== verification/JsDate.thy ===== *)
theory JsDate
  imports Errors
begin

text \<open>
  The ECMAScript \<^verbatim>\<open>Date\<close> the services compute with.  A Date is its time
  value: \<open>Some t\<close> with \<open>t\<close> integral milliseconds since the epoch and
  \<open>\<bar>t\<bar> \<le> 8.64e15\<close>, or \<open>None\<close> for an Invalid Date
  (time value \<^verbatim>\<open>NaN\<close>).  The UTC fields, \<^verbatim>\<open>setUTCHours\<close>,
  \<^verbatim>\<open>toISOString\<close> and the parser of the ISO format follow the language
  standard.  The main facts: the parser inverts \<^verbatim>\<open>toISOString\<close>
  (\<open>parse_iso_string\<close>), and for years 0 to 9999 the string order of two timestamps is
  their time order (\<open>iso_string_less_iff\<close>), on which the string comparisons of the
  instrument filters rest.
\<close>

section \<open>Time values\<close>

type_synonym jsdate = "int option"

abbreviation msPerDay :: int where "msPerDay \<equiv> 86400000"
abbreviation msPerHour :: int where "msPerHour \<equiv> 3600000"
abbreviation msPerMinute :: int where "msPerMinute \<equiv> 60000"
abbreviation msPerSecond :: int where "msPerSecond \<equiv> 1000"

definition max_time :: int where
  "max_time = 8640000000000000"

definition time_clip :: "int \<Rightarrow> jsdate" where
  "time_clip t = (if \<bar>t\<bar> \<le> max_time then Some t else None)"

text \<open>\<^verbatim>\<open>new Date(v)\<close> for a number \<open>v\<close>: truncated, then clipped.\<close>

definition trunc_real :: "real \<Rightarrow> int" where
  "trunc_real x = (if x < 0 then - \<lfloor>- x\<rfloor> else \<lfloor>x\<rfloor>)"

fun new_date :: "jsnum \<Rightarrow> jsdate" where
  "new_date (Num x) = time_clip (trunc_real x)"
| "new_date _ = None"

definition num_of_date :: "jsdate \<Rightarrow> jsnum" where
  "num_of_date d = (case d of None \<Rightarrow> NaN | Some t \<Rightarrow> Num (of_int t))"

lemma trunc_real_of_int [simp]: "trunc_real (of_int i) = i"
  by (simp add: trunc_real_def)

lemma new_date_of_int [simp]: "new_date (Num (of_int i)) = time_clip i"
  by simp

text \<open>Comparisons of Dates and of differences of Dates go through their numbers; every
  comparison with \<^verbatim>\<open>NaN\<close> is false.\<close>

fun date_lt :: "int option \<Rightarrow> int option \<Rightarrow> bool" where
  "date_lt (Some a) (Some b) = (a < b)"
| "date_lt _ _ = False"

fun date_le :: "int option \<Rightarrow> int option \<Rightarrow> bool" where
  "date_le (Some a) (Some b) = (a \<le> b)"
| "date_le _ _ = False"

fun date_same :: "int option \<Rightarrow> int option \<Rightarrow> bool" where
  "date_same (Some a) (Some b) = (a = b)"
| "date_same _ _ = False"

definition date_diff :: "int option \<Rightarrow> int option \<Rightarrow> int option" where
  "date_diff x y = (case (x, y) of (Some a, Some b) \<Rightarrow> Some (a - b) | _ \<Rightarrow> None)"

lemma date_diff_Some [simp]: "date_diff (Some a) (Some b) = Some (a - b)"
  by (simp add: date_diff_def)

section \<open>UTC time of day and day of week\<close>

definition day_of :: "int \<Rightarrow> int" where
  "day_of t = t div msPerDay"

definition utc_day :: "int \<Rightarrow> int" where
  "utc_day t = (day_of t + 4) mod 7"

definition utc_hours :: "int \<Rightarrow> int" where
  "utc_hours t = (t div msPerHour) mod 24"

definition utc_minutes :: "int \<Rightarrow> int" where
  "utc_minutes t = (t div msPerMinute) mod 60"

definition utc_seconds :: "int \<Rightarrow> int" where
  "utc_seconds t = (t div msPerSecond) mod 60"

definition utc_ms :: "int \<Rightarrow> int" where
  "utc_ms t = t mod 1000"

lemmas time_fields = utc_hours_def utc_minutes_def utc_seconds_def utc_ms_def

lemma utc_day_range: "0 \<le> utc_day t" "utc_day t \<le> 6"
proof -
  have "(day_of t + 4) mod 7 < 7" by (rule pos_mod_bound) simp
  then show "0 \<le> utc_day t" "utc_day t \<le> 6" by (simp_all add: utc_day_def)
qed

text \<open>The fields as nested quotients by 1000, 60, 60 and 24.\<close>

lemma nested_quotients:
  "t div msPerMinute = t div 1000 div 60"
  "t div msPerHour = t div 1000 div 60 div 60"
  "t div msPerDay = t div 1000 div 60 div 60 div 24" for t :: int
  using zdiv_zmult2_eq [of 60 t 1000] zdiv_zmult2_eq [of 60 t 60000]
    zdiv_zmult2_eq [of 24 t 3600000]
  by simp_all

lemma time_split:
  "t = day_of t * msPerDay + utc_hours t * msPerHour + utc_minutes t * msPerMinute
     + utc_seconds t * msPerSecond + utc_ms t"
proof -
  define a where "a = t div 1000"
  define b where "b = a div 60"
  define c where "c = b div 60"
  have "t = 1000 * a + t mod 1000" unfolding a_def by simp
  moreover have "a = 60 * b + a mod 60" unfolding b_def by simp
  moreover have "b = 60 * c + b mod 60" unfolding c_def by simp
  moreover have "c = 24 * (c div 24) + c mod 24" by simp
  ultimately show ?thesis
    unfolding time_fields day_of_def nested_quotients a_def [symmetric] b_def [symmetric]
      c_def [symmetric] by linarith
qed

lemma mod_le: "x mod numeral n \<le> (numeral n - 1 :: int)" for x :: int
  using pos_mod_bound [of "numeral n" x] by (metis zle_diff1_eq zero_less_numeral)

lemma time_field_ranges:
  "0 \<le> utc_hours t" "utc_hours t \<le> 23" "0 \<le> utc_minutes t" "utc_minutes t \<le> 59"
  "0 \<le> utc_seconds t" "utc_seconds t \<le> 59" "0 \<le> utc_ms t" "utc_ms t \<le> 999"
  unfolding time_fields
  using mod_le [of "t div msPerHour" "num.Bit0 (num.Bit0 (num.Bit0 (num.Bit1 num.One)))"]
    mod_le [of "t div msPerMinute" "num.Bit0 (num.Bit0 (num.Bit1 (num.Bit1 (num.Bit1 num.One))))"]
  by simp_all

text \<open>\<^verbatim>\<open>d.setUTCHours(h, m, s, ms)\<close>: the day stays, the time of day is
  replaced; an argument that is \<^verbatim>\<open>NaN\<close> invalidates the Date.\<close>

definition int_of_num :: "jsnum \<Rightarrow> int option" where
  "int_of_num x = (case x of Num r \<Rightarrow> Some (trunc_real r) | _ \<Rightarrow> None)"

definition set_utc_hours :: "jsdate \<Rightarrow> jsnum \<Rightarrow> jsnum \<Rightarrow> jsnum \<Rightarrow> jsnum \<Rightarrow> jsdate" where
  "set_utc_hours d h m s ms =
     (case (d, int_of_num h, int_of_num m, int_of_num s, int_of_num ms) of
        (Some t, Some h', Some m', Some s', Some ms') \<Rightarrow>
          time_clip (day_of t * msPerDay
            + (h' * msPerHour + m' * msPerMinute + s' * msPerSecond + ms'))
      | _ \<Rightarrow> None)"

section \<open>The calendar\<close>

definition day_from_year :: "int \<Rightarrow> int" where
  "day_from_year y =
     365 * (y - 1970) + (y - 1969) div 4 - (y - 1901) div 100 + (y - 1601) div 400"

definition year_from_day :: "int \<Rightarrow> int" where
  "year_from_day d =
     (let y = 1970 + (400 * d) div 146097
      in if d < day_from_year y then y - 1
         else if day_from_year (y + 1) \<le> d then y + 1 else y)"

definition is_leap :: "int \<Rightarrow> bool" where
  "is_leap y = (y mod 4 = 0 \<and> (y mod 100 \<noteq> 0 \<or> y mod 400 = 0))"

text \<open>Day within the year on which a month (0 to 11) starts; 12 is the year's length.\<close>

definition month_start :: "bool \<Rightarrow> int \<Rightarrow> int" where
  "month_start leap m =
     (let k = (if leap then 1 else 0)
      in if m \<le> 0 then 0 else if m = 1 then 31 else if m = 2 then 59 + k
         else if m = 3 then 90 + k else if m = 4 then 120 + k else if m = 5 then 151 + k
         else if m = 6 then 181 + k else if m = 7 then 212 + k else if m = 8 then 243 + k
         else if m = 9 then 273 + k else if m = 10 then 304 + k else if m = 11 then 334 + k
         else 365 + k)"

definition month_of_yday :: "bool \<Rightarrow> int \<Rightarrow> int" where
  "month_of_yday leap n =
     (if n < month_start leap 1 then 0 else if n < month_start leap 2 then 1
      else if n < month_start leap 3 then 2 else if n < month_start leap 4 then 3
      else if n < month_start leap 5 then 4 else if n < month_start leap 6 then 5
      else if n < month_start leap 7 then 6 else if n < month_start leap 8 then 7
      else if n < month_start leap 9 then 8 else if n < month_start leap 10 then 9
      else if n < month_start leap 11 then 10 else 11)"

definition civil_of_day :: "int \<Rightarrow> int \<times> int \<times> int" where
  "civil_of_day d =
     (let y = year_from_day d; n = d - day_from_year y; m = month_of_yday (is_leap y) n
      in (y, m + 1, n - month_start (is_leap y) m + 1))"

definition day_of_civil :: "int \<Rightarrow> int \<Rightarrow> int \<Rightarrow> int" where
  "day_of_civil y m dd = day_from_year y + month_start (is_leap y) (m - 1) + dd - 1"

definition valid_civil :: "int \<Rightarrow> int \<Rightarrow> int \<Rightarrow> bool" where
  "valid_civil y m dd =
     (1 \<le> m \<and> m \<le> 12 \<and> 1 \<le> dd
      \<and> dd \<le> month_start (is_leap y) m - month_start (is_leap y) (m - 1))"

lemma div_bounds: "0 < n \<Longrightarrow> n * (x div n) \<le> x \<and> x < n * (x div n) + n" for x n :: int
  using pos_mod_bound [of n x] pos_mod_sign [of n x] mult_div_mod_eq [of n x] by linarith

lemma day_from_year_1970:
  "day_from_year (1970 + k) = 365 * k + (k + 1) div 4 - (k + 69) div 100 + (k + 369) div 400"
proof -
  have "1970 + k - 1969 = k + 1" "1970 + k - 1901 = k + 69" "1970 + k - 1601 = k + 369" by auto
  then show ?thesis unfolding day_from_year_def by (simp only:) simp
qed

lemma year_estimate_lo:
  fixes q r s k d :: int
  shows "4 * q \<le> k - 1 + 1 \<Longrightarrow> k - 1 + 69 < 100 * r + 100 \<Longrightarrow> 400 * s \<le> k - 1 + 369
    \<Longrightarrow> 146097 * k \<le> 400 * d \<Longrightarrow> 365 * (k - 1) + q - r + s \<le> d"
  by (simp add: algebra_simps)

lemma year_estimate_hi:
  fixes q r s k d :: int
  shows "k + 2 + 1 < 4 * q + 4 \<Longrightarrow> 100 * r \<le> k + 2 + 69 \<Longrightarrow> k + 2 + 369 < 400 * s + 400
    \<Longrightarrow> 400 * d < 146097 * k + 146097 \<Longrightarrow> d < 365 * (k + 2) + q - r + s"
  by (simp add: algebra_simps)

lemma year_estimate:
  assumes k: "k = (400 * d) div 146097"
  shows "day_from_year (1970 + (k - 1)) \<le> d" and "d < day_from_year (1970 + (k + 2))"
proof -
  have b: "146097 * k \<le> 400 * d" "400 * d < 146097 * k + 146097"
    using div_bounds [of 146097 "400 * d"] by (auto simp: k)
  note dv = div_bounds [THEN conjunct1] div_bounds [THEN conjunct2]
  show "day_from_year (1970 + (k - 1)) \<le> d"
    unfolding day_from_year_1970 by (rule year_estimate_lo) (rule dv b | simp)+
  show "d < day_from_year (1970 + (k + 2))"
    unfolding day_from_year_1970 by (rule year_estimate_hi) (rule dv b | simp)+
qed

lemma year_from_day_bounds:
  "day_from_year (year_from_day d) \<le> d" "d < day_from_year (year_from_day d + 1)"
proof -
  define k where "k = (400 * d) div 146097"
  define y where "y = 1970 + k"
  have "day_from_year (y - 1) \<le> d" "d < day_from_year (y + 1 + 1)"
    using year_estimate [OF k_def] by (simp_all add: y_def algebra_simps)
  moreover have "year_from_day d =
    (if d < day_from_year y then y - 1 else if day_from_year (y + 1) \<le> d then y + 1 else y)"
    unfolding year_from_day_def Let_def k_def [symmetric] y_def by (rule refl)
  ultimately show "day_from_year (year_from_day d) \<le> d"
    "d < day_from_year (year_from_day d + 1)"
    by (simp_all del: One_nat_def)
qed

lemma div_step:
  fixes x n :: int
  assumes "0 < n"
  shows "(x + 1) div n = x div n + (if (x + 1) mod n = 0 then 1 else 0)"
proof (cases "(x + 1) mod n = 0")
  case True
  then obtain q where "x + 1 = n * q" by (auto elim: dvdE simp: mod_eq_0_iff_dvd)
  then have "x = n * (q - 1) + (n - 1)" by (simp add: algebra_simps)
  then have "x div n = q - 1" using assms by (simp add: div_pos_pos_trivial)
  with \<open>x + 1 = n * q\<close> True assms show ?thesis by simp
next
  case False
  have "x = n * ((x + 1) div n) + ((x + 1) mod n - 1)"
    using mult_div_mod_eq [of n "x + 1"] by linarith
  moreover have "0 \<le> (x + 1) mod n - 1" "(x + 1) mod n - 1 < n"
    using False assms pos_mod_sign [of n "x + 1"] pos_mod_bound [of n "x + 1"] by linarith+
  ultimately have "x div n = (x + 1) div n"
    by (metis div_pos_pos_trivial div_mult_self4 add.right_neutral assms less_irrefl)
  with False show ?thesis by simp
qed

lemma mod0_shift: "n dvd c \<Longrightarrow> (y + c) mod n = 0 \<longleftrightarrow> y mod n = 0" for y n c :: int
  by (simp add: mod_eq_0_iff_dvd dvd_add_left_iff)

lemma leap_mod:
  "(y - 1969 + 1) mod 4 = 0 \<longleftrightarrow> y mod 4 = 0" "(y - 1901 + 1) mod 100 = 0 \<longleftrightarrow> y mod 100 = 0"
  "(y - 1601 + 1) mod 400 = 0 \<longleftrightarrow> y mod 400 = 0" for y :: int
  using mod0_shift [of 4 "- 1968" y] mod0_shift [of 100 "- 1900" y] mod0_shift [of 400 "- 1600" y]
  by simp_all

lemma mod_400_100_4: "y mod 400 = 0 \<Longrightarrow> y mod 100 = 0" "y mod 100 = 0 \<Longrightarrow> y mod 4 = 0" for y :: int
  unfolding mod_eq_0_iff_dvd by (rule dvd_trans [rotated], assumption, simp)+

lemma day_from_year_Suc:
  "day_from_year (y + 1) = day_from_year y + (if is_leap y then 366 else 365)"
proof -
  have s: "y + 1 - 1969 = y - 1969 + 1" "y + 1 - 1901 = y - 1901 + 1" "y + 1 - 1601 = y - 1601 + 1"
    "y + 1 - 1970 = y - 1970 + 1"
    by auto
  have q: "(y - 1969 + 1) div 4 = (y - 1969) div 4 + (if y mod 4 = 0 then 1 else 0)"
    "(y - 1901 + 1) div 100 = (y - 1901) div 100 + (if y mod 100 = 0 then 1 else 0)"
    "(y - 1601 + 1) div 400 = (y - 1601) div 400 + (if y mod 400 = 0 then 1 else 0)"
    by (simp_all only: div_step zero_less_numeral leap_mod)
  show ?thesis
    unfolding day_from_year_def is_leap_def s q
    using mod_400_100_4 [of y] by (simp only: distrib_left split: if_split) auto
qed

lemma day_from_year_less: "y < z \<Longrightarrow> day_from_year y + 365 \<le> day_from_year z"
proof (induction z rule: int_gr_induct)
  case base
  then show ?case by (simp add: day_from_year_Suc)
next
  case (step i)
  then show ?case using day_from_year_Suc [of i] by (simp split: if_splits)
qed

lemma month_start_step: "month_start leap k \<le> month_start leap (k + 1)"
proof -
  consider "k \<le> 0" | "k = 1" | "k = 2" | "k = 3" | "k = 4" | "k = 5" | "k = 6" | "k = 7"
    | "k = 8" | "k = 9" | "k = 10" | "k = 11" | "k \<ge> 12" by atomize_elim presburger
  then show ?thesis by cases (simp_all add: month_start_def)
qed

lemma month_start_mono: "i \<le> j \<Longrightarrow> month_start leap i \<le> month_start leap j"
proof (induction j rule: int_ge_induct)
  case (step j)
  then show ?case using month_start_step [of leap j] by linarith
qed simp

lemma month_start_ends [simp]:
  "month_start leap 0 = 0" "month_start leap 12 = (if leap then 366 else 365)"
  by (simp_all add: month_start_def)

lemma month_of_yday_cases:
  assumes "0 \<le> n" "n < (if leap then 366 else 365)"
  obtains k where "0 \<le> k" "k \<le> 11" "month_of_yday leap n = k" "month_start leap k \<le> n"
    "n < month_start leap (k + 1)"
proof -
  have "\<exists>k. 0 \<le> k \<and> k \<le> 11 \<and> month_of_yday leap n = k \<and> month_start leap k \<le> n
      \<and> n < month_start leap (k + 1)"
    unfolding month_of_yday_def using assms month_start_ends [of leap]
    by (simp only: split: if_split) auto
  with that show ?thesis by blast
qed

lemma month_of_yday_bounds:
  assumes "0 \<le> n" "n < (if leap then 366 else 365)"
  shows "0 \<le> month_of_yday leap n" "month_of_yday leap n \<le> 11"
    "month_start leap (month_of_yday leap n) \<le> n"
    "n < month_start leap (month_of_yday leap n + 1)"
  using month_of_yday_cases [OF assms] by blast+

lemma yday_range:
  "0 \<le> d - day_from_year (year_from_day d)"
  "d - day_from_year (year_from_day d) < (if is_leap (year_from_day d) then 366 else 365)"
  using year_from_day_bounds [of d] day_from_year_Suc [of "year_from_day d"] by auto

lemma civil_of_day_valid:
  "civil_of_day d = (y, m, dd) \<Longrightarrow> valid_civil y m dd \<and> day_of_civil y m dd = d"
  using month_of_yday_bounds [OF yday_range [of d]]
  by (auto simp: civil_of_day_def valid_civil_def day_of_civil_def Let_def)

lemma day_of_civil_year_bounds:
  assumes "valid_civil y m dd"
  shows "day_from_year y \<le> day_of_civil y m dd" "day_of_civil y m dd < day_from_year (y + 1)"
proof -
  have m: "1 \<le> m" "m \<le> 12" "1 \<le> dd" using assms by (auto simp: valid_civil_def)
  have "0 \<le> month_start (is_leap y) (m - 1)"
    using month_start_mono [of 0 "m - 1" "is_leap y"] m by simp
  moreover have "month_start (is_leap y) m \<le> (if is_leap y then 366 else 365)"
    using month_start_mono [of m 12 "is_leap y"] m by simp
  ultimately show "day_from_year y \<le> day_of_civil y m dd" "day_of_civil y m dd < day_from_year (y + 1)"
    using assms m day_from_year_Suc [of y] by (auto simp: valid_civil_def day_of_civil_def)
qed

text \<open>The civil date is strictly monotone in the lexicographic order of its fields.\<close>

lemma day_of_civil_mono:
  assumes v: "valid_civil y m dd" and v': "valid_civil y' m' dd'"
    and less: "y < y' \<or> (y = y' \<and> (m < m' \<or> (m = m' \<and> dd < dd')))"
  shows "day_of_civil y m dd < day_of_civil y' m' dd'"
proof -
  consider "y < y'" | "y = y'" "m < m'" | "y = y'" "m = m'" "dd < dd'" using less by auto
  then show ?thesis
  proof cases
    case 1
    then have "day_from_year (y + 1) \<le> day_from_year y'"
      using day_from_year_less [of "y + 1" y'] by (cases "y + 1 = y'") auto
    then show ?thesis using day_of_civil_year_bounds [OF v] day_of_civil_year_bounds [OF v'] by linarith
  next
    case 2
    then have "month_start (is_leap y) m \<le> month_start (is_leap y) (m' - 1)"
      by (intro month_start_mono) simp
    then show ?thesis using v v' 2 by (auto simp: valid_civil_def day_of_civil_def)
  next
    case 3
    then show ?thesis by (simp add: day_of_civil_def)
  qed
qed

lemma civil_of_day_inverse:
  assumes "valid_civil y m dd"
  shows "civil_of_day (day_of_civil y m dd) = (y, m, dd)"
proof -
  obtain y' m' dd' where c: "civil_of_day (day_of_civil y m dd) = (y', m', dd')"
    by (cases "civil_of_day (day_of_civil y m dd)")
  then have v': "valid_civil y' m' dd'" and eq: "day_of_civil y' m' dd' = day_of_civil y m dd"
    using civil_of_day_valid by blast+
  have "y' = y \<and> m' = m \<and> dd' = dd"
    using day_of_civil_mono [OF assms v'] day_of_civil_mono [OF v' assms] eq by force
  with c show ?thesis by simp
qed

section \<open>ISO 8601 text\<close>

definition year_string :: "int \<Rightarrow> string" where
  "year_string y =
     (if 0 \<le> y \<and> y \<le> 9999 then dec_pad 4 y
      else (if y < 0 then ''-'' else ''+'') @ dec_pad 6 \<bar>y\<bar>)"

definition iso_string :: "int \<Rightarrow> string" where
  "iso_string t =
     (case civil_of_day (day_of t) of (y, m, dd) \<Rightarrow>
        year_string y @ ''-'' @ dec_pad 2 m @ ''-'' @ dec_pad 2 dd @ ''T''
        @ dec_pad 2 (utc_hours t) @ '':'' @ dec_pad 2 (utc_minutes t) @ '':''
        @ dec_pad 2 (utc_seconds t) @ ''.'' @ dec_pad 3 (utc_ms t) @ ''Z'')"

definition to_iso_string :: "jsdate \<Rightarrow> string result" where
  "to_iso_string d = (case d of None \<Rightarrow> Inl range_error | Some t \<Rightarrow> Inr (iso_string t))"

text \<open>Years 0 to 9999, the range in which the year takes four digits.\<close>

definition four_digit_year :: "int \<Rightarrow> bool" where
  "four_digit_year t = (- 62167219200000 \<le> t \<and> t < 253402300800000)"

text \<open>
  \<^verbatim>\<open>Date.parse\<close> on the standard format
  \<^verbatim>\<open>YYYY-MM-DDTHH:mm:ss.sssZ\<close>, with or without the milliseconds.  The
  standard leaves every other string to the implementation: the argument \<open>other\<close>.
\<close>

definition digits_at :: "nat \<Rightarrow> nat \<Rightarrow> string \<Rightarrow> string" where
  "digits_at i n s = take n (drop i s)"

definition iso_shape :: "string \<Rightarrow> bool" where
  "iso_shape s =
     (list_all is_digit (digits_at 0 4 s) \<and> digits_at 4 1 s = ''-''
      \<and> list_all is_digit (digits_at 5 2 s) \<and> digits_at 7 1 s = ''-''
      \<and> list_all is_digit (digits_at 8 2 s) \<and> digits_at 10 1 s = ''T''
      \<and> list_all is_digit (digits_at 11 2 s) \<and> digits_at 13 1 s = '':''
      \<and> list_all is_digit (digits_at 14 2 s) \<and> digits_at 16 1 s = '':''
      \<and> list_all is_digit (digits_at 17 2 s)
      \<and> (drop 19 s = ''Z''
          \<or> (length s = 24 \<and> digits_at 19 1 s = ''.'' \<and> list_all is_digit (digits_at 20 3 s)
             \<and> drop 23 s = ''Z'')))"

definition parse_iso :: "(string \<Rightarrow> jsdate) \<Rightarrow> string \<Rightarrow> jsdate" where
  "parse_iso other s =
     (let y = dec_val (digits_at 0 4 s); m = dec_val (digits_at 5 2 s);
          dd = dec_val (digits_at 8 2 s); h = dec_val (digits_at 11 2 s);
          mi = dec_val (digits_at 14 2 s); sec = dec_val (digits_at 17 2 s);
          ms = (if length s = 24 then dec_val (digits_at 20 3 s) else 0)
      in if iso_shape s \<and> valid_civil y m dd \<and> h \<le> 23 \<and> mi \<le> 59 \<and> sec \<le> 59
         then time_clip (day_of_civil y m dd * msPerDay + h * msPerHour + mi * msPerMinute
                + sec * msPerSecond + ms)
         else other s)"

subsection \<open>Order and round trip\<close>

lemma dec_pad_append_less:
  assumes "0 \<le> m" "m < 10 ^ w" "0 \<le> n" "n < 10 ^ w"
  shows "dec_pad w m @ x < dec_pad w n @ y \<longleftrightarrow> m < n \<or> (m = n \<and> x < y)"
  using assms by (simp add: append_less_iff dec_pad_less_iff dec_pad_eq_iff)

lemma four_digit_year_civil:
  assumes "four_digit_year t"
  obtains y m dd where "civil_of_day (day_of t) = (y, m, dd)" "valid_civil y m dd"
    "day_of_civil y m dd = day_of t" "0 \<le> y" "y \<le> 9999"
proof -
  obtain y m dd where c: "civil_of_day (day_of t) = (y, m, dd)"
    by (cases "civil_of_day (day_of t)")
  then have v: "valid_civil y m dd" "day_of_civil y m dd = day_of t"
    using civil_of_day_valid by blast+
  have "- 719528 \<le> day_of t" "day_of t < 2932897"
    using assms by (auto simp: four_digit_year_def day_of_def)
  moreover have "day_from_year 0 = - 719528" "day_from_year 10000 = 2932897"
    by (simp_all add: day_from_year_def)
  moreover have "day_from_year y \<le> day_of t" "day_of t < day_from_year (y + 1)"
    using day_of_civil_year_bounds [OF v(1)] v(2) by simp_all
  ultimately have "0 \<le> y" "y \<le> 9999"
    using day_from_year_less [of "y + 1" 0] day_from_year_less [of 10000 y]
    by (cases "y + 1 = 0"; cases "y = 10000"; force)+
  with c v that show thesis by blast
qed

lemma valid_civil_ranges: "valid_civil y m dd \<Longrightarrow> 1 \<le> m \<and> m \<le> 12 \<and> 1 \<le> dd \<and> dd \<le> 31"
proof -
  assume v: "valid_civil y m dd"
  then consider "m = 1" | "m = 2" | "m = 3" | "m = 4" | "m = 5" | "m = 6" | "m = 7" | "m = 8"
    | "m = 9" | "m = 10" | "m = 11" | "m = 12"
    unfolding valid_civil_def by atomize_elim presburger
  then show ?thesis using v
    by cases (auto simp: valid_civil_def month_start_def split: if_splits)
qed

lemma time_of_day_less:
  fixes h h' mi mi' s s' ms ms' :: int
  assumes "h < h' \<or> (h = h' \<and> (mi < mi' \<or> (mi = mi' \<and> (s < s' \<or> (s = s' \<and> ms < ms')))))"
    and "mi \<le> 59" "s \<le> 59" "ms \<le> 999" "0 \<le> mi'" "0 \<le> s'" "0 \<le> ms'"
  shows "h * msPerHour + mi * msPerMinute + s * msPerSecond + ms
    < h' * msPerHour + mi' * msPerMinute + s' * msPerSecond + ms'"
  using assms by auto

lemma civil_time_less:
  assumes c: "valid_civil y m dd" "day_of_civil y m dd = day_of t"
      "valid_civil y' m' dd'" "day_of_civil y' m' dd' = day_of u"
    and less: "y < y' \<or> (y = y' \<and> (m < m' \<or> (m = m' \<and> (dd < dd' \<or> (dd = dd' \<and>
      (utc_hours t < utc_hours u \<or> (utc_hours t = utc_hours u \<and>
      (utc_minutes t < utc_minutes u \<or> (utc_minutes t = utc_minutes u \<and>
      (utc_seconds t < utc_seconds u \<or> (utc_seconds t = utc_seconds u \<and>
       utc_ms t < utc_ms u)))))))))))"
  shows "t < u"
proof (cases "y < y' \<or> (y = y' \<and> (m < m' \<or> (m = m' \<and> dd < dd')))")
  case True
  then have "day_of t < day_of u" using day_of_civil_mono [OF c(1,3)] c(2,4) by simp
  then show ?thesis unfolding day_of_def by (rule contrapos_pp) (simp add: zdiv_mono1 not_less)
next
  case False
  then have "day_of t = day_of u" using less c by auto
  moreover have "utc_hours t * msPerHour + utc_minutes t * msPerMinute + utc_seconds t * msPerSecond
      + utc_ms t < utc_hours u * msPerHour + utc_minutes u * msPerMinute
      + utc_seconds u * msPerSecond + utc_ms u"
    using False less time_field_ranges [of t] time_field_ranges [of u]
    by (intro time_of_day_less) auto
  ultimately show ?thesis using time_split [of t] time_split [of u] by linarith
qed

lemma iso_string_less:
  assumes "four_digit_year t" "four_digit_year u" "iso_string t < iso_string u"
  shows "t < u"
proof -
  obtain y m dd where c: "civil_of_day (day_of t) = (y, m, dd)" "valid_civil y m dd"
    "day_of_civil y m dd = day_of t" "0 \<le> y" "y \<le> 9999"
    using four_digit_year_civil [OF assms(1)] .
  obtain y' m' dd' where c': "civil_of_day (day_of u) = (y', m', dd')" "valid_civil y' m' dd'"
    "day_of_civil y' m' dd' = day_of u" "0 \<le> y'" "y' \<le> 9999"
    using four_digit_year_civil [OF assms(2)] .
  note r = valid_civil_ranges [OF c(2)] valid_civil_ranges [OF c'(2)]
    time_field_ranges [of t] time_field_ranges [of u]
  have "iso_string t < iso_string u \<longleftrightarrow>
    y < y' \<or> (y = y' \<and> (m < m' \<or> (m = m' \<and> (dd < dd' \<or> (dd = dd' \<and>
      (utc_hours t < utc_hours u \<or> (utc_hours t = utc_hours u \<and>
      (utc_minutes t < utc_minutes u \<or> (utc_minutes t = utc_minutes u \<and>
      (utc_seconds t < utc_seconds u \<or> (utc_seconds t = utc_seconds u \<and>
       utc_ms t < utc_ms u)))))))))))"
    using c c' r
    by (simp add: iso_string_def year_string_def dec_pad_append_less append_cong_less
        del: dec_pad.simps)
  with assms(3) show ?thesis using civil_time_less [OF c(2,3) c'(2,3)] by blast
qed

lemma parse_iso_parts:
  assumes v: "valid_civil y m dd" and y: "0 \<le> y" "y \<le> 9999"
    and t: "0 \<le> h" "h \<le> 23" "0 \<le> mi" "mi \<le> 59" "0 \<le> sec" "sec \<le> 59" "0 \<le> ms" "ms \<le> 999"
  shows "parse_iso other
    (dec_pad 4 y @ ''-'' @ dec_pad 2 m @ ''-'' @ dec_pad 2 dd @ ''T'' @ dec_pad 2 h @ '':''
      @ dec_pad 2 mi @ '':'' @ dec_pad 2 sec @ ''.'' @ dec_pad 3 ms @ ''Z'')
    = time_clip (day_of_civil y m dd * msPerDay + h * msPerHour + mi * msPerMinute
        + sec * msPerSecond + ms)" (is "parse_iso other ?s = _")
proof -
  note r = valid_civil_ranges [OF v]
  have at: "digits_at 0 4 ?s = dec_pad 4 y" "digits_at 4 1 ?s = ''-''"
    "digits_at 5 2 ?s = dec_pad 2 m" "digits_at 7 1 ?s = ''-''"
    "digits_at 8 2 ?s = dec_pad 2 dd" "digits_at 10 1 ?s = ''T''"
    "digits_at 11 2 ?s = dec_pad 2 h" "digits_at 13 1 ?s = '':''"
    "digits_at 14 2 ?s = dec_pad 2 mi" "digits_at 16 1 ?s = '':''"
    "digits_at 17 2 ?s = dec_pad 2 sec" "digits_at 19 1 ?s = ''.''"
    "digits_at 20 3 ?s = dec_pad 3 ms" "drop 23 ?s = ''Z''" "length ?s = 24"
    by (simp_all add: digits_at_def del: dec_pad.simps)
  have val: "dec_val (dec_pad 4 y) = y" "dec_val (dec_pad 2 m) = m" "dec_val (dec_pad 2 dd) = dd"
    "dec_val (dec_pad 2 h) = h" "dec_val (dec_pad 2 mi) = mi" "dec_val (dec_pad 2 sec) = sec"
    "dec_val (dec_pad 3 ms) = ms"
    using y t r by (simp_all add: dec_val_dec_pad del: dec_pad.simps)
  have "iso_shape ?s"
    unfolding iso_shape_def at using y t r by (simp add: digits_dec_pad del: dec_pad.simps)
  then show ?thesis
    unfolding parse_iso_def Let_def at val using v t by (simp del: dec_pad.simps)
qed

lemma time_clip_four_digit: "four_digit_year t \<Longrightarrow> time_clip t = Some t"
  by (auto simp: four_digit_year_def time_clip_def max_time_def)

lemma parse_iso_string:
  assumes "four_digit_year t"
  shows "parse_iso other (iso_string t) = Some t"
proof -
  obtain y m dd where c: "civil_of_day (day_of t) = (y, m, dd)" "valid_civil y m dd"
    "day_of_civil y m dd = day_of t" "0 \<le> y" "y \<le> 9999"
    using four_digit_year_civil [OF assms] .
  have "parse_iso other (iso_string t) = time_clip (day_of_civil y m dd * msPerDay
      + utc_hours t * msPerHour + utc_minutes t * msPerMinute + utc_seconds t * msPerSecond
      + utc_ms t)"
    using parse_iso_parts [OF c(2,4,5) time_field_ranges [of t], of other] c
    by (simp add: iso_string_def year_string_def del: dec_pad.simps)
  then show ?thesis
    using time_split [of t] c(3) time_clip_four_digit [OF assms] by simp
qed

lemma iso_string_eq_iff:
  "four_digit_year t \<Longrightarrow> four_digit_year u \<Longrightarrow> iso_string t = iso_string u \<longleftrightarrow> t = u"
  by (metis option.inject parse_iso_string)

lemma iso_string_less_iff:
  "four_digit_year t \<Longrightarrow> four_digit_year u \<Longrightarrow> iso_string t < iso_string u \<longleftrightarrow> t < u"
  by (metis iso_string_eq_iff iso_string_less less_asym linorder_neqE)

lemma iso_string_le_iff:
  "four_digit_year t \<Longrightarrow> four_digit_year u \<Longrightarrow> iso_string t \<le> iso_string u \<longleftrightarrow> t \<le> u"
  by (simp add: iso_string_less_iff le_less iso_string_eq_iff)

lemma iso_string_not_Nil [simp]: "iso_string t \<noteq> []"
  by (cases "civil_of_day (day_of t)") (simp add: iso_string_def)

lemma to_iso_string_Some [simp, js_simps]: "to_iso_string (Some t) = Inr (iso_string t)"
  and to_iso_string_None [simp, js_simps]: "to_iso_string None = Inl range_error"
  by (simp_all add: to_iso_string_def)

end
