(* ===== verification/MarketData.thy ===== *)
theory MarketData
  imports JsDate
begin

text \<open>
  The market data the services receive from \<^verbatim>\<open>tardis-dev\<close>, with the fields they
  read, and the enums of \<^verbatim>\<open>src/entities/types.ts\<close>.  A Date in market data is
  valid and is held as its time value; an optional field is an \<open>option\<close>.
\<close>

datatype option_type = CallOption | PutOption

record option_summary =
  os_type :: string
  os_symbol :: string
  os_exchange :: string
  os_optionType :: option_type
  os_strikePrice :: jsnum
  os_expirationDate :: int
  os_bestBidPrice :: "jsnum option"
  os_bestAskPrice :: "jsnum option"
  os_lastPrice :: "jsnum option"
  os_markPrice :: "jsnum option"
  os_markIV :: "jsnum option"
  os_delta :: "jsnum option"
  os_underlyingPrice :: "jsnum option"
  os_timestamp :: int
  os_localTimestamp :: int

record trade =
  tr_type :: string
  tr_symbol :: string
  tr_exchange :: string
  tr_id :: "string option"
  tr_price :: jsnum
  tr_timestamp :: int
  tr_localTimestamp :: int

record instrument_info =
  ii_id :: string
  ii_exchange :: string
  ii_baseCurrency :: string
  ii_type :: string
  ii_active :: bool
  ii_availableSince :: string
  ii_availableTo :: "string option"
  ii_optionType :: "string option"
  ii_expiry :: "string option"
  ii_listing :: "string option"

text \<open>The riskless rate in use.\<close>

record interest_rate =
  ir_risklessRate :: jsnum
  ir_risklessRateAt :: string
  ir_risklessRateSource :: string

text \<open>The arguments and the result of \<^verbatim>\<open>compute\<close> in
  \<^verbatim>\<open>node-volatility-mfiv\<close>.\<close>

record mfiv_context =
  mc_rate :: interest_rate
  mc_timePeriod :: string
  mc_exchange :: string
  mc_methodology :: string
  mc_asset :: string

record mfiv_params =
  mp_at :: string
  mp_nearDate :: string
  mp_nextDate :: string
  mp_options :: "option_summary list"
  mp_underlyingPrice :: jsnum

record mfiv_result =
  mr_asset :: string
  mr_dVol :: "jsnum option"
  mr_invdVol :: "jsnum option"
  mr_value :: "jsnum option"
  mr_methodology :: string
  mr_estimatedFor :: string

text \<open>\<^verbatim>\<open>x ?? d\<close>.\<close>

definition or_default :: "'a option \<Rightarrow> 'a \<Rightarrow> 'a" where
  "or_default x d = (case x of None \<Rightarrow> d | Some v \<Rightarrow> v)"

lemma or_default_simps [simp, js_simps]: "or_default None d = d" "or_default (Some v) d = v"
  by (simp_all add: or_default_def)

end
