(* ===== verification/Buckets.thy ===== *)
theory Buckets
  imports MarketData
begin

text \<open>
  \<^verbatim>\<open>src/computables/option_bucket.ts\<close> and \<^verbatim>\<open>trade_bucket.ts\<close>:
  the time buckets computed from a stream of option summaries or of trades.  A computable is the
  record of its private fields; \<^verbatim>\<open>compute\<close>, a generator that its consumer
  drains, returns the list of the values it yields and the new state.  The two computables share
  the interface \<open>bucketing\<close>, in which the stream properties are proved once.
\<close>

section \<open>Option buckets\<close>

datatype bucket_kind = TimeKind

definition kindSuffix :: "bucket_kind \<Rightarrow> string" where
  "kindSuffix kind = (case kind of TimeKind \<Rightarrow> ''sec'')"

definition DATE_MIN :: int where
  "DATE_MIN = -1"

record option_bucket =
  ob_type :: string
  ob_symbol :: string
  ob_exchange :: string
  ob_name :: string
  ob_interval :: int
  ob_kind :: bucket_kind
  ob_id :: "string option"
  ob_summaries :: int
  ob_openTimestamp :: int
  ob_closeTimestamp :: int
  ob_underlyingPrice :: jsnum
  ob_lastPrice :: jsnum
  ob_strikePrice :: jsnum
  ob_expirationDate :: int
  ob_optionType :: "option_type option"
  ob_delta :: jsnum
  ob_markIV :: jsnum
  ob_timestamp :: jsdate
  ob_localTimestamp :: int

record option_computable =
  oc_inProgress :: option_bucket
  oc_kind :: bucket_kind
  oc_interval :: int
  oc_name :: string

text \<open>\<^verbatim>\<open>_reset\<close> leaves the option type of the previous bucket in
  place.\<close>

definition option_reset :: "option_computable \<Rightarrow> option_computable" where
  "option_reset c = c\<lparr> oc_inProgress := (oc_inProgress c)\<lparr>
     ob_type := ''option_bucket'', ob_symbol := [], ob_exchange := [], ob_name := oc_name c,
     ob_interval := oc_interval c, ob_kind := oc_kind c, ob_underlyingPrice := Num 0,
     ob_lastPrice := Num 0, ob_strikePrice := Num 0, ob_delta := Num 0, ob_markIV := Num 0,
     ob_id := None, ob_summaries := 0, ob_openTimestamp := DATE_MIN,
     ob_closeTimestamp := DATE_MIN, ob_localTimestamp := DATE_MIN,
     ob_timestamp := Some DATE_MIN, ob_expirationDate := DATE_MIN \<rparr> \<rparr>"

text \<open>The fields of the fresh object \<^verbatim>\<open>{}\<close> other than the option type are
  overwritten by the reset.\<close>

definition empty_option_bucket :: option_bucket where
  "empty_option_bucket = \<lparr> ob_type = [], ob_symbol = [], ob_exchange = [], ob_name = [],
     ob_interval = 0, ob_kind = TimeKind, ob_id = None, ob_summaries = 0, ob_openTimestamp = 0,
     ob_closeTimestamp = 0, ob_underlyingPrice = NaN, ob_lastPrice = NaN, ob_strikePrice = NaN,
     ob_expirationDate = 0, ob_optionType = None, ob_delta = NaN, ob_markIV = NaN,
     ob_timestamp = None, ob_localTimestamp = 0 \<rparr>"

definition new_option_computable :: "bucket_kind \<Rightarrow> int \<Rightarrow> string option \<Rightarrow> option_computable" where
  "new_option_computable kind interval name = option_reset
     \<lparr> oc_inProgress = empty_option_bucket, oc_kind = kind, oc_interval = interval,
       oc_name = (case name of
          None \<Rightarrow> ''option_bucket_'' @ int_string interval @ kindSuffix kind
        | Some n \<Rightarrow> n) \<rparr>"

text \<open>\<^verbatim>\<open>Math.floor(timestamp.valueOf() / this._interval)\<close>.\<close>

definition time_bucket :: "int \<Rightarrow> int \<Rightarrow> jsnum" where
  "time_bucket interval timestamp =
     num_floor (num_div (Num (of_int timestamp)) (Num (of_int interval)))"

definition option_getTimeBucket :: "option_computable \<Rightarrow> int \<Rightarrow> jsnum" where
  "option_getTimeBucket c timestamp = time_bucket (oc_interval c) timestamp"

definition option_hasNewBucket :: "int \<Rightarrow> option_computable \<Rightarrow> bool \<times> option_computable" where
  "option_hasNewBucket timestamp c =
     (if ob_summaries (oc_inProgress c) = 0 then (False, c)
      else case oc_kind c of TimeKind \<Rightarrow>
        let current = option_getTimeBucket c timestamp;
            opened = option_getTimeBucket c (ob_openTimestamp (oc_inProgress c))
        in if num_lt opened current
           then (True, c\<lparr> oc_inProgress := (oc_inProgress c)\<lparr> ob_timestamp :=
             new_date (num_mul (num_add opened (Num 1)) (Num (of_int (oc_interval c)))) \<rparr> \<rparr>)
           else (False, c))"

definition option_computeBucket ::
  "option_summary \<Rightarrow> option_computable \<Rightarrow> option_bucket \<times> option_computable" where
  "option_computeBucket msg c =
     (let option = (oc_inProgress c)\<lparr> ob_localTimestamp := os_localTimestamp msg,
            ob_symbol := os_symbol msg, ob_exchange := os_exchange msg \<rparr>
      in (option, option_reset (c\<lparr> oc_inProgress := option \<rparr>)))"

definition option_update :: "option_summary \<Rightarrow> option_computable \<Rightarrow> option_computable" where
  "option_update opt c =
     (let p = oc_inProgress c;
          p1 = (if ob_summaries p = 0 then p\<lparr> ob_openTimestamp := os_timestamp opt \<rparr> else p)
      in c\<lparr> oc_inProgress := p1\<lparr>
           ob_id := Some (os_symbol opt),
           ob_underlyingPrice := or_default (os_underlyingPrice opt) (Num 0),
           ob_lastPrice := or_default (os_lastPrice opt) (Num 0),
           ob_strikePrice := os_strikePrice opt,
           ob_timestamp := Some (os_timestamp opt),
           ob_closeTimestamp := os_timestamp opt,
           ob_localTimestamp := os_localTimestamp opt,
           ob_expirationDate := os_expirationDate opt,
           ob_optionType := Some (os_optionType opt),
           ob_delta := or_default (os_delta opt) (Num 0),
           ob_markIV := or_default (os_markIV opt) (Num 0),
           ob_summaries := ob_summaries p1 + 1 \<rparr> \<rparr>)"

definition option_flush ::
  "option_summary \<Rightarrow> option_computable \<Rightarrow> option_bucket list \<times> option_computable" where
  "option_flush msg c =
     (case option_hasNewBucket (os_timestamp msg) c of
        (True, c1) \<Rightarrow> (case option_computeBucket msg c1 of (b, c2) \<Rightarrow> ([b], c2))
      | (False, c1) \<Rightarrow> ([], c1))"

definition option_compute ::
  "option_summary \<Rightarrow> option_computable \<Rightarrow> option_bucket list \<times> option_computable" where
  "option_compute msg c =
     (case option_flush msg c of (ys, c1) \<Rightarrow>
        if os_type msg \<noteq> ''option_summary'' then (ys, c1)
        else case option_flush msg (option_update msg c1) of (zs, c2) \<Rightarrow> (ys @ zs, c2))"

section \<open>Trade buckets\<close>

record trade_bucket =
  tb_type :: string
  tb_symbol :: string
  tb_exchange :: string
  tb_name :: string
  tb_interval :: int
  tb_kind :: bucket_kind
  tb_id :: "string option"
  tb_trades :: int
  tb_openTimestamp :: int
  tb_closeTimestamp :: int
  tb_price :: jsnum
  tb_timestamp :: jsdate
  tb_localTimestamp :: int

record trade_computable =
  tc_inProgress :: trade_bucket
  tc_kind :: bucket_kind
  tc_interval :: int
  tc_name :: string

definition trade_reset :: "trade_computable \<Rightarrow> trade_computable" where
  "trade_reset c = c\<lparr> tc_inProgress := (tc_inProgress c)\<lparr>
     tb_type := ''trade_bucket'', tb_symbol := [], tb_exchange := [], tb_name := tc_name c,
     tb_interval := tc_interval c, tb_kind := tc_kind c, tb_price := Num 0, tb_id := None,
     tb_trades := 0, tb_openTimestamp := DATE_MIN, tb_closeTimestamp := DATE_MIN,
     tb_localTimestamp := DATE_MIN, tb_timestamp := Some DATE_MIN \<rparr> \<rparr>"

definition empty_trade_bucket :: trade_bucket where
  "empty_trade_bucket = \<lparr> tb_type = [], tb_symbol = [], tb_exchange = [], tb_name = [],
     tb_interval = 0, tb_kind = TimeKind, tb_id = None, tb_trades = 0, tb_openTimestamp = 0,
     tb_closeTimestamp = 0, tb_price = NaN, tb_timestamp = None, tb_localTimestamp = 0 \<rparr>"

definition new_trade_computable :: "bucket_kind \<Rightarrow> int \<Rightarrow> string option \<Rightarrow> trade_computable" where
  "new_trade_computable kind interval name = trade_reset
     \<lparr> tc_inProgress = empty_trade_bucket, tc_kind = kind, tc_interval = interval,
       tc_name = (case name of
          None \<Rightarrow> ''trade_bucket_'' @ int_string interval @ kindSuffix kind
        | Some n \<Rightarrow> n) \<rparr>"

definition trade_getTimeBucket :: "trade_computable \<Rightarrow> int \<Rightarrow> jsnum" where
  "trade_getTimeBucket c timestamp = time_bucket (tc_interval c) timestamp"

definition trade_hasNewBucket :: "int \<Rightarrow> trade_computable \<Rightarrow> bool \<times> trade_computable" where
  "trade_hasNewBucket timestamp c =
     (if tb_trades (tc_inProgress c) = 0 then (False, c)
      else case tc_kind c of TimeKind \<Rightarrow>
        let current = trade_getTimeBucket c timestamp;
            opened = trade_getTimeBucket c (tb_openTimestamp (tc_inProgress c))
        in if num_lt opened current
           then (True, c\<lparr> tc_inProgress := (tc_inProgress c)\<lparr> tb_timestamp :=
             new_date (num_mul (num_add opened (Num 1)) (Num (of_int (tc_interval c)))) \<rparr> \<rparr>)
           else (False, c))"

definition trade_computeBucket :: "trade \<Rightarrow> trade_computable \<Rightarrow> trade_bucket \<times> trade_computable" where
  "trade_computeBucket msg c =
     (let t = (tc_inProgress c)\<lparr> tb_localTimestamp := tr_localTimestamp msg,
            tb_symbol := tr_symbol msg, tb_exchange := tr_exchange msg \<rparr>
      in (t, trade_reset (c\<lparr> tc_inProgress := t \<rparr>)))"

definition trade_update :: "trade \<Rightarrow> trade_computable \<Rightarrow> trade_computable" where
  "trade_update t c =
     (let p = tc_inProgress c;
          p1 = (if tb_trades p = 0 then p\<lparr> tb_openTimestamp := tr_timestamp t \<rparr> else p)
      in c\<lparr> tc_inProgress := p1\<lparr>
           tb_id := tr_id t, tb_price := tr_price t, tb_timestamp := Some (tr_timestamp t),
           tb_closeTimestamp := tr_timestamp t, tb_localTimestamp := tr_localTimestamp t,
           tb_trades := tb_trades p1 + 1 \<rparr> \<rparr>)"

definition trade_flush :: "trade \<Rightarrow> trade_computable \<Rightarrow> trade_bucket list \<times> trade_computable" where
  "trade_flush msg c =
     (case trade_hasNewBucket (tr_timestamp msg) c of
        (True, c1) \<Rightarrow> (case trade_computeBucket msg c1 of (b, c2) \<Rightarrow> ([b], c2))
      | (False, c1) \<Rightarrow> ([], c1))"

definition trade_compute :: "trade \<Rightarrow> trade_computable \<Rightarrow> trade_bucket list \<times> trade_computable" where
  "trade_compute msg c =
     (case trade_flush msg c of (ys, c1) \<Rightarrow>
        if tr_type msg \<noteq> ''trade'' then (ys, c1)
        else case trade_flush msg (trade_update msg c1) of (zs, c2) \<Rightarrow> (ys @ zs, c2))"

section \<open>A stream of messages\<close>

text \<open>The yields of a computable over a stream, in order, and its final state.\<close>

fun bucket_stream :: "('m \<Rightarrow> 's \<Rightarrow> 'b list \<times> 's) \<Rightarrow> 'm list \<Rightarrow> 's \<Rightarrow> 'b list \<times> 's" where
  "bucket_stream step [] s = ([], s)"
| "bucket_stream step (m # ms) s =
     (case step m s of (ys, s1) \<Rightarrow> case bucket_stream step ms s1 of (zs, s2) \<Rightarrow> (ys @ zs, s2))"

text \<open>The specification groups neighbouring messages of one period.\<close>

fun chunk_by :: "('a \<Rightarrow> 'k) \<Rightarrow> 'a list \<Rightarrow> 'a list list" where
  "chunk_by f [] = []"
| "chunk_by f (x # xs) =
     (case chunk_by f xs of
        [] \<Rightarrow> [[x]]
      | g # gs \<Rightarrow> if f x = f (hd g) then (x # g) # gs else [x] # g # gs)"

lemma concat_chunk_by [simp]: "concat (chunk_by f xs) = xs"
  by (induction xs) (auto split: list.splits)

lemma chunk_by_Nil [simp]: "chunk_by f xs = [] \<longleftrightarrow> xs = []"
  by (cases xs) (auto split: list.splits)

lemma chunk_by_not_Nil: "g \<in> set (chunk_by f xs) \<Longrightarrow> g \<noteq> []"
  by (induction xs arbitrary: g) (auto split: list.splits if_splits)

lemma chunk_by_hd: "xs \<noteq> [] \<Longrightarrow> hd (hd (chunk_by f xs)) = hd xs"
  by (cases xs) (auto split: list.splits)

lemma chunk_by_snoc:
  "chunk_by f (xs @ [x]) =
    (if xs = [] then [[x]]
     else if f (last xs) = f x
     then butlast (chunk_by f xs) @ [last (chunk_by f xs) @ [x]]
     else chunk_by f xs @ [[x]])"
proof (induction xs)
  case (Cons y ys)
  show ?case
  proof (cases "ys = []")
    case False
    then obtain g gs where c: "chunk_by f ys = g # gs" by (cases "chunk_by f ys") auto
    then have g: "g \<noteq> []" using chunk_by_not_Nil [of g f ys] by simp
    show ?thesis using Cons False c g by (cases gs) (auto simp: hd_append)
  qed simp
qed simp

lemma last_chunk_by: "xs \<noteq> [] \<Longrightarrow> last (last (chunk_by f xs)) = last xs"
  by (induction xs rule: rev_induct) (auto simp: chunk_by_snoc)

lemma chunk_by_same: "g \<in> set (chunk_by f xs) \<Longrightarrow> x \<in> set g \<Longrightarrow> f x = f (hd g)"
proof (induction xs arbitrary: g x)
  case (Cons a xs)
  note hyp = Cons
  show ?case
  proof (cases "chunk_by f xs")
    case (Cons g0 gs)
    then have "\<And>y. y \<in> set g0 \<Longrightarrow> f y = f (hd g0)" using hyp(1) by simp
    then show ?thesis using hyp Cons by (auto split: if_splits)
  qed (use hyp in auto)
qed simp

lemma bucket_stream_snoc:
  "bucket_stream step (ms @ [m]) s =
    (case bucket_stream step ms s of (ys, s1) \<Rightarrow>
       case step m s1 of (zs, s2) \<Rightarrow> (ys @ zs, s2))"
  by (induction ms arbitrary: s) (auto split: prod.splits)

section \<open>The interface of a computable\<close>

text \<open>A view of a bucket: how many messages it holds, the timestamp of the first one, and the
  values taken from the last one.\<close>

definition bucket_due :: "int \<Rightarrow> int \<times> int \<times> 'c \<Rightarrow> int \<Rightarrow> bool" where
  "bucket_due k v t = (fst v \<noteq> 0 \<and> fst (snd v) div k < t div k)"

locale bucketing =
  fixes step :: "'m \<Rightarrow> 's \<Rightarrow> 'b list \<times> 's"
    and accepts :: "'m \<Rightarrow> bool" and ts :: "'m \<Rightarrow> int" and content :: "'m \<Rightarrow> 'c"
    and interval :: "'s \<Rightarrow> int" and view :: "'s \<Rightarrow> int \<times> int \<times> 'c"
    and bview :: "'b \<Rightarrow> int \<times> int \<times> 'c" and stamp :: "'b \<Rightarrow> jsdate"
  assumes interval_step: "interval (snd (step m s)) = interval s"
    and yields: "0 < interval s \<Longrightarrow> map (\<lambda>b. (bview b, stamp b)) (fst (step m s)) =
      (if bucket_due (interval s) (view s) (ts m)
       then [(view s, time_clip ((fst (snd (view s)) div interval s + 1) * interval s))] else [])"
    and taken: "0 < interval s \<Longrightarrow> accepts m \<Longrightarrow> view (snd (step m s)) =
      (if bucket_due (interval s) (view s) (ts m) \<or> fst (view s) = 0 then (1, ts m, content m)
       else (fst (view s) + 1, fst (snd (view s)), content m))"
    and ignored: "0 < interval s \<Longrightarrow> \<not> accepts m \<Longrightarrow> fst (view (snd (step m s))) =
      (if bucket_due (interval s) (view s) (ts m) then 0 else fst (view s))"
begin

lemma at_most_one: "0 < interval s \<Longrightarrow> length (fst (step m s)) \<le> 1"
  using arg_cong [OF yields, of s length m] by (simp split: if_splits)

lemma interval_stream: "interval (snd (bucket_stream step ms s)) = interval s"
  by (induction ms arbitrary: s) (auto split: prod.splits, metis interval_step snd_conv)

lemma conservation_step:
  assumes "0 < interval s"
  shows "sum_list (map (fst \<circ> bview) (fst (step m s))) + fst (view (snd (step m s)))
    = fst (view s) + (if accepts m then 1 else 0)"
proof -
  have "map (fst \<circ> bview) (fst (step m s))
      = map (fst \<circ> fst) (map (\<lambda>b. (bview b, stamp b)) (fst (step m s)))" by simp
  then show ?thesis
    unfolding yields [OF assms] using taken [OF assms] ignored [OF assms]
    by (cases "accepts m") (auto simp: bucket_due_def)
qed

lemma conservation:
  "0 < interval s \<Longrightarrow> sum_list (map (fst \<circ> bview) (fst (bucket_stream step ms s)))
      + fst (view (snd (bucket_stream step ms s)))
    = fst (view s) + int (length (filter accepts ms))"
proof (induction ms arbitrary: s)
  case (Cons m ms)
  have "0 < interval (snd (step m s))" using Cons.prems interval_step by simp
  from Cons.IH [OF this] conservation_step [OF Cons.prems, of m] show ?case
    by (auto simp: comp_def split: prod.splits)
qed simp

text \<open>On messages in order of time the yielded buckets, followed by the one in progress, are
  the periods that occur, in order.\<close>

lemma periods:
  assumes k: "0 < interval s" and empty: "fst (view s) = 0"
  shows "ms \<noteq> [] \<Longrightarrow> list_all accepts ms \<Longrightarrow> sorted (map ts ms) \<Longrightarrow>
    map bview (fst (bucket_stream step ms s)) @ [view (snd (bucket_stream step ms s))]
      = map (\<lambda>g. (int (length g), ts (hd g), content (last g)))
          (chunk_by (\<lambda>m. ts m div interval s) ms)
    \<and> map stamp (fst (bucket_stream step ms s))
      = map (\<lambda>g. time_clip ((ts (hd g) div interval s + 1) * interval s))
          (butlast (chunk_by (\<lambda>m. ts m div interval s) ms))"
proof (induction ms rule: rev_induct)
  case (snoc m ms)
  let ?f = "\<lambda>m. ts m div interval s"
  obtain ys s1 where run: "bucket_stream step ms s = (ys, s1)" by force
  obtain zs s2 where stp: "step m s1 = (zs, s2)" by force
  have k1: "interval s1 = interval s" using interval_stream [of ms s] run by simp
  with k have k1': "0 < interval s1" by simp
  have acc: "accepts m" using snoc.prems by simp
  have out: "map (\<lambda>b. (bview b, stamp b)) zs = (if bucket_due (interval s) (view s1) (ts m)
      then [(view s1, time_clip ((fst (snd (view s1)) div interval s + 1) * interval s))] else [])"
    and st: "view s2 = (if bucket_due (interval s) (view s1) (ts m) \<or> fst (view s1) = 0
      then (1, ts m, content m) else (fst (view s1) + 1, fst (snd (view s1)), content m))"
    using yields [OF k1', of m] taken [OF k1' acc] stp k1 by simp_all
  have whole: "bucket_stream step (ms @ [m]) s = (ys @ zs, s2)"
    by (simp add: bucket_stream_snoc run stp)
  show ?case
  proof (cases "ms = []")
    case True
    then have "s1 = s" "ys = []" using run by auto
    then show ?thesis using True empty out st whole by (simp add: bucket_due_def)
  next
    case False
    define c where "c = chunk_by ?f ms"
    have c: "c \<noteq> []" "last c \<noteq> []" "last c \<in> set c" using False chunk_by_not_Nil [of "last c" ?f ms]
      by (simp_all add: c_def)
    have IH: "map bview ys @ [view s1] = map (\<lambda>g. (int (length g), ts (hd g), content (last g))) c"
      "map stamp ys = map (\<lambda>g. time_clip ((ts (hd g) div interval s + 1) * interval s)) (butlast c)"
      using snoc False by (simp_all add: sorted_append run c_def)
    have split: "c = butlast c @ [last c]" using c by simp
    from IH(1) have v: "view s1 = (int (length (last c)), ts (hd (last c)), content (last (last c)))"
      and ys: "map bview ys = map (\<lambda>g. (int (length g), ts (hd g), content (last g))) (butlast c)"
      by (subst (asm) split, simp)+
    have per: "ts (last ms) div interval s = ts (hd (last c)) div interval s"
      using chunk_by_same [of "last c" ?f ms "last ms"] c last_chunk_by [OF False, of ?f]
      unfolding c_def by (metis last_in_set)
    have "ts (last ms) \<le> ts m" using snoc.prems False by (simp add: sorted_append)
    then have le: "ts (hd (last c)) div interval s \<le> ts m div interval s"
      using zdiv_mono1 [OF _ k] per by metis
    have len: "int (length (last c)) \<noteq> 0" using c by simp
    show ?thesis
    proof (cases "ts (hd (last c)) div interval s = ts m div interval s")
      case True
      then have nd: "\<not> bucket_due (interval s) (view s1) (ts m)" by (simp add: v bucket_due_def)
      then have "zs = []" "view s2 = (int (length (last c)) + 1, ts (hd (last c)), content m)"
        using out st len by (auto simp: v)
      moreover have "chunk_by ?f (ms @ [m]) = butlast c @ [last c @ [m]]"
        using False True per by (simp add: chunk_by_snoc c_def)
      ultimately show ?thesis using whole ys IH(2) c(2) by simp
    next
      case False2: False
      then have due: "bucket_due (interval s) (view s1) (ts m)"
        using le len by (simp add: v bucket_due_def)
      have "chunk_by ?f (ms @ [m]) = c @ [[m]]"
        using False False2 per by (simp add: chunk_by_snoc c_def)
      moreover have "map (\<lambda>b. (bview b, stamp b)) zs
          = [(view s1, time_clip ((fst (snd (view s1)) div interval s + 1) * interval s))]"
        using out due by simp
      then obtain z where "zs = [z]" "bview z = view s1"
          "stamp z = time_clip ((ts (hd (last c)) div interval s + 1) * interval s)"
        by (auto simp: v)
      moreover have "view s2 = (1, ts m, content m)" using st due by simp
      moreover have "map (\<lambda>g. time_clip ((ts (hd g) div interval s + 1) * interval s)) c
          = map stamp ys @ [time_clip ((ts (hd (last c)) div interval s + 1) * interval s)]"
        by (subst split) (simp add: IH(2))
      ultimately show ?thesis using whole IH(1) by simp
    qed
  qed
qed simp

end

section \<open>The two computables\<close>

type_synonym option_content =
  "string option \<times> jsnum \<times> jsnum \<times> jsnum \<times> int \<times> int \<times> option_type option \<times> jsnum \<times> jsnum"

definition option_content :: "option_summary \<Rightarrow> option_content" where
  "option_content m = (Some (os_symbol m), or_default (os_underlyingPrice m) (Num 0),
     or_default (os_lastPrice m) (Num 0), os_strikePrice m, os_timestamp m, os_expirationDate m,
     Some (os_optionType m), or_default (os_delta m) (Num 0), or_default (os_markIV m) (Num 0))"

definition option_view :: "option_bucket \<Rightarrow> int \<times> int \<times> option_content" where
  "option_view b = (ob_summaries b, ob_openTimestamp b, ob_id b, ob_underlyingPrice b,
     ob_lastPrice b, ob_strikePrice b, ob_closeTimestamp b, ob_expirationDate b, ob_optionType b,
     ob_delta b, ob_markIV b)"

definition trade_content :: "trade \<Rightarrow> string option \<times> jsnum \<times> int" where
  "trade_content m = (tr_id m, tr_price m, tr_timestamp m)"

definition trade_view :: "trade_bucket \<Rightarrow> int \<times> int \<times> string option \<times> jsnum \<times> int" where
  "trade_view b = (tb_trades b, tb_openTimestamp b, tb_id b, tb_price b, tb_closeTimestamp b)"

lemma view_parts [simp]:
  "fst (option_view b) = ob_summaries b" "fst (snd (option_view b)) = ob_openTimestamp b"
  "fst (trade_view c) = tb_trades c" "fst (snd (trade_view c)) = tb_openTimestamp c"
  by (simp_all add: option_view_def trade_view_def)

lemma time_bucket_int: "0 < k \<Longrightarrow> time_bucket k t = Num (of_int (t div k))"
  unfolding time_bucket_def by (rule num_floor_div) simp

lemma bucket_end: "new_date (num_mul (num_add (Num (of_int p)) (Num 1)) (Num (of_int k))) = time_clip ((p + 1) * k)"
proof -
  have "num_mul (num_add (Num (of_int p)) (Num 1)) (Num (of_int k)) = Num (of_int ((p + 1) * k))" by simp
  then show ?thesis by (simp only: new_date_of_int)
qed

lemma option_hasNewBucket_due:
  assumes "0 < oc_interval c"
  shows "option_hasNewBucket t c =
    (if bucket_due (oc_interval c) (option_view (oc_inProgress c)) t
     then (True, c\<lparr> oc_inProgress := (oc_inProgress c)\<lparr> ob_timestamp :=
       time_clip ((ob_openTimestamp (oc_inProgress c) div oc_interval c + 1) * oc_interval c) \<rparr> \<rparr>)
     else (False, c))"
  by (cases "oc_kind c")
    (simp add: option_hasNewBucket_def option_getTimeBucket_def time_bucket_int [OF assms] bucket_end
      bucket_due_def option_view_def Let_def del: num_add.simps num_mul.simps)

lemma trade_hasNewBucket_due:
  assumes "0 < tc_interval c"
  shows "trade_hasNewBucket t c =
    (if bucket_due (tc_interval c) (trade_view (tc_inProgress c)) t
     then (True, c\<lparr> tc_inProgress := (tc_inProgress c)\<lparr> tb_timestamp :=
       time_clip ((tb_openTimestamp (tc_inProgress c) div tc_interval c + 1) * tc_interval c) \<rparr> \<rparr>)
     else (False, c))"
  by (cases "tc_kind c")
    (simp add: trade_hasNewBucket_def trade_getTimeBucket_def time_bucket_int [OF assms] bucket_end
      bucket_due_def trade_view_def Let_def del: num_add.simps num_mul.simps)

lemma option_interval [simp]: "oc_interval (option_reset c) = oc_interval c"
  "oc_interval (option_update m c) = oc_interval c" "oc_interval (snd (option_flush m c)) = oc_interval c"
  by (auto simp: option_reset_def option_update_def option_flush_def option_hasNewBucket_def
      option_computeBucket_def Let_def split: bucket_kind.splits)

lemma trade_interval [simp]: "tc_interval (trade_reset c) = tc_interval c"
  "tc_interval (trade_update m c) = tc_interval c" "tc_interval (snd (trade_flush m c)) = tc_interval c"
  by (auto simp: trade_reset_def trade_update_def trade_flush_def trade_hasNewBucket_def
      trade_computeBucket_def Let_def split: bucket_kind.splits)

lemma option_flush_view:
  assumes "0 < oc_interval c"
  shows "map (\<lambda>b. (option_view b, ob_timestamp b)) (fst (option_flush m c)) =
      (if bucket_due (oc_interval c) (option_view (oc_inProgress c)) (os_timestamp m)
       then [(option_view (oc_inProgress c),
         time_clip ((fst (snd (option_view (oc_inProgress c))) div oc_interval c + 1) * oc_interval c))]
       else [])"
    and "snd (option_flush m c) = c \<or> ob_summaries (oc_inProgress (snd (option_flush m c))) = 0"
    and "bucket_due (oc_interval c) (option_view (oc_inProgress c)) (os_timestamp m) \<Longrightarrow>
      ob_summaries (oc_inProgress (snd (option_flush m c))) = 0"
    and "\<not> bucket_due (oc_interval c) (option_view (oc_inProgress c)) (os_timestamp m) \<Longrightarrow>
      option_flush m c = ([], c)"
  by (simp_all add: option_flush_def option_hasNewBucket_due [OF assms] option_computeBucket_def
      option_reset_def option_view_def)

lemma trade_flush_view:
  assumes "0 < tc_interval c"
  shows "map (\<lambda>b. (trade_view b, tb_timestamp b)) (fst (trade_flush m c)) =
      (if bucket_due (tc_interval c) (trade_view (tc_inProgress c)) (tr_timestamp m)
       then [(trade_view (tc_inProgress c),
         time_clip ((fst (snd (trade_view (tc_inProgress c))) div tc_interval c + 1) * tc_interval c))]
       else [])"
    and "snd (trade_flush m c) = c \<or> tb_trades (tc_inProgress (snd (trade_flush m c))) = 0"
    and "bucket_due (tc_interval c) (trade_view (tc_inProgress c)) (tr_timestamp m) \<Longrightarrow>
      tb_trades (tc_inProgress (snd (trade_flush m c))) = 0"
    and "\<not> bucket_due (tc_interval c) (trade_view (tc_inProgress c)) (tr_timestamp m) \<Longrightarrow>
      trade_flush m c = ([], c)"
  by (simp_all add: trade_flush_def trade_hasNewBucket_due [OF assms] trade_computeBucket_def
      trade_reset_def trade_view_def)

text \<open>The check after the update never yields.\<close>

lemma option_update_view:
  "option_view (oc_inProgress (option_update m c)) =
    (if ob_summaries (oc_inProgress c) = 0 then (1, os_timestamp m, option_content m)
     else (ob_summaries (oc_inProgress c) + 1, ob_openTimestamp (oc_inProgress c), option_content m))"
  by (simp add: option_update_def option_view_def option_content_def Let_def)

lemma trade_update_view:
  "trade_view (tc_inProgress (trade_update m c)) =
    (if tb_trades (tc_inProgress c) = 0 then (1, tr_timestamp m, trade_content m)
     else (tb_trades (tc_inProgress c) + 1, tb_openTimestamp (tc_inProgress c), trade_content m))"
  by (simp add: trade_update_def trade_view_def trade_content_def Let_def)

lemma option_compute_eq:
  assumes "0 < oc_interval c"
  shows "option_compute m c =
    (fst (option_flush m c),
     if os_type m = ''option_summary'' then option_update m (snd (option_flush m c))
     else snd (option_flush m c))"
proof -
  obtain ys c1 where f: "option_flush m c = (ys, c1)" by force
  have k: "oc_interval c1 = oc_interval c" using option_interval(3) [of m c] by (simp add: f)
  have "\<not> bucket_due (oc_interval c) (option_view (oc_inProgress (option_update m c1))) (os_timestamp m)"
    using option_flush_view(2,3) [OF assms, of m] unfolding f
    by (auto simp: option_update_view bucket_due_def)
  then have "option_flush m (option_update m c1) = ([], option_update m c1)"
    using option_flush_view(4) [of "option_update m c1" m] assms by (simp add: k)
  then show ?thesis by (simp add: option_compute_def f)
qed

lemma trade_compute_eq:
  assumes "0 < tc_interval c"
  shows "trade_compute m c =
    (fst (trade_flush m c),
     if tr_type m = ''trade'' then trade_update m (snd (trade_flush m c)) else snd (trade_flush m c))"
proof -
  obtain ys c1 where f: "trade_flush m c = (ys, c1)" by force
  have k: "tc_interval c1 = tc_interval c" using trade_interval(3) [of m c] by (simp add: f)
  have "\<not> bucket_due (tc_interval c) (trade_view (tc_inProgress (trade_update m c1))) (tr_timestamp m)"
    using trade_flush_view(2,3) [OF assms, of m] unfolding f
    by (auto simp: trade_update_view bucket_due_def)
  then have "trade_flush m (trade_update m c1) = ([], trade_update m c1)"
    using trade_flush_view(4) [of "trade_update m c1" m] assms by (simp add: k)
  then show ?thesis by (simp add: trade_compute_def f)
qed

lemma option_compute_view:
  assumes "0 < oc_interval c"
  shows "os_type m = ''option_summary'' \<Longrightarrow> option_view (oc_inProgress (snd (option_compute m c))) =
      (if bucket_due (oc_interval c) (option_view (oc_inProgress c)) (os_timestamp m)
          \<or> ob_summaries (oc_inProgress c) = 0
       then (1, os_timestamp m, option_content m)
       else (ob_summaries (oc_inProgress c) + 1, ob_openTimestamp (oc_inProgress c), option_content m))"
    and "os_type m \<noteq> ''option_summary'' \<Longrightarrow> ob_summaries (oc_inProgress (snd (option_compute m c))) =
      (if bucket_due (oc_interval c) (option_view (oc_inProgress c)) (os_timestamp m) then 0
       else ob_summaries (oc_inProgress c))"
  using option_flush_view(3,4) [OF assms, of m]
  by (cases "bucket_due (oc_interval c) (option_view (oc_inProgress c)) (os_timestamp m)";
      simp add: option_compute_eq [OF assms] option_update_view)+

lemma trade_compute_view:
  assumes "0 < tc_interval c"
  shows "tr_type m = ''trade'' \<Longrightarrow> trade_view (tc_inProgress (snd (trade_compute m c))) =
      (if bucket_due (tc_interval c) (trade_view (tc_inProgress c)) (tr_timestamp m)
          \<or> tb_trades (tc_inProgress c) = 0
       then (1, tr_timestamp m, trade_content m)
       else (tb_trades (tc_inProgress c) + 1, tb_openTimestamp (tc_inProgress c), trade_content m))"
    and "tr_type m \<noteq> ''trade'' \<Longrightarrow> tb_trades (tc_inProgress (snd (trade_compute m c))) =
      (if bucket_due (tc_interval c) (trade_view (tc_inProgress c)) (tr_timestamp m) then 0
       else tb_trades (tc_inProgress c))"
  using trade_flush_view(3,4) [OF assms, of m]
  by (cases "bucket_due (tc_interval c) (trade_view (tc_inProgress c)) (tr_timestamp m)";
      simp add: trade_compute_eq [OF assms] trade_update_view)+

lemma compute_interval:
  "oc_interval (snd (option_compute m c)) = oc_interval c"
  "tc_interval (snd (trade_compute n d)) = tc_interval d"
  by (auto simp: option_compute_def trade_compute_def split: prod.splits)
    (metis option_interval(2,3) trade_interval(2,3) snd_conv)+

interpretation options: bucketing option_compute "\<lambda>m. os_type m = ''option_summary''" os_timestamp
  option_content oc_interval "\<lambda>c. option_view (oc_inProgress c)" option_view ob_timestamp
proof unfold_locales
  show "0 < oc_interval s \<Longrightarrow> map (\<lambda>b. (option_view b, ob_timestamp b)) (fst (option_compute m s)) =
      (if bucket_due (oc_interval s) (option_view (oc_inProgress s)) (os_timestamp m)
       then [(option_view (oc_inProgress s),
         time_clip ((fst (snd (option_view (oc_inProgress s))) div oc_interval s + 1) * oc_interval s))]
       else [])" for s m
    by (simp add: option_compute_eq option_flush_view(1))
qed (simp_all add: compute_interval option_compute_view)

interpretation trades: bucketing trade_compute "\<lambda>m. tr_type m = ''trade''" tr_timestamp
  trade_content tc_interval "\<lambda>c. trade_view (tc_inProgress c)" trade_view tb_timestamp
proof unfold_locales
  show "0 < tc_interval s \<Longrightarrow> map (\<lambda>b. (trade_view b, tb_timestamp b)) (fst (trade_compute m s)) =
      (if bucket_due (tc_interval s) (trade_view (tc_inProgress s)) (tr_timestamp m)
       then [(trade_view (tc_inProgress s),
         time_clip ((fst (snd (trade_view (tc_inProgress s))) div tc_interval s + 1) * tc_interval s))]
       else [])" for s m
    by (simp add: trade_compute_eq trade_flush_view(1))
qed (simp_all add: compute_interval trade_compute_view)

section \<open>Properties\<close>

lemma new_computable_view:
  "oc_interval (new_option_computable kind k name) = k"
  "ob_summaries (oc_inProgress (new_option_computable kind k name)) = 0"
  "tc_interval (new_trade_computable kind k name) = k"
  "tb_trades (tc_inProgress (new_trade_computable kind k name)) = 0"
  by (simp_all add: new_option_computable_def option_reset_def new_trade_computable_def trade_reset_def)

text \<open>C18: on option summaries in order of time, the buckets an OptionBucketComputable yields,
  followed by the one in progress, are exactly the runs of summaries of one interval: every
  bucket has the number of summaries of its run, the timestamp of the first one as open
  timestamp, the values of the last one with absent numbers as 0, and, when it is yielded, the
  end of its interval as timestamp.\<close>

theorem option_buckets_partition:
  assumes "0 < interval" "ms \<noteq> []" "list_all (\<lambda>m. os_type m = ''option_summary'') ms"
    and "sorted (map os_timestamp ms)"
    and "bucket_stream option_compute ms (new_option_computable kind interval name) = (bs, c)"
  shows "map option_view bs @ [option_view (oc_inProgress c)] =
      map (\<lambda>g. (int (length g), os_timestamp (hd g), option_content (last g)))
        (chunk_by (\<lambda>m. os_timestamp m div interval) ms)
    \<and> map ob_timestamp bs =
      map (\<lambda>g. time_clip ((os_timestamp (hd g) div interval + 1) * interval))
        (butlast (chunk_by (\<lambda>m. os_timestamp m div interval) ms))"
  using options.periods [of "new_option_computable kind interval name" ms] assms
  by (simp add: new_computable_view)

text \<open>The same for trades and TradeBucketComputable.\<close>

theorem trade_buckets_partition:
  assumes "0 < interval" "ms \<noteq> []" "list_all (\<lambda>m. tr_type m = ''trade'') ms"
    and "sorted (map tr_timestamp ms)"
    and "bucket_stream trade_compute ms (new_trade_computable kind interval name) = (bs, c)"
  shows "map trade_view bs @ [trade_view (tc_inProgress c)] =
      map (\<lambda>g. (int (length g), tr_timestamp (hd g), trade_content (last g)))
        (chunk_by (\<lambda>m. tr_timestamp m div interval) ms)
    \<and> map tb_timestamp bs =
      map (\<lambda>g. time_clip ((tr_timestamp (hd g) div interval + 1) * interval))
        (butlast (chunk_by (\<lambda>m. tr_timestamp m div interval) ms))"
  using trades.periods [of "new_trade_computable kind interval name" ms] assms
  by (simp add: new_computable_view)

text \<open>No summary is lost or counted twice, in whatever order messages arrive: the counts of
  the yielded buckets and of the one in progress add up to the number of option summaries; and a
  message yields at most one bucket, so the check after the update never fires.\<close>

theorem option_buckets_conserve:
  assumes "0 < interval"
    and "bucket_stream option_compute ms (new_option_computable kind interval name) = (bs, c)"
  shows "sum_list (map ob_summaries bs) + ob_summaries (oc_inProgress c) =
      int (length (filter (\<lambda>m. os_type m = ''option_summary'') ms))
    \<and> length (fst (option_compute m c)) \<le> 1"
proof -
  let ?c = "new_option_computable kind interval name"
  have "0 < oc_interval c"
    using options.interval_stream [of ms ?c] assms by (simp add: new_computable_view)
  then show ?thesis
    using options.conservation [of ?c ms] options.at_most_one [of c m] assms
    by (simp add: new_computable_view comp_def)
qed

definition sample_summary :: "int \<Rightarrow> option_summary" where
  "sample_summary t = \<lparr> os_type = ''option_summary'', os_symbol = ''ETH-6MAY22-3000-C'',
     os_exchange = ''deribit'', os_optionType = CallOption, os_strikePrice = Num 3000,
     os_expirationDate = 1651824000000, os_bestBidPrice = Some (Num 1), os_bestAskPrice = None,
     os_lastPrice = None, os_markPrice = None, os_markIV = Some (Num 80), os_delta = None,
     os_underlyingPrice = Some (Num 2900), os_timestamp = t, os_localTimestamp = t + 3 \<rparr>"

definition sample_trade :: "int \<Rightarrow> trade" where
  "sample_trade t = \<lparr> tr_type = ''trade'', tr_symbol = ''ETH-PERPETUAL'', tr_exchange = ''deribit'',
     tr_id = Some ''7'', tr_price = Num 3000, tr_timestamp = t, tr_localTimestamp = t + 3 \<rparr>"

lemma option_buckets_partition_witness:
  "\<exists>bs c. bucket_stream option_compute (map sample_summary [100, 900, 1000])
      (new_option_computable TimeKind 1000 None) = (bs, c)
    \<and> map ob_summaries bs @ [ob_summaries (oc_inProgress c)] = [2, 1]
    \<and> map ob_timestamp bs = [Some 1000]"
proof -
  obtain bs c where run: "bucket_stream option_compute (map sample_summary [100, 900, 1000])
      (new_option_computable TimeKind 1000 None) = (bs, c)" by force
  have *: "map option_view bs @ [option_view (oc_inProgress c)] =
      [(2, 100, option_content (sample_summary 900)), (1, 1000, option_content (sample_summary 1000))]
    \<and> map ob_timestamp bs = [time_clip 1000]"
    using option_buckets_partition [OF _ _ _ _ run] by (simp add: sample_summary_def)
  then have "map (\<lambda>v. fst v) (map option_view bs @ [option_view (oc_inProgress c)]) = [2, 1]" by (simp only:) simp
  then have "map ob_summaries bs @ [ob_summaries (oc_inProgress c)] = [2, 1]" by (simp only: map_append list.map list.map_comp comp_def view_parts)
  with run * show ?thesis by (intro exI [of _ bs] exI [of _ c]) (simp add: time_clip_def max_time_def)
qed

lemma trade_buckets_partition_witness:
  "\<exists>bs c. bucket_stream trade_compute (map sample_trade [100, 900, 1000])
      (new_trade_computable TimeKind 1000 None) = (bs, c)
    \<and> map tb_trades bs @ [tb_trades (tc_inProgress c)] = [2, 1]
    \<and> map tb_timestamp bs = [Some 1000]"
proof -
  obtain bs c where run: "bucket_stream trade_compute (map sample_trade [100, 900, 1000])
      (new_trade_computable TimeKind 1000 None) = (bs, c)" by force
  have *: "map trade_view bs @ [trade_view (tc_inProgress c)] =
      [(2, 100, trade_content (sample_trade 900)), (1, 1000, trade_content (sample_trade 1000))]
    \<and> map tb_timestamp bs = [time_clip 1000]"
    using trade_buckets_partition [OF _ _ _ _ run] by (simp add: sample_trade_def)
  then have "map (\<lambda>v. fst v) (map trade_view bs @ [trade_view (tc_inProgress c)]) = [2, 1]" by (simp only:) simp
  then have "map tb_trades bs @ [tb_trades (tc_inProgress c)] = [2, 1]" by (simp only: map_append list.map list.map_comp comp_def view_parts)
  with run * show ?thesis by (intro exI [of _ bs] exI [of _ c]) (simp add: time_clip_def max_time_def)
qed

lemma option_buckets_conserve_witness:
  "\<exists>bs c. bucket_stream option_compute (map sample_summary [900, 100, 1000])
      (new_option_computable TimeKind 1000 None) = (bs, c)
    \<and> sum_list (map ob_summaries bs) + ob_summaries (oc_inProgress c) = 3"
proof -
  obtain bs c where run: "bucket_stream option_compute (map sample_summary [900, 100, 1000])
      (new_option_computable TimeKind 1000 None) = (bs, c)" by force
  with option_buckets_conserve [OF _ run] show ?thesis by (simp add: sample_summary_def)
qed

end
