(* ===== verification/Dayjs.thy ===== *)
theory Dayjs
  imports JsDate
begin

text \<open>
  The interface of \<^verbatim>\<open>dayjs\<close> (UTC mode) as the services use it.  The package is not
  part of the repository, so the definitions that call it take a \<open>dayjs_lib\<close>, one field per
  operation; the locale \<open>dayjs_utc\<close> states the documented behaviour that the properties
  rely on, for instants with a four-digit year.  Years are added by the calendar, which the code never
  does and the interface leaves open; as a duration a year has 365 days.  \<open>utc_dayjs\<close> is an
  instance on time values.
\<close>

datatype dj_unit = Ms | Second | Minute | Hour | Day | Week | Year

fun unit_ms :: "dj_unit \<Rightarrow> int" where
  "unit_ms Ms = 1"
| "unit_ms Second = 1000"
| "unit_ms Minute = 60000"
| "unit_ms Hour = 3600000"
| "unit_ms Day = 86400000"
| "unit_ms Week = 604800000"
| "unit_ms Year = 31536000000"

record dayjs_lib =
  dj_utc :: "string \<Rightarrow> jsdate"
  dj_of_date :: "jsdate \<Rightarrow> jsdate"
  dj_start_of :: "dj_unit \<Rightarrow> jsdate \<Rightarrow> jsdate"
  dj_add :: "jsnum \<Rightarrow> dj_unit \<Rightarrow> jsdate \<Rightarrow> jsdate"
  dj_set_hour :: "int \<Rightarrow> jsdate \<Rightarrow> jsdate"
  dj_day :: "jsdate \<Rightarrow> int option"
  dj_hour :: "jsdate \<Rightarrow> int option"
  dj_second :: "jsdate \<Rightarrow> int option"
  dj_diff :: "jsdate \<Rightarrow> jsdate \<Rightarrow> int option"
  dj_is_same :: "jsdate \<Rightarrow> jsdate \<Rightarrow> bool"
  dj_is_before :: "jsdate \<Rightarrow> jsdate \<Rightarrow> bool"
  dj_is_after :: "jsdate \<Rightarrow> jsdate \<Rightarrow> bool"
  dj_is_same_or_after :: "jsdate \<Rightarrow> jsdate \<Rightarrow> bool"
  dj_unix :: "jsdate \<Rightarrow> int option"
  dj_to_iso :: "jsdate \<Rightarrow> string result"
  dj_duration_ms :: "jsnum \<Rightarrow> dj_unit \<Rightarrow> jsnum"

abbreviation dj_add_int :: "dayjs_lib \<Rightarrow> int \<Rightarrow> dj_unit \<Rightarrow> jsdate \<Rightarrow> jsdate" where
  "dj_add_int D n u d \<equiv> dj_add D (Num (of_int n)) u d"

locale dayjs_utc =
  fixes D :: dayjs_lib
  assumes utc_iso: "four_digit_year t \<Longrightarrow> dj_utc D (iso_string t) = Some t"
    and of_date: "four_digit_year t \<Longrightarrow> dj_of_date D (Some t) = Some t"
    and start_of: "four_digit_year t \<Longrightarrow> u \<in> {Second, Minute, Hour} \<Longrightarrow>
      dj_start_of D u (Some t) = Some (t - t mod unit_ms u)"
    and add_int: "four_digit_year t \<Longrightarrow> four_digit_year (t + n * unit_ms u) \<Longrightarrow> u \<noteq> Year \<Longrightarrow>
      dj_add_int D n u (Some t) = Some (t + n * unit_ms u)"
    and set_hour: "four_digit_year t \<Longrightarrow> 0 \<le> h \<Longrightarrow> h \<le> 23 \<Longrightarrow>
      dj_set_hour D h (Some t) = Some (day_of t * msPerDay + h * msPerHour + t mod msPerHour)"
    and day: "four_digit_year t \<Longrightarrow> dj_day D (Some t) = Some (utc_day t)"
    and hour: "four_digit_year t \<Longrightarrow> dj_hour D (Some t) = Some (utc_hours t)"
    and second: "four_digit_year t \<Longrightarrow> dj_second D (Some t) = Some (utc_seconds t)"
    and diff: "four_digit_year t \<Longrightarrow> four_digit_year u' \<Longrightarrow>
      dj_diff D (Some t) (Some u') = Some (t - u')"
    and is_same: "four_digit_year t \<Longrightarrow> four_digit_year u' \<Longrightarrow>
      dj_is_same D (Some t) (Some u') \<longleftrightarrow> t = u'"
    and is_before: "four_digit_year t \<Longrightarrow> four_digit_year u' \<Longrightarrow>
      dj_is_before D (Some t) (Some u') \<longleftrightarrow> t < u'"
    and is_after: "four_digit_year t \<Longrightarrow> four_digit_year u' \<Longrightarrow>
      dj_is_after D (Some t) (Some u') \<longleftrightarrow> u' < t"
    and is_same_or_after: "four_digit_year t \<Longrightarrow> four_digit_year u' \<Longrightarrow>
      dj_is_same_or_after D (Some t) (Some u') \<longleftrightarrow> u' \<le> t"
    and unix: "four_digit_year t \<Longrightarrow> dj_unix D (Some t) = Some (t div 1000)"
    and to_iso: "four_digit_year t \<Longrightarrow> dj_to_iso D (Some t) = Inr (iso_string t)"
    and duration: "dj_duration_ms D (Num (of_int n)) u = Num (of_int (n * unit_ms u))"
begin

lemma add_days:
  "four_digit_year t \<Longrightarrow> four_digit_year (t + n * msPerDay) \<Longrightarrow>
    dj_add_int D n Day (Some t) = Some (t + n * msPerDay)"
  using add_int [of t n Day] by simp

lemma round_trip:
  "four_digit_year t \<Longrightarrow> res_bind (dj_to_iso D (Some t)) (\<lambda>s. Inr (dj_utc D s)) = Inr (Some t)"
  by (simp add: to_iso utc_iso)

end

definition num_to_int :: "jsnum \<Rightarrow> int option" where
  "num_to_int x = (case x of Num r \<Rightarrow> Some \<lfloor>r\<rfloor> | _ \<Rightarrow> None)"

definition utc_dayjs :: dayjs_lib where
  "utc_dayjs = \<lparr>
     dj_utc = parse_iso (\<lambda>_. None),
     dj_of_date = (\<lambda>d. d),
     dj_start_of = (\<lambda>u. map_option (\<lambda>t. t - t mod unit_ms u)),
     dj_add = (\<lambda>n u d. case (num_to_int n, d) of
        (Some k, Some t) \<Rightarrow> time_clip (t + k * unit_ms u) | _ \<Rightarrow> None),
     dj_set_hour = (\<lambda>h. map_option (\<lambda>t. day_of t * msPerDay + h * msPerHour + t mod msPerHour)),
     dj_day = map_option utc_day,
     dj_hour = map_option utc_hours,
     dj_second = map_option utc_seconds,
     dj_diff = date_diff,
     dj_is_same = date_same,
     dj_is_before = date_lt,
     dj_is_after = (\<lambda>a b. date_lt b a),
     dj_is_same_or_after = (\<lambda>a b. date_le b a),
     dj_unix = map_option (\<lambda>t. t div 1000),
     dj_to_iso = to_iso_string,
     dj_duration_ms = (\<lambda>n u. num_scale (of_int (unit_ms u)) n) \<rparr>"

interpretation utc: dayjs_utc utc_dayjs
  by unfold_locales
    (auto simp: utc_dayjs_def parse_iso_string time_clip_four_digit num_to_int_def mult.commute)

end
