(* ===== verification/TimePeriod.thy ===== *)
theory TimePeriod
  imports Dayjs
begin

text \<open>
  \<^verbatim>\<open>src/lib/constants.ts\<close>, \<^verbatim>\<open>src/lib/utils/time_period.ts\<close>,
  \<^verbatim>\<open>date.ts\<close> and \<^verbatim>\<open>ensure.ts\<close>: the time constants, the
  \<^verbatim>\<open>"14D"\<close> notation, and the small helpers every service uses.  The string to
  number conversion is the language's own.
\<close>

section \<open>Constants\<close>

definition MILLISECONDS_PER_SECOND :: int where
  "MILLISECONDS_PER_SECOND = 1000"

definition MILLISECONDS_PER_MINUTE :: int where
  "MILLISECONDS_PER_MINUTE = MILLISECONDS_PER_SECOND * 60"

definition MILLISECONDS_PER_HOUR :: int where
  "MILLISECONDS_PER_HOUR = MILLISECONDS_PER_MINUTE * 60"

definition MILLISECONDS_PER_DAY :: int where
  "MILLISECONDS_PER_DAY = MILLISECONDS_PER_HOUR * 24"

definition MILLISECONDS_PER_WEEK :: int where
  "MILLISECONDS_PER_WEEK = MILLISECONDS_PER_DAY * 7"

definition MILLISECONDS_PER_YEAR :: int where
  "MILLISECONDS_PER_YEAR = MILLISECONDS_PER_WEEK * 52"

lemma ms_per_day [simp]: "MILLISECONDS_PER_DAY = msPerDay"
  by (simp add: MILLISECONDS_PER_DAY_def MILLISECONDS_PER_HOUR_def MILLISECONDS_PER_MINUTE_def
      MILLISECONDS_PER_SECOND_def)

section \<open>Strings to numbers\<close>

definition is_space :: "char \<Rightarrow> bool" where
  "is_space c = (let n = (of_char c :: nat) in n = 32 \<or> (9 \<le> n \<and> n \<le> 13))"

definition trim_start :: "string \<Rightarrow> string" where
  "trim_start s = dropWhile is_space s"

definition trim :: "string \<Rightarrow> string" where
  "trim s = rev (dropWhile is_space (rev (dropWhile is_space s)))"

text \<open>The digits before a character class and what follows them.\<close>

definition exponent_value :: "string \<Rightarrow> int option" where
  "exponent_value s =
     (case s of
        [] \<Rightarrow> None
      | c # ds \<Rightarrow>
          if c = CHR ''-'' then (if ds \<noteq> [] \<and> list_all is_digit ds then Some (- dec_val ds) else None)
          else if c = CHR ''+'' then (if ds \<noteq> [] \<and> list_all is_digit ds then Some (dec_val ds) else None)
          else if list_all is_digit s then Some (dec_val s) else None)"

definition pow10 :: "int \<Rightarrow> real" where
  "pow10 e = (if 0 \<le> e then 10 ^ nat e else 1 / 10 ^ nat (- e))"

text \<open>An unsigned decimal literal: digits, an optional fraction, an optional exponent.\<close>

definition unsigned_decimal :: "string \<Rightarrow> jsnum" where
  "unsigned_decimal s =
     (if s = ''Infinity'' then PosInf
      else
        let mant = takeWhile (\<lambda>c. c \<noteq> CHR ''e'' \<and> c \<noteq> CHR ''E'') s;
            expo = drop (length mant) s;
            ip = takeWhile (\<lambda>c. c \<noteq> CHR ''.'') mant;
            fp = drop (Suc (length ip)) mant
        in case (if expo = [] then Some 0 else exponent_value (tl expo)) of
             None \<Rightarrow> NaN
           | Some e \<Rightarrow>
               if list_all is_digit ip \<and> list_all is_digit fp \<and> (ip \<noteq> [] \<or> fp \<noteq> [])
               then Num (of_int (dec_val (ip @ fp)) * pow10 (e - int (length fp)))
               else NaN)"

definition radix_digit :: "char \<Rightarrow> int" where
  "radix_digit c =
     (let n = int (of_char c) in
      if is_digit c then n - 48
      else if 97 \<le> n \<and> n \<le> 102 then n - 87
      else if 65 \<le> n \<and> n \<le> 70 then n - 55
      else 99)"

definition radix_number :: "int \<Rightarrow> string \<Rightarrow> jsnum" where
  "radix_number b ds =
     (if ds \<noteq> [] \<and> list_all (\<lambda>c. radix_digit c < b) ds
      then Num (of_int (foldl (\<lambda>acc c. b * acc + radix_digit c) 0 ds)) else NaN)"

text \<open>The unary plus on a string.\<close>

definition string_to_number :: "string \<Rightarrow> jsnum" where
  "string_to_number str =
     (let s = trim str in
      case s of
        [] \<Rightarrow> Num 0
      | c # r \<Rightarrow>
          if take 2 s = ''0x'' \<or> take 2 s = ''0X'' then radix_number 16 (drop 2 s)
          else if take 2 s = ''0o'' \<or> take 2 s = ''0O'' then radix_number 8 (drop 2 s)
          else if take 2 s = ''0b'' \<or> take 2 s = ''0B'' then radix_number 2 (drop 2 s)
          else if c = CHR ''-'' then num_neg (unsigned_decimal r)
          else if c = CHR ''+'' then unsigned_decimal r
          else unsigned_decimal s)"

text \<open>\<^verbatim>\<open>parseInt(s, 10)\<close>: the longest digit prefix after blanks and a sign.\<close>

definition parse_int10 :: "string \<Rightarrow> jsnum" where
  "parse_int10 str =
     (let s = trim_start str;
          neg = (case s of c # _ \<Rightarrow> c = CHR ''-'' | [] \<Rightarrow> False);
          body = (case s of c # r \<Rightarrow> if c = CHR ''-'' \<or> c = CHR ''+'' then r else s | [] \<Rightarrow> []);
          ds = takeWhile is_digit body
      in if ds = [] then NaN
         else Num (of_int (if neg then - dec_val ds else dec_val ds)))"

lemma is_digit_not_space: "is_digit c \<Longrightarrow> \<not> is_space c"
  by (auto simp: is_digit_def is_space_def Let_def)

lemma digit_not_special:
  assumes "is_digit c"
  shows "c \<noteq> CHR ''D''" "c \<noteq> CHR ''e''" "c \<noteq> CHR ''E''" "c \<noteq> CHR ''.''" "c \<noteq> CHR ''-''"
    "c \<noteq> CHR ''+''" "c \<noteq> CHR ''x''" "c \<noteq> CHR ''X''" "c \<noteq> CHR ''o''" "c \<noteq> CHR ''O''"
    "c \<noteq> CHR ''b''" "c \<noteq> CHR ''B''" "c \<noteq> CHR ''I''" "c \<noteq> CHR ''T''" "c \<noteq> CHR '':''"
  using assms by (auto simp: is_digit_def)

lemma trim_digits: "list_all is_digit ds \<Longrightarrow> trim ds = ds"
proof -
  assume d: "list_all is_digit ds"
  have "dropWhile is_space xs = xs" if "list_all is_digit xs" for xs
    using that by (cases xs) (auto simp: is_digit_not_space)
  from this [OF d] this [of "rev ds"] d show ?thesis by (simp add: trim_def)
qed

lemma string_to_number_digits:
  assumes d: "list_all is_digit ds" and ne: "ds \<noteq> []"
  shows "string_to_number ds = Num (of_int (dec_val ds))"
proof -
  obtain c r where ds: "ds = c # r" and c: "is_digit c" using assms by (cases ds) auto
  have t: "takeWhile (\<lambda>c. c \<noteq> CHR ''e'' \<and> c \<noteq> CHR ''E'') ds = ds"
    "takeWhile (\<lambda>c. c \<noteq> CHR ''.'') ds = ds"
    using d by (auto simp: takeWhile_eq_all_conv list_all_iff digit_not_special)
  have "ds \<noteq> ''Infinity''" using ds c digit_not_special(13) by auto
  then have "unsigned_decimal ds = Num (of_int (dec_val ds))"
    unfolding unsigned_decimal_def Let_def t using d ne by (simp add: pow10_def)
  moreover have "take 2 ds \<noteq> ''0'' @ [x]" if "x \<in> set ''xXoObB''" for x
    using ds d that digit_not_special by (cases r) (auto dest: digit_not_special)
  then have "take 2 ds \<noteq> ''0x''" "take 2 ds \<noteq> ''0X''" "take 2 ds \<noteq> ''0o''" "take 2 ds \<noteq> ''0O''"
    "take 2 ds \<noteq> ''0b''" "take 2 ds \<noteq> ''0B''"
    by auto
  ultimately show ?thesis
    unfolding string_to_number_def Let_def trim_digits [OF d]
    using digit_not_special(5,6) [OF c] by (subst ds) simp
qed

section \<open>The time period notation\<close>

definition timePeriodToInteger :: "string \<Rightarrow> jsnum result" where
  "timePeriodToInteger timePeriod =
     (let end = index_of (CHR ''D'') timePeriod in
      if end = -1 \<or> end = 0
      then Inl (js_error ''Expected timePeriod to be of the format \"<number>D\"'')
      else
        let val = string_to_number (take (nat end) timePeriod) in
        if num_eq val (Num 0) then Inl (js_error ''Expected timePeriod to be > 0'')
        else Inr val)"

lemma timePeriodToInteger_digits:
  assumes "list_all is_digit ds" "ds \<noteq> []" "0 < dec_val ds"
  shows "timePeriodToInteger (ds @ CHR ''D'' # rest) = Inr (Num (of_int (dec_val ds)))"
proof -
  have "CHR ''D'' \<notin> set ds" using assms(1) by (auto simp: list_all_iff dest: digit_not_special(1))
  with assms show ?thesis
    by (simp add: timePeriodToInteger_def index_of_append string_to_number_digits)
qed

lemma timePeriodToInteger_no_D: "CHR ''D'' \<notin> set s \<Longrightarrow>
    timePeriodToInteger s = Inl (js_error ''Expected timePeriod to be of the format \"<number>D\"'')"
  by (simp add: timePeriodToInteger_def index_of_notin)

section \<open>Small helpers\<close>

text \<open>\<^verbatim>\<open>date.toISOString().replace(/\.\d{3}?Z$/, "Z")\<close>.\<close>

definition strip_ms :: "string \<Rightarrow> string" where
  "strip_ms s =
     (let n = length s in
      if 5 \<le> n \<and> drop (n - 1) s = ''Z'' \<and> s ! (n - 5) = CHR ''.''
         \<and> list_all is_digit (take 3 (drop (n - 4) s))
      then take (n - 5) s @ ''Z'' else s)"

definition toIsoNoMs :: "jsdate \<Rightarrow> string result" where
  "toIsoNoMs d = res_bind (to_iso_string d) (\<lambda>s. Inr (strip_ms s))"

text \<open>\<^verbatim>\<open>dayjs(date).unix()\<close>.\<close>

definition toUnixTimestamp :: "dayjs_lib \<Rightarrow> jsdate \<Rightarrow> int option" where
  "toUnixTimestamp D date = dj_unix D (dj_of_date D date)"

text \<open>\<^verbatim>\<open>ensure\<close>: the variable's value, else the default, else an error.\<close>

definition ensure :: "(string \<Rightarrow> string option) \<Rightarrow> string \<Rightarrow> string option \<Rightarrow> string result" where
  "ensure env envVar defaultValue =
     (let value = env (to_upper envVar) in
      if value = None \<and> defaultValue = None
      then Inl (js_error (''Environment variable '' @ envVar @ '' not set.''))
      else case value of
             Some v \<Rightarrow> Inr v
           | None \<Rightarrow> (case defaultValue of Some d \<Rightarrow> Inr d | None \<Rightarrow> Inl type_error))"

section \<open>Properties\<close>

text \<open>TimePeriodToInteger on a well-formed period, digits that are not all zero followed
  by the letter D, returns the number; without a D, or with a D in front, it throws.\<close>

theorem timePeriodToInteger_parses:
  "(list_all is_digit ds \<and> ds \<noteq> [] \<and> 0 < dec_val ds \<longrightarrow>
      timePeriodToInteger (ds @ CHR ''D'' # rest) = Inr (Num (of_int (dec_val ds))))
    \<and> (CHR ''D'' \<notin> set s \<longrightarrow>
      timePeriodToInteger s = Inl (js_error ''Expected timePeriod to be of the format \"<number>D\"''))
    \<and> timePeriodToInteger (CHR ''D'' # rest) =
        Inl (js_error ''Expected timePeriod to be of the format \"<number>D\"'')"
  using timePeriodToInteger_digits timePeriodToInteger_no_D
  by (auto simp: timePeriodToInteger_def)

lemma timePeriodToInteger_parses_witness:
  "timePeriodToInteger ''14D'' = Inr (Num 14)
    \<and> timePeriodToInteger ''14d'' = Inl (js_error ''Expected timePeriod to be of the format \"<number>D\"'')"
  using timePeriodToInteger_parses [of "''14''" "[]" "''14d''"]
  by (simp add: is_digit_def dec_val_def digit_val_def)

text \<open>The guard of timePeriodToInteger rejects the value 0 only.  A prefix that is no number
  yields NaN and a negative one a negative number of days, in spite of the message that expects
  a value above 0.\<close>

theorem timePeriodToInteger_unguarded:
  "timePeriodToInteger ''abcD'' = Inr NaN \<and> timePeriodToInteger ''-5D'' = Inr (Num (-5))
    \<and> timePeriodToInteger ''0D'' = Inl (js_error ''Expected timePeriod to be > 0'')"
  by code_simp

end
