(* ===== verification/MfivDates.thy ===== *)
theory MfivDates
  imports TimePeriod
begin

text \<open>
  \<^verbatim>\<open>src/lib/expiries.ts\<close>: the near and next expiries of the MFIV index and the
  rollover instant, computed from a date, a time period and an expiry type such as
  \<^verbatim>\<open>FridayT08:00:00Z\<close>.
\<close>

section \<open>The code\<close>

record expiry_ordinals =
  expiryDay :: int
  expiryHour :: jsnum
  expiryMin :: jsnum
  expirySec :: jsnum

record mfiv_expiry =
  nearExpiration :: string
  nextExpiration :: string
  rollover :: string
  expiry_asset :: "string option"

definition FridayT08 :: string where
  "FridayT08 = ''FridayT08:00:00Z''"

text \<open>\<^verbatim>\<open>xs.indexOf(x)\<close> on an array.\<close>

fun list_index_of :: "'a \<Rightarrow> 'a list \<Rightarrow> int" where
  "list_index_of x [] = -1"
| "list_index_of x (y # ys) =
     (if y = x then 0 else let i = list_index_of x ys in if i = -1 then -1 else i + 1)"

text \<open>A destructured position that is absent is \<^verbatim>\<open>undefined\<close>, hence
  \<^verbatim>\<open>NaN\<close> as a number.\<close>

definition num_at :: "jsnum list \<Rightarrow> nat \<Rightarrow> jsnum" where
  "num_at xs i = (if i < length xs then xs ! i else NaN)"

definition expiryTypeToOrdinals :: "string \<Rightarrow> expiry_ordinals result" where
  "expiryTypeToOrdinals expiryFmt =
     (let parts = split_on (CHR ''T'') expiryFmt;
          dowToOrd = [''Monday'', ''Tuesday'', ''Wednesday'', ''Thursday'', ''Friday'',
            ''Saturday'', ''Sunday'']
      in case parts of
           expireDayOfWeek # expireTime # _ \<Rightarrow>
             (let dayOrd = list_index_of expireDayOfWeek dowToOrd + 1;
                  nums = map parse_int10 (split_on (CHR '':'') expireTime)
              in Inr \<lparr> expiryDay = dayOrd, expiryHour = num_at nums 0, expiryMin = num_at nums 1,
                   expirySec = num_at nums 2 \<rparr>)
         | _ \<Rightarrow> Inl type_error)"

text \<open>\<^verbatim>\<open>new Date(d.valueOf() + k)\<close>.\<close>

definition date_plus :: "jsdate \<Rightarrow> jsnum \<Rightarrow> jsdate" where
  "date_plus d k = new_date (num_add (num_of_date d) k)"

definition nextExpirationDate :: "jsdate \<Rightarrow> jsnum \<Rightarrow> string \<Rightarrow> jsdate result" where
  "nextExpirationDate dateMs timePeriod expiryType =
     res_bind (expiryTypeToOrdinals expiryType) (\<lambda>expiryMatch.
       let targetDate = date_plus dateMs (num_scale (of_int MILLISECONDS_PER_DAY) timePeriod);
           targetDay = map_option utc_day targetDate;
           targetHour = (case targetDate of None \<Rightarrow> NaN | Some t \<Rightarrow> Num (of_int (utc_hours t)));
           nextDate =
             (if targetDay = Some (expiryDay expiryMatch) \<and> num_le (expiryHour expiryMatch) targetHour
              then date_plus dateMs (Num (of_int (21 * MILLISECONDS_PER_DAY)))
              else if targetDay = Some (expiryDay expiryMatch + 1)
              then date_plus dateMs (Num (of_int (20 * MILLISECONDS_PER_DAY)))
              else (case dateMs of
                      None \<Rightarrow> None
                    | Some t \<Rightarrow>
                        date_plus dateMs (Num (of_int ((19 - utc_day t) * MILLISECONDS_PER_DAY)))))
       in Inr (set_utc_hours nextDate (expiryHour expiryMatch) (expiryMin expiryMatch)
            (expirySec expiryMatch) (Num 0)))"

definition mfivDates :: "jsdate \<Rightarrow> string \<Rightarrow> string \<Rightarrow> string option \<Rightarrow> mfiv_expiry result" where
  "mfivDates now timePeriod expiryType asset =
     res_bind (timePeriodToInteger timePeriod) (\<lambda>tp.
     res_bind (nextExpirationDate now tp expiryType) (\<lambda>nextDate.
       let nearDate = date_plus nextDate (Num (of_int (- 7 * MILLISECONDS_PER_DAY)));
           roll = date_plus nextDate (Num (of_int (- 14 * MILLISECONDS_PER_DAY)))
       in res_bind (to_iso_string nearDate) (\<lambda>near.
          res_bind (to_iso_string nextDate) (\<lambda>next.
          res_bind (to_iso_string roll) (\<lambda>rl.
            Inr \<lparr> nearExpiration = near, nextExpiration = next, rollover = rl,
                  expiry_asset = asset \<rparr>)))))"

section \<open>The Friday schedule\<close>

text \<open>The specification: the first Friday 08:00:00.000 UTC strictly after an instant.\<close>

abbreviation msPerWeek :: int where "msPerWeek \<equiv> 604800000"

definition is_friday8 :: "int \<Rightarrow> bool" where
  "is_friday8 t = (utc_day t = 5 \<and> t mod msPerDay = 8 * msPerHour)"

text \<open>1970-01-02 08:00 UTC was such an instant.\<close>

definition friday8_origin :: int where
  "friday8_origin = msPerDay + 8 * msPerHour"

definition next_friday8 :: "int \<Rightarrow> int" where
  "next_friday8 t = t + msPerWeek - (t - friday8_origin) mod msPerWeek"

lemma is_friday8_day: "is_friday8 (e * msPerDay + 8 * msPerHour) \<longleftrightarrow> (e - 1) mod 7 = 0"
proof -
  have "(e + 4) mod 7 = 5 \<longleftrightarrow> (e - 1) mod 7 = 0" by presburger
  then show ?thesis by (simp add: is_friday8_def utc_day_def day_of_def)
qed

lemma is_friday8_mod: "is_friday8 t \<longleftrightarrow> (t - friday8_origin) mod msPerWeek = 0"
proof
  assume f: "is_friday8 t"
  then have t: "t = (t div msPerDay) * msPerDay + 8 * msPerHour"
    using mult_div_mod_eq [of msPerDay t] by (simp add: is_friday8_def)
  with f have "(t div msPerDay - 1) mod 7 = 0" by (metis is_friday8_day)
  then obtain k where "t div msPerDay = 7 * k + 1" by (auto simp: mod_eq_0_iff_dvd algebra_simps)
  with t have "t - friday8_origin = msPerWeek * k" by (simp add: friday8_origin_def)
  then show "(t - friday8_origin) mod msPerWeek = 0" by simp
next
  assume "(t - friday8_origin) mod msPerWeek = 0"
  then obtain k where "t - friday8_origin = msPerWeek * k" by (auto simp: mod_eq_0_iff_dvd)
  then have "t = (7 * k + 1) * msPerDay + 8 * msPerHour" by (simp add: friday8_origin_def)
  then show "is_friday8 t" using is_friday8_day [of "7 * k + 1"] by simp
qed

lemma next_friday8_props:
  "is_friday8 (next_friday8 t)" "t < next_friday8 t" "next_friday8 t \<le> t + msPerWeek"
proof -
  define r where "r = (t - friday8_origin) mod msPerWeek"
  have r: "0 \<le> r" "r < msPerWeek" by (simp_all add: r_def)
  then show "t < next_friday8 t" "next_friday8 t \<le> t + msPerWeek"
    by (simp_all add: next_friday8_def r_def [symmetric])
  have "next_friday8 t - friday8_origin = (t - friday8_origin - r) + msPerWeek"
    by (simp add: next_friday8_def r_def)
  then have "(next_friday8 t - friday8_origin) mod msPerWeek = (t - friday8_origin - r) mod msPerWeek"
    by (simp only: mod_add_self2)
  then show "is_friday8 (next_friday8 t)"
    unfolding is_friday8_mod by (simp add: r_def mod_diff_right_eq)
qed

lemma next_friday8_unique:
  assumes "is_friday8 u" "t < u" "u \<le> t + msPerWeek"
  shows "u = next_friday8 t"
proof -
  obtain j k where jk: "u - friday8_origin = msPerWeek * j"
    "next_friday8 t - friday8_origin = msPerWeek * k"
    using assms(1) next_friday8_props(1) [of t] unfolding is_friday8_mod mod_eq_0_iff_dvd
    by (auto elim!: dvdE)
  have "j < k + 1" "k < j + 1"
    using jk assms next_friday8_props [of t] by linarith+
  then have "j = k" by simp
  with jk show ?thesis by simp
qed

lemma expiry_ordinals_FridayT08:
  "expiryTypeToOrdinals FridayT08 =
    Inr \<lparr> expiryDay = 5, expiryHour = Num 8, expiryMin = Num 0, expirySec = Num 0 \<rparr>"
proof -
  have "expiryTypeToOrdinals FridayT08 =
      Inr \<lparr> expiryDay = 5, expiryHour = parse_int10 ''08'', expiryMin = parse_int10 ''00'',
        expirySec = parse_int10 ''00Z'' \<rparr>"
    by (simp add: expiryTypeToOrdinals_def FridayT08_def num_at_def)
  moreover have "parse_int10 ''08'' = Num 8" "parse_int10 ''00'' = Num 0" "parse_int10 ''00Z'' = Num 0"
    by (simp_all add: parse_int10_def trim_start_def is_space_def is_digit_def dec_val_def digit_val_def)
  ultimately show ?thesis by simp
qed

lemma date_plus_int [simp]: "date_plus (Some t) (Num (of_int k)) = time_clip (t + k)"
  by (metis date_plus_def new_date_of_int num_add.simps(13) num_of_date_def of_int_add option.simps(5) add.commute)

lemma set_utc_hours_8:
  "set_utc_hours (Some u) (Num 8) (Num 0) (Num 0) (Num 0) = time_clip (day_of u * msPerDay + 8 * msPerHour)"
proof -
  have "trunc_real 8 = 8" using trunc_real_of_int [of 8] by simp
  moreover have "trunc_real 0 = 0" using trunc_real_of_int [of 0] by simp
  ultimately show ?thesis by (simp add: set_utc_hours_def int_of_num_def)
qed

text \<open>Adding whole weeks does not change the weekday or the hour.\<close>

lemma weeks_shift:
  "utc_day (t + 7 * k * msPerDay) = utc_day t" "utc_hours (t + 7 * k * msPerDay) = utc_hours t"
proof -
  have "day_of (t + 7 * k * msPerDay) + 4 = (day_of t + 4) + k * 7" by (simp add: day_of_def)
  then show "utc_day (t + 7 * k * msPerDay) = utc_day t" by (simp only: utc_day_def mod_mult_self1)
  have "(t + 7 * k * msPerDay) div msPerHour = t div msPerHour + (7 * k) * 24"
    using div_mult_self1 [of msPerHour t "7 * k * 24"] by (simp add: algebra_simps)
  then show "utc_hours (t + 7 * k * msPerDay) = utc_hours t"
    by (simp only: utc_hours_def mod_mult_self1)
qed

lemma utc_hours_day: "0 \<le> r \<Longrightarrow> r < msPerDay \<Longrightarrow> utc_hours (d * msPerDay + r) = r div msPerHour"
proof -
  assume r: "0 \<le> r" "r < msPerDay"
  have "(d * msPerDay + r) div msPerHour = (r + (d * 24) * msPerHour) div msPerHour"
    by (simp add: algebra_simps)
  also have "\<dots> = r div msPerHour + d * 24" by (simp only: div_mult_self1)
  finally have "utc_hours (d * msPerDay + r) = (r div msPerHour) mod 24"
    by (simp only: utc_hours_def mod_mult_self1)
  moreover have "0 \<le> r div msPerHour" "r div msPerHour < 24"
    using r by (auto simp: pos_imp_zdiv_nonneg_iff div_less_iff_less_mult)
  ultimately show ?thesis by simp
qed

text \<open>The three branches of the code, as the distance in days to the next Friday.\<close>

lemma friday_offset:
  assumes n: "n = (if utc_day t = 5 \<and> 8 \<le> utc_hours t then 21
    else if utc_day t = 6 then 20 else 19 - utc_day t)"
  shows "(day_of t + n) * msPerDay + 8 * msPerHour = next_friday8 t + 2 * msPerWeek"
proof -
  define e where "e = day_of t + n - 14"
  define r where "r = t mod msPerDay"
  have t: "t = day_of t * msPerDay + r" and r: "0 \<le> r" "r < msPerDay"
    by (simp_all add: day_of_def r_def)
  have "utc_hours t = r div msPerHour" using utc_hours_day [OF r, of "day_of t"] t by simp
  then have h: "8 \<le> utc_hours t \<longleftrightarrow> 8 * msPerHour \<le> r"
    using div_bounds [of msPerHour r] by auto
  obtain q where q: "day_of t = 7 * q + utc_day t - 4"
    using mult_div_mod_eq [of 7 "day_of t + 4"] unfolding utc_day_def by (metis add_diff_cancel_right')
  have w: "0 \<le> utc_day t" "utc_day t \<le> 6" by (rule utc_day_range)+
  have "e - 1 = 7 * (if utc_day t = 5 \<and> 8 \<le> utc_hours t then q + 1
      else if utc_day t = 6 then q + 1 else q)"
    using q by (auto simp: e_def n)
  then have m: "(e - 1) mod 7 = 0" by simp
  have rng: "t < e * msPerDay + 8 * msPerHour \<and> e * msPerDay + 8 * msPerHour \<le> t + msPerWeek"
  proof (cases "utc_day t = 5 \<and> 8 \<le> utc_hours t")
    case True
    then have "e = day_of t + 7" by (simp add: e_def n)
    then show ?thesis using True h t r by simp
  next
    case False
    then have "e = day_of t + (if utc_day t = 6 then 6 else 5 - utc_day t)" by (simp add: e_def n)
    moreover have "utc_day t = 5 \<Longrightarrow> r < 8 * msPerHour" using False h by simp
    ultimately show ?thesis using t r w by (cases "utc_day t = 5"; cases "utc_day t = 6") auto
  qed
  have "e * msPerDay + 8 * msPerHour = next_friday8 t"
    by (rule next_friday8_unique [OF iffD2 [OF is_friday8_day m] conjunct1 [OF rng] conjunct2 [OF rng]])
  then show ?thesis by (simp add: e_def algebra_simps)
qed

section \<open>The dates the code computes\<close>

lemma nextExpirationDate_weeks:
  assumes target: "\<bar>t + 7 * k * msPerDay\<bar> \<le> max_time" and room: "\<bar>t\<bar> + 22 * msPerDay \<le> max_time"
  shows "nextExpirationDate (Some t) (Num (of_int (7 * k))) FridayT08
    = Inr (Some (next_friday8 t + 2 * msPerWeek))"
proof -
  have "num_scale (of_int MILLISECONDS_PER_DAY) (Num (of_int (7 * k))) = Num (of_int (7 * k * msPerDay))"
    by (simp add: mult.commute)
  then have tgt: "date_plus (Some t) (num_scale (of_int MILLISECONDS_PER_DAY) (Num (of_int (7 * k))))
      = Some (t + 7 * k * msPerDay)"
    using target by (simp only: date_plus_int) (simp add: time_clip_def)
  define n where "n = (if utc_day t = 5 \<and> 8 \<le> utc_hours t then 21
    else if utc_day t = 6 then 20 else 19 - utc_day t)"
  have n: "13 \<le> n" "n \<le> 21" using utc_day_range [of t] by (auto simp: n_def)
  have clip: "time_clip (t + n * msPerDay) = Some (t + n * msPerDay)"
    using n room by (auto simp: time_clip_def abs_le_iff)
  have "day_of (t + n * msPerDay) = day_of t + n" by (simp add: day_of_def)
  then have "day_of (t + n * msPerDay) * msPerDay + 8 * msPerHour = next_friday8 t + 2 * msPerWeek"
    by (simp only: friday_offset [OF n_def])
  moreover have "\<bar>next_friday8 t + 2 * msPerWeek\<bar> \<le> max_time"
    using next_friday8_props(2,3) [of t] room by (auto simp: abs_le_iff)
  ultimately have set: "set_utc_hours (Some (t + n * msPerDay)) (Num 8) (Num 0) (Num 0) (Num 0)
      = Some (next_friday8 t + 2 * msPerWeek)"
    by (simp only: set_utc_hours_8) (simp add: time_clip_def)
  have days: "date_plus (Some t) (Num (of_int (i * MILLISECONDS_PER_DAY))) = time_clip (t + i * msPerDay)" for i
    by (simp only: date_plus_int ms_per_day)
  have "num_le (Num 8) (Num (of_int (utc_hours t))) \<longleftrightarrow> 8 \<le> utc_hours t" by simp
  then have nd: "(if Some (utc_day t) = Some 5 \<and> num_le (Num 8) (Num (of_int (utc_hours t)))
      then time_clip (t + 21 * msPerDay)
      else if Some (utc_day t) = Some (5 + 1) then time_clip (t + 20 * msPerDay)
      else time_clip (t + (19 - utc_day t) * msPerDay)) = Some (t + n * msPerDay)"
    using clip by (cases "utc_day t = 5 \<and> 8 \<le> utc_hours t"; cases "utc_day t = 6") (auto simp: n_def)
  show ?thesis
    unfolding nextExpirationDate_def expiry_ordinals_FridayT08 res_bind_simps Let_def tgt days
      expiry_ordinals.simps option.map option.case weeks_shift nd set ..
qed

text \<open>For the enum's expiry type and a time period of whole weeks, in the range where every
  date involved has a four-digit year.\<close>

lemma mfivDates_weeks:
  assumes tp: "timePeriodToInteger timePeriod = Inr (Num (of_int (7 * k)))"
    and target: "\<bar>t + 7 * k * msPerDay\<bar> \<le> max_time"
    and room: "four_digit_year t" "four_digit_year (t + 22 * msPerDay)"
  shows "mfivDates (Some t) timePeriod FridayT08 asset =
    Inr \<lparr> nearExpiration = iso_string (next_friday8 t + msPerWeek),
          nextExpiration = iso_string (next_friday8 t + 2 * msPerWeek),
          rollover = iso_string (next_friday8 t), expiry_asset = asset \<rparr>"
proof -
  have room': "\<bar>t\<bar> + 22 * msPerDay \<le> max_time"
    using room by (auto simp: four_digit_year_def max_time_def)
  have fits: "\<bar>next_friday8 t\<bar> + msPerWeek \<le> max_time"
    using next_friday8_props(2,3) [of t] room by (auto simp: four_digit_year_def max_time_def)
  have minus: "date_plus (Some (next_friday8 t + 2 * msPerWeek)) (Num (of_int (- j * MILLISECONDS_PER_DAY)))
      = time_clip (next_friday8 t + 2 * msPerWeek - j * msPerDay)" for j
    by (simp only: date_plus_int ms_per_day minus_mult_left [symmetric] add_uminus_conv_diff)
  have near: "time_clip (next_friday8 t + 2 * msPerWeek - 7 * msPerDay) = Some (next_friday8 t + msPerWeek)"
    and roll: "time_clip (next_friday8 t + 2 * msPerWeek - 14 * msPerDay) = Some (next_friday8 t)"
    using fits by (auto simp: time_clip_def)
  show ?thesis
    unfolding mfivDates_def tp res_bind_simps nextExpirationDate_weeks [OF target room'] Let_def
      minus near roll to_iso_string_Some ..
qed

section \<open>Properties\<close>

text \<open>C37: mfivDates for the default expiry type and a period of whole weeks.  The rollover is
  the first Friday 08:00 UTC strictly after \<open>now\<close>, the near expiration the Friday one week
  later and the next expiration the one two weeks later, whatever the number of weeks asked
  for.\<close>

theorem mfivDates_fridays:
  assumes "timePeriodToInteger timePeriod = Inr (Num (of_int (7 * k)))"
    and "\<bar>t + 7 * k * msPerDay\<bar> \<le> max_time" "four_digit_year t" "four_digit_year (t + 22 * msPerDay)"
  shows "\<exists>f r. mfivDates (Some t) timePeriod FridayT08 asset = Inr r
    \<and> is_friday8 f \<and> t < f \<and> (\<forall>u. is_friday8 u \<and> t < u \<longrightarrow> f \<le> u)
    \<and> rollover r = iso_string f \<and> nearExpiration r = iso_string (f + 7 * msPerDay)
    \<and> nextExpiration r = iso_string (f + 14 * msPerDay) \<and> expiry_asset r = asset"
proof -
  have "next_friday8 t \<le> u" if "is_friday8 u" "t < u" for u
    using that next_friday8_unique [of u t] next_friday8_props(3) [of t] by (cases "u \<le> t + msPerWeek") auto
  then show ?thesis
    using mfivDates_weeks [OF assms] next_friday8_props [of t] by (intro exI [of _ "next_friday8 t"]) auto
qed

lemma mfivDates_fridays_witness:
  "\<exists>f r. mfivDates (Some 1651363200000) ''14D'' FridayT08 None = Inr r
    \<and> is_friday8 f \<and> 1651363200000 < f \<and> rollover r = iso_string f
    \<and> nextExpiration r = iso_string (f + 14 * msPerDay)"
proof -
  have "timePeriodToInteger ''14D'' = Inr (Num (of_int (7 * 2)))"
    using timePeriodToInteger_digits [of "''14''" "[]"] by (simp add: is_digit_def dec_val_def digit_val_def)
  from mfivDates_fridays [OF this, of 1651363200000 None] show ?thesis
    by (fastforce simp: four_digit_year_def max_time_def)
qed

end
