(* ===== verification/BuildExpiries.thy ===== *)
theory BuildExpiries
  imports TimePeriod MarketData
begin

text \<open>
  \<^verbatim>\<open>src/lib/utils/expiries.ts\<close>: the near and next expiries around
  \<open>now + timePeriod\<close> among the instruments listed on the exchange, their symbols, and the
  later expiries with theirs.  \<^verbatim>\<open>toMapGroupBy\<close> belongs to
  \<^verbatim>\<open>transducist\<close> and is a parameter with the interface \<open>grouping\<close>.
\<close>

section \<open>The code\<close>

record expiries =
  expiryList :: "string list"
  expiryMap :: "(string, string list) jsmap"
  nearExpiry :: string
  nextExpiry :: string
  nearSymbols :: "string list"
  nextSymbols :: "string list"
  rolloverAt :: string

type_synonym grouper =
  "(instrument_info \<Rightarrow> string) \<Rightarrow> instrument_info list \<Rightarrow> (string, instrument_info list) jsmap"

text \<open>A comparison with \<^verbatim>\<open>undefined\<close> is false.\<close>

definition available :: "string \<Rightarrow> instrument_info \<Rightarrow> bool" where
  "available now i =
     (case (ii_listing i, ii_expiry i) of
        (Some listing, Some expiry) \<Rightarrow> listing \<le> now \<and> now < expiry
      | _ \<Rightarrow> False)"

text \<open>The grouping key; every instrument that passes the filter has an expiry.\<close>

definition expiry_key :: "instrument_info \<Rightarrow> string" where
  "expiry_key i = (case ii_expiry i of None \<Rightarrow> ''undefined'' | Some e \<Rightarrow> e)"

record selection =
  nearIdx :: int
  nextIdx :: int
  nearDiff :: jsnum
  nextDiff :: jsnum
  selNear :: string
  selNext :: string

definition selection_init :: selection where
  "selection_init = \<lparr> nearIdx = -1, nextIdx = -1, nearDiff = NegInf, nextDiff = PosInf,
     selNear = [], selNext = [] \<rparr>"

definition select_step :: "dayjs_lib \<Rightarrow> jsdate \<Rightarrow> nat \<times> string \<Rightarrow> selection \<Rightarrow> selection" where
  "select_step D tp ic prev =
     (let curr = snd ic; delta = num_of_date (dj_diff D (dj_utc D curr) tp) in
      if num_le delta (Num 0) \<and> num_lt (nearDiff prev) delta
      then prev\<lparr> nearIdx := int (fst ic), nearDiff := delta, selNear := curr \<rparr>
      else if num_lt (Num 0) delta \<and> num_lt delta (nextDiff prev)
      then prev\<lparr> nextIdx := int (fst ic), nextDiff := delta, selNext := curr \<rparr>
      else prev)"

definition select_expiries :: "dayjs_lib \<Rightarrow> jsdate \<Rightarrow> string list \<Rightarrow> selection" where
  "select_expiries D tp active = fold (select_step D tp) (enumerate 0 active) selection_init"

text \<open>\<^verbatim>\<open>xs.slice(0, n)\<close>; a negative end counts from the end.\<close>

definition slice_to :: "int \<Rightarrow> 'a list \<Rightarrow> 'a list" where
  "slice_to n xs = (if n < 0 then take (length xs - nat (- n)) xs else take (nat n) xs)"

definition buildExpiries ::
  "dayjs_lib \<Rightarrow> grouper \<Rightarrow> instrument_info list \<Rightarrow> string \<Rightarrow> jsnum \<Rightarrow> expiries result" where
  "buildExpiries D groupBy instruments now timePeriod =
     (let m = groupBy expiry_key (filter (available now) instruments);
          activeExpiries = sort (map_keys m);
          tp = dj_add D timePeriod Day (dj_utc D now);
          sel = select_expiries D tp activeExpiries;
          nearSyms = map ii_id (or_default (map_get m (selNear sel)) []);
          nextSyms = map ii_id (or_default (map_get m (selNext sel)) [])
      in if nearSyms = []
         then Inl (js_error (''No symbols found with nearExpiry of '' @ selNear sel))
         else if nextSyms = []
         then Inl (js_error (''No symbols found with nextExpiry of '' @ selNext sel))
         else
           let roll = (case activeExpiries of [] \<Rightarrow> ''undefined'' | e # _ \<Rightarrow> e);
               pruneList = slice_to (nextIdx sel) activeExpiries;
               laterList = drop (nat (nextIdx sel + 1)) activeExpiries;
               pruned = fold map_remove pruneList m;
               future = fold (\<lambda>(e, info) f. map_set e (map ii_id info) f) pruned []
           in Inr \<lparr> expiryList = laterList, expiryMap = future, nearExpiry = selNear sel,
                nextExpiry = selNext sel, nearSymbols = nearSyms, nextSymbols = nextSyms,
                rolloverAt = roll \<rparr>)"

section \<open>Grouping\<close>

locale grouping =
  fixes g :: "('a \<Rightarrow> 'k) \<Rightarrow> 'a list \<Rightarrow> ('k, 'a list) jsmap"
  assumes group_ok: "map_ok (g f xs)"
    and group_get: "map_get (g f xs) k =
      (if k \<in> f ` set xs then Some (filter (\<lambda>x. f x = k) xs) else None)"
begin

lemma group_keys: "set (map_keys (g f xs)) = f ` set xs"
  by (auto simp: map_keys_get group_get split: if_splits)

lemma group_members: "map_get (g f xs) k = Some ys \<Longrightarrow> ys \<noteq> [] \<and> set ys = {x \<in> set xs. f x = k}"
  by (auto simp: group_get filter_empty_conv split: if_splits)

end

text \<open>Insertion order of the keys, encounter order of the members.\<close>

definition group_by :: "('a \<Rightarrow> 'k) \<Rightarrow> 'a list \<Rightarrow> ('k, 'a list) jsmap" where
  "group_by f xs = fold (\<lambda>x m. map_set (f x) (or_default (map_get m (f x)) [] @ [x]) m) xs []"

lemma group_by_snoc: "group_by f (xs @ [x]) =
    map_set (f x) (or_default (map_get (group_by f xs) (f x)) [] @ [x]) (group_by f xs)"
  by (simp add: group_by_def)

lemma group_by_ok: "map_ok (group_by f xs)"
  by (induction xs rule: rev_induct) (simp_all add: group_by_snoc, simp add: group_by_def)

lemma group_by_get: "map_get (group_by f xs) k =
    (if k \<in> f ` set xs then Some (filter (\<lambda>x. f x = k) xs) else None)"
proof (induction xs rule: rev_induct)
  case Nil
  then show ?case by (simp add: group_by_def)
next
  case (snoc x xs)
  have "f x \<notin> f ` set xs \<Longrightarrow> filter (\<lambda>y. f y = f x) xs = []"
    by (auto simp: filter_empty_conv intro: rev_image_eqI)
  with snoc show ?case by (auto simp: group_by_snoc)
qed

interpretation transducist: grouping group_by
  by unfold_locales (rule group_by_ok, rule group_by_get)

section \<open>The selection loop\<close>

text \<open>On a strictly ascending list of instants, the loop finds the last one at or before the
  target and the first one after it.\<close>

context dayjs_utc begin

lemma select_step_iso:
  assumes "four_digit_year e" "four_digit_year tp"
  shows "select_step D (Some tp) (i, iso_string e) prev =
    (if e \<le> tp \<and> num_lt (nearDiff prev) (Num (of_int (e - tp)))
     then prev\<lparr> nearIdx := int i, nearDiff := Num (of_int (e - tp)), selNear := iso_string e \<rparr>
     else if tp < e \<and> num_lt (Num (of_int (e - tp))) (nextDiff prev)
     then prev\<lparr> nextIdx := int i, nextDiff := Num (of_int (e - tp)), selNext := iso_string e \<rparr>
     else prev)"
  using assms by (simp add: select_step_def utc_iso diff num_of_date_def Let_def)

lemma select_expiries_iso:
  assumes tp: "four_digit_year tp" and ts: "\<forall>t \<in> set ts. four_digit_year t"
    and sorted: "sorted_wrt (<) ts"
  defines "le \<equiv> filter (\<lambda>t. t \<le> tp) ts" and "gt \<equiv> filter (\<lambda>t. tp < t) ts"
  shows "select_expiries D (Some tp) (map iso_string ts) =
    \<lparr> nearIdx = int (length le) - 1, nextIdx = (if gt = [] then -1 else int (length le)),
      nearDiff = (if le = [] then NegInf else Num (of_int (last le - tp))),
      nextDiff = (if gt = [] then PosInf else Num (of_int (hd gt - tp))),
      selNear = (if le = [] then [] else iso_string (last le)),
      selNext = (if gt = [] then [] else iso_string (hd gt)) \<rparr>"
  unfolding le_def gt_def using ts sorted
proof (induction ts rule: rev_induct)
  case Nil
  then show ?case by (simp add: select_expiries_def selection_init_def)
next
  case (snoc x xs)
  have IH: "select_expiries D (Some tp) (map iso_string xs) =
    \<lparr> nearIdx = int (length (filter (\<lambda>t. t \<le> tp) xs)) - 1,
      nextIdx = (if filter (\<lambda>t. tp < t) xs = [] then -1 else int (length (filter (\<lambda>t. t \<le> tp) xs))),
      nearDiff = (if filter (\<lambda>t. t \<le> tp) xs = [] then NegInf
        else Num (of_int (last (filter (\<lambda>t. t \<le> tp) xs) - tp))),
      nextDiff = (if filter (\<lambda>t. tp < t) xs = [] then PosInf
        else Num (of_int (hd (filter (\<lambda>t. tp < t) xs) - tp))),
      selNear = (if filter (\<lambda>t. t \<le> tp) xs = [] then []
        else iso_string (last (filter (\<lambda>t. t \<le> tp) xs))),
      selNext = (if filter (\<lambda>t. tp < t) xs = [] then []
        else iso_string (hd (filter (\<lambda>t. tp < t) xs))) \<rparr>"
    using snoc by (simp add: sorted_wrt_append)
  have below: "\<forall>t \<in> set xs. t < x" using snoc.prems by (simp add: sorted_wrt_append)
  have x: "four_digit_year x" using snoc.prems by simp
  have step: "select_expiries D (Some tp) (map iso_string (xs @ [x])) =
      select_step D (Some tp) (length xs, iso_string x) (select_expiries D (Some tp) (map iso_string xs))"
    by (simp add: select_expiries_def enumerate_append_eq)
  show ?case
  proof (cases "x \<le> tp")
    case True
    then have "filter (\<lambda>t. tp < t) xs = []" "filter (\<lambda>t. t \<le> tp) xs = xs"
      using below by (auto simp: filter_empty_conv filter_id_conv)
    moreover have "xs \<noteq> [] \<Longrightarrow> last xs < x" using below by simp
    ultimately show ?thesis unfolding step IH select_step_iso [OF x tp] using True
      by (auto simp: num_lt_def)
  next
    case False
    have "filter (\<lambda>t. tp < t) xs \<noteq> [] \<Longrightarrow> hd (filter (\<lambda>t. tp < t) xs) < x"
      using below by (metis filter_is_subset hd_in_set subsetD)
    moreover have "filter (\<lambda>t. tp < t) xs = [] \<Longrightarrow> filter (\<lambda>t. t \<le> tp) xs = xs"
      by (auto simp: filter_empty_conv filter_id_conv not_less)
    ultimately show ?thesis unfolding step IH select_step_iso [OF x tp] using False
      by (auto simp: num_lt_def)
  qed
qed

end

section \<open>The characterisation\<close>

text \<open>The instants at which the instruments open at \<open>now\<close> expire, and the ids of those that
  expire at a given one.\<close>

definition open_expiries :: "string \<Rightarrow> instrument_info list \<Rightarrow> int set" where
  "open_expiries now instruments =
     {e. four_digit_year e \<and> (\<exists>i \<in> set instruments. available now i \<and> ii_expiry i = Some (iso_string e))}"

definition ids_expiring :: "string \<Rightarrow> instrument_info list \<Rightarrow> int \<Rightarrow> string list" where
  "ids_expiring now instruments e =
     map ii_id (filter (\<lambda>i. available now i \<and> ii_expiry i = Some (iso_string e)) instruments)"

text \<open>The exchange writes its expiries in ISO form.\<close>

definition iso_listed :: "instrument_info list \<Rightarrow> bool" where
  "iso_listed instruments \<longleftrightarrow>
     (\<forall>i \<in> set instruments. \<forall>s. ii_expiry i = Some s \<longrightarrow>
        (case parse_iso (\<lambda>_. None) s of Some e \<Rightarrow> four_digit_year e \<and> s = iso_string e | None \<Rightarrow> False))"

lemma iso_listedD:
  "iso_listed is \<Longrightarrow> i \<in> set is \<Longrightarrow> ii_expiry i = Some s \<Longrightarrow> \<exists>e. four_digit_year e \<and> s = iso_string e"
  unfolding iso_listed_def by (fastforce split: option.splits)

lemma available_expiry: "available now i \<Longrightarrow> \<exists>s. ii_expiry i = Some s"
  by (auto simp: available_def split: option.splits)

lemma expiry_key_Some: "available now i \<Longrightarrow> expiry_key i = k \<longleftrightarrow> ii_expiry i = Some k"
  by (auto simp: expiry_key_def available_def split: option.splits)

lemma finite_open_expiries: "finite (open_expiries now is)"
proof -
  have "iso_string ` open_expiries now is \<subseteq> expiry_key ` set is"
    by (auto simp: open_expiries_def expiry_key_def rev_image_eqI)
  then have "finite (iso_string ` open_expiries now is)" by (rule finite_subset) simp
  moreover have "inj_on iso_string (open_expiries now is)"
    by (auto simp: inj_on_def open_expiries_def iso_string_eq_iff)
  ultimately show ?thesis by (rule finite_imageD)
qed

lemma open_expiry_keys:
  "iso_listed is \<Longrightarrow> expiry_key ` set (filter (available now) is) = iso_string ` open_expiries now is"
proof (intro set_eqI iffI)
  fix k
  assume "iso_listed is" "k \<in> expiry_key ` set (filter (available now) is)"
  then obtain i where i: "i \<in> set is" "available now i" "ii_expiry i = Some k"
    using expiry_key_Some by fastforce
  with iso_listedD [OF \<open>iso_listed is\<close>] obtain e where "four_digit_year e" "k = iso_string e" by blast
  with i show "k \<in> iso_string ` open_expiries now is" by (auto simp: open_expiries_def)
next
  fix k
  assume "k \<in> iso_string ` open_expiries now is"
  then obtain i where "i \<in> set is" "available now i" "ii_expiry i = Some k"
    by (auto simp: open_expiries_def)
  then have "expiry_key i = k" by (simp add: expiry_key_def)
  with \<open>i \<in> set is\<close> \<open>available now i\<close> show "k \<in> expiry_key ` set (filter (available now) is)" by auto
qed

lemma sort_iso_keys:
  assumes "distinct ks" "set ks = iso_string ` T" "finite T" "\<forall>t \<in> T. four_digit_year t"
  shows "sort ks = map iso_string (sorted_list_of_set T)"
proof (rule sorted_distinct_set_unique)
  have "sorted_wrt (<) (sorted_list_of_set T)" by (rule strict_sorted_list_of_set)
  then have "sorted_wrt (<) (map iso_string (sorted_list_of_set T))"
    unfolding sorted_wrt_map
    by (rule sorted_wrt_mono_rel [rotated]) (use assms(3,4) in \<open>simp add: iso_string_less_iff\<close>)
  then show "sorted (map iso_string (sorted_list_of_set T))" "distinct (map iso_string (sorted_list_of_set T))"
    by (simp_all add: strict_sorted_iff)
qed (use assms in simp_all)

text \<open>The instants around the target, as the loop reads them off the sorted list.\<close>

lemma sorted_le_last: "sorted xs \<Longrightarrow> a \<in> set xs \<Longrightarrow> a \<le> last xs"
  by (induction xs) auto

lemma sorted_split:
  assumes "finite T" "a \<in> T" "a \<le> p" "\<forall>t \<in> T. t \<le> p \<longrightarrow> t \<le> a" "b \<in> T" "p < b" "\<forall>t \<in> T. p < t \<longrightarrow> b \<le> t"
  shows "last (filter (\<lambda>t. t \<le> p) (sorted_list_of_set T)) = (a::int)"
    and "hd (filter (\<lambda>t. p < t) (sorted_list_of_set T)) = b"
    and "hd (sorted_list_of_set T) = Min T"
proof -
  let ?xs = "sorted_list_of_set T"
  have ne: "filter (\<lambda>t. t \<le> p) ?xs \<noteq> []" "filter (\<lambda>t. p < t) ?xs \<noteq> []"
    using assms by (auto simp: filter_empty_conv not_le not_less)
  have srt: "sorted (filter Q ?xs)" for Q by (simp add: sorted_wrt_filter)
  have "last (filter (\<lambda>t. t \<le> p) ?xs) \<in> set (filter (\<lambda>t. t \<le> p) ?xs)" by (rule last_in_set [OF ne(1)])
  moreover have "a \<in> set (filter (\<lambda>t. t \<le> p) ?xs)" using assms by simp
  then have "a \<le> last (filter (\<lambda>t. t \<le> p) ?xs)" using srt ne(1)
    by (blast intro: sorted_le_last)
  ultimately show "last (filter (\<lambda>t. t \<le> p) ?xs) = a" using assms by force
  have "hd (filter (\<lambda>t. p < t) ?xs) \<in> set (filter (\<lambda>t. p < t) ?xs)" by (rule hd_in_set [OF ne(2)])
  moreover have "b \<in> set (filter (\<lambda>t. p < t) ?xs)" using assms by simp
  then have "hd (filter (\<lambda>t. p < t) ?xs) \<le> b" using srt ne(2)
    by (metis eq_refl list.collapse set_ConsD sorted_simps(2))
  ultimately show "hd (filter (\<lambda>t. p < t) ?xs) = b" using assms by force
  have "T \<noteq> {}" using assms by auto
  then show "hd ?xs = Min T" using assms(1) by (simp add: sorted_list_of_set_nonempty)
qed

lemma sorted_split_drop:
  "sorted (xs :: int list) \<Longrightarrow> distinct xs \<Longrightarrow> filter (\<lambda>t. p < t) xs \<noteq> [] \<Longrightarrow>
    drop (length (filter (\<lambda>t. t \<le> p) xs) + 1) xs = filter (\<lambda>t. hd (filter (\<lambda>t. p < t) xs) < t) xs
    \<and> take (length (filter (\<lambda>t. t \<le> p) xs)) xs = filter (\<lambda>t. t \<le> p) xs"
proof (induction xs)
  case (Cons x xs)
  show ?case
  proof (cases "x \<le> p")
    case True
    with Cons have IH: "drop (length (filter (\<lambda>t. t \<le> p) xs) + 1) xs = filter (\<lambda>t. hd (filter (\<lambda>t. p < t) xs) < t) xs"
      "take (length (filter (\<lambda>t. t \<le> p) xs)) xs = filter (\<lambda>t. t \<le> p) xs" by auto
    have "filter ((<) p) xs \<noteq> []" using True Cons.prems by simp
    then have "p < hd (filter (\<lambda>t. p < t) xs)" using hd_in_set by fastforce
    with True IH show ?thesis by simp
  next
    case False
    then have "filter (\<lambda>t. t \<le> p) xs = []" "filter (\<lambda>t. x < t) xs = xs"
      using Cons.prems by (auto simp: filter_empty_conv filter_id_conv less_le)
    with False show ?thesis by simp
  qed
qed simp

context dayjs_utc begin

lemma buildExpiries_selection:
  assumes g: "grouping g" and now: "four_digit_year now" "four_digit_year (now + n * msPerDay)"
    and iso: "iso_listed is"
  defines "T \<equiv> open_expiries (iso_string now) is" and "tp \<equiv> now + n * msPerDay"
    and "m \<equiv> g expiry_key (filter (available (iso_string now)) is)"
  shows "sort (map_keys m) = map iso_string (sorted_list_of_set T)"
    and "map_ok m"
    and "e \<in> T \<Longrightarrow> map_get m (iso_string e) =
      Some (filter (\<lambda>i. available (iso_string now) i \<and> ii_expiry i = Some (iso_string e)) is)"
    and "k \<notin> iso_string ` T \<Longrightarrow> map_get m k = None"
    and "dj_add_int D n Day (dj_utc D (iso_string now)) = Some tp"
proof -
  have keys: "expiry_key ` set (filter (available (iso_string now)) is) = iso_string ` T"
    unfolding T_def by (rule open_expiry_keys [OF iso])
  show ok: "map_ok m" unfolding m_def by (rule grouping.group_ok [OF g])
  have "set (map_keys m) = iso_string ` T"
    unfolding m_def grouping.group_keys [OF g] by (rule keys)
  with ok show "sort (map_keys m) = map iso_string (sorted_list_of_set T)"
    by (intro sort_iso_keys) (auto simp: map_ok_def T_def finite_open_expiries, simp add: open_expiries_def)
  show "map_get m k = None" if "k \<notin> iso_string ` T"
    using that unfolding m_def grouping.group_get [OF g] keys by simp
  show "map_get m (iso_string e) =
      Some (filter (\<lambda>i. available (iso_string now) i \<and> ii_expiry i = Some (iso_string e)) is)"
    if "e \<in> T"
  proof -
    have "filter (\<lambda>i. expiry_key i = iso_string e) (filter (available (iso_string now)) is)
        = filter (\<lambda>i. available (iso_string now) i \<and> ii_expiry i = Some (iso_string e)) is"
      by (simp only: filter_filter) (auto intro!: filter_cong simp: expiry_key_Some)
    with that show ?thesis unfolding m_def grouping.group_get [OF g] keys by auto
  qed
  show "dj_add_int D n Day (dj_utc D (iso_string now)) = Some tp"
    using now by (simp add: utc_iso add_days tp_def)
qed

lemma buildExpiries_core:
  assumes g: "grouping g" and now: "four_digit_year now" "four_digit_year (now + n * msPerDay)"
    and iso: "iso_listed is"
  defines "T \<equiv> open_expiries (iso_string now) is" and "tp \<equiv> now + n * msPerDay"
  defines "le \<equiv> filter (\<lambda>t. t \<le> tp) (sorted_list_of_set T)"
    and "gt \<equiv> filter (\<lambda>t. tp < t) (sorted_list_of_set T)"
  shows "buildExpiries D g is (iso_string now) (Num (of_int n)) =
    (if le = [] then Inl (js_error ''No symbols found with nearExpiry of '')
     else if gt = [] then Inl (js_error ''No symbols found with nextExpiry of '')
     else Inr \<lparr> expiryList = map iso_string (filter (\<lambda>t. hd gt < t) (sorted_list_of_set T)),
       expiryMap = map (\<lambda>(e, info). (e, map ii_id info))
         (fold map_remove (map iso_string le) (g expiry_key (filter (available (iso_string now)) is))),
       nearExpiry = iso_string (last le), nextExpiry = iso_string (hd gt),
       nearSymbols = ids_expiring (iso_string now) is (last le),
       nextSymbols = ids_expiring (iso_string now) is (hd gt),
       rolloverAt = iso_string (hd (sorted_list_of_set T)) \<rparr>)"
proof -
  define m where "m = g expiry_key (filter (available (iso_string now)) is)"
  define ts where "ts = sorted_list_of_set T"
  note sel = buildExpiries_selection [OF assms(1-4), folded T_def tp_def m_def]
  have T: "finite T" "\<forall>t \<in> T. four_digit_year t"
    by (auto simp: T_def finite_open_expiries) (simp add: open_expiries_def)
  have ts: "sorted_wrt (<) ts" "sorted ts" "distinct ts" "\<forall>t \<in> set ts. four_digit_year t" "set ts = T"
    using T by (simp_all add: ts_def)
  have ids: "map ii_id (or_default (map_get m (iso_string e)) []) = ids_expiring (iso_string now) is e"
    "ids_expiring (iso_string now) is e \<noteq> []" "or_default (map_get m (iso_string e)) [] \<noteq> []" if "e \<in> T" for e
    using that sel(3) [OF that] by (auto simp: ids_expiring_def T_def open_expiries_def filter_empty_conv)
  have none: "map_get m [] = None" by (rule sel(4)) (metis imageE iso_string_not_Nil)
  have sx: "select_expiries D (Some tp) (map iso_string ts) =
    \<lparr> nearIdx = int (length le) - 1, nextIdx = (if gt = [] then -1 else int (length le)),
      nearDiff = (if le = [] then NegInf else Num (of_int (last le - tp))),
      nextDiff = (if gt = [] then PosInf else Num (of_int (hd gt - tp))),
      selNear = (if le = [] then [] else iso_string (last le)),
      selNext = (if gt = [] then [] else iso_string (hd gt)) \<rparr>"
    unfolding le_def gt_def ts_def [symmetric]
    by (rule select_expiries_iso [OF now(2) [folded tp_def] ts(4,1)])
  show ?thesis
  proof (cases "le = [] \<or> gt = []")
    case True
    have "le \<noteq> [] \<Longrightarrow> last le \<in> T" "gt \<noteq> [] \<Longrightarrow> hd gt \<in> T"
      using last_in_set [of le] hd_in_set [of gt] ts(5) by (auto simp: le_def gt_def ts_def)
    with True ids show ?thesis
      unfolding buildExpiries_def m_def [symmetric] sel(1,5) ts_def [symmetric] Let_def sx
      by (auto simp: none)
  next
    case False
    then have mem: "last le \<in> T" "hd gt \<in> T"
      using last_in_set [of le] hd_in_set [of gt] ts(5) by (auto simp: le_def gt_def ts_def)
    have "ts \<noteq> []" using False by (auto simp: le_def ts_def)
    then obtain t0 ts' where t0: "ts = t0 # ts'" by (cases ts) auto
    have cut: "drop (Suc (length le)) ts = filter (\<lambda>t. hd gt < t) ts" "take (length le) ts = le"
      using sorted_split_drop [OF ts(2,3), of tp] False by (auto simp: le_def gt_def ts_def)
    have nx: "nat (int (length le) + 1) = length le + 1" by simp
    have fut: "fold (\<lambda>(e, info) f. map_set e (map ii_id info) f) (fold map_remove (map iso_string le) m) []
        = map (\<lambda>(e, info). (e, map ii_id info)) (fold map_remove (map iso_string le) m)"
      using fold_map_set_map [of "[]" "fold map_remove (map iso_string le) m" "map ii_id"] sel(2)
      by (simp add: map_ok_fold_remove)
    have head: "(case map iso_string ts of [] \<Rightarrow> ''undefined'' | e # _ \<Rightarrow> e) = iso_string (hd ts)"
      by (simp add: t0)
    show ?thesis
      unfolding buildExpiries_def m_def [symmetric] sel(1,5) ts_def [symmetric] Let_def sx head
      using False mem
      by (simp add: ids slice_to_def take_map drop_map cut nx del: fold_map) (simp add: fut)
  qed
qed

end

section \<open>Properties\<close>

lemmas buildExpiries_facts = sorted_split sorted_split_drop finite_open_expiries

lemma open_expiry_hit: "e \<in> open_expiries now is \<Longrightarrow> four_digit_year e"
  by (simp add: open_expiries_def)

text \<open>C6: with the exchange's expiries in ISO form, buildExpiries returns as near expiry the
  latest open expiry at or before \<open>now + timePeriod\<close>, as next expiry the earliest one after it,
  with exactly the ids of the open instruments that expire then, in listing order, and as
  rollover the earliest open expiry.\<close>

theorem buildExpiries_brackets:
  assumes "dayjs_utc D" "grouping groupBy"
    and "four_digit_year now" "four_digit_year (now + n * msPerDay)" "iso_listed instruments"
    and near: "near \<in> open_expiries (iso_string now) instruments" "near \<le> now + n * msPerDay"
      "\<forall>e \<in> open_expiries (iso_string now) instruments. e \<le> now + n * msPerDay \<longrightarrow> e \<le> near"
    and nxt: "nxt \<in> open_expiries (iso_string now) instruments" "now + n * msPerDay < nxt"
      "\<forall>e \<in> open_expiries (iso_string now) instruments. now + n * msPerDay < e \<longrightarrow> nxt \<le> e"
  shows "\<exists>r. buildExpiries D groupBy instruments (iso_string now) (Num (of_int n)) = Inr r
    \<and> nearExpiry r = iso_string near \<and> nextExpiry r = iso_string nxt
    \<and> nearSymbols r = ids_expiring (iso_string now) instruments near
    \<and> nextSymbols r = ids_expiring (iso_string now) instruments nxt
    \<and> rolloverAt r = iso_string (Min (open_expiries (iso_string now) instruments))"
proof -
  note split = sorted_split [OF finite_open_expiries near nxt]
  have "filter (\<lambda>t. t \<le> now + n * msPerDay) (sorted_list_of_set (open_expiries (iso_string now) instruments)) \<noteq> []"
    "filter (\<lambda>t. now + n * msPerDay < t) (sorted_list_of_set (open_expiries (iso_string now) instruments)) \<noteq> []"
    using near nxt by (auto simp: filter_empty_conv finite_open_expiries intro!: bexI)
  then show ?thesis
    unfolding dayjs_utc.buildExpiries_core [OF assms(1-5)] split by simp
qed

text \<open>The future expiries of a successful result.  The list holds the open expiries after
  the next one in ascending order; the map holds, for every open expiry after the target (so the
  next one as well), the ids of the instruments that expire then, and nothing else.\<close>

theorem buildExpiries_future:
  assumes "dayjs_utc D" "grouping groupBy"
    and "four_digit_year now" "four_digit_year (now + n * msPerDay)" "iso_listed instruments"
    and r: "buildExpiries D groupBy instruments (iso_string now) (Num (of_int n)) = Inr r"
  shows "\<exists>nxt. nextExpiry r = iso_string nxt
    \<and> expiryList r = map iso_string (sorted_list_of_set
        {e \<in> open_expiries (iso_string now) instruments. nxt < e})
    \<and> (\<forall>e. four_digit_year e \<longrightarrow> map_get (expiryMap r) (iso_string e) =
        (if e \<in> open_expiries (iso_string now) instruments \<and> now + n * msPerDay < e
         then Some (ids_expiring (iso_string now) instruments e) else None))"
proof -
  let ?T = "open_expiries (iso_string now) instruments"
  let ?le = "filter (\<lambda>t. t \<le> now + n * msPerDay) (sorted_list_of_set ?T)"
  let ?gt = "filter (\<lambda>t. now + n * msPerDay < t) (sorted_list_of_set ?T)"
  let ?m = "groupBy expiry_key (filter (available (iso_string now)) instruments)"
  note sel = dayjs_utc.buildExpiries_selection [OF assms(1-5)]
  from r have ne: "?le \<noteq> []" "?gt \<noteq> []" and
    fields: "nextExpiry r = iso_string (hd ?gt)"
      "expiryList r = map iso_string (filter (\<lambda>t. hd ?gt < t) (sorted_list_of_set ?T))"
      "expiryMap r = map (\<lambda>(e, info). (e, map ii_id info)) (fold map_remove (map iso_string ?le) ?m)"
    unfolding dayjs_utc.buildExpiries_core [OF assms(1-5)] by (auto split: if_splits)
  have "filter (\<lambda>t. hd ?gt < t) (sorted_list_of_set ?T) = sorted_list_of_set {e \<in> ?T. hd ?gt < e}"
    by (rule sorted_distinct_set_unique) (auto simp: finite_open_expiries sorted_wrt_filter)
  moreover have "map_get (expiryMap r) (iso_string e) =
      (if e \<in> ?T \<and> now + n * msPerDay < e then Some (ids_expiring (iso_string now) instruments e) else None)"
    if e: "four_digit_year e" for e
  proof -
    have inj: "iso_string e \<in> iso_string ` S \<longleftrightarrow> e \<in> S" if "S \<subseteq> ?T" for S
      using that e open_expiry_hit by (auto simp: iso_string_eq_iff image_iff subset_iff)
    have "iso_string e \<in> set (map iso_string ?le) \<longleftrightarrow> e \<in> ?T \<and> e \<le> now + n * msPerDay"
      using inj [of "{t \<in> ?T. t \<le> now + n * msPerDay}"] by (simp add: finite_open_expiries)
    moreover have "e \<notin> ?T \<Longrightarrow> map_get ?m (iso_string e) = None"
      using inj [of ?T] by (intro sel(4)) simp
    ultimately show ?thesis using sel(3) [of e]
      unfolding fields map_get_map map_get_fold_remove by (auto simp: ids_expiring_def)
  qed
  ultimately show ?thesis using fields by (intro exI [of _ "hd ?gt"]) simp
qed

text \<open>BuildExpiries throws exactly when there is no open expiry at or before the target, or
  none after it, with the message that says which side is missing.\<close>

theorem buildExpiries_errors:
  assumes "dayjs_utc D" "grouping groupBy"
    and "four_digit_year now" "four_digit_year (now + n * msPerDay)" "iso_listed instruments"
  shows "buildExpiries D groupBy instruments (iso_string now) (Num (of_int n)) = Inl err \<longleftrightarrow>
    (if \<exists>e \<in> open_expiries (iso_string now) instruments. e \<le> now + n * msPerDay
     then \<not> (\<exists>e \<in> open_expiries (iso_string now) instruments. now + n * msPerDay < e)
       \<and> err = js_error ''No symbols found with nextExpiry of ''
     else err = js_error ''No symbols found with nearExpiry of '')"
proof -
  let ?T = "open_expiries (iso_string now) instruments"
  have "(filter Q (sorted_list_of_set ?T) = []) \<longleftrightarrow> \<not> (\<exists>e \<in> ?T. Q e)" for Q
    by (auto simp: filter_empty_conv finite_open_expiries)
  then show ?thesis unfolding dayjs_utc.buildExpiries_core [OF assms(1-5)] by auto
qed

section \<open>Witnesses\<close>

text \<open>Three expiries around 14 days after 2022-05-01, one of them with two options.\<close>

definition sample_listing :: "string \<Rightarrow> int \<Rightarrow> instrument_info" where
  "sample_listing i e = \<lparr> ii_id = i, ii_exchange = ''deribit'', ii_baseCurrency = ''ETH'',
     ii_type = ''option'', ii_active = True, ii_availableSince = iso_string 1648771200000,
     ii_availableTo = None, ii_optionType = Some ''call'', ii_expiry = Some (iso_string e),
     ii_listing = Some (iso_string 1648771200000) \<rparr>"

definition sample_instruments :: "instrument_info list" where
  "sample_instruments = [sample_listing ''A'' 1652428800000, sample_listing ''B'' 1653033600000,
     sample_listing ''C'' 1652428800000, sample_listing ''D'' 1653638400000]"

lemma sample_times: "four_digit_year 1651363200000" "four_digit_year 1648771200000"
  "four_digit_year 1652428800000" "four_digit_year 1653033600000" "four_digit_year 1653638400000"
  "four_digit_year (1651363200000 + 14 * msPerDay)" "four_digit_year (1651363200000 + 365 * msPerDay)"
  by (simp_all add: four_digit_year_def)

lemma sample_iso: "iso_listed sample_instruments"
  by (simp add: iso_listed_def sample_instruments_def sample_listing_def parse_iso_string
      sample_times time_clip_four_digit)

lemma sample_available [simp]:
  "e \<in> {1652428800000, 1653033600000, 1653638400000} \<Longrightarrow>
    available (iso_string 1651363200000) (sample_listing i e)"
  using sample_times by (auto simp: available_def sample_listing_def iso_string_le_iff iso_string_less_iff)

lemma sample_open: "open_expiries (iso_string 1651363200000) sample_instruments
    = {1652428800000, 1653033600000, 1653638400000}"
  using sample_times
  by (auto simp: open_expiries_def sample_instruments_def, auto simp: sample_listing_def iso_string_eq_iff)

lemma sample_ids: "ids_expiring (iso_string 1651363200000) sample_instruments 1652428800000 = [''A'', ''C'']"
  "ids_expiring (iso_string 1651363200000) sample_instruments 1653033600000 = [''B'']"
  using sample_times
  by (simp_all add: ids_expiring_def sample_instruments_def)
    (simp_all add: sample_listing_def iso_string_eq_iff)

lemma buildExpiries_brackets_witness:
  "\<exists>r. buildExpiries utc_dayjs group_by sample_instruments (iso_string 1651363200000) (Num 14) = Inr r
    \<and> nearExpiry r = iso_string 1652428800000 \<and> nextExpiry r = iso_string 1653033600000
    \<and> nearSymbols r = [''A'', ''C''] \<and> nextSymbols r = [''B'']"
  using buildExpiries_brackets [OF utc.dayjs_utc_axioms transducist.grouping_axioms sample_times(1,6)
      sample_iso, of 1652428800000 1653033600000]
  by (auto simp: sample_open sample_ids)

lemma sample_built:
  "\<exists>r. buildExpiries utc_dayjs group_by sample_instruments (iso_string 1651363200000) (Num 14) = Inr r
    \<and> nearExpiry r = iso_string 1652428800000 \<and> nextExpiry r = iso_string 1653033600000
    \<and> rolloverAt r = iso_string 1652428800000"
proof -
  let ?T = "{1652428800000, 1653033600000, 1653638400000} :: int set" and ?p = "1651363200000 + 14 * msPerDay"
  have ne: "filter (\<lambda>t. t \<le> ?p) (sorted_list_of_set ?T) \<noteq> []" "filter (\<lambda>t. ?p < t) (sorted_list_of_set ?T) \<noteq> []"
    by (simp_all add: filter_empty_conv)
  have hl: "last (filter (\<lambda>t. t \<le> ?p) (sorted_list_of_set ?T)) = 1652428800000"
    "hd (filter (\<lambda>t. ?p < t) (sorted_list_of_set ?T)) = 1653033600000"
    "hd (sorted_list_of_set ?T) = 1652428800000"
    using sorted_split [of ?T 1652428800000 ?p 1653033600000] by simp_all
  show ?thesis
    using utc.buildExpiries_core [OF transducist.grouping_axioms sample_times(1,6) sample_iso] ne
    unfolding sample_open hl by simp
qed

lemma buildExpiries_future_witness:
  "\<exists>r nxt. buildExpiries utc_dayjs group_by sample_instruments (iso_string 1651363200000) (Num 14) = Inr r
    \<and> nextExpiry r = iso_string nxt
    \<and> map_get (expiryMap r) (iso_string 1653033600000) = Some [''B'']
    \<and> map_get (expiryMap r) (iso_string 1652428800000) = None"
proof -
  obtain r where r: "buildExpiries utc_dayjs group_by sample_instruments (iso_string 1651363200000)
      (Num (of_int 14)) = Inr r" using sample_built by auto
  from buildExpiries_future [OF utc.dayjs_utc_axioms transducist.grouping_axioms sample_times(1,6)
      sample_iso r] r
  show ?thesis using sample_times by (auto simp: sample_open sample_ids)
qed

lemma buildExpiries_errors_witness:
  "buildExpiries utc_dayjs group_by sample_instruments (iso_string 1651363200000) (Num 365)
    = Inl (js_error ''No symbols found with nextExpiry of '')"
  using buildExpiries_errors [OF utc.dayjs_utc_axioms transducist.grouping_axioms sample_times(1,7) sample_iso]
  by (simp add: sample_open)

end
