(* ===== verification/VixV2.thy ===== *)
theory VixV2
  imports BuildExpiries
begin

text \<open>
  \<^verbatim>\<open>src/lib/vix_calculator_v2.ts\<close>: replay or stream the option summaries of
  the near and next expiries, compute the index at most once per report period, and roll over to
  the following expiries when the first one is reached.

  The calculator is a record of its fields with the trace of its callbacks.  The exchange, the
  instrument list, the clock and the index computation are the record \<open>vix_env\<close>; their
  answers depend on the round, which starts at 0 and grows with every rollover.  A stream
  delivers a finite list of messages and then ends or fails.  Logging is left out.
\<close>

section \<open>Data\<close>

definition getInterestRate :: interest_rate where
  "getInterestRate = \<lparr> ir_risklessRate = Num (56 / 10000),
     ir_risklessRateAt = ''2022-03-17T17:17:00.702Z'', ir_risklessRateSource = ''AAVE'' \<rparr>"

record vix_index =
  ix_value :: jsnum
  ix_dVol :: jsnum
  ix_invdVol :: jsnum
  ix_methodology :: string
  ix_asset :: string
  ix_timestamp :: string
  ix_underlyingPrice :: jsnum
  ix_timePeriod :: string
  ix_nearExpiry :: string
  ix_nextExpiry :: string
  ix_rate :: interest_rate

record vix_config =
  vc_exchange :: string
  vc_replayFrom :: string
  vc_replayTo :: string
  vc_timePeriod :: string
  vc_reportFrequency :: "jsnum option"
  vc_asset :: string

record vix_result =
  vr_at :: string
  vr_index :: jsnum

datatype stream_request =
    ReplayRequest (sr_exchange: string) (sr_symbols: "string list") (sr_from: string) (sr_to: string)
  | LiveRequest (sr_exchange: string) (sr_symbols: "string list")

record vix_env =
  ve_dayjs :: dayjs_lib
  ve_groupBy :: grouper
  ve_now :: "nat \<Rightarrow> jsdate"
  ve_instruments :: "nat \<Rightarrow> instrument_info list result"
  ve_stream :: "nat \<Rightarrow> stream_request \<Rightarrow> option_summary list \<times> thrown option"
  ve_compute :: "mfiv_context \<Rightarrow> mfiv_params \<Rightarrow> mfiv_result result"

text \<open>The expiries field is unset until \<^verbatim>\<open>fetchIndex\<close> assigns it.\<close>

record vix =
  vx_exchange :: string
  vx_refDate :: jsdate
  vx_startDate :: jsdate
  vx_timePeriod :: jsnum
  vx_timePeriodOption :: string
  vx_reportFrequency :: jsnum
  vx_maxDuration :: jsnum
  vx_asset :: string
  vx_expiries :: expiries
  vx_index :: "vix_index option"
  vx_log :: "(string, jsnum) jsmap"
  vx_midBook :: "(string, option_summary) jsmap"
  vx_options :: "(string, option_summary) jsmap"
  vx_computed :: "vix_index list"
  vx_completed :: nat

section \<open>Operations\<close>

definition unset_expiries :: expiries where
  "unset_expiries = \<lparr> expiryList = [], expiryMap = [], nearExpiry = [], nextExpiry = [],
     nearSymbols = [], nextSymbols = [], rolloverAt = [] \<rparr>"

text \<open>\<^verbatim>\<open>x || d\<close> on a number.\<close>

definition num_or :: "jsnum option \<Rightarrow> jsnum \<Rightarrow> jsnum" where
  "num_or x d = (case x of None \<Rightarrow> d | Some v \<Rightarrow> if v = NaN \<or> v = Num 0 then d else v)"

definition new_vix :: "dayjs_lib \<Rightarrow> vix_config \<Rightarrow> vix result" where
  "new_vix D config =
     (let from = dj_start_of D Minute (dj_utc D (vc_replayFrom config)) in
      res_bind (timePeriodToInteger (vc_timePeriod config)) (\<lambda>tp.
        Inr \<lparr> vx_exchange = vc_exchange config, vx_refDate = from, vx_startDate = from,
          vx_timePeriod = tp, vx_timePeriodOption = vc_timePeriod config,
          vx_reportFrequency = dj_duration_ms D (num_or (vc_reportFrequency config) (Num 15)) Minute,
          vx_maxDuration = num_of_date (dj_diff D (dj_utc D (vc_replayTo config)) from),
          vx_asset = vc_asset config, vx_expiries = unset_expiries, vx_index = None, vx_log = [],
          vx_midBook = [], vx_options = [], vx_computed = [], vx_completed = 0 \<rparr>))"

definition fetch_expiries :: "vix_env \<Rightarrow> nat \<Rightarrow> vix \<Rightarrow> expiries result" where
  "fetch_expiries E k s =
     res_bind (dj_to_iso (ve_dayjs E) (vx_refDate s)) (\<lambda>now.
     res_bind (ve_instruments E k) (\<lambda>is.
       buildExpiries (ve_dayjs E) (ve_groupBy E) is now (vx_timePeriod s)))"

text \<open>The arrays of near and next symbols are sorted in place.  The comparison function orders
  strings as \<^verbatim>\<open><\<close> does.\<close>

definition createStream :: "vix_env \<Rightarrow> nat \<Rightarrow> vix \<Rightarrow> (stream_request \<times> vix) result" where
  "createStream E k s =
     (let D = ve_dayjs E; x = vx_expiries s;
          maxRef = dj_add D (vx_maxDuration s) Ms (dj_of_date D (vx_refDate s))
      in res_bind (if dj_is_after D maxRef (dj_utc D (rolloverAt x)) then Inr (rolloverAt x)
                   else dj_to_iso D maxRef) (\<lambda>replayTo.
         let x1 = x\<lparr> nearSymbols := sort (nearSymbols x), nextSymbols := sort (nextSymbols x) \<rparr>;
             s1 = s\<lparr> vx_expiries := x1 \<rparr>;
             future = (case expiryList x1 of [] \<Rightarrow> [] | e # _ \<Rightarrow> or_default (map_get (expiryMap x1) e) []);
             symbols = nearSymbols x1 @ nextSymbols x1 @ future
         in if dj_is_before D (vx_refDate s1) (dj_start_of D Minute (ve_now E k))
            then res_bind (dj_to_iso D (dj_of_date D (vx_refDate s1))) (\<lambda>from.
              Inr (ReplayRequest (vx_exchange s1) symbols from replayTo, s1))
            else Inr (LiveRequest (vx_exchange s1) symbols, s1)))"

text \<open>The timestamp of a valid Date always has an ISO form.\<close>

definition calculateIndex :: "vix_env \<Rightarrow> option_summary \<Rightarrow> vix \<Rightarrow> vix_index result" where
  "calculateIndex E msg s =
     (let rate = getInterestRate;
          underlying = or_default (os_underlyingPrice msg) (Num 0);
          context = \<lparr> mc_rate = rate, mc_timePeriod = vx_timePeriodOption s,
            mc_exchange = ''deribit'', mc_methodology = ''MFIV'', mc_asset = vx_asset s \<rparr>
      in res_bind (to_iso_string (Some (os_timestamp msg))) (\<lambda>time.
         res_bind (ve_compute E context
            \<lparr> mp_at = time, mp_nearDate = nearExpiry (vx_expiries s),
              mp_nextDate = nextExpiry (vx_expiries s), mp_options = map_values (vx_midBook s),
              mp_underlyingPrice = underlying \<rparr>) (\<lambda>r.
         Inr \<lparr> ix_value = or_default (mr_value r) (Num 0), ix_dVol = or_default (mr_dVol r) (Num 0),
           ix_invdVol = or_default (mr_invdVol r) (Num 0), ix_methodology = mr_methodology r,
           ix_asset = mr_asset r, ix_timestamp = mr_estimatedFor r, ix_underlyingPrice = underlying,
           ix_timePeriod = vx_timePeriodOption s, ix_nearExpiry = nearExpiry (vx_expiries s),
           ix_nextExpiry = nextExpiry (vx_expiries s), ix_rate = rate \<rparr>)))"

definition deleteEntries :: "dayjs_lib \<Rightarrow> jsdate \<Rightarrow> vix \<Rightarrow> vix" where
  "deleteEntries D target s =
     s\<lparr> vx_midBook := fold (\<lambda>o'. map_remove (os_symbol o'))
       (filter (\<lambda>o'. dj_is_same D target (Some (os_expirationDate o'))) (map_values (vx_midBook s)))
       (vx_midBook s) \<rparr>"

text \<open>The report: the index of the message, kept from \<^verbatim>\<open>undefined\<close> by
  nothing but a computation that throws, and the callback.\<close>

definition report :: "vix_env \<Rightarrow> option_summary \<Rightarrow> vix \<Rightarrow> vix" where
  "report E msg s =
     (let s1 = (case calculateIndex E msg s of
                  Inr i \<Rightarrow> s\<lparr> vx_index := Some i \<rparr>
                | Inl _ \<Rightarrow> s\<lparr> vx_index := None \<rparr>)
      in case vx_index s1 of
           Some i \<Rightarrow> s1\<lparr> vx_computed := vx_computed s1 @ [i] \<rparr>
         | None \<Rightarrow> s1)"

text \<open>The start of the second of the message, moved to the next multiple of five seconds.\<close>

definition message_ts :: "dayjs_lib \<Rightarrow> option_summary \<Rightarrow> jsdate" where
  "message_ts D msg =
     (let ts = dj_start_of D Second (dj_of_date D (Some (os_timestamp msg))) in
      case dj_second D ts of
        None \<Rightarrow> dj_add D NaN Second ts
      | Some sec \<Rightarrow> dj_add_int D (5 - sec mod 5) Second ts)"

datatype message_exit = Continue | Break | Roll

text \<open>One message, with the time of the last report.\<close>

definition on_message ::
  "vix_env \<Rightarrow> bool \<Rightarrow> jsdate \<Rightarrow> jsdate \<Rightarrow> option_summary \<Rightarrow> jsdate \<times> vix
   \<Rightarrow> message_exit \<times> jsdate \<times> vix" where
  "on_message E breakOnFirst near next msg ls =
     (let D = ve_dayjs E; lastReport = fst ls; s = snd ls in
      if \<not> dj_is_same D near (Some (os_expirationDate msg))
         \<and> \<not> dj_is_same D next (Some (os_expirationDate msg))
      then (Continue, lastReport, s\<lparr> vx_options := map_set (os_symbol msg) msg (vx_options s) \<rparr>)
      else
        let s1 = s\<lparr> vx_midBook := map_set (os_symbol msg) msg (vx_midBook s) \<rparr>;
            ts = message_ts D msg;
            (lr, s2) = (if num_le (vx_reportFrequency s1) (num_of_date (dj_diff D ts lastReport))
                        then (ts, report E msg s1) else (lastReport, s1))
        in if breakOnFirst \<and> vx_index s2 \<noteq> None then (Break, lr, s2)
           else if num_le (vx_maxDuration s2) (num_of_date (dj_diff D ts (vx_startDate s2)))
           then (Break, lr, s2)
           else if dj_is_same_or_after D ts (dj_utc D (rolloverAt (vx_expiries s2)))
           then (Roll, lr, s2)
           else (Continue, lr, s2))"

text \<open>The messages of one stream, up to a break or a rollover.\<close>

fun stream_loop ::
  "vix_env \<Rightarrow> bool \<Rightarrow> jsdate \<Rightarrow> jsdate \<Rightarrow> option_summary list \<Rightarrow> jsdate \<times> vix
   \<Rightarrow> message_exit \<times> jsdate \<times> vix" where
  "stream_loop E breakOnFirst near next [] ls = (Continue, ls)"
| "stream_loop E breakOnFirst near next (msg # msgs) ls =
     (case on_message E breakOnFirst near next msg ls of
        (Continue, ls1) \<Rightarrow> stream_loop E breakOnFirst near next msgs ls1
      | (exit, ls1) \<Rightarrow> (exit, ls1))"

definition roll_over :: "vix_env \<Rightarrow> nat \<Rightarrow> jsdate \<Rightarrow> vix \<Rightarrow> vix \<times> unit result" where
  "roll_over E k near s =
     (let D = ve_dayjs E; s1 = s\<lparr> vx_refDate := dj_utc D (rolloverAt (vx_expiries s)) \<rparr> in
      case fetch_expiries E (k + 1) s1 of
        Inl e \<Rightarrow> (s1, Inl e)
      | Inr x \<Rightarrow>
          let s2 = s1\<lparr> vx_expiries := x \<rparr> in
          if dj_is_same D near (dj_utc D (nearExpiry x)) then (s2, Inr ())
          else
            let s3 = deleteEntries D near s2;
                newNext = dj_utc D (nextExpiry x);
                incoming = filter (\<lambda>o'. dj_is_same D newNext (Some (os_expirationDate o')))
                  (map_values (vx_options s3));
                s4 = s3\<lparr> vx_midBook := fold (\<lambda>o'. map_set (os_symbol o') o') incoming (vx_midBook s3) \<rparr>
            in (s4\<lparr> vx_options := [] \<rparr>, Inr ()))"

text \<open>The fuel bounds the number of streams.  The result is the state with what the promise
  settles to.\<close>

fun summaryStream ::
  "vix_env \<Rightarrow> nat \<Rightarrow> bool \<Rightarrow> nat \<Rightarrow> vix \<Rightarrow> (vix \<times> vix_index option result) option" where
  "summaryStream E 0 breakOnFirst k s = None"
| "summaryStream E (Suc fuel) breakOnFirst k s =
     (let D = ve_dayjs E;
          lastReport = dj_add_int D (- 1) Minute (dj_of_date D (vx_refDate s));
          near = dj_utc D (nearExpiry (vx_expiries s));
          next = dj_utc D (nextExpiry (vx_expiries s))
      in case createStream E k s of
           Inl e \<Rightarrow> Some (s, Inl e)
         | Inr (req, s1) \<Rightarrow>
             (case ve_stream E k req of (msgs, failure) \<Rightarrow>
                case stream_loop E breakOnFirst near next msgs (lastReport, s1) of
                  (Roll, _, s2) \<Rightarrow>
                    (case roll_over E k near s2 of
                       (s3, Inl e) \<Rightarrow> Some (s3, Inl e)
                     | (s3, Inr _) \<Rightarrow> summaryStream E fuel False (k + 1) s3)
                | (Break, _, s2) \<Rightarrow>
                    Some (s2\<lparr> vx_completed := vx_completed s2 + 1 \<rparr>, Inr (vx_index s2))
                | (Continue, _, s2) \<Rightarrow>
                    (case failure of
                       Some e \<Rightarrow> Some (s2, Inl e)
                     | None \<Rightarrow> Some (s2\<lparr> vx_completed := vx_completed s2 + 1 \<rparr>, Inr (vx_index s2)))))"

definition num_sum :: "jsnum list \<Rightarrow> jsnum" where
  "num_sum xs = fold (\<lambda>x out. num_add out x) xs (Num 0)"

definition fetchIndex :: "vix_env \<Rightarrow> nat \<Rightarrow> vix \<Rightarrow> (vix \<times> vix_result result) option" where
  "fetchIndex E fuel s =
     (case fetch_expiries E 0 s of
        Inl e \<Rightarrow> Some (s, Inl e)
      | Inr x \<Rightarrow>
          (case summaryStream E fuel False 0 (s\<lparr> vx_expiries := x \<rparr>) of
             None \<Rightarrow> None
           | Some (s1, Inl e) \<Rightarrow> Some (s1, Inl e)
           | Some (s1, Inr _) \<Rightarrow>
               let avg = num_div (num_sum (map_values (vx_log s1))) (Num (of_nat (length (vx_log s1)))) in
               Some (s1, res_bind (dj_to_iso (ve_dayjs E) (vx_refDate s1)) (\<lambda>time.
                 Inr \<lparr> vr_at = time, vr_index = avg \<rparr>))))"

section \<open>What one message does\<close>

text \<open>The fields no message changes.\<close>

definition vix_fixed :: "vix \<Rightarrow> jsdate \<times> jsdate \<times> jsnum \<times> jsnum \<times> jsnum \<times> expiries \<times> (string, jsnum) jsmap" where
  "vix_fixed s = (vx_refDate s, vx_startDate s, vx_timePeriod s, vx_maxDuration s,
     vx_reportFrequency s, vx_expiries s, vx_log s)"

lemma report_fixed [simp]: "vix_fixed (report E msg s) = vix_fixed s"
  by (simp add: report_def vix_fixed_def Let_def split: sum.splits option.splits)

lemma vix_fixed_eq: "vix_fixed s = vix_fixed s' \<longleftrightarrow>
    vx_refDate s = vx_refDate s' \<and> vx_startDate s = vx_startDate s' \<and> vx_timePeriod s = vx_timePeriod s'
    \<and> vx_maxDuration s = vx_maxDuration s' \<and> vx_reportFrequency s = vx_reportFrequency s'
    \<and> vx_expiries s = vx_expiries s' \<and> vx_log s = vx_log s'"
  by (simp add: vix_fixed_def)

lemma report_midBook [simp]: "vx_midBook (report E msg s) = vx_midBook s" "vx_options (report E msg s) = vx_options s"
  by (simp_all add: report_def Let_def split: sum.splits option.splits)

lemma on_message_fixed: "on_message E b near next msg (lr, s) = (ex, lr', s') \<Longrightarrow> vix_fixed s' = vix_fixed s"
proof -
  have [simp]: "vix_fixed (s\<lparr>vx_options := x\<rparr>) = vix_fixed s" "vix_fixed (s\<lparr>vx_midBook := y\<rparr>) = vix_fixed s" for x y
    by (simp_all add: vix_fixed_def)
  show "on_message E b near next msg (lr, s) = (ex, lr', s') \<Longrightarrow> vix_fixed s' = vix_fixed s"
    by (auto simp: on_message_def Let_def split: if_splits)
qed

lemma stream_loop_fixed: "stream_loop E b near next msgs (lr, s) = (ex, lr', s') \<Longrightarrow> vix_fixed s' = vix_fixed s"
proof (induction msgs arbitrary: lr s)
  case (Cons msg msgs)
  obtain ex1 lr1 s1 where m: "on_message E b near next msg (lr, s) = (ex1, lr1, s1)"
    by (cases "on_message E b near next msg (lr, s)") auto
  with Cons show ?case using on_message_fixed [OF m] by (cases ex1) auto
qed simp

lemma on_message_Roll:
  assumes "on_message E b near next msg (lr, s) = (Roll, lr', s')"
  shows "\<not> num_le (vx_maxDuration s) (num_of_date (dj_diff (ve_dayjs E) (message_ts (ve_dayjs E) msg) (vx_startDate s)))"
    and "dj_is_same_or_after (ve_dayjs E) (message_ts (ve_dayjs E) msg)
      (dj_utc (ve_dayjs E) (rolloverAt (vx_expiries s)))"
proof -
  have f: "vx_maxDuration s' = vx_maxDuration s" "vx_startDate s' = vx_startDate s" "vx_expiries s' = vx_expiries s"
    using on_message_fixed [OF assms] by (simp_all add: vix_fixed_eq)
  have "\<not> num_le (vx_maxDuration s') (num_of_date (dj_diff (ve_dayjs E) (message_ts (ve_dayjs E) msg) (vx_startDate s')))
      \<and> dj_is_same_or_after (ve_dayjs E) (message_ts (ve_dayjs E) msg)
      (dj_utc (ve_dayjs E) (rolloverAt (vx_expiries s')))"
    using assms unfolding on_message_def Let_def by (simp split: if_splits prod.splits) auto
  then show "\<not> num_le (vx_maxDuration s) (num_of_date (dj_diff (ve_dayjs E) (message_ts (ve_dayjs E) msg) (vx_startDate s)))"
    "dj_is_same_or_after (ve_dayjs E) (message_ts (ve_dayjs E) msg)
      (dj_utc (ve_dayjs E) (rolloverAt (vx_expiries s)))" by (simp_all add: f)
qed

lemma stream_loop_Roll:
  "stream_loop E b near next msgs (lr, s) = (Roll, lr', s') \<Longrightarrow>
    \<exists>msg \<in> set msgs.
      \<not> num_le (vx_maxDuration s) (num_of_date (dj_diff (ve_dayjs E) (message_ts (ve_dayjs E) msg) (vx_startDate s)))
      \<and> dj_is_same_or_after (ve_dayjs E) (message_ts (ve_dayjs E) msg)
          (dj_utc (ve_dayjs E) (rolloverAt (vx_expiries s)))"
proof (induction msgs arbitrary: lr s)
  case (Cons msg msgs)
  obtain ex1 lr1 s1 where m: "on_message E b near next msg (lr, s) = (ex1, lr1, s1)"
    by (cases "on_message E b near next msg (lr, s)") auto
  have f: "vix_fixed s1 = vix_fixed s" by (rule on_message_fixed [OF m])
  show ?case
  proof (cases ex1)
    case Continue
    with m Cons.prems have "stream_loop E b near next msgs (lr1, s1) = (Roll, lr', s')" by simp
    from Cons.IH [OF this] show ?thesis using f by (simp add: vix_fixed_eq)
  next
    case Break
    then show ?thesis using Cons m by simp
  next
    case Roll
    then show ?thesis using m on_message_Roll [of E b near "next" msg lr s] by auto
  qed
qed simp

subsection \<open>The timestamp of a message\<close>

definition message_ok :: "option_summary \<Rightarrow> bool" where
  "message_ok msg \<longleftrightarrow> four_digit_year (os_timestamp msg) \<and> four_digit_year (os_timestamp msg + 5000)"

definition next_5s :: "int \<Rightarrow> int" where
  "next_5s t = (t div 5000 + 1) * 5000"

lemma next_5s_bounds: "t < next_5s t" "next_5s t \<le> t + 5000"
  using div_bounds [of 5000 t] by (simp_all add: next_5s_def)

lemma four_digit_between: "four_digit_year a \<Longrightarrow> four_digit_year c \<Longrightarrow> a \<le> b \<Longrightarrow> b \<le> c \<Longrightarrow> four_digit_year b"
  by (simp add: four_digit_year_def)

lemma five_second_grid:
  "t - t mod 1000 + (5 - utc_seconds (t - t mod 1000) mod 5) * 1000 = next_5s t"
proof -
  define q where "q = t div 1000"
  have a: "t - t mod 1000 = q * 1000" by (simp add: minus_mod_eq_div_mult q_def)
  have "utc_seconds (q * 1000) = q mod 60" by (simp add: utc_seconds_def)
  then have b: "utc_seconds (q * 1000) mod 5 = q mod 5"
    by (simp only:) (rule mod_mod_cancel, simp)
  have c: "t div 5000 = q div 5" using zdiv_zmult2_eq [of 5 t 1000] by (simp add: q_def)
  define x y where "x = q div 5" and "y = q mod 5"
  have "q = 5 * x + y" by (simp add: x_def y_def)
  then show ?thesis unfolding a b next_5s_def c x_def [symmetric] y_def [symmetric]
    by (simp add: algebra_simps)
qed

lemma start_of_second_year: "four_digit_year t \<Longrightarrow> four_digit_year (t - t mod 1000)"
  using zdiv_mono1 [of "-62167219200000" t 1000] div_bounds [of 1000 t]
  by (simp add: four_digit_year_def minus_mod_eq_div_mult)

context dayjs_utc begin

lemma message_ts_grid:
  assumes "message_ok msg"
  shows "message_ts D msg = Some (next_5s (os_timestamp msg))"
    and "four_digit_year (next_5s (os_timestamp msg))"
proof -
  let ?t = "os_timestamp msg"
  have t: "four_digit_year ?t" "four_digit_year (?t + 5000)" using assms by (simp_all add: message_ok_def)
  note s = start_of_second_year [OF t(1)]
  show n: "four_digit_year (next_5s ?t)"
    using four_digit_between [OF t] next_5s_bounds [of ?t] by simp
  have "dj_add_int D (5 - utc_seconds (?t - ?t mod 1000) mod 5) Second (Some (?t - ?t mod 1000))
      = Some (next_5s ?t)"
    by (rule add_int [OF s, of "5 - utc_seconds (?t - ?t mod 1000) mod 5" Second, unfolded unit_ms.simps five_second_grid, OF n]) simp
  then show "message_ts D msg = Some (next_5s ?t)"
    using start_of [OF t(1), of Second] by (simp add: message_ts_def of_date t second [OF s])
qed

end

section \<open>Termination\<close>

definition good_env :: "vix_env \<Rightarrow> bool" where
  "good_env E \<longleftrightarrow> dayjs_utc (ve_dayjs E) \<and> grouping (ve_groupBy E)
     \<and> (\<forall>k is. ve_instruments E k = Inr is \<longrightarrow> iso_listed is)
     \<and> (\<forall>k req. list_all message_ok (fst (ve_stream E k req)))"

text \<open>A calculator that started at \<open>start\<close>, runs for \<open>d\<close> milliseconds, stands at the reference
  date \<open>ref\<close> and uses expiries fetched there.\<close>

definition vix_at :: "int \<Rightarrow> int \<Rightarrow> int \<Rightarrow> int \<Rightarrow> vix \<Rightarrow> bool" where
  "vix_at start d n ref s \<longleftrightarrow> four_digit_year start \<and> four_digit_year ref
     \<and> 0 \<le> n \<and> four_digit_year (start + d + n * msPerDay) \<and> four_digit_year (ref + n * msPerDay)
     \<and> vx_startDate s = Some start \<and> vx_refDate s = Some ref
     \<and> vx_maxDuration s = Num (of_int d) \<and> vx_timePeriod s = Num (of_int n)"

lemma vix_at_fixed: "vix_fixed s = vix_fixed s' \<Longrightarrow> vix_at start d n ref s = vix_at start d n ref s'"
  by (simp add: vix_at_def vix_fixed_eq)

definition rolls_later :: "int \<Rightarrow> expiries \<Rightarrow> bool" where
  "rolls_later ref x \<longleftrightarrow> (\<exists>f. rolloverAt x = iso_string f \<and> four_digit_year f \<and> ref < f)"

lemma open_expiries_after: "four_digit_year now \<Longrightarrow> e \<in> open_expiries (iso_string now) is \<Longrightarrow> now < e"
  by (auto simp: open_expiries_def available_def iso_string_less_iff split: option.splits)

lemma buildExpiries_rolls_later:
  assumes "dayjs_utc D" "grouping g" "four_digit_year now" "four_digit_year (now + n * msPerDay)"
    "iso_listed is" "buildExpiries D g is (iso_string now) (Num (of_int n)) = Inr x"
  shows "rolls_later now x"
proof -
  let ?T = "open_expiries (iso_string now) is"
  from assms(6) have "rolloverAt x = iso_string (hd (sorted_list_of_set ?T))"
    and "filter (\<lambda>t. t \<le> now + n * msPerDay) (sorted_list_of_set ?T) \<noteq> []"
    unfolding dayjs_utc.buildExpiries_core [OF assms(1-5)] by (auto split: if_splits)
  moreover from this have "hd (sorted_list_of_set ?T) \<in> ?T"
    using finite_open_expiries [of "iso_string now" "is"]
    by (metis filter.simps(1) hd_in_set set_sorted_list_of_set)
  moreover from this have "now < hd (sorted_list_of_set ?T)"
    by (rule open_expiries_after [OF assms(3)])
  ultimately show ?thesis using open_expiry_hit unfolding rolls_later_def by blast
qed

lemma fetch_expiries_rolls_later:
  assumes "good_env E" "vix_at start d n ref s" "fetch_expiries E k s = Inr x"
  shows "rolls_later ref x"
proof -
  have "ve_instruments E k = Inr is \<Longrightarrow> iso_listed is" for "is" using assms(1) by (simp add: good_env_def)
  then show ?thesis
    using assms buildExpiries_rolls_later [of "ve_dayjs E" "ve_groupBy E" ref n]
    by (auto simp: fetch_expiries_def res_bind_Inr_iff vix_at_def good_env_def dayjs_utc.to_iso)
qed

lemma createStream_fixed:
  "createStream E k s = Inr (req, s1) \<Longrightarrow> vx_refDate s1 = vx_refDate s \<and> vx_startDate s1 = vx_startDate s
    \<and> vx_maxDuration s1 = vx_maxDuration s \<and> vx_timePeriod s1 = vx_timePeriod s
    \<and> rolloverAt (vx_expiries s1) = rolloverAt (vx_expiries s) \<and> vx_log s1 = vx_log s
    \<and> vx_reportFrequency s1 = vx_reportFrequency s"
  by (auto simp: createStream_def Let_def res_bind_Inr_iff split: if_splits)

lemma roll_over_fields:
  "roll_over E k near s = (s', r) \<Longrightarrow>
    vx_refDate s' = dj_utc (ve_dayjs E) (rolloverAt (vx_expiries s)) \<and> vx_startDate s' = vx_startDate s
    \<and> vx_maxDuration s' = vx_maxDuration s \<and> vx_timePeriod s' = vx_timePeriod s \<and> vx_log s' = vx_log s
    \<and> (r = Inr () \<longrightarrow> fetch_expiries E (k + 1)
        (s\<lparr> vx_refDate := dj_utc (ve_dayjs E) (rolloverAt (vx_expiries s)) \<rparr>) = Inr (vx_expiries s'))"
  by (auto simp: roll_over_def Let_def deleteEntries_def split: sum.splits if_splits)

text \<open>A rollover happens inside the query period, at a later reference date.\<close>

lemma roll_inside:
  assumes "good_env E" "vix_at start d n ref s" "rolls_later ref (vx_expiries s)"
    and msgs: "list_all message_ok msgs" and run: "stream_loop E b near next msgs (lr, s) = (Roll, lr', s')"
  obtains f where "dj_utc (ve_dayjs E) (rolloverAt (vx_expiries s)) = Some f" "ref < f" "f < start + d"
    "four_digit_year f"
proof -
  have D: "dayjs_utc (ve_dayjs E)" using assms(1) by (simp add: good_env_def)
  obtain f where f: "rolloverAt (vx_expiries s) = iso_string f" "four_digit_year f" "ref < f"
    using assms(3) by (auto simp: rolls_later_def)
  have u: "dj_utc (ve_dayjs E) (rolloverAt (vx_expiries s)) = Some f"
    using dayjs_utc.utc_iso [OF D] f by simp
  from stream_loop_Roll [OF run] obtain msg where msg: "msg \<in> set msgs"
    "\<not> num_le (vx_maxDuration s) (num_of_date (dj_diff (ve_dayjs E) (message_ts (ve_dayjs E) msg) (vx_startDate s)))"
    "dj_is_same_or_after (ve_dayjs E) (message_ts (ve_dayjs E) msg) (Some f)"
    by (auto simp: u)
  have ok: "message_ok msg" using msgs msg(1) by (simp add: list_all_iff)
  note ts = dayjs_utc.message_ts_grid [OF D ok]
  have "f \<le> next_5s (os_timestamp msg)"
    using msg(3) dayjs_utc.is_same_or_after [OF D ts(2) f(2)] by (simp add: ts(1))
  moreover have "next_5s (os_timestamp msg) - start < d"
    using msg(2) assms(2) dayjs_utc.diff [OF D ts(2), of start]
    by (simp add: ts(1) vix_at_def num_of_date_def)
  ultimately show ?thesis using that u f by force
qed

lemma summaryStream_returns:
  assumes E: "good_env E"
  shows "vix_at start d n ref s \<Longrightarrow> rolls_later ref (vx_expiries s) \<Longrightarrow> nat (start + d - ref) < fuel
    \<Longrightarrow> \<exists>r. summaryStream E fuel b k s = Some r"
proof (induction fuel arbitrary: b k s ref)
  case (Suc fuel)
  show ?case
  proof (cases "createStream E k s")
    case (Inr rs)
    obtain req s1 where rs: "rs = (req, s1)" by (cases rs) auto
    obtain msgs failure where str: "ve_stream E k req = (msgs, failure)" by force
    let ?near = "dj_utc (ve_dayjs E) (nearExpiry (vx_expiries s))"
    let ?next = "dj_utc (ve_dayjs E) (nextExpiry (vx_expiries s))"
    let ?lr = "dj_add_int (ve_dayjs E) (- 1) Minute (dj_of_date (ve_dayjs E) (vx_refDate s))"
    obtain ex lr' s2 where run: "stream_loop E b ?near ?next msgs (?lr, s1) = (ex, lr', s2)"
      by (cases "stream_loop E b ?near ?next msgs (?lr, s1)") auto
    note c = createStream_fixed [OF Inr [unfolded rs]]
    have at1: "vix_at start d n ref s1" and roll1: "rolls_later ref (vx_expiries s1)"
      using Suc.prems c by (simp_all add: vix_at_def rolls_later_def)
    have msgs: "list_all message_ok msgs" using E str by (metis good_env_def fst_conv)
    show ?thesis
    proof (cases ex)
      case Roll
      obtain s3 r where ro: "roll_over E k ?near s2 = (s3, r)" by force
      obtain f where f: "dj_utc (ve_dayjs E) (rolloverAt (vx_expiries s1)) = Some f" "ref < f"
        "f < start + d" "four_digit_year f"
        using roll_inside [OF E at1 roll1 msgs run [unfolded Roll]] by blast
      note fx = stream_loop_fixed [OF run]
      show ?thesis
      proof (cases r)
        case (Inl e)
        then show ?thesis using Inr rs str run Roll ro by simp
      next
        case ok: (Inr u)
        have u: "rolloverAt (vx_expiries s2) = rolloverAt (vx_expiries s1)"
          using fx by (simp add: vix_fixed_eq)
        note rf = roll_over_fields [OF ro]
        have "four_digit_year (f + n * msPerDay)"
          using four_digit_between [OF f(4), of "start + d + n * msPerDay" "f + n * msPerDay"] Suc.prems(1) f(3)
          by (simp add: vix_at_def)
        then have at3: "vix_at start d n f s3"
          and at2: "vix_at start d n f (s2\<lparr> vx_refDate := Some f \<rparr>)"
          using rf fx at1 f by (simp_all add: vix_at_def vix_fixed_eq)
        have "fetch_expiries E (k + 1) (s2\<lparr> vx_refDate := Some f \<rparr>) = Inr (vx_expiries s3)"
          using rf ok f(1) u by simp
        from fetch_expiries_rolls_later [OF E at2 this] have r3: "rolls_later f (vx_expiries s3)" .
        have "nat (start + d - f) < fuel" using Suc.prems(3) f by simp
        from Suc.IH [OF at3 r3 this] show ?thesis
          using Inr rs str run Roll ro ok by simp
      qed
    qed (use Inr rs str run in \<open>auto split: option.splits\<close>)
  qed simp
qed simp

section \<open>The books\<close>

text \<open>Summaries are filed under their own symbol.\<close>

definition book_ok :: "(string, option_summary) jsmap \<Rightarrow> bool" where
  "book_ok m \<longleftrightarrow> map_ok m \<and> list_all (\<lambda>(k, v). k = os_symbol v \<and> four_digit_year (os_expirationDate v)) m"

lemma book_ok_empty [simp]: "book_ok []"
  by (simp add: book_ok_def)

lemma book_ok_get: "book_ok m \<Longrightarrow> map_get m k = Some v \<Longrightarrow> os_symbol v = k \<and> four_digit_year (os_expirationDate v)"
  by (auto simp: book_ok_def list_all_iff map_get_def dest!: map_of_SomeD)

lemma book_okI:
  "map_ok m \<Longrightarrow> (\<And>k v. map_get m k = Some v \<Longrightarrow> os_symbol v = k \<and> four_digit_year (os_expirationDate v)) \<Longrightarrow> book_ok m"
  unfolding book_ok_def list_all_iff map_ok_def map_keys_def map_get_def by (auto simp: map_of_is_SomeI)

lemma book_ok_map [simp]: "book_ok m \<Longrightarrow> map_ok m"
  by (simp add: book_ok_def)

lemma book_ok_set: "book_ok m \<Longrightarrow> four_digit_year (os_expirationDate v) \<Longrightarrow> book_ok (map_set (os_symbol v) v m)"
  by (rule book_okI) (use book_ok_get [of m] in \<open>auto split: if_splits\<close>)

lemma book_values: "book_ok m \<Longrightarrow> v \<in> set (map_values m) \<longleftrightarrow> map_get m (os_symbol v) = Some v"
  by (metis book_ok_def book_ok_get map_values_get)

lemma book_mem: "book_ok m \<Longrightarrow> map_get m k = Some v \<longleftrightarrow> v \<in> set (map_values m) \<and> os_symbol v = k"
  by (metis book_values book_ok_get)

lemma book_symbols: "book_ok m \<Longrightarrow> map os_symbol (map_values m) = map_keys m"
  by (auto simp: book_ok_def list_all_iff map_values_def map_keys_def)

lemma book_remove:
  assumes "book_ok m"
  shows "map_get (fold (\<lambda>o'. map_remove (os_symbol o')) (filter Q (map_values m)) m) k =
    (case map_get m k of Some v \<Rightarrow> if Q v then None else Some v | None \<Rightarrow> None)"
proof -
  have A: "fold (\<lambda>o'. map_remove (os_symbol o')) xs m' = fold map_remove (map os_symbol xs) m'" for xs m'
    by (induction xs arbitrary: m') simp_all
  have B: "k \<in> os_symbol ` {v \<in> set (map_values m). Q v} \<longleftrightarrow> (\<exists>v. map_get m k = Some v \<and> Q v)"
    by (auto simp: book_mem [OF assms])
  have "map_get (fold (\<lambda>o'. map_remove (os_symbol o')) (filter Q (map_values m)) m) k =
      (if \<exists>v. map_get m k = Some v \<and> Q v then None else map_get m k)"
    by (simp only: A map_get_fold_remove set_map set_filter B)
  then show ?thesis by (cases "map_get m k") auto
qed

lemma fold_book_set:
  "distinct (map os_symbol xs) \<Longrightarrow> map_get (fold (\<lambda>o'. map_set (os_symbol o') o') xs m) k =
    (case find (\<lambda>o'. os_symbol o' = k) xs of Some v \<Rightarrow> Some v | None \<Rightarrow> map_get m k)"
proof (induction xs arbitrary: m)
  case (Cons x xs)
  have "find (\<lambda>o'. os_symbol o' = os_symbol x) xs = None"
    using Cons.prems by (auto simp: find_None_iff intro: rev_image_eqI)
  with Cons show ?case by (auto split: option.splits)
qed simp

lemma book_copy:
  assumes "book_ok opts"
  shows "map_get (fold (\<lambda>o'. map_set (os_symbol o') o') (filter Q (map_values opts)) m) k =
    (case map_get opts k of Some v \<Rightarrow> if Q v then Some v else map_get m k | None \<Rightarrow> map_get m k)"
proof -
  have dist: "distinct (map os_symbol (map_values opts))"
    using assms by (simp add: book_symbols) (simp add: book_ok_def map_ok_def)
  have mem: "v \<in> set (map_values opts) \<and> os_symbol v = k \<longleftrightarrow> map_get opts k = Some v" for v
    using book_mem [OF assms] by simp
  show ?thesis
  proof (cases "\<exists>v. map_get opts k = Some v \<and> Q v")
    case True
    then obtain v where v: "map_get opts k = Some v" "Q v" by blast
    have "find (\<lambda>o'. os_symbol o' = k) (filter Q (map_values opts)) = Some w \<Longrightarrow> w = v" for w
      using v mem by (auto simp: find_Some_iff) (metis filter_is_subset mem nth_mem option.inject subsetD)
    moreover have "find (\<lambda>o'. os_symbol o' = k) (filter Q (map_values opts)) \<noteq> None"
      using v mem [of v] by (auto simp: find_None_iff)
    ultimately show ?thesis using v fold_book_set [OF distinct_map_filter [OF dist]] by auto
  next
    case False
    then have "find (\<lambda>o'. os_symbol o' = k) (filter Q (map_values opts)) = None"
      using mem by (auto simp: find_None_iff)
    then show ?thesis using False fold_book_set [OF distinct_map_filter [OF dist]]
      by (auto split: option.splits)
  qed
qed

lemma map_ok_fold_set: "map_ok m \<Longrightarrow> map_ok (fold (\<lambda>o'. map_set (os_symbol o') o') xs m)"
  by (induction xs arbitrary: m) auto

lemma map_ok_fold_remove': "map_ok m \<Longrightarrow> map_ok (fold (\<lambda>o'. map_remove (os_symbol o')) xs m)"
  by (induction xs arbitrary: m) auto

definition books_ok :: "vix \<Rightarrow> bool" where
  "books_ok s \<longleftrightarrow> book_ok (vx_midBook s) \<and> book_ok (vx_options s)"

lemma report_books [simp]: "books_ok (report E msg s) = books_ok s"
  by (simp add: books_ok_def)

lemma on_message_books:
  "books_ok s \<Longrightarrow> four_digit_year (os_expirationDate msg) \<Longrightarrow>
    on_message E b near next msg (lr, s) = (ex, lr', s') \<Longrightarrow> books_ok s'"
  using book_ok_set by (auto simp: on_message_def Let_def books_ok_def split: if_splits)

lemma stream_loop_books:
  "books_ok s \<Longrightarrow> list_all (\<lambda>m. four_digit_year (os_expirationDate m)) msgs \<Longrightarrow>
    stream_loop E b near next msgs (lr, s) = (ex, lr', s') \<Longrightarrow> books_ok s'"
proof (induction msgs arbitrary: lr s)
  case (Cons msg msgs)
  obtain ex1 lr1 s1 where m: "on_message E b near next msg (lr, s) = (ex1, lr1, s1)"
    by (cases "on_message E b near next msg (lr, s)") auto
  with Cons show ?case using on_message_books [OF _ _ m] by (cases ex1) auto
qed simp

lemma roll_over_midBook:
  assumes D: "dayjs_utc (ve_dayjs E)" and s: "books_ok s" and near: "four_digit_year nr"
    and roll: "roll_over E k (Some nr) s = (s', Inr ())"
    and x: "nearExpiry (vx_expiries s') = iso_string nr'" "four_digit_year nr'" "nr' \<noteq> nr"
      "nextExpiry (vx_expiries s') = iso_string nx'" "four_digit_year nx'"
  shows "map_get (vx_midBook s') ky =
      (case map_get (vx_options s) ky of
         Some v \<Rightarrow> if os_expirationDate v = nx' then Some v
                   else Option.bind (map_get (vx_midBook s) ky)
                     (\<lambda>w. if os_expirationDate w = nr then None else Some w)
       | None \<Rightarrow> Option.bind (map_get (vx_midBook s) ky)
           (\<lambda>w. if os_expirationDate w = nr then None else Some w))"
    and "vx_options s' = []" and "map_ok (vx_midBook s')"
proof -
  let ?D = "ve_dayjs E"
  define x where "x = vx_expiries s'"
  have fx: "fetch_expiries E (k + 1) (s\<lparr> vx_refDate := dj_utc ?D (rolloverAt (vx_expiries s)) \<rparr>) = Inr x"
    using roll_over_fields [OF roll] by (simp add: x_def)
  have nr': "dj_utc ?D (nearExpiry x) = Some nr'" and nx': "dj_utc ?D (nextExpiry x) = Some nx'"
    using x dayjs_utc.utc_iso [OF D] by (simp_all add: x_def)
  have ne: "\<not> dj_is_same ?D (Some nr) (Some nr')"
    using dayjs_utc.is_same [OF D near x(2)] x(3) by simp
  let ?Q = "\<lambda>v. dj_is_same ?D (Some nr) (Some (os_expirationDate v))"
  let ?R = "\<lambda>v. dj_is_same ?D (Some nx') (Some (os_expirationDate v))"
  have mid: "book_ok (vx_midBook s)" and opt: "book_ok (vx_options s)" using s by (simp_all add: books_ok_def)
  have book: "vx_midBook s' = fold (\<lambda>o'. map_set (os_symbol o') o') (filter ?R (map_values (vx_options s)))
      (fold (\<lambda>o'. map_remove (os_symbol o')) (filter ?Q (map_values (vx_midBook s))) (vx_midBook s))"
    and "vx_options s' = []"
    using roll fx ne by (auto simp: roll_over_def Let_def deleteEntries_def nr' nx')
  then show "vx_options s' = []" by simp
  show "map_ok (vx_midBook s')" using mid
    by (simp add: book map_ok_fold_set map_ok_fold_remove' book_ok_def)
  have Q: "map_get (vx_midBook s) ky = Some v \<Longrightarrow> ?Q v \<longleftrightarrow> os_expirationDate v = nr" for v
    using dayjs_utc.is_same [OF D near] book_ok_get [OF mid] by auto
  have R: "map_get (vx_options s) ky = Some v \<Longrightarrow> ?R v \<longleftrightarrow> os_expirationDate v = nx'" for v
    using dayjs_utc.is_same [OF D x(5)] book_ok_get [OF opt] by auto
  show "map_get (vx_midBook s') ky =
      (case map_get (vx_options s) ky of
         Some v \<Rightarrow> if os_expirationDate v = nx' then Some v
                   else Option.bind (map_get (vx_midBook s) ky)
                     (\<lambda>w. if os_expirationDate w = nr then None else Some w)
       | None \<Rightarrow> Option.bind (map_get (vx_midBook s) ky)
           (\<lambda>w. if os_expirationDate w = nr then None else Some w))"
    using Q R unfolding book book_copy [OF opt] book_remove [OF mid]
    by (auto split: option.splits)
qed

section \<open>The rate of the reports\<close>

lemma report_computed: "length (vx_computed (report E msg s)) \<le> Suc (length (vx_computed s))"
  by (simp add: report_def Let_def split: sum.splits option.splits)

context dayjs_utc begin

lemma on_message_rate:
  assumes E: "ve_dayjs E = D" and msg: "message_ok msg" and l: "four_digit_year l"
    and freq: "vx_reportFrequency s = Num (of_int freq)" "0 < freq"
    and run: "on_message E b near next msg (Some l, s) = (ex, lr', s')"
  obtains l' where "lr' = Some l'" "four_digit_year l'"
    "int (length (vx_computed s')) * freq - l' \<le> int (length (vx_computed s)) * freq - l"
proof (cases "lr' = Some l")
  case True
  have "vx_computed s' = vx_computed s"
    using run True message_ts_grid [OF msg] diff [of "next_5s (os_timestamp msg)" l] l freq
    by (auto simp: on_message_def Let_def E num_of_date_def split: if_splits)
  then show ?thesis using that [of l] True l by simp
next
  case False
  note ts = message_ts_grid [OF msg]
  obtain t where t: "lr' = Some (next_5s (os_timestamp msg))" "freq \<le> next_5s (os_timestamp msg) - l"
    "vx_computed s' = vx_computed (report E msg t)" "vx_computed t = vx_computed s"
    using run False ts diff [OF ts(2) l] freq that
    by (auto simp: on_message_def Let_def E num_of_date_def split: if_splits)
  then have "int (length (vx_computed s')) \<le> int (length (vx_computed s)) + 1"
    using report_computed [of E msg t] by simp
  then have "int (length (vx_computed s')) * freq \<le> (int (length (vx_computed s)) + 1) * freq"
    using freq by (intro mult_right_mono) auto
  then show ?thesis using that t ts by (auto simp: algebra_simps)
qed

lemma stream_loop_rate:
  assumes E: "ve_dayjs E = D"
  shows "list_all message_ok msgs \<Longrightarrow> four_digit_year l \<Longrightarrow> vx_reportFrequency s = Num (of_int freq) \<Longrightarrow>
    0 < freq \<Longrightarrow> stream_loop E b near next msgs (Some l, s) = (ex, lr', s') \<Longrightarrow>
    \<exists>l'. lr' = Some l' \<and>
      int (length (vx_computed s')) * freq - l' \<le> int (length (vx_computed s)) * freq - l"
proof (induction msgs arbitrary: l s)
  case (Cons msg msgs)
  obtain ex1 lr1 s1 where m: "on_message E b near next msg (Some l, s) = (ex1, lr1, s1)"
    by (cases "on_message E b near next msg (Some l, s)") auto
  obtain l1 where l1: "lr1 = Some l1" "four_digit_year l1"
    "int (length (vx_computed s1)) * freq - l1 \<le> int (length (vx_computed s)) * freq - l"
    using on_message_rate [OF E _ Cons.prems(2,3,4) m] Cons.prems(1) by auto
  have f: "vx_reportFrequency s1 = Num (of_int freq)"
    using on_message_fixed [OF m] Cons.prems by (simp add: vix_fixed_eq)
  show ?case
  proof (cases ex1)
    case Continue
    then have "stream_loop E b near next msgs (Some l1, s1) = (ex, lr', s')"
      using Cons.prems m l1 by simp
    from Cons.IH [OF _ l1(2) f _ this] Cons.prems l1(3) show ?thesis by fastforce
  qed (use Cons.prems m l1 in auto)
qed auto

end

section \<open>The average index\<close>

lemma summaryStream_log:
  "summaryStream E fuel b k s = Some (s', r) \<Longrightarrow> vx_log s' = vx_log s"
proof (induction fuel arbitrary: b k s)
  case (Suc fuel)
  show ?case
  proof (cases "createStream E k s")
    case (Inr rs)
    obtain req s1 where rs: "rs = (req, s1)" by (cases rs) auto
    obtain msgs failure where str: "ve_stream E k req = (msgs, failure)" by force
    let ?near = "dj_utc (ve_dayjs E) (nearExpiry (vx_expiries s))"
    let ?next = "dj_utc (ve_dayjs E) (nextExpiry (vx_expiries s))"
    let ?lr = "dj_add_int (ve_dayjs E) (- 1) Minute (dj_of_date (ve_dayjs E) (vx_refDate s))"
    obtain ex lr' s2 where run: "stream_loop E b ?near ?next msgs (?lr, s1) = (ex, lr', s2)"
      by (cases "stream_loop E b ?near ?next msgs (?lr, s1)") auto
    obtain s3 u where ro: "roll_over E k ?near s2 = (s3, u)" by force
    have "vx_log s1 = vx_log s" "vx_log s2 = vx_log s1" "vx_log s3 = vx_log s2"
      using createStream_fixed [OF Inr [unfolded rs]] stream_loop_fixed [OF run] roll_over_fields [OF ro]
      by (simp_all add: vix_fixed_eq)
    then show ?thesis using Suc Inr rs str run ro
      by (cases ex; cases u) (auto split: option.splits)
  qed (use Suc.prems in auto)
qed simp

lemma new_vix_log: "new_vix D config = Inr s \<Longrightarrow> vx_log s = []"
  by (auto simp: new_vix_def Let_def res_bind_Inr_iff)

lemma fetchIndex_settles:
  assumes "good_env E" "vix_at start d n start s" "nat d < fuel"
  shows "\<exists>r. fetchIndex E fuel s = Some r"
proof (cases "fetch_expiries E 0 s")
  case (Inr x)
  have "vix_at start d n start (s\<lparr> vx_expiries := x \<rparr>)" using assms(2) by (simp add: vix_at_def)
  moreover have "rolls_later start x" by (rule fetch_expiries_rolls_later [OF assms(1,2) Inr])
  ultimately obtain r where "summaryStream E fuel False 0 (s\<lparr> vx_expiries := x \<rparr>) = Some r"
    using summaryStream_returns [OF assms(1), of start d n start "s\<lparr> vx_expiries := x \<rparr>" fuel False 0] assms(3)
    by auto
  then show ?thesis using Inr by (cases r; cases "snd r") (auto simp: fetchIndex_def Let_def)
qed (simp add: fetchIndex_def)

section \<open>Properties\<close>

text \<open>C9: fetchIndex returns.  For a calculator that stands at its start date, on exchange data
  with ISO expiries and plausible timestamps, the promise settles: every rollover moves the
  reference date strictly forward and happens only inside the query period, so at most as many
  streams are opened as the period has milliseconds.\<close>

theorem fetchIndex_returns:
  assumes "good_env E" "vix_at start d n start s" "nat d < fuel"
  shows "\<exists>r. fetchIndex E fuel s = Some r"
  by (rule fetchIndex_settles [OF assms])

text \<open>The index that fetchIndex returns is always NaN: nothing ever writes the log whose
  average it is.\<close>

theorem fetchIndex_always_NaN:
  assumes "new_vix D config = Inr s" "fetchIndex E fuel s = Some (s', Inr r)"
  shows "vr_index r = NaN"
proof -
  obtain x res where x: "fetch_expiries E 0 s = Inr x"
    "summaryStream E fuel False 0 (s\<lparr> vx_expiries := x \<rparr>) = Some (s', res)"
    using assms(2) by (auto simp: fetchIndex_def Let_def split: sum.splits option.splits prod.splits)
  then have "vx_log s' = []" using summaryStream_log [OF x(2)] new_vix_log [OF assms(1)] by simp
  then show ?thesis using assms(2) x
    by (auto simp: fetchIndex_def Let_def res_bind_Inr_iff num_sum_def map_values_def num_of_sign_def
        split: sum.splits)
qed

text \<open>Reports keep their distance.  Over one stream the number of callbacks times the report
  frequency is at most the time between the last report before the stream and the last report of
  the stream.\<close>

theorem stream_report_rate:
  assumes "dayjs_utc (ve_dayjs E)" "list_all message_ok msgs" "four_digit_year l"
    and "vx_reportFrequency s = Num (of_int freq)" "0 < freq"
    and "stream_loop E b near next msgs (Some l, s) = (ex, lr', s')"
  shows "\<exists>l'. lr' = Some l' \<and>
    (int (length (vx_computed s')) - int (length (vx_computed s))) * freq \<le> l' - l"
  using dayjs_utc.stream_loop_rate [OF assms(1) refl assms(2-6)] by (force simp: algebra_simps)

text \<open>C30: a rollover to a new near expiry.  The book afterwards holds, under every symbol, the
  summary collected for the new next expiry, else the old entry unless it belongs to the expired
  near expiry; the collection of future summaries is empty and the books stay well formed.\<close>

theorem roll_over_rebuilds_book:
  assumes "dayjs_utc (ve_dayjs E)" "books_ok s" "four_digit_year nr"
    and "roll_over E k (Some nr) s = (s', Inr ())"
    and "nearExpiry (vx_expiries s') = iso_string nr'" "four_digit_year nr'" "nr' \<noteq> nr"
    and "nextExpiry (vx_expiries s') = iso_string nx'" "four_digit_year nx'"
  shows "map_get (vx_midBook s') ky =
      (let kept = Option.bind (map_get (vx_midBook s) ky)
         (\<lambda>w. if os_expirationDate w = nr then None else Some w)
       in case map_get (vx_options s) ky of
            Some v \<Rightarrow> if os_expirationDate v = nx' then Some v else kept
          | None \<Rightarrow> kept)
    \<and> vx_options s' = [] \<and> books_ok s'"
proof -
  note b = roll_over_midBook [OF assms]
  have mid: "book_ok (vx_midBook s)" "book_ok (vx_options s)" using assms(2) by (simp_all add: books_ok_def)
  have "book_ok (vx_midBook s')"
    by (rule book_okI [OF b(3)])
      (use book_ok_get [OF mid(1)] book_ok_get [OF mid(2)] in
        \<open>auto simp: b(1) split: option.splits if_splits bind_splits\<close>)
  then show ?thesis by (simp add: b books_ok_def Let_def split: option.splits)
qed

section \<open>Witnesses\<close>

definition sample_env :: vix_env where
  "sample_env = \<lparr> ve_dayjs = utc_dayjs, ve_groupBy = group_by, ve_now = (\<lambda>_. Some 1660000020000),
     ve_instruments = (\<lambda>_. Inr sample_instruments), ve_stream = (\<lambda>_ _. ([], None)),
     ve_compute = (\<lambda>_ _. Inl type_error) \<rparr>"

definition sample_config :: vix_config where
  "sample_config = \<lparr> vc_exchange = ''deribit'', vc_replayFrom = iso_string 1651363200000,
     vc_replayTo = iso_string 1651363260000, vc_timePeriod = ''14D'', vc_reportFrequency = None,
     vc_asset = ''ETH'' \<rparr>"

definition sample_vix :: vix where
  "sample_vix = \<lparr> vx_exchange = ''deribit'', vx_refDate = Some 1651363200000,
     vx_startDate = Some 1651363200000, vx_timePeriod = Num (of_int 14), vx_timePeriodOption = ''14D'',
     vx_reportFrequency = Num (of_int 900000), vx_maxDuration = Num (of_int 60000),
     vx_asset = ''ETH'', vx_expiries = unset_expiries, vx_index = None, vx_log = [],
     vx_midBook = [], vx_options = [], vx_computed = [], vx_completed = 0 \<rparr>"

definition sample_message :: "string \<Rightarrow> int \<Rightarrow> option_summary" where
  "sample_message sy e = \<lparr> os_type = ''option_summary'', os_symbol = sy,
     os_exchange = ''deribit'', os_optionType = CallOption, os_strikePrice = Num 3000,
     os_expirationDate = e, os_bestBidPrice = Some (Num 1), os_bestAskPrice = None,
     os_lastPrice = None, os_markPrice = None, os_markIV = None, os_delta = None,
     os_underlyingPrice = Some (Num 2900), os_timestamp = 1651363201000,
     os_localTimestamp = 1651363201003 \<rparr>"

lemma sample_year [simp]: "four_digit_year 1651363200000" "four_digit_year 1651363260000"
    "four_digit_year 1651363201000" "four_digit_year 1651363206000" "four_digit_year 1652572800000"
  "four_digit_year 1652428800000" "four_digit_year 1653033600000" "four_digit_year 1660000020000"
  "four_digit_year 1652572860000"
  by (simp_all add: four_digit_year_def)

lemma sample_good: "good_env sample_env"
  by (simp add: good_env_def sample_env_def utc.dayjs_utc_axioms transducist.grouping_axioms sample_iso)

lemma sample_vix_at: "vix_at 1651363200000 60000 14 1651363200000 sample_vix"
  by (simp add: vix_at_def sample_vix_def)

lemma new_sample_vix: "new_vix utc_dayjs sample_config = Inr sample_vix"
proof -
  have "timePeriodToInteger ''14D'' = Inr (Num (of_int 14))"
    using timePeriodToInteger_digits [of "''14''" "[]"] by (simp add: is_digit_def dec_val_def digit_val_def)
  moreover have "dj_duration_ms utc_dayjs (Num 15) Minute = Num (of_int 900000)"
    using utc.duration [of 15 Minute] by simp
  ultimately show ?thesis
    by (simp add: new_vix_def sample_config_def sample_vix_def utc.utc_iso utc.start_of utc.diff
        num_or_def num_of_date_def Let_def)
qed

lemma fetchIndex_returns_witness: "\<exists>r. fetchIndex sample_env 60001 sample_vix = Some r"
  using fetchIndex_returns [OF sample_good sample_vix_at] by simp

lemma sample_fetch:
  "vx_refDate s = Some 1651363200000 \<Longrightarrow> vx_timePeriod s = Num (of_int 14) \<Longrightarrow>
    \<exists>x. fetch_expiries sample_env k s = Inr x
    \<and> nearExpiry x = iso_string 1652428800000 \<and> nextExpiry x = iso_string 1653033600000
    \<and> rolloverAt x = iso_string 1652428800000"
  using sample_built by (simp add: fetch_expiries_def sample_env_def utc.to_iso)

lemma sample_run: "\<exists>s' r. fetchIndex sample_env 1 sample_vix = Some (s', Inr r)"
proof -
  obtain x where x: "fetch_expiries sample_env 0 sample_vix = Inr x" "rolloverAt x = iso_string 1652428800000"
    using sample_fetch [of sample_vix 0] by (auto simp: sample_vix_def)
  have "dj_add utc_dayjs (Num (of_int 60000)) Ms (Some 1651363200000) = Some 1651363260000"
    using utc.add_int [of 1651363200000 60000 Ms] by simp
  then obtain req s1 where c: "createStream sample_env 0 (sample_vix\<lparr> vx_expiries := x \<rparr>) = Inr (req, s1)"
    "vx_refDate s1 = Some 1651363200000"
    by (auto simp: utc.is_before utc.start_of createStream_def sample_env_def sample_vix_def x(2) utc.of_date utc.utc_iso utc.is_after
        utc.to_iso Let_def)
  then show ?thesis using x(1) by (simp add: fetchIndex_def Let_def sample_env_def utc.to_iso)
qed

lemma fetchIndex_always_NaN_witness:
  "\<exists>s' r. fetchIndex sample_env 1 sample_vix = Some (s', Inr r) \<and> vr_index r = NaN"
  using sample_run fetchIndex_always_NaN [OF new_sample_vix] by blast

lemma stream_report_rate_witness:
  "\<exists>ex lr' s' l'. stream_loop sample_env False (Some 1652428800000) (Some 1653033600000)
      [sample_message ''A'' 1652428800000] (Some 1651363200000, sample_vix) = (ex, lr', s')
    \<and> lr' = Some l' \<and> int (length (vx_computed s')) * 900000 \<le> l' - 1651363200000"
proof -
  obtain ex lr' s' where run: "stream_loop sample_env False (Some 1652428800000) (Some 1653033600000)
      [sample_message ''A'' 1652428800000] (Some 1651363200000, sample_vix) = (ex, lr', s')"
    by (cases "stream_loop sample_env False (Some 1652428800000) (Some 1653033600000)
      [sample_message ''A'' 1652428800000] (Some 1651363200000, sample_vix)") auto
  have "dayjs_utc (ve_dayjs sample_env)" using sample_good by (simp add: good_env_def)
  from stream_report_rate [OF this _ _ _ _ run] run show ?thesis
    by (simp add: sample_vix_def message_ok_def sample_message_def)
qed

definition sample_rolling :: vix where
  "sample_rolling = sample_vix\<lparr> vx_expiries := unset_expiries\<lparr> rolloverAt := iso_string 1651363200000 \<rparr>,
     vx_midBook := [(''A'', sample_message ''A'' 1651363200000)],
     vx_options := [(''B'', sample_message ''B'' 1653033600000)] \<rparr>"

lemma roll_over_rebuilds_book_witness:
  "\<exists>s'. roll_over sample_env 0 (Some 1651363200000) sample_rolling = (s', Inr ())
    \<and> map_get (vx_midBook s') ''A'' = None
    \<and> map_get (vx_midBook s') ''B'' = Some (sample_message ''B'' 1653033600000)
    \<and> vx_options s' = []"
proof -
  let ?s = "sample_rolling\<lparr> vx_refDate := Some 1651363200000 \<rparr>"
  obtain x where x: "fetch_expiries sample_env 1 ?s = Inr x"
    "nearExpiry x = iso_string 1652428800000" "nextExpiry x = iso_string 1653033600000"
    using sample_fetch [of ?s 1] by (auto simp: sample_rolling_def sample_vix_def)
  have D: "ve_dayjs sample_env = utc_dayjs" by (simp add: sample_env_def)
  have upd: "sample_rolling\<lparr> vx_refDate := dj_utc utc_dayjs (rolloverAt (vx_expiries sample_rolling)) \<rparr> = ?s"
    by (simp add: sample_rolling_def sample_vix_def utc.utc_iso)
  have fx: "fetch_expiries sample_env (Suc 0) (sample_rolling\<lparr> vx_refDate :=
      dj_utc utc_dayjs (rolloverAt (vx_expiries sample_rolling)) \<rparr>) = Inr x"
    unfolding upd using x(1) by simp
  have "vx_expiries (fst (roll_over sample_env 0 (Some 1651363200000) sample_rolling)) = x
      \<and> snd (roll_over sample_env 0 (Some 1651363200000) sample_rolling) = Inr ()"
    by (simp add: roll_over_def Let_def D fx deleteEntries_def)
  then obtain s' where s': "roll_over sample_env 0 (Some 1651363200000) sample_rolling = (s', Inr ())"
    "vx_expiries s' = x" by (metis prod.collapse)
  have ok: "books_ok sample_rolling"
    by (simp add: books_ok_def book_ok_def sample_rolling_def sample_message_def map_ok_def map_keys_def)
  have DU: "dayjs_utc (ve_dayjs sample_env)" by (simp add: D utc.dayjs_utc_axioms)
  note R = roll_over_rebuilds_book [OF DU ok _ s'(1), unfolded s'(2) x(2,3), OF _ refl _ _ refl]
  have "map_get (vx_midBook s') ''A'' = None" "vx_options s' = []"
    using R [of "''A''"] by (simp_all add: sample_rolling_def sample_message_def map_get_def)
  moreover have "map_get (vx_midBook s') ''B'' = Some (sample_message ''B'' 1653033600000)"
    using R [of "''B''"] by (simp add: sample_rolling_def sample_message_def map_get_def)
  ultimately show ?thesis using s' by blast
qed

end
