(* ===== verification/Instruments.thy ===== *)
theory Instruments
  imports TimePeriod MarketData
begin

text \<open>
  \<^verbatim>\<open>services/instrument_info.service.ts\<close> and
  \<^verbatim>\<open>src/datasources/tardis_instrument_datasource.ts\<close>: the service fetches
  the option instruments of an asset from tardis, keeps a projection of them, and answers which
  of them are available at a timestamp for given expiries.  \<^verbatim>\<open>getInstrumentInfo\<close>
  of tardis is a parameter; the moleculer cache in front of the actions is not modelled.
\<close>

section \<open>Data\<close>

record partial_info =
  pi_id :: string
  pi_exchange :: string
  pi_asset :: string
  pi_type :: string
  pi_active :: bool
  pi_availableTo :: "string option"
  pi_availableSince :: string
  pi_optionType :: "string option"
  pi_expiry :: "string option"

record info_params =
  ip_exchange :: string
  ip_asset :: string
  ip_timePeriod :: "string option"
  ip_type :: string
  ip_contractType :: "string list"
  ip_timestamp :: "string option"
  ip_expirationDates :: "string list"
  ip_active :: "bool option"

record tardis_filter =
  tf_exchange :: string
  tf_baseCurrency :: "string option"
  tf_quoteCurrency :: "string option"
  tf_type :: "string option"
  tf_contractType :: "string list option"
  tf_active :: "bool option"

record tardis_query =
  tq_baseCurrency :: "string option"
  tq_quoteCurrency :: "string option"
  tq_active :: "bool option"
  tq_contractType :: "string list option"
  tq_type :: "string option"

type_synonym instrument_source = "string \<Rightarrow> tardis_query \<Rightarrow> instrument_info list result"

record info_service =
  in_instrumentInfos :: "partial_info list"
  in_lastUpdatedAt :: "jsdate option"

section \<open>The data source\<close>

definition tardisOptionInstrumentDataSource ::
  "instrument_source \<Rightarrow> tardis_filter \<Rightarrow> instrument_info list result" where
  "tardisOptionInstrumentDataSource getInstrumentInfo f =
     getInstrumentInfo (tf_exchange f)
       \<lparr> tq_baseCurrency = tf_baseCurrency f, tq_quoteCurrency = tf_quoteCurrency f,
         tq_active = tf_active f, tq_contractType = tf_contractType f, tq_type = tf_type f \<rparr>"

section \<open>The service\<close>

definition new_info_service :: info_service where
  "new_info_service = \<lparr> in_instrumentInfos = [], in_lastUpdatedAt = None \<rparr>"

definition toPartialInstrumentInfo :: "instrument_info \<Rightarrow> partial_info" where
  "toPartialInstrumentInfo info = \<lparr> pi_id = ii_id info, pi_exchange = ii_exchange info,
     pi_asset = ii_baseCurrency info, pi_type = ii_type info, pi_active = ii_active info,
     pi_availableTo = ii_availableTo info, pi_availableSince = ii_availableSince info,
     pi_optionType = ii_optionType info, pi_expiry = ii_expiry info \<rparr>"

definition fetchInstruments ::
  "instrument_source \<Rightarrow> jsdate \<Rightarrow> info_params \<Rightarrow> info_service
   \<Rightarrow> partial_info list result \<times> info_service" where
  "fetchInstruments src now params s =
     (case tardisOptionInstrumentDataSource src
        \<lparr> tf_exchange = ip_exchange params, tf_baseCurrency = Some (ip_asset params),
          tf_quoteCurrency = None, tf_type = Some (ip_type params),
          tf_contractType = Some (ip_contractType params), tf_active = ip_active params \<rparr> of
        Inl e \<Rightarrow> (Inl e, s)
      | Inr infos \<Rightarrow>
          let s' = s\<lparr> in_instrumentInfos := map toPartialInstrumentInfo infos,
                      in_lastUpdatedAt := Some now \<rparr>
          in (Inr (in_instrumentInfos s'), s'))"

definition refresh ::
  "instrument_source \<Rightarrow> jsdate \<Rightarrow> info_params \<Rightarrow> info_service
   \<Rightarrow> partial_info list result \<times> info_service" where
  "refresh src now params s = fetchInstruments src now params s"

text \<open>The start of the service: the settings come from the environment.\<close>

definition info_refresh_defaults ::
  "string \<Rightarrow> string \<Rightarrow> string \<Rightarrow> string list \<Rightarrow> info_params" where
  "info_refresh_defaults exchange asset type contractType =
     \<lparr> ip_exchange = exchange, ip_asset = asset, ip_timePeriod = None, ip_type = type,
       ip_contractType = contractType, ip_timestamp = None, ip_expirationDates = [],
       ip_active = None \<rparr>"

definition info_started ::
  "instrument_source \<Rightarrow> jsdate \<Rightarrow> info_params option \<Rightarrow> info_service \<Rightarrow> unit result \<times> info_service" where
  "info_started src now refreshDefaults s =
     (case refreshDefaults of
        None \<Rightarrow> (Inl (js_error
          ''Settings have not been set yet. Check that `refreshDefaults` has been declared in settings.''), s)
      | Some params \<Rightarrow>
          (case refresh src now params s of
             (Inl e, s') \<Rightarrow> (Inl e, s')
           | (Inr _, s') \<Rightarrow> (Inr (), s')))"

text \<open>\<^verbatim>\<open>a <= t && to ? to > t : true\<close>: the conditional binds weaker
  than the conjunction, an empty or absent \<^verbatim>\<open>availableTo\<close> is falsy, and a
  comparison with an absent timestamp is false.\<close>

definition info_Available :: "string option \<Rightarrow> partial_info \<Rightarrow> bool" where
  "info_Available timestamp item =
     (if (case timestamp of Some t \<Rightarrow> pi_availableSince item \<le> t | None \<Rightarrow> False)
         \<and> pi_availableTo item \<noteq> None \<and> pi_availableTo item \<noteq> Some []
      then (case (pi_availableTo item, timestamp) of
              (Some to, Some t) \<Rightarrow> t < to
            | _ \<Rightarrow> False)
      else True)"

definition fetchAvailableInstruments :: "info_params \<Rightarrow> info_service \<Rightarrow> string list" where
  "fetchAvailableInstruments params s =
     map pi_id
       (filter (\<lambda>item. case pi_expiry item of
                  None \<Rightarrow> False
                | Some e \<Rightarrow> e \<noteq> [] \<and> e \<in> set (ip_expirationDates params))
          (filter (info_Available (ip_timestamp params)) (in_instrumentInfos s)))"

definition fetchAvailable :: "instrument_source \<Rightarrow> string \<Rightarrow> string \<Rightarrow> string list result" where
  "fetchAvailable src exchange asset =
     res_bind (tardisOptionInstrumentDataSource src
        \<lparr> tf_exchange = exchange, tf_baseCurrency = Some asset, tf_quoteCurrency = None,
          tf_type = Some ''option'', tf_contractType = Some [''call_option'', ''put_option''],
          tf_active = None \<rparr>) (\<lambda>infos. Inr (map ii_id infos))"

text \<open>The actions.\<close>

definition refreshInstrumentInfos ::
  "instrument_source \<Rightarrow> jsdate \<Rightarrow> info_params \<Rightarrow> info_service
   \<Rightarrow> partial_info list result \<times> info_service" where
  "refreshInstrumentInfos src now params s =
     fetchInstruments src now (params\<lparr> ip_expirationDates := [] \<rparr>) s"

definition instrumentInfo :: "info_params \<Rightarrow> info_service \<Rightarrow> string list result" where
  "instrumentInfo params s = Inr (fetchAvailableInstruments params s)"

section \<open>Lemmas\<close>

lemma info_Available_iff:
  "info_Available (Some t) item \<longleftrightarrow>
    \<not> (pi_availableSince item \<le> t \<and> (\<exists>to. pi_availableTo item = Some to \<and> to \<noteq> [] \<and> to \<le> t))"
  by (cases "pi_availableTo item") (auto simp: info_Available_def not_less)

section \<open>Properties\<close>

text \<open>Once the service has refreshed from the source, instrumentInfo returns the ids of the
  instruments of that answer, in its order, that expire at one of the requested dates, except
  those that were both available before the timestamp and gone by it.\<close>

theorem instrumentInfo_after_refresh:
  assumes "fetchInstruments src now params s = (Inr infos, s')" and "ip_timestamp query = Some t"
  shows "\<exists>answer. src (ip_exchange params) \<lparr> tq_baseCurrency = Some (ip_asset params),
        tq_quoteCurrency = None, tq_active = ip_active params,
        tq_contractType = Some (ip_contractType params), tq_type = Some (ip_type params) \<rparr> = Inr answer
    \<and> instrumentInfo query s' = Inr (map ii_id (filter (\<lambda>i.
        (\<exists>e. ii_expiry i = Some e \<and> e \<noteq> [] \<and> e \<in> set (ip_expirationDates query))
        \<and> \<not> (ii_availableSince i \<le> t \<and> (\<exists>to. ii_availableTo i = Some to \<and> to \<noteq> [] \<and> to \<le> t))) answer))"
proof -
  obtain answer where a: "tardisOptionInstrumentDataSource src
        \<lparr> tf_exchange = ip_exchange params, tf_baseCurrency = Some (ip_asset params),
          tf_quoteCurrency = None, tf_type = Some (ip_type params),
          tf_contractType = Some (ip_contractType params), tf_active = ip_active params \<rparr> = Inr answer"
    and s': "in_instrumentInfos s' = map toPartialInstrumentInfo answer"
    using assms(1) by (auto simp: fetchInstruments_def Let_def split: sum.splits)
  have "fetchAvailableInstruments query s' = map ii_id (filter (\<lambda>i.
        (\<exists>e. ii_expiry i = Some e \<and> e \<noteq> [] \<and> e \<in> set (ip_expirationDates query))
        \<and> \<not> (ii_availableSince i \<le> t \<and> (\<exists>to. ii_availableTo i = Some to \<and> to \<noteq> [] \<and> to \<le> t))) answer)"
    unfolding fetchAvailableInstruments_def s' assms(2)
    by (simp add: filter_map comp_def toPartialInstrumentInfo_def info_Available_iff)
      (rule arg_cong [where f = "map ii_id"], rule filter_cong, auto split: option.splits)
  with a show ?thesis
    by (auto simp: instrumentInfo_def tardisOptionInstrumentDataSource_def)
qed

text \<open>Because the conditional of the availability test binds weaker than its conjunction, an
  instrument that becomes available only after the timestamp is returned as available, whatever
  its end of availability.\<close>

theorem future_instrument_is_available:
  assumes "item \<in> set (in_instrumentInfos s)" "ip_timestamp query = Some t" "t < pi_availableSince item"
    and "pi_expiry item = Some e" "e \<noteq> []" "e \<in> set (ip_expirationDates query)"
  shows "pi_id item \<in> set (fetchAvailableInstruments query s)"
  using assms by (auto simp: fetchAvailableInstruments_def info_Available_iff)

definition sample_partial :: partial_info where
  "sample_partial = \<lparr> pi_id = ''X'', pi_exchange = ''deribit'', pi_asset = ''ETH'', pi_type = ''option'',
     pi_active = True, pi_availableTo = None, pi_availableSince = ''2022-06-01'', pi_optionType = None,
     pi_expiry = Some ''E'' \<rparr>"

definition sample_query :: info_params where
  "sample_query = \<lparr> ip_exchange = ''deribit'', ip_asset = ''ETH'', ip_timePeriod = None, ip_type = ''option'',
     ip_contractType = [], ip_timestamp = Some ''2022-05-01'', ip_expirationDates = [''E''], ip_active = None \<rparr>"

lemma future_instrument_is_available_witness:
  "''X'' \<in> set (fetchAvailableInstruments sample_query \<lparr> in_instrumentInfos = [sample_partial], in_lastUpdatedAt = None \<rparr>)"
  using future_instrument_is_available
    [of sample_partial "\<lparr> in_instrumentInfos = [sample_partial], in_lastUpdatedAt = None \<rparr>" sample_query "''2022-05-01''" "''E''"]
  by (simp add: sample_partial_def sample_query_def)

definition sample_source :: instrument_source where
  "sample_source exchange q = Inr [\<lparr> ii_id = ''X'', ii_exchange = ''deribit'', ii_baseCurrency = ''ETH'',
     ii_type = ''option'', ii_active = True, ii_availableSince = ''2022-04-01'', ii_availableTo = Some ''2022-04-30'',
     ii_optionType = None, ii_expiry = Some ''E'', ii_listing = None \<rparr>,
    \<lparr> ii_id = ''Y'', ii_exchange = ''deribit'', ii_baseCurrency = ''ETH'',
     ii_type = ''option'', ii_active = True, ii_availableSince = ''2022-04-01'', ii_availableTo = None,
     ii_optionType = None, ii_expiry = Some ''E'', ii_listing = None \<rparr>]"

lemma instrumentInfo_after_refresh_witness:
  "\<exists>infos s'. fetchInstruments sample_source (Some 0) sample_query new_info_service = (Inr infos, s')
    \<and> instrumentInfo sample_query s' = Inr [''Y'']"
proof -
  obtain infos s' where f: "fetchInstruments sample_source (Some 0) sample_query new_info_service = (Inr infos, s')"
    by (simp add: fetchInstruments_def tardisOptionInstrumentDataSource_def sample_source_def Let_def)
  from instrumentInfo_after_refresh [OF f, of sample_query "''2022-05-01''"] f show ?thesis
    by (simp add: sample_source_def sample_query_def)
qed

end
