(* ===== verification/Ingest.thy ===== *)
theory Ingest
  imports MfivDates Instruments
begin

text \<open>
  \<^verbatim>\<open>services/ingest.service.ts\<close> and
  \<^verbatim>\<open>src/service_helpers/ingest_helper.ts\<close>: the service records every option
  summary it receives, files the symbol under its expiry, and stores the summary in the broker's
  cache; it answers with the cached summaries of an expiry.  Between filing a symbol and storing
  its summary the service awaits the cache, and other requests run: the steps are an interleaving
  of \<open>ingest_step\<close>s.  The cacher (moleculer) and \<^verbatim>\<open>combine\<close>
  (neverthrow) are parameters with the interfaces \<open>cacher\<close> and \<open>combining\<close>.
\<close>

section \<open>The cache and combine\<close>

record 'c cacher_lib =
  ch_get :: "'c \<Rightarrow> string \<Rightarrow> option_summary option result"
  ch_set :: "string \<Rightarrow> option_summary \<Rightarrow> 'c \<Rightarrow> 'c result"

locale cacher =
  fixes C :: "'c cacher_lib"
  assumes get_set: "ch_set C k v c = Inr c' \<Longrightarrow>
    ch_get C c' j = (if j = k then Inr (Some v) else ch_get C c j)"
begin

lemma get_set_same: "ch_set C k v c = Inr c' \<Longrightarrow> ch_get C c' k = Inr (Some v)"
  by (simp add: get_set)

lemma get_kept: "ch_set C k v c = Inr c' \<Longrightarrow> \<exists>w. ch_get C c j = Inr (Some w) \<Longrightarrow> \<exists>w. ch_get C c' j = Inr (Some w)"
  by (simp add: get_set)

end

definition memory_cacher :: "(string, option_summary) jsmap cacher_lib" where
  "memory_cacher = \<lparr> ch_get = (\<lambda>c k. Inr (map_get c k)), ch_set = (\<lambda>k v c. Inr (map_set k v c)) \<rparr>"

interpretation memory: cacher memory_cacher
  by unfold_locales (auto simp: memory_cacher_def)

locale combining =
  fixes combine :: "'a result list \<Rightarrow> 'a list result"
  assumes combine_Nil: "combine [] = Inr []"
    and combine_Inl: "combine (Inl e # rs) = Inl e"
    and combine_Inr: "combine (Inr x # rs) = res_bind (combine rs) (\<lambda>xs. Inr (x # xs))"
begin

lemma combine_all: "combine (map Inr xs) = Inr xs"
  by (induction xs) (simp_all add: combine_Nil combine_Inr)

lemma combine_InrD: "combine rs = Inr xs \<Longrightarrow> rs = map Inr xs"
proof (induction rs arbitrary: xs)
  case (Cons r rs)
  then show ?case by (cases r) (auto simp: combine_Inl combine_Inr res_bind_Inr_iff)
qed (simp add: combine_Nil)

end

text \<open>\<^verbatim>\<open>Promise.all\<close>, rejecting with the first rejection in the order of
  the list; on results the same function has the behaviour documented for combine.\<close>

fun promise_all :: "'a result list \<Rightarrow> 'a list result" where
  "promise_all [] = Inr []"
| "promise_all (Inl e # rs) = Inl e"
| "promise_all (Inr x # rs) = res_bind (promise_all rs) (\<lambda>xs. Inr (x # xs))"

interpretation neverthrow: combining promise_all
  by unfold_locales simp_all

text \<open>\<^verbatim>\<open>ResultAsync.fromPromise(p, handler)\<close>: the outer result is
  the promise, the inner one what it resolves to.\<close>

definition from_promise :: "(thrown \<Rightarrow> thrown result) \<Rightarrow> 'a result \<Rightarrow> 'a result result" where
  "from_promise handler p =
     (case p of
        Inr x \<Rightarrow> Inr (Inr x)
      | Inl e \<Rightarrow> (case handler e of Inr e' \<Rightarrow> Inr (Inl e') | Inl e' \<Rightarrow> Inl e'))"

section \<open>The service\<close>

record 'c ingest_service =
  ig_latestMessage :: "option_summary option"
  ig_expiryMap :: "(string, string list) jsmap"
  ig_cache :: 'c
  ig_pending :: "option_summary option"

definition new_ingest :: "'c \<Rightarrow> 'c ingest_service" where
  "new_ingest c = \<lparr> ig_latestMessage = None, ig_expiryMap = [], ig_cache = c, ig_pending = None \<rparr>"

text \<open>\<^verbatim>\<open>Set.prototype.add\<close>, in insertion order.\<close>

definition set_add :: "'a \<Rightarrow> 'a list \<Rightarrow> 'a list" where
  "set_add x xs = (if x \<in> set xs then xs else xs @ [x])"

definition summaryWithDefaults :: "option_summary \<Rightarrow> jsnum \<Rightarrow> jsnum \<Rightarrow> jsnum \<Rightarrow> option_summary" where
  "summaryWithDefaults o' bestAskPrice bestBidPrice underlyingPrice =
     o'\<lparr> os_bestAskPrice := Some (or_default (os_bestAskPrice o') bestAskPrice),
        os_bestBidPrice := Some (or_default (os_bestBidPrice o') bestBidPrice),
        os_underlyingPrice := Some (or_default (os_underlyingPrice o') underlyingPrice) \<rparr>"

text \<open>\<^verbatim>\<open>cacheMessage\<close> up to the await: the expiry gets a set when it has
  none, and the symbol joins it.\<close>

definition file_symbol :: "option_summary \<Rightarrow> (string, string list) jsmap \<Rightarrow> (string, string list) jsmap" where
  "file_symbol o' m =
     (let expiryKey = iso_string (os_expirationDate o');
          m1 = (if map_get m expiryKey = None then map_set expiryKey [] m else m)
      in case map_get m1 expiryKey of
           Some expirySet \<Rightarrow> map_set expiryKey (set_add (os_symbol o') expirySet) m1
         | None \<Rightarrow> m1)"

definition receive :: "'c cacher_lib option \<Rightarrow> option_summary \<Rightarrow> 'c ingest_service \<Rightarrow> 'c ingest_service" where
  "receive C message s =
     s\<lparr> ig_latestMessage := Some message, ig_expiryMap := file_symbol message (ig_expiryMap s),
        ig_pending := (if C = None then None else Some message) \<rparr>"

text \<open>The awaited write; a cache that fails rejects the promise.\<close>

definition store :: "'c cacher_lib option \<Rightarrow> 'c ingest_service \<Rightarrow> 'c ingest_service result" where
  "store C s =
     (case (C, ig_pending s) of
        (Some lib, Some o') \<Rightarrow>
          res_bind (ch_set lib (os_symbol o') (summaryWithDefaults o' (Num 0) (Num 0) (Num 0)) (ig_cache s))
            (\<lambda>c. Inr (s\<lparr> ig_cache := c, ig_pending := None \<rparr>))
      | _ \<Rightarrow> Inr (s\<lparr> ig_pending := None \<rparr>))"

definition process_message ::
  "'c cacher_lib option \<Rightarrow> option_summary \<Rightarrow> 'c ingest_service \<Rightarrow> 'c ingest_service result" where
  "process_message C message s = store C (receive C message s)"

fun process ::
  "'c cacher_lib option \<Rightarrow> option_summary list \<Rightarrow> 'c ingest_service \<Rightarrow> 'c ingest_service result" where
  "process C [] s = Inr s"
| "process C (message # messages) s =
     res_bind (process_message C message s) (process C messages)"

definition fetchOptionSummaries ::
  "'c cacher_lib option \<Rightarrow> (option_summary option result list \<Rightarrow> option_summary option list result)
   \<Rightarrow> string \<Rightarrow> 'c ingest_service \<Rightarrow> option_summary option list result result" where
  "fetchOptionSummaries C combine expiry s =
     (case C of
        None \<Rightarrow> Inl (js_error ''Cache should not be disabled'')
      | Some lib \<Rightarrow>
          (case map_get (ig_expiryMap s) expiry of
             None \<Rightarrow> Inl (FailObj (insufficientDataError ''Expiry is missing from expiry map.''
               [''The requested expiry '' @ [CHR 0x27] @ expiry @ [CHR 0x27] @ '' has not been seen yet'',
                ''Check that the expiry date matches an existing intrument'' @ [CHR 0x27] @ ''s expirationDate.'']))
           | Some symbolList \<Rightarrow>
               res_bind (promise_all (map (\<lambda>y. from_promise handleError (ch_get lib (ig_cache s) y)) symbolList))
                 (\<lambda>rs. Inr (combine rs))))"

definition summaries ::
  "'c cacher_lib option \<Rightarrow> (option_summary option result list \<Rightarrow> option_summary option list result)
   \<Rightarrow> string \<Rightarrow> 'c ingest_service \<Rightarrow> option_summary option list result" where
  "summaries C combine expiry s =
     res_bind (fetchOptionSummaries C combine expiry s) (\<lambda>r. r)"

definition ingest_stats :: "jsdate \<Rightarrow> 'c ingest_service \<Rightarrow> (string \<times> nat \<times> option_summary option) result" where
  "ingest_stats now s =
     res_bind (to_iso_string now) (\<lambda>clock. Inr (clock, length (ig_expiryMap s), ig_latestMessage s))"

definition ingest_expiries :: "'c ingest_service \<Rightarrow> (string \<times> string list) list" where
  "ingest_expiries s = ig_expiryMap s"

subsection \<open>Starting the stream\<close>

record stream_options =
  so_exchange :: string
  so_symbols :: "string list"

definition streamNormalizedOptions :: "string \<Rightarrow> string list \<Rightarrow> stream_options" where
  "streamNormalizedOptions exchange symbols = \<lparr> so_exchange = exchange, so_symbols = symbols \<rparr>"

definition fetch_ids ::
  "(string \<Rightarrow> info_params \<Rightarrow> string list result) \<Rightarrow> info_params \<Rightarrow> string \<Rightarrow> mfiv_expiry \<Rightarrow> jsdate
   \<Rightarrow> string list result" where
  "fetch_ids call defaults asset dates now =
     res_bind (to_iso_string now) (\<lambda>timestamp.
       call (''instrument_info-'' @ to_lower asset @ ''.instrumentInfo'')
         (defaults\<lparr> ip_expirationDates := [nearExpiration dates, nextExpiration dates],
            ip_timestamp := Some timestamp, ip_asset := asset \<rparr>))"

text \<open>What the promise of \<^verbatim>\<open>started\<close> settles to, and the options of the
  stream when it is opened.  An error of \<^verbatim>\<open>mfivDates\<close> is thrown in the
  promise's executor.\<close>

definition ingest ::
  "(string \<Rightarrow> info_params \<Rightarrow> string list result) \<Rightarrow> info_params \<Rightarrow> string \<Rightarrow> string \<Rightarrow> string \<Rightarrow> jsdate
   \<Rightarrow> stream_options result" where
  "ingest call defaults timePeriod exchange asset now =
     res_bind (mfivDates now timePeriod FridayT08 None) (\<lambda>dates.
     res_bind (from_promise handleError (fetch_ids call defaults asset dates now)) (\<lambda>r.
     res_bind r (\<lambda>symbols. Inr (streamNormalizedOptions exchange symbols))))"

section \<open>Interleaving\<close>

text \<open>A message arrives only when the previous one is stored; requests read any state.\<close>

inductive ingest_step :: "'c cacher_lib \<Rightarrow> 'c ingest_service \<Rightarrow> 'c ingest_service \<Rightarrow> bool"
  for lib :: "'c cacher_lib" where
  Receive: "ig_pending s = None \<Longrightarrow> ingest_step lib s (receive (Some lib) message s)"
| Store: "ig_pending s = Some o' \<Longrightarrow> store (Some lib) s = Inr s' \<Longrightarrow> ingest_step lib s s'"

inductive ingest_reachable :: "'c cacher_lib \<Rightarrow> 'c ingest_service \<Rightarrow> 'c ingest_service \<Rightarrow> bool"
  for lib :: "'c cacher_lib" and s0 :: "'c ingest_service" where
  Start: "ingest_reachable lib s0 s0"
| Step: "ingest_reachable lib s0 s \<Longrightarrow> ingest_step lib s s' \<Longrightarrow> ingest_reachable lib s0 s'"

inductive_cases ingest_stepE: "ingest_step lib s s'"

section \<open>Lemmas\<close>

lemma set_add_set [simp]: "set (set_add x xs) = insert x (set xs)"
  by (auto simp: set_add_def)

lemma set_add_distinct [simp]: "distinct xs \<Longrightarrow> distinct (set_add x xs)"
  by (simp add: set_add_def)

lemma fold_set_add: "fold set_add xs [] = rev (remdups (rev xs))"
  by (induction xs rule: rev_induct) (simp_all add: set_add_def)

lemma file_symbol_get: "map_get (file_symbol o' m) k =
    (if k = iso_string (os_expirationDate o')
     then Some (set_add (os_symbol o') (or_default (map_get m k) [])) else map_get m k)"
  by (cases "map_get m (iso_string (os_expirationDate o'))") (auto simp: file_symbol_def Let_def)

lemma process_snoc: "process C (ms @ [m]) s = res_bind (process C ms s) (process_message C m)"
  by (induction ms arbitrary: s) (auto simp: res_bind_def split: sum.splits)

lemma process_message_Some:
  "process_message (Some lib) m s = Inr s' \<longleftrightarrow>
    (\<exists>c. ch_set lib (os_symbol m) (summaryWithDefaults m (Num 0) (Num 0) (Num 0)) (ig_cache s) = Inr c
      \<and> s' = s\<lparr> ig_latestMessage := Some m, ig_expiryMap := file_symbol m (ig_expiryMap s),
                ig_cache := c, ig_pending := None \<rparr>)"
  by (auto simp: process_message_def store_def receive_def res_bind_Inr_iff)

definition listed_symbols :: "int \<Rightarrow> option_summary list \<Rightarrow> string list" where
  "listed_symbols e ms = map os_symbol (filter (\<lambda>m. os_expirationDate m = e) ms)"

lemma process_expiry_keys:
  "process (Some lib) ms s = Inr s' \<Longrightarrow> map_get (ig_expiryMap s') k \<noteq> None \<Longrightarrow>
    map_get (ig_expiryMap s) k \<noteq> None \<or> (\<exists>m \<in> set ms. k = iso_string (os_expirationDate m))"
proof (induction ms arbitrary: s)
  case (Cons m ms)
  then obtain s1 where s1: "process_message (Some lib) m s = Inr s1" "process (Some lib) ms s1 = Inr s'"
    by (auto simp: res_bind_Inr_iff)
  have "map_get (ig_expiryMap s1) k \<noteq> None \<Longrightarrow> map_get (ig_expiryMap s) k \<noteq> None \<or> k = iso_string (os_expirationDate m)"
    using s1(1) by (auto simp: process_message_Some file_symbol_get split: if_splits)
  then show ?case using Cons.IH [OF s1(2) Cons.prems(2)] by auto
qed simp

lemma process_expiryMap:
  assumes "four_digit_year e"
  shows "process (Some lib) ms (new_ingest c) = Inr s \<Longrightarrow> list_all (\<lambda>m. four_digit_year (os_expirationDate m)) ms
    \<Longrightarrow> map_get (ig_expiryMap s) (iso_string e) =
      (if listed_symbols e ms = [] then None else Some (fold set_add (listed_symbols e ms) []))"
proof (induction ms arbitrary: s rule: rev_induct)
  case Nil
  then show ?case by (auto simp: new_ingest_def listed_symbols_def)
next
  case (snoc m ms)
  then obtain s1 where s1: "process (Some lib) ms (new_ingest c) = Inr s1" "process_message (Some lib) m s1 = Inr s"
    by (auto simp: process_snoc res_bind_Inr_iff)
  have "iso_string e = iso_string (os_expirationDate m) \<longleftrightarrow> e = os_expirationDate m"
    using snoc.prems(2) assms by (simp add: iso_string_eq_iff)
  then show ?case using snoc.IH [OF s1(1)] snoc.prems(2) s1(2)
    by (auto simp: process_message_Some file_symbol_get listed_symbols_def)
qed

text \<open>In every interleaving: what is listed is cached or in flight.\<close>

definition complete_summary :: "string \<Rightarrow> option_summary \<Rightarrow> bool" where
  "complete_summary y v \<longleftrightarrow> os_symbol v = y \<and> os_bestAskPrice v \<noteq> None \<and> os_bestBidPrice v \<noteq> None
     \<and> os_underlyingPrice v \<noteq> None"

definition ingest_inv :: "'c cacher_lib \<Rightarrow> 'c ingest_service \<Rightarrow> bool" where
  "ingest_inv C s \<longleftrightarrow>
     (\<forall>k syms. map_get (ig_expiryMap s) k = Some syms \<longrightarrow> distinct syms \<and>
        (\<forall>y \<in> set syms. (\<exists>v. ch_get C (ig_cache s) y = Inr (Some v))
           \<or> (\<exists>m. ig_pending s = Some m \<and> os_symbol m = y)))
     \<and> (\<forall>y. ch_get C (ig_cache s) y = Inr None
          \<or> (\<exists>v. ch_get C (ig_cache s) y = Inr (Some v) \<and> complete_summary y v))"

context cacher begin

lemma process_cache:
  "process (Some C) ms (new_ingest c) = Inr s \<Longrightarrow> ch_get C (ig_cache s) y =
    (if y \<in> os_symbol ` set ms
     then Inr (Some (summaryWithDefaults (last (filter (\<lambda>m. os_symbol m = y) ms)) (Num 0) (Num 0) (Num 0)))
     else ch_get C c y)"
proof (induction ms arbitrary: s rule: rev_induct)
  case Nil
  then show ?case by (auto simp: new_ingest_def)
next
  case (snoc m ms)
  then obtain s1 where s1: "process (Some C) ms (new_ingest c) = Inr s1" "process_message (Some C) m s1 = Inr s"
    by (auto simp: process_snoc res_bind_Inr_iff)
  then show ?case using snoc.IH [OF s1(1)] by (auto simp: process_message_Some get_set)
qed

lemma summaries_cached:
  assumes "combining combine" "map_get (ig_expiryMap s) k = Some syms"
    and "\<And>y. y \<in> set syms \<Longrightarrow> ch_get C (ig_cache s) y = Inr (f y)"
  shows "summaries (Some C) combine k s = Inr (map f syms)"
proof -
  have a: "map (\<lambda>y. from_promise handleError (ch_get C (ig_cache s) y)) syms = map Inr (map Inr (map f syms))"
    using assms(3) by (simp add: from_promise_def)
  have "summaries (Some C) combine k s = combine (map Inr (map f syms))"
    unfolding summaries_def fetchOptionSummaries_def assms(2) option.case a neverthrow.combine_all
    by simp
  then show ?thesis using combining.combine_all [OF assms(1), of "map f syms"] by simp
qed

lemma ingest_inv_step: "ingest_step C s s' \<Longrightarrow> ingest_inv C s \<Longrightarrow> ingest_inv C s'"
proof (erule ingest_stepE)
  fix message
  assume "ingest_inv C s" "s' = receive (Some C) message s" "ig_pending s = None"
  then show "ingest_inv C s'"
    unfolding ingest_inv_def
    by (auto simp: receive_def file_symbol_get or_default_def split: if_splits option.splits) (metis+)?
next
  fix o'
  assume inv: "ingest_inv C s" and p: "ig_pending s = Some o'" "store (Some C) s = Inr s'"
  let ?v = "summaryWithDefaults o' (Num 0) (Num 0) (Num 0)"
  obtain c where c: "ch_set C (os_symbol o') ?v (ig_cache s) = Inr c"
    "s' = s\<lparr> ig_cache := c, ig_pending := None \<rparr>"
    using p by (auto simp: store_def res_bind_Inr_iff)
  have "complete_summary (os_symbol o') ?v" by (simp add: complete_summary_def summaryWithDefaults_def)
  then show "ingest_inv C s'" using inv p(1) c
    unfolding ingest_inv_def by (auto simp: get_set)
qed

lemma ingest_inv_reachable:
  "ingest_reachable C s0 s \<Longrightarrow> ingest_inv C s0 \<Longrightarrow> ingest_inv C s"
  by (induction rule: ingest_reachable.induct) (auto intro: ingest_inv_step)

end

section \<open>Properties\<close>

text \<open>After any sequence of messages, a request for an expiry returns, for every symbol seen
  with that expiry and in the order they were first seen, the latest summary of the symbol with
  absent bid, ask and underlying prices as 0.\<close>

theorem summaries_after_process:
  assumes "cacher lib" "combining combine"
    and "process (Some lib) ms (new_ingest c) = Inr s"
    and "four_digit_year e" "list_all (\<lambda>m. four_digit_year (os_expirationDate m)) ms"
    and "\<exists>m \<in> set ms. os_expirationDate m = e"
  shows "summaries (Some lib) combine (iso_string e) s = Inr (map
      (\<lambda>y. Some (summaryWithDefaults (last (filter (\<lambda>m. os_symbol m = y) ms)) (Num 0) (Num 0) (Num 0)))
      (rev (remdups (rev (map os_symbol (filter (\<lambda>m. os_expirationDate m = e) ms))))))"
proof -
  have "map_get (ig_expiryMap s) (iso_string e) =
      Some (rev (remdups (rev (map os_symbol (filter (\<lambda>m. os_expirationDate m = e) ms)))))"
    using process_expiryMap [OF assms(4,3,5)] assms(6)
    by (auto simp: listed_symbols_def fold_set_add filter_empty_conv)
  then show ?thesis
    by (rule cacher.summaries_cached [OF assms(1,2)])
      (use cacher.process_cache [OF assms(1,3)] in \<open>auto simp: rev_image_eqI\<close>)
qed

text \<open>C29: every interleaving of messages and requests.  From a fresh cache, a request for a known
  expiry returns one entry per listed symbol, without duplicates; an entry is the complete summary
  of its symbol, and only the symbol whose summary is being stored can be missing.\<close>

theorem summaries_interleaved:
  assumes "cacher lib" "combining combine" "\<forall>y. ch_get lib c y = Inr None"
    and "ingest_reachable lib (new_ingest c) s" "map_get (ig_expiryMap s) k = Some syms"
  shows "distinct syms \<and> (\<exists>f. summaries (Some lib) combine k s = Inr (map f syms)
    \<and> (\<forall>y \<in> set syms. case f y of
        Some v \<Rightarrow> complete_summary y v
      | None \<Rightarrow> \<exists>m. ig_pending s = Some m \<and> os_symbol m = y))"
proof -
  have "ingest_inv lib (new_ingest c)" using assms(3) by (simp add: ingest_inv_def new_ingest_def)
  then have inv: "ingest_inv lib s" by (rule cacher.ingest_inv_reachable [OF assms(1,4)])
  define f where "f y = (case ch_get lib (ig_cache s) y of Inr v \<Rightarrow> v | Inl _ \<Rightarrow> None)" for y
  have f: "ch_get lib (ig_cache s) y = Inr (f y)" for y
    using inv unfolding ingest_inv_def f_def by (metis sum.case(2))
  moreover have "case f y of Some v \<Rightarrow> complete_summary y v
      | None \<Rightarrow> \<exists>m. ig_pending s = Some m \<and> os_symbol m = y" if "y \<in> set syms" for y
  proof (cases "f y")
    case None
    then have "ch_get lib (ig_cache s) y = Inr None" using f by simp
    moreover have "(\<exists>v. ch_get lib (ig_cache s) y = Inr (Some v)) \<or> (\<exists>m. ig_pending s = Some m \<and> os_symbol m = y)"
      using inv assms(5) that unfolding ingest_inv_def by blast
    ultimately show ?thesis using None by simp
  next
    case (Some v)
    then have "ch_get lib (ig_cache s) y = Inr (Some v)" using f by simp
    moreover have "ch_get lib (ig_cache s) y = Inr None
        \<or> (\<exists>v. ch_get lib (ig_cache s) y = Inr (Some v) \<and> complete_summary y v)"
      using inv unfolding ingest_inv_def by blast
    ultimately show ?thesis using Some by auto
  qed
  moreover have "distinct syms" using inv assms(5) by (auto simp: ingest_inv_def)
  ultimately show ?thesis using cacher.summaries_cached [OF assms(1,2,5), of f] by blast
qed

text \<open>The requests that fail: without a cache, and for an expiry no message has had.\<close>

theorem summaries_errors:
  "summaries None combine expiry s = Inl (js_error ''Cache should not be disabled'')
    \<and> (map_get (ig_expiryMap s) expiry = None \<longrightarrow>
        (\<exists>details. summaries (Some lib) combine expiry s =
          Inl (FailObj (insufficientDataError ''Expiry is missing from expiry map.'' details))))"
  by (auto simp: summaries_def fetchOptionSummaries_def)

section \<open>Witnesses\<close>

definition tick :: "string \<Rightarrow> int \<Rightarrow> jsnum \<Rightarrow> option_summary" where
  "tick sy e bid = \<lparr> os_type = ''option_summary'', os_symbol = sy,
     os_exchange = ''deribit'', os_optionType = CallOption, os_strikePrice = Num 3000,
     os_expirationDate = e, os_bestBidPrice = Some bid, os_bestAskPrice = None,
     os_lastPrice = None, os_markPrice = None, os_markIV = None, os_delta = None,
     os_underlyingPrice = Some (Num 2900), os_timestamp = 5, os_localTimestamp = 6 \<rparr>"

lemma tick_year: "four_digit_year 1652428800000"
  by (simp add: four_digit_year_def)

lemma summaries_after_process_witness:
  "\<exists>s. process (Some memory_cacher) [tick ''A'' 1652428800000 (Num 1), tick ''B'' 1652428800000 (Num 2),
        tick ''A'' 1652428800000 (Num 3)] (new_ingest []) = Inr s
    \<and> summaries (Some memory_cacher) promise_all (iso_string 1652428800000) s = Inr (map
        (\<lambda>m. Some (summaryWithDefaults m (Num 0) (Num 0) (Num 0)))
        [tick ''A'' 1652428800000 (Num 3), tick ''B'' 1652428800000 (Num 2)])"
proof -
  obtain s where s: "process (Some memory_cacher) [tick ''A'' 1652428800000 (Num 1),
      tick ''B'' 1652428800000 (Num 2), tick ''A'' 1652428800000 (Num 3)] (new_ingest []) = Inr s"
    by (simp add: process_message_def store_def receive_def memory_cacher_def)
  from summaries_after_process [OF memory.cacher_axioms neverthrow.combining_axioms s tick_year] s
  show ?thesis by (simp add: tick_def tick_year)
qed

lemma summaries_interleaved_witness:
  "\<exists>s f. ingest_reachable memory_cacher (new_ingest []) s \<and> ig_pending s \<noteq> None
    \<and> summaries (Some memory_cacher) promise_all (iso_string 1652428800000) s = Inr (map f [''A''])"
proof -
  let ?s = "receive (Some memory_cacher) (tick ''A'' 1652428800000 (Num 1)) (new_ingest [])"
  have r: "ingest_reachable memory_cacher (new_ingest []) ?s"
    by (rule ingest_reachable.Step [OF ingest_reachable.Start ingest_step.Receive]) (simp add: new_ingest_def)
  have k: "map_get (ig_expiryMap ?s) (iso_string 1652428800000) = Some [''A'']"
    by (simp add: receive_def file_symbol_get new_ingest_def tick_def set_add_def)
  have c: "\<forall>y. ch_get memory_cacher [] y = Inr None" by (simp add: memory_cacher_def)
  from summaries_interleaved [OF memory.cacher_axioms neverthrow.combining_axioms c r k] r
  show ?thesis by (auto simp: receive_def)
qed

lemma summaries_errors_witness:
  "\<exists>details. summaries (Some memory_cacher) promise_all ''x'' (new_ingest []) =
    Inl (FailObj (insufficientDataError ''Expiry is missing from expiry map.'' details))"
  using summaries_errors [of promise_all "''x''" "new_ingest []" memory_cacher]
  by (simp add: new_ingest_def)

end
