(* ===== verification/IndexService.thy ===== *)
theory IndexService
  imports MfivDates MarketData
begin

text \<open>
  \<^verbatim>\<open>services/index.service.ts\<close> and
  \<^verbatim>\<open>src/service_helpers/ingest_helper.ts\<close>: the estimate action collects
  the cached option summaries of the near and next expiries from the ingest service, computes the
  index, announces the evidence and persists it.  Calls to other services, the index computation,
  \<^verbatim>\<open>max\<close> of transducist, the broker and the database are parameters; what is
  broadcast and saved is recorded in order in the state.
\<close>

section \<open>Data\<close>

record estimate_params =
  ep_at :: string
  ep_methodology :: string
  ep_timePeriod :: string
  ep_asset :: string
  ep_exchange :: string
  ep_symbolType :: string
  ep_contractType :: "string list"
  ep_expiryType :: string

record mfiv_evidence =
  me_version :: string
  me_type :: string
  me_context :: mfiv_context
  me_params :: mfiv_params
  me_result :: mfiv_result

record index_extra =
  xx_requestId :: string
  xx_near :: string
  xx_next :: string
  xx_iVal :: string

record methodology_index =
  mi_symbolType :: string
  mi_timestamp :: jsdate
  mi_asset :: string
  mi_exchange :: string
  mi_methodology :: string
  mi_timePeriod :: string
  mi_value :: string
  mi_extra :: index_extra

datatype index_effect =
    Announced string mfiv_evidence "string list"
  | Saved methodology_index

record index_service =
  xs_risklessRate :: "interest_rate option"
  xs_skipPersist :: bool
  xs_effects :: "index_effect list"

text \<open>\<^verbatim>\<open>xe_call\<close> is one call of a settled
  \<^verbatim>\<open>mcall\<close>: the action, the expiry and the asset.\<close>

record index_env =
  xe_parse :: "string \<Rightarrow> int option"
  xe_call :: "string \<Rightarrow> string \<Rightarrow> string \<Rightarrow> option_summary option list result"
  xe_max :: "(option_summary \<Rightarrow> option_summary \<Rightarrow> int) \<Rightarrow> option_summary list \<Rightarrow> option_summary option"
  xe_compute :: "mfiv_context \<Rightarrow> mfiv_params \<Rightarrow> mfiv_result result"
  xe_number_string :: "jsnum \<Rightarrow> string"
  xe_broadcast :: "string \<Rightarrow> unit result"
  xe_save :: "methodology_index \<Rightarrow> unit result"

text \<open>A computation that throws makes the action answer with an error object as its value.\<close>

datatype estimate_response = Evidence mfiv_evidence | NoIndex

section \<open>Operations\<close>

definition cmpMostRecent :: "option_summary \<Rightarrow> option_summary \<Rightarrow> int" where
  "cmpMostRecent a b =
     (if os_timestamp b < os_timestamp a then 1
      else if os_timestamp a < os_timestamp b then -1
      else if os_localTimestamp b < os_localTimestamp a then 1
      else if os_localTimestamp a < os_localTimestamp b then -1
      else 0)"

definition cmpOldest :: "option_summary \<Rightarrow> option_summary \<Rightarrow> int" where
  "cmpOldest a b =
     (if os_timestamp a < os_timestamp b then 1
      else if os_timestamp b < os_timestamp a then -1
      else if os_localTimestamp a < os_localTimestamp b then 1
      else if os_localTimestamp b < os_localTimestamp a then -1
      else 0)"

definition findMostRecent :: "index_env \<Rightarrow> option_summary list \<Rightarrow> option_summary option" where
  "findMostRecent E options = xe_max E cmpMostRecent options"

text \<open>The entries of the fulfilled calls.  Reading the timestamp of a null entry throws; the
  timestamps are Dates already.\<close>

fun summary_timestamps :: "option_summary option list \<Rightarrow> option_summary list result" where
  "summary_timestamps [] = Inr []"
| "summary_timestamps (None # xs) = Inl type_error"
| "summary_timestamps (Some o' # xs) = res_bind (summary_timestamps xs) (\<lambda>ys. Inr (o' # ys))"

definition optionSummariesLists ::
  "index_env \<Rightarrow> string \<Rightarrow> mfiv_expiry \<Rightarrow> option_summary list result" where
  "optionSummariesLists E asset dates =
     (let action = ''ingest-'' @ to_lower asset @ ''.summaries'';
          expiries = [xe_call E action (nearExpiration dates) asset,
                      xe_call E action (nextExpiration dates) asset]
      in summary_timestamps
           (concat (map (\<lambda>e. case e of Inr v \<Rightarrow> v | Inl _ \<Rightarrow> []) expiries)))"

definition default_rate :: interest_rate where
  "default_rate = \<lparr> ir_risklessRate = Num (366856442493147 / 10 ^ 15),
     ir_risklessRateAt = ''2022-03-17T17:17:00.702Z'', ir_risklessRateSource = ''AAVE'' \<rparr>"

definition rate_updated :: "interest_rate \<Rightarrow> index_service \<Rightarrow> index_service" where
  "rate_updated rate s = s\<lparr> xs_risklessRate := Some rate \<rparr>"

definition announce ::
  "index_env \<Rightarrow> mfiv_evidence \<Rightarrow> index_service \<Rightarrow> unit result \<times> index_service" where
  "announce E evidence s =
     (let ctx = me_context evidence;
          event = mc_methodology ctx @ ''.'' @ mc_timePeriod ctx @ ''.'' @ mc_asset ctx @ ''.index.created''
      in (xe_broadcast E event, s\<lparr> xs_effects := xs_effects s @ [Announced event evidence [''ws'']] \<rparr>))"

text \<open>A failing save is caught and logged.\<close>

definition persist ::
  "index_env \<Rightarrow> mfiv_evidence \<Rightarrow> index_extra \<Rightarrow> index_service \<Rightarrow> index_service" where
  "persist E evidence extra s =
     (let ctx = me_context evidence;
          index = \<lparr> mi_symbolType = ''option'',
            mi_timestamp = parse_iso (xe_parse E) (mp_at (me_params evidence)),
            mi_asset = mc_asset ctx, mi_exchange = mc_exchange ctx,
            mi_methodology = mc_methodology ctx, mi_timePeriod = mc_timePeriod ctx,
            mi_value = (case mr_dVol (me_result evidence) of
               Some v \<Rightarrow> xe_number_string E v | None \<Rightarrow> ''undefined''),
            mi_extra = extra \<rparr>
      in case xe_save E index of
           Inr _ \<Rightarrow> s\<lparr> xs_effects := xs_effects s @ [Saved index] \<rparr>
         | Inl _ \<Rightarrow> s)"

definition indexOperation ::
  "index_env \<Rightarrow> string \<Rightarrow> estimate_params \<Rightarrow> index_service
   \<Rightarrow> estimate_response result \<times> index_service" where
  "indexOperation E requestId params s =
     (let indexAtDate = parse_iso (xe_parse E) (ep_at params) in
      case mfivDates indexAtDate (ep_timePeriod params) (ep_expiryType params) None of
        Inl e \<Rightarrow> (Inl e, s)
      | Inr dates \<Rightarrow>
          (case optionSummariesLists E (ep_asset params) dates of
             Inl e \<Rightarrow> (Inl e, s)
           | Inr options \<Rightarrow>
               let rate = or_default (xs_risklessRate s) default_rate;
                   context = \<lparr> mc_rate = rate, mc_timePeriod = ep_timePeriod params,
                     mc_exchange = ep_exchange params, mc_methodology = ep_methodology params,
                     mc_asset = ep_asset params \<rparr>;
                   underlyingPrice = (case findMostRecent E options of
                     Some o' \<Rightarrow> or_default (os_underlyingPrice o') (Num 0)
                   | None \<Rightarrow> Num 0)
               in case to_iso_string indexAtDate of
                    Inl e \<Rightarrow> (Inl e, s)
                  | Inr time \<Rightarrow>
                      let mparams = \<lparr> mp_at = time, mp_nearDate = nearExpiration dates,
                            mp_nextDate = nextExpiration dates, mp_options = options,
                            mp_underlyingPrice = underlyingPrice \<rparr>
                      in if options = [] then (Inl type_error, s)
                         else
                           (case xe_compute E context mparams of
                              Inl _ \<Rightarrow> (Inr NoIndex, s)
                            | Inr r \<Rightarrow>
                                let evidence = \<lparr> me_version = ''2022-05-10'',
                                      me_type = ''MFIV.ESTIMATE.EVIDENCE'', me_context = context,
                                      me_params = mparams, me_result = r \<rparr>
                                in case announce E evidence s of
                                     (Inl e, s1) \<Rightarrow> (Inl e, s1)
                                   | (Inr _, s1) \<Rightarrow>
                                       (Inr (Evidence evidence),
                                        if xs_skipPersist s1 then s1
                                        else persist E evidence
                                          \<lparr> xx_requestId = requestId, xx_near = mp_nearDate mparams,
                                            xx_next = mp_nextDate mparams,
                                            xx_iVal = (case mr_invdVol r of
                                               Some v \<Rightarrow> (let t = xe_number_string E v in
                                                 if t = [] then ''undefined'' else t)
                                             | None \<Rightarrow> ''undefined'') \<rparr> s1))))"

definition estimate ::
  "index_env \<Rightarrow> string \<Rightarrow> estimate_params \<Rightarrow> index_service
   \<Rightarrow> estimate_response result \<times> index_service" where
  "estimate E requestId params s = indexOperation E requestId params s"

text \<open>The helper other services call the action with.\<close>

definition estimate_call ::
  "(string \<Rightarrow> estimate_params \<Rightarrow> estimate_response result) \<Rightarrow> estimate_params \<Rightarrow> estimate_response result" where
  "estimate_call call params = call (''index-'' @ to_lower (ep_asset params) @ ''.estimate'') params"

section \<open>The most recent summary\<close>

definition total_preorder :: "('a \<Rightarrow> 'a \<Rightarrow> int) \<Rightarrow> bool" where
  "total_preorder cmp \<longleftrightarrow> (\<forall>a b. cmp a b \<le> 0 \<or> cmp b a \<le> 0) \<and>
     (\<forall>a b c. cmp a b \<le> 0 \<longrightarrow> cmp b c \<le> 0 \<longrightarrow> cmp a c \<le> 0)"

locale chain_max =
  fixes mx :: "('a \<Rightarrow> 'a \<Rightarrow> int) \<Rightarrow> 'a list \<Rightarrow> 'a option"
  assumes max_Nil: "mx cmp [] = None"
    and max_greatest: "total_preorder cmp \<Longrightarrow> xs \<noteq> [] \<Longrightarrow>
      \<exists>m \<in> set xs. mx cmp xs = Some m \<and> (\<forall>x \<in> set xs. cmp x m \<le> 0)"
begin

lemma max_Some: "total_preorder cmp \<Longrightarrow> mx cmp xs = Some m \<Longrightarrow> m \<in> set xs \<and> (\<forall>x \<in> set xs. cmp x m \<le> 0)"
  using max_Nil max_greatest [of cmp xs] by (cases "xs = []") auto

end

fun max_by :: "('a \<Rightarrow> 'a \<Rightarrow> int) \<Rightarrow> 'a list \<Rightarrow> 'a option" where
  "max_by cmp [] = None"
| "max_by cmp (x # xs) =
     (case max_by cmp xs of None \<Rightarrow> Some x | Some m \<Rightarrow> if cmp m x \<le> 0 then Some x else Some m)"

lemma max_by_greatest:
  "total_preorder cmp \<Longrightarrow> xs \<noteq> [] \<Longrightarrow>
    \<exists>m \<in> set xs. max_by cmp xs = Some m \<and> (\<forall>x \<in> set xs. cmp x m \<le> 0)"
proof (induction xs)
  case (Cons x xs)
  have refl: "cmp x x \<le> 0" using Cons.prems(1) unfolding total_preorder_def by blast
  show ?case
  proof (cases "xs = []")
    case False
    then obtain m where m: "m \<in> set xs" "max_by cmp xs = Some m" "\<forall>y \<in> set xs. cmp y m \<le> 0"
      using Cons by blast
    show ?thesis
    proof (cases "cmp m x \<le> 0")
      case True
      then have "\<forall>y \<in> set xs. cmp y x \<le> 0" using m Cons.prems(1) unfolding total_preorder_def by blast
      then show ?thesis using True m refl by auto
    next
      case False
      then have "cmp x m \<le> 0" using Cons.prems(1) unfolding total_preorder_def by blast
      then show ?thesis using False m by auto
    qed
  qed (use refl in simp)
qed simp

interpretation transducist_max: chain_max max_by
  by unfold_locales (simp, rule max_by_greatest)

lemma cmpMostRecent_le: "cmpMostRecent a b \<le> 0 \<longleftrightarrow>
    os_timestamp a < os_timestamp b
    \<or> os_timestamp a = os_timestamp b \<and> os_localTimestamp a \<le> os_localTimestamp b"
  by (auto simp: cmpMostRecent_def)

lemma cmpMostRecent_total: "total_preorder cmpMostRecent"
  unfolding total_preorder_def cmpMostRecent_le by auto

lemma cmpOldest_converse: "cmpOldest a b = cmpMostRecent b a"
  by (simp add: cmpOldest_def cmpMostRecent_def)

section \<open>What the helper collects\<close>

definition fulfilled :: "'a list result \<Rightarrow> 'a list" where
  "fulfilled r = (case r of Inr v \<Rightarrow> v | Inl _ \<Rightarrow> [])"

lemma summary_timestamps_map [simp]: "summary_timestamps (map Some xs) = Inr xs"
  by (induction xs) simp_all

lemma summary_timestamps_iff: "summary_timestamps ys = Inr xs \<longleftrightarrow> ys = map Some xs"
proof
  show "summary_timestamps ys = Inr xs \<Longrightarrow> ys = map Some xs"
    by (induction ys arbitrary: xs rule: summary_timestamps.induct) (auto simp: res_bind_Inr_iff)
qed simp

lemma optionSummariesLists_iff:
  "optionSummariesLists E asset dates = Inr options \<longleftrightarrow>
    map Some options =
      fulfilled (xe_call E (''ingest-'' @ to_lower asset @ ''.summaries'') (nearExpiration dates) asset)
      @ fulfilled (xe_call E (''ingest-'' @ to_lower asset @ ''.summaries'') (nextExpiration dates) asset)"
  unfolding optionSummariesLists_def Let_def summary_timestamps_iff
  by (auto simp: fulfilled_def split: sum.splits)

lemma optionSummariesLists_Inl:
  "optionSummariesLists E asset dates = Inl e \<Longrightarrow> e = type_error"
proof -
  have "summary_timestamps ys = Inl e \<Longrightarrow> e = type_error" for ys
    by (induction ys rule: summary_timestamps.induct) (auto simp: res_bind_def split: sum.splits)
  then show "optionSummariesLists E asset dates = Inl e \<Longrightarrow> e = type_error"
    by (simp add: optionSummariesLists_def Let_def)
qed

lemma estimate_Evidence:
  assumes "estimate E requestId params s = (Inr (Evidence ev), s')"
  shows "\<exists>dates options.
    mfivDates (parse_iso (xe_parse E) (ep_at params)) (ep_timePeriod params) (ep_expiryType params) None = Inr dates
    \<and> optionSummariesLists E (ep_asset params) dates = Inr options \<and> options \<noteq> []
    \<and> mp_options (me_params ev) = options
    \<and> mp_underlyingPrice (me_params ev) = (case findMostRecent E options of
         Some o' \<Rightarrow> or_default (os_underlyingPrice o') (Num 0) | None \<Rightarrow> Num 0)
    \<and> mp_nearDate (me_params ev) = nearExpiration dates \<and> mp_nextDate (me_params ev) = nextExpiration dates
    \<and> me_context ev = \<lparr> mc_rate = or_default (xs_risklessRate s) default_rate,
         mc_timePeriod = ep_timePeriod params, mc_exchange = ep_exchange params,
         mc_methodology = ep_methodology params, mc_asset = ep_asset params \<rparr>
    \<and> xe_compute E (me_context ev) (me_params ev) = Inr (me_result ev)"
  using assms unfolding estimate_def indexOperation_def Let_def
  by (auto split: sum.splits if_splits prod.splits)

lemma estimate_at:
  "estimate E requestId params s = (Inr (Evidence ev), s') \<Longrightarrow>
    to_iso_string (parse_iso (xe_parse E) (ep_at params)) = Inr (mp_at (me_params ev))"
  unfolding estimate_def indexOperation_def Let_def by (auto split: sum.splits if_splits prod.splits)

lemma estimate_succeeds:
  assumes "mfivDates (parse_iso (xe_parse E) (ep_at params)) (ep_timePeriod params) (ep_expiryType params) None = Inr dates"
    and "optionSummariesLists E (ep_asset params) dates = Inr options" "options \<noteq> []"
    and "parse_iso (xe_parse E) (ep_at params) = Some t"
    and "\<And>c p. \<exists>r. xe_compute E c p = Inr r" "\<And>n. xe_broadcast E n = Inr ()"
  shows "\<exists>ev s'. estimate E requestId params s = (Inr (Evidence ev), s')"
proof -
  obtain f where f: "\<And>c p. xe_compute E c p = Inr (f c p)" using assms(5) by metis
  have "\<exists>s1. announce E ev s0 = (Inr (), s1)" for ev s0 by (simp add: announce_def Let_def assms(6))
  then obtain g where g: "\<And>ev s0. announce E ev s0 = (Inr (), g ev s0)" by metis
  show ?thesis
    unfolding estimate_def indexOperation_def Let_def assms(1) [unfolded assms(4)] sum.case assms(2,4)
    by (simp add: f g assms(3))
qed

section \<open>Properties\<close>

text \<open>C5: what a successful estimate consists of.  Its options are the summaries of the near and
  the next expiry of the date asked for, from the calls that succeeded; its underlying price is
  that of an option no other option is more recent than, by timestamp and then local timestamp;
  and the rate is the last one the rate service announced.\<close>

theorem estimate_evidence:
  assumes "chain_max (xe_max E)" and "estimate E requestId params s = (Inr (Evidence ev), s')"
  shows "\<exists>dates latest options.
    mfivDates (parse_iso (xe_parse E) (ep_at params)) (ep_timePeriod params) (ep_expiryType params) None = Inr dates
    \<and> mp_options (me_params ev) = options
    \<and> map Some options =
        fulfilled (xe_call E (''ingest-'' @ to_lower (ep_asset params) @ ''.summaries'') (nearExpiration dates) (ep_asset params))
        @ fulfilled (xe_call E (''ingest-'' @ to_lower (ep_asset params) @ ''.summaries'') (nextExpiration dates) (ep_asset params))
    \<and> latest \<in> set options
    \<and> (\<forall>o' \<in> set options. os_timestamp o' < os_timestamp latest
        \<or> os_timestamp o' = os_timestamp latest \<and> os_localTimestamp o' \<le> os_localTimestamp latest)
    \<and> mp_underlyingPrice (me_params ev) = or_default (os_underlyingPrice latest) (Num 0)
    \<and> mp_nearDate (me_params ev) = nearExpiration dates \<and> mp_nextDate (me_params ev) = nextExpiration dates
    \<and> mc_rate (me_context ev) = or_default (xs_risklessRate s) default_rate
    \<and> xe_compute E (me_context ev) (me_params ev) = Inr (me_result ev)"
proof -
  obtain dates options where d: "mfivDates (parse_iso (xe_parse E) (ep_at params)) (ep_timePeriod params)
      (ep_expiryType params) None = Inr dates"
    "optionSummariesLists E (ep_asset params) dates = Inr options" "options \<noteq> []"
    and ev: "mp_options (me_params ev) = options"
      "mp_underlyingPrice (me_params ev) = (case findMostRecent E options of
         Some o' \<Rightarrow> or_default (os_underlyingPrice o') (Num 0) | None \<Rightarrow> Num 0)"
      "mp_nearDate (me_params ev) = nearExpiration dates" "mp_nextDate (me_params ev) = nextExpiration dates"
      "mc_rate (me_context ev) = or_default (xs_risklessRate s) default_rate"
      "xe_compute E (me_context ev) (me_params ev) = Inr (me_result ev)"
    using estimate_Evidence [OF assms(2)] by auto
  obtain m where m: "m \<in> set options" "xe_max E cmpMostRecent options = Some m"
    "\<forall>x \<in> set options. cmpMostRecent x m \<le> 0"
    using chain_max.max_greatest [OF assms(1) cmpMostRecent_total d(3)] by blast
  then have "mp_underlyingPrice (me_params ev) = or_default (os_underlyingPrice m) (Num 0)"
    by (simp add: ev findMostRecent_def)
  with m d ev show ?thesis unfolding optionSummariesLists_iff cmpMostRecent_le by blast
qed

lemma persist_saves:
  "\<exists>saved. persist E ev x t = t\<lparr> xs_effects := xs_effects t @ map Saved saved \<rparr> \<and> length saved \<le> 1
    \<and> (\<forall>i \<in> set saved. mi_asset i = mc_asset (me_context ev) \<and> mi_exchange i = mc_exchange (me_context ev)
      \<and> mi_timePeriod i = mc_timePeriod (me_context ev) \<and> mi_extra i = x
      \<and> mi_symbolType i = ''option'' \<and> mi_methodology i = mc_methodology (me_context ev)
      \<and> mi_timestamp i = parse_iso (xe_parse E) (mp_at (me_params ev))
      \<and> mi_value i = (case mr_dVol (me_result ev) of Some v \<Rightarrow> xe_number_string E v | None \<Rightarrow> ''undefined''))"
proof -
  define i where "i = \<lparr> mi_symbolType = ''option'',
    mi_timestamp = parse_iso (xe_parse E) (mp_at (me_params ev)),
    mi_asset = mc_asset (me_context ev), mi_exchange = mc_exchange (me_context ev),
    mi_methodology = mc_methodology (me_context ev), mi_timePeriod = mc_timePeriod (me_context ev),
    mi_value = (case mr_dVol (me_result ev) of Some v \<Rightarrow> xe_number_string E v | None \<Rightarrow> ''undefined''),
    mi_extra = x \<rparr>"
  have "persist E ev x t = (case xe_save E i of Inr _ \<Rightarrow> t\<lparr> xs_effects := xs_effects t @ [Saved i] \<rparr> | Inl _ \<Rightarrow> t)"
    by (simp only: persist_def i_def Let_def)
  then have "persist E ev x t = t\<lparr> xs_effects := xs_effects t @ map Saved (case xe_save E i of Inr _ \<Rightarrow> [i] | Inl _ \<Rightarrow> []) \<rparr>"
    by (simp split: sum.splits)
  then show ?thesis
    by (intro exI [of _ "case xe_save E i of Inr _ \<Rightarrow> [i] | Inl _ \<Rightarrow> []"]) (simp add: i_def split: sum.splits)
qed

definition announced :: "estimate_params \<Rightarrow> mfiv_evidence \<Rightarrow> index_service \<Rightarrow> index_service" where
  "announced params ev s = s\<lparr> xs_effects := xs_effects s @ [Announced
     (ep_methodology params @ ''.'' @ ep_timePeriod params @ ''.'' @ ep_asset params @ ''.index.created'')
     ev [''ws'']] \<rparr>"

lemma announce_announced:
  "mc_methodology (me_context ev) = ep_methodology params \<Longrightarrow> mc_timePeriod (me_context ev) = ep_timePeriod params
    \<Longrightarrow> mc_asset (me_context ev) = ep_asset params
    \<Longrightarrow> \<exists>b. announce E ev s = (b, announced params ev s)"
  by (simp add: announce_def announced_def Let_def)

lemma announced_skip [simp]: "xs_skipPersist (announced params ev s) = xs_skipPersist s"
  by (simp add: announced_def)

text \<open>What an evidence was computed from.\<close>

definition computed_evidence :: "index_env \<Rightarrow> estimate_params \<Rightarrow> index_service \<Rightarrow> mfiv_evidence \<Rightarrow> bool" where
  "computed_evidence E params s ev \<longleftrightarrow> (\<exists>dates.
     mfivDates (parse_iso (xe_parse E) (ep_at params)) (ep_timePeriod params) (ep_expiryType params) None = Inr dates
     \<and> optionSummariesLists E (ep_asset params) dates = Inr (mp_options (me_params ev))
     \<and> mp_options (me_params ev) \<noteq> []
     \<and> mc_rate (me_context ev) = or_default (xs_risklessRate s) default_rate
     \<and> xe_compute E (me_context ev) (me_params ev) = Inr (me_result ev))"

lemma estimate_outcomes:
  assumes "estimate E requestId params s = (r, s')"
  shows "(\<exists>e. r = Inl e \<and> (s' = s \<or> (\<exists>ev. computed_evidence E params s ev \<and> s' = announced params ev s)))
    \<or> (r = Inr NoIndex \<and> s' = s)
    \<or> (\<exists>ev x. r = Inr (Evidence ev) \<and> computed_evidence E params s ev \<and> mc_asset (me_context ev) = ep_asset params
        \<and> mc_exchange (me_context ev) = ep_exchange params
        \<and> mc_timePeriod (me_context ev) = ep_timePeriod params \<and> xx_requestId x = requestId
        \<and> xx_near x = mp_nearDate (me_params ev) \<and> xx_next x = mp_nextDate (me_params ev)
        \<and> xx_iVal x = (case mr_invdVol (me_result ev) of
            Some v \<Rightarrow> if xe_number_string E v = [] then ''undefined'' else xe_number_string E v
          | None \<Rightarrow> ''undefined'')
        \<and> s' = (if xs_skipPersist s then announced params ev s else persist E ev x (announced params ev s)))"
proof (cases "mfivDates (parse_iso (xe_parse E) (ep_at params)) (ep_timePeriod params) (ep_expiryType params) None")
  case (Inl e)
  then show ?thesis using assms by (auto simp: estimate_def indexOperation_def Let_def)
next
  case (Inr dates)
  show ?thesis
  proof (cases "optionSummariesLists E (ep_asset params) dates")
    case (Inl e)
    then show ?thesis using assms Inr by (auto simp: estimate_def indexOperation_def Let_def)
  next
    case options: (Inr options)
    define cx where "cx = \<lparr> mc_rate = or_default (xs_risklessRate s) default_rate,
      mc_timePeriod = ep_timePeriod params, mc_exchange = ep_exchange params,
      mc_methodology = ep_methodology params, mc_asset = ep_asset params \<rparr>"
    define up where "up = (case findMostRecent E options of
      Some o' \<Rightarrow> or_default (os_underlyingPrice o') (Num 0) | None \<Rightarrow> Num 0)"
    note run = assms [unfolded estimate_def indexOperation_def Let_def Inr options sum.case, folded cx_def up_def]
    show ?thesis
    proof (cases "to_iso_string (parse_iso (xe_parse E) (ep_at params))")
      case (Inl e)
      then show ?thesis using run by auto
    next
      case time: (Inr time)
      define ps where "ps = \<lparr> mp_at = time, mp_nearDate = nearExpiration dates,
        mp_nextDate = nextExpiration dates, mp_options = options, mp_underlyingPrice = up \<rparr>"
      note run = run [unfolded time sum.case, folded ps_def]
      show ?thesis
      proof (cases "options = [] \<or> (\<exists>e. xe_compute E cx ps = Inl e)")
        case True
        then show ?thesis using run by (auto split: if_splits)
      next
        case False
        then obtain r' where r': "options \<noteq> []" "xe_compute E cx ps = Inr r'"
          by (cases "xe_compute E cx ps") auto
        define ev where "ev = \<lparr> me_version = ''2022-05-10'', me_type = ''MFIV.ESTIMATE.EVIDENCE'',
          me_context = cx, me_params = ps, me_result = r' \<rparr>"
        define x where "x = \<lparr> xx_requestId = requestId, xx_near = mp_nearDate ps, xx_next = mp_nextDate ps,
          xx_iVal = (case mr_invdVol r' of
            Some v \<Rightarrow> if xe_number_string E v = [] then ''undefined'' else xe_number_string E v
          | None \<Rightarrow> ''undefined'') \<rparr>"
        note run = run [unfolded r'(2) sum.case if_not_P [OF r'(1)], folded ev_def x_def]
        obtain b where b: "announce E ev s = (b, announced params ev s)"
          using announce_announced [of ev params E s] by (auto simp: ev_def cx_def)
        have fields: "mc_asset (me_context ev) = ep_asset params" "mc_exchange (me_context ev) = ep_exchange params"
          "mc_timePeriod (me_context ev) = ep_timePeriod params" "xx_requestId x = requestId"
          "xx_near x = mp_nearDate (me_params ev)" "xx_next x = mp_nextDate (me_params ev)"
          "xx_iVal x = (case mr_invdVol (me_result ev) of
            Some v \<Rightarrow> if xe_number_string E v = [] then ''undefined'' else xe_number_string E v
          | None \<Rightarrow> ''undefined'')"
          by (simp_all add: ev_def cx_def x_def)
        have computed: "computed_evidence E params s ev"
          using Inr options r' by (simp add: computed_evidence_def ev_def ps_def cx_def)
        show ?thesis
        proof (cases b)
          case (Inl e)
          then show ?thesis using run b computed by auto
        next
          case (Inr u)
          then show ?thesis using run b fields computed by auto
        qed
      qed
    qed
  qed
qed

text \<open>The effects of an estimate.  An evidence that is answered has been broadcast exactly once,
  to the ws group under the event of its methodology, period and asset, and after that it was saved
  at most once, never when persistence is skipped; every other outcome leaves at most a failed
  broadcast behind and saves nothing.\<close>

theorem estimate_effects:
  assumes "estimate E requestId params s = (r, s')"
  shows "xs_risklessRate s' = xs_risklessRate s \<and>
    (case r of
       Inr (Evidence ev) \<Rightarrow> \<exists>saved.
         xs_effects s' = xs_effects s @ [Announced
           (ep_methodology params @ ''.'' @ ep_timePeriod params @ ''.'' @ ep_asset params @ ''.index.created'')
           ev [''ws'']] @ map Saved saved
         \<and> length saved \<le> (if xs_skipPersist s then 0 else 1)
         \<and> (\<forall>i \<in> set saved. mi_asset i = ep_asset params \<and> mi_exchange i = ep_exchange params
              \<and> mi_timePeriod i = ep_timePeriod params \<and> xx_requestId (mi_extra i) = requestId)
     | Inr NoIndex \<Rightarrow> s' = s
     | Inl e \<Rightarrow> \<exists>failed. xs_effects s' = xs_effects s @ failed \<and> (\<forall>x \<in> set failed. \<exists>n v g. x = Announced n v g))"
  using estimate_outcomes [OF assms]
proof (elim disjE exE conjE)
  fix ev x
  assume r: "r = Inr (Evidence ev)" and ev: "mc_asset (me_context ev) = ep_asset params"
    "mc_exchange (me_context ev) = ep_exchange params" "mc_timePeriod (me_context ev) = ep_timePeriod params"
    "xx_requestId x = requestId"
    and s': "s' = (if xs_skipPersist s then announced params ev s else persist E ev x (announced params ev s))"
  obtain saved where p: "persist E ev x (announced params ev s) = (announced params ev s)\<lparr> xs_effects :=
      xs_effects (announced params ev s) @ map Saved saved \<rparr>" "length saved \<le> 1"
    "\<forall>i \<in> set saved. mi_asset i = mc_asset (me_context ev) \<and> mi_exchange i = mc_exchange (me_context ev)
      \<and> mi_timePeriod i = mc_timePeriod (me_context ev) \<and> mi_extra i = x"
    using persist_saves by blast
  show ?thesis
    by (cases "xs_skipPersist s")
      (use p ev in \<open>auto simp: r s' announced_def intro: exI [of _ "[]"] exI [of _ saved]\<close>)
qed (auto simp: announced_def)

text \<open>An estimate for which neither call delivers a summary throws a TypeError before it
  computes anything, since the log line reads the symbol of the first option; so does one whose
  calls deliver a null entry.\<close>

theorem estimate_without_options:
  assumes "mfivDates (parse_iso (xe_parse E) (ep_at params)) (ep_timePeriod params) (ep_expiryType params) None = Inr dates"
    and "entries = fulfilled (xe_call E (''ingest-'' @ to_lower (ep_asset params) @ ''.summaries'') (nearExpiration dates) (ep_asset params))
      @ fulfilled (xe_call E (''ingest-'' @ to_lower (ep_asset params) @ ''.summaries'') (nextExpiration dates) (ep_asset params))"
    and "entries = [] \<or> None \<in> set entries"
  shows "estimate E requestId params s = (Inl type_error, s)"
proof (cases "optionSummariesLists E (ep_asset params) dates")
  case (Inl e)
  then show ?thesis using assms(1) optionSummariesLists_Inl [OF Inl]
    by (simp add: estimate_def indexOperation_def Let_def)
next
  case (Inr options)
  then have "map Some options = entries" unfolding optionSummariesLists_iff assms(2) .
  then have opts: "options = []" using assms(3) by auto
  obtain t where "parse_iso (xe_parse E) (ep_at params) = Some t"
  proof (cases "parse_iso (xe_parse E) (ep_at params)")
    case None
    then show ?thesis using assms(1)
      by (auto simp: mfivDates_def nextExpirationDate_def expiryTypeToOrdinals_def res_bind_Inr_iff
          Let_def date_plus_def num_of_date_def set_utc_hours_def split: list.splits)
  qed
  then show ?thesis using assms(1) Inr opts
    by (simp add: estimate_def indexOperation_def Let_def)
qed

section \<open>Witnesses\<close>

definition index_env0 :: "(string \<Rightarrow> string \<Rightarrow> string \<Rightarrow> option_summary option list result) \<Rightarrow> index_env" where
  "index_env0 call = \<lparr> xe_parse = (\<lambda>_. None), xe_call = call, xe_max = max_by,
     xe_compute = (\<lambda>c p. Inr \<lparr> mr_asset = mc_asset c, mr_dVol = Some (Num 80), mr_invdVol = None,
       mr_value = None, mr_methodology = ''MFIV'', mr_estimatedFor = mp_at p \<rparr>),
     xe_number_string = (\<lambda>_. ''80''), xe_broadcast = (\<lambda>_. Inr ()), xe_save = (\<lambda>_. Inr ()) \<rparr>"

definition sample_estimate :: estimate_params where
  "sample_estimate = \<lparr> ep_at = iso_string 1651363200000, ep_methodology = ''MFIV'', ep_timePeriod = ''14D'',
     ep_asset = ''ETH'', ep_exchange = ''deribit'', ep_symbolType = ''option'', ep_contractType = [],
     ep_expiryType = FridayT08 \<rparr>"

definition sample_service :: index_service where
  "sample_service = \<lparr> xs_risklessRate = None, xs_skipPersist = False, xs_effects = [] \<rparr>"

definition sample_option :: option_summary where
  "sample_option = \<lparr> os_type = ''option_summary'', os_symbol = ''A'',
     os_exchange = ''deribit'', os_optionType = CallOption, os_strikePrice = Num 3000,
     os_expirationDate = 0, os_bestBidPrice = None, os_bestAskPrice = None,
     os_lastPrice = None, os_markPrice = None, os_markIV = None, os_delta = None,
     os_underlyingPrice = Some (Num 2900), os_timestamp = 5, os_localTimestamp = 6 \<rparr>"

lemma sample_dates:
  "\<exists>dates. mfivDates (parse_iso (xe_parse (index_env0 call)) (ep_at sample_estimate))
     (ep_timePeriod sample_estimate) (ep_expiryType sample_estimate) None = Inr dates"
proof -
  have "timePeriodToInteger ''14D'' = Inr (Num (of_int (7 * 2)))"
    using timePeriodToInteger_digits [of "''14''" "[]"] by (simp add: is_digit_def dec_val_def digit_val_def)
  from mfivDates_weeks [OF this, of 1651363200000 None] show ?thesis
    by (simp add: sample_estimate_def index_env0_def parse_iso_string time_clip_four_digit four_digit_year_def max_time_def)
qed

lemma sample_estimated_for:
  assumes "ep_at params = iso_string 1651363200000" "ep_timePeriod params = ''14D''" "ep_expiryType params = FridayT08"
  shows "\<exists>ev s'. estimate (index_env0 (\<lambda>_ _ _. Inr [Some sample_option])) ''r'' params s = (Inr (Evidence ev), s')"
proof -
  let ?E = "index_env0 (\<lambda>_ _ _. Inr [Some sample_option])"
  obtain dates where d: "mfivDates (parse_iso (xe_parse ?E) (ep_at params))
     (ep_timePeriod params) (ep_expiryType params) None = Inr dates"
    using sample_dates by (auto simp: assms sample_estimate_def)
  have "parse_iso (xe_parse ?E) (ep_at params) = Some 1651363200000"
    by (simp add: assms index_env0_def parse_iso_string time_clip_four_digit four_digit_year_def)
  moreover have "optionSummariesLists ?E (ep_asset params) dates = Inr [sample_option, sample_option]"
    by (simp add: optionSummariesLists_def index_env0_def)
  moreover have "\<exists>r. xe_compute ?E c p = Inr r" "xe_broadcast ?E n = Inr ()" for c p n
    by (simp_all add: index_env0_def)
  ultimately show ?thesis using estimate_succeeds [OF d] by blast
qed

lemma sample_estimated:
  "\<exists>ev s'. estimate (index_env0 (\<lambda>_ _ _. Inr [Some sample_option])) ''r'' sample_estimate sample_service = (Inr (Evidence ev), s')"
  by (rule sample_estimated_for) (simp_all add: sample_estimate_def)

lemma estimate_evidence_witness:
  "\<exists>ev s'. estimate (index_env0 (\<lambda>_ _ _. Inr [Some sample_option])) ''r'' sample_estimate sample_service = (Inr (Evidence ev), s')
    \<and> mp_options (me_params ev) = [sample_option, sample_option] \<and> mp_underlyingPrice (me_params ev) = Num 2900"
proof -
  let ?E = "index_env0 (\<lambda>_ _ _. Inr [Some sample_option])"
  obtain ev s' where e: "estimate ?E ''r'' sample_estimate sample_service = (Inr (Evidence ev), s')"
    using sample_estimated by blast
  have "chain_max (xe_max ?E)" by (simp add: index_env0_def transducist_max.chain_max_axioms)
  from estimate_evidence [OF this e] obtain latest options where o:
    "mp_options (me_params ev) = options" "map Some options = [Some sample_option, Some sample_option]"
    "latest \<in> set options" "mp_underlyingPrice (me_params ev) = or_default (os_underlyingPrice latest) (Num 0)"
    by (auto simp: index_env0_def fulfilled_def)
  then have "options = [sample_option, sample_option]" by auto
  with o e show ?thesis by (auto simp: sample_option_def)
qed

lemma estimate_effects_witness:
  "\<exists>ev s'. estimate (index_env0 (\<lambda>_ _ _. Inr [Some sample_option])) ''r'' sample_estimate sample_service = (Inr (Evidence ev), s')
    \<and> hd (xs_effects s') = Announced ''MFIV.14D.ETH.index.created'' ev [''ws'']"
proof -
  let ?E = "index_env0 (\<lambda>_ _ _. Inr [Some sample_option])"
  obtain ev s' where e: "estimate ?E ''r'' sample_estimate sample_service = (Inr (Evidence ev), s')"
    using sample_estimated by blast
  from estimate_effects [OF e] e show ?thesis
    by (auto simp: sample_service_def sample_estimate_def)
qed

lemma estimate_without_options_witness:
  "estimate (index_env0 (\<lambda>_ _ _. Inl type_error)) ''r'' sample_estimate sample_service = (Inl type_error, sample_service)"
proof -
  obtain dates where "mfivDates (parse_iso (xe_parse (index_env0 (\<lambda>_ _ _. Inl type_error))) (ep_at sample_estimate))
     (ep_timePeriod sample_estimate) (ep_expiryType sample_estimate) None = Inr dates" using sample_dates by blast
  from estimate_without_options [OF this refl] show ?thesis by (simp add: index_env0_def fulfilled_def)
qed

end
