(* ===== verification/Tokens.thy ===== *)
theory Tokens
  imports TimePeriod
begin

text \<open>
  \<^verbatim>\<open>services/tokens.service.ts\<close> and
  \<^verbatim>\<open>src/entities/auth_token.ts\<close>: API tokens are random hex strings of
  which only the HMAC is stored.  The database, the random bytes and the HMAC are parameters; the
  locale \<open>token_store\<close> states what typeorm promises of the table, with its unique column.
\<close>

section \<open>Data\<close>

record auth_token =
  at_id :: "int option"
  at_type :: string
  at_owner :: string
  at_name :: "string option"
  at_token :: string
  at_expiry :: "int option"
  at_createdAt :: "int option"
  at_lastUsedAt :: "int option"
  at_revokedAt :: "int option"

record 'd token_db =
  td_find :: "string \<Rightarrow> string \<Rightarrow> 'd \<Rightarrow> auth_token option result"
  td_save :: "auth_token \<Rightarrow> 'd \<Rightarrow> (auth_token \<times> 'd) result"
  td_remove :: "auth_token list \<Rightarrow> 'd \<Rightarrow> 'd result"
  td_query :: "string \<Rightarrow> (string \<times> string) list \<Rightarrow> 'd \<Rightarrow> auth_token list result"

record token_env =
  te_salt :: "string option"
  te_hmac :: "string \<Rightarrow> string \<Rightarrow> string"

record generate_params =
  gp_type :: string
  gp_expireInNumDays :: "int option"
  gp_expiry :: "int option"
  gp_owner :: string

definition TOKEN_LENGTH :: int where "TOKEN_LENGTH = 75"

definition TOKEN_TYPES :: "string list" where
  "TOKEN_TYPES = [''verification'', ''passwordless'', ''password-reset'', ''api-key'']"

section \<open>Tokens and their hashes\<close>

definition hex_digit :: "nat \<Rightarrow> char" where
  "hex_digit n = (if n < 10 then char_of (48 + n) else char_of (87 + n))"

definition hex_string :: "nat list \<Rightarrow> string" where
  "hex_string bytes = concat (map (\<lambda>b. [hex_digit (b div 16), hex_digit (b mod 16)]) bytes)"

text \<open>The service's start: a missing salt is made up under test and only logged otherwise.\<close>

definition token_created :: "bool \<Rightarrow> nat list \<Rightarrow> token_env \<Rightarrow> token_env" where
  "token_created testing random32 E =
     (if te_salt E = None \<or> te_salt E = Some []
      then if testing then E\<lparr> te_salt := Some (hex_string random32) \<rparr> else E
      else E)"

definition secureToken :: "token_env \<Rightarrow> string \<Rightarrow> string result" where
  "secureToken E token =
     (case te_salt E of None \<Rightarrow> Inl type_error | Some salt \<Rightarrow> Inr (te_hmac E salt token))"

text \<open>\<^verbatim>\<open>randomBytes(len / 2)\<close> takes the integral part of its size.\<close>

definition generateToken ::
  "token_env \<Rightarrow> (nat \<Rightarrow> nat list) \<Rightarrow> int \<Rightarrow> (string \<times> string) result" where
  "generateToken E randomBytes len =
     (let token = hex_string (randomBytes (nat (len div 2))) in
      res_bind (secureToken E token) (\<lambda>secured. Inr (token, secured)))"

section \<open>Actions\<close>

text \<open>The expiry given in the parameters is overwritten, also when no number of days is given.\<close>

definition generate ::
  "token_env \<Rightarrow> 'd token_db \<Rightarrow> (nat \<Rightarrow> nat list) \<Rightarrow> int \<Rightarrow> generate_params \<Rightarrow> 'd
   \<Rightarrow> (auth_token \<times> 'd) result" where
  "generate E db randomBytes now params d =
     (let expiryTimestamp = (case gp_expireInNumDays params of
            None \<Rightarrow> None
          | Some n \<Rightarrow> new_date (Num (of_int (now + n * MILLISECONDS_PER_DAY))))
      in res_bind (generateToken E randomBytes TOKEN_LENGTH) (\<lambda>(token, secured).
         res_bind (td_save db \<lparr> at_id = None, at_type = gp_type params, at_owner = gp_owner params,
             at_name = None, at_token = secured, at_expiry = expiryTimestamp, at_createdAt = None,
             at_lastUsedAt = None, at_revokedAt = None \<rparr> d) (\<lambda>(res, d').
           Inr (res\<lparr> at_token := token \<rparr>, d'))))"

definition check ::
  "token_env \<Rightarrow> 'd token_db \<Rightarrow> int \<Rightarrow> string \<Rightarrow> string \<Rightarrow> string option \<Rightarrow> 'd \<Rightarrow> (bool \<times> 'd) result" where
  "check E db now type token owner d =
     res_bind (secureToken E token) (\<lambda>secured.
     res_bind (td_find db type secured d) (\<lambda>found.
       case found of
         None \<Rightarrow> Inr (False, d)
       | Some entity \<Rightarrow>
           if owner = None \<or> owner = Some [] \<or> owner = Some (at_owner entity)
           then if (case at_expiry entity of None \<Rightarrow> False | Some e \<Rightarrow> e < now)
                then Inr (False, d)
                else res_bind (td_save db (entity\<lparr> at_lastUsedAt := Some now \<rparr>) d)
                  (\<lambda>(_, d'). Inr (True, d'))
           else Inr (False, d)))"

definition remove_token ::
  "token_env \<Rightarrow> 'd token_db \<Rightarrow> string \<Rightarrow> string \<Rightarrow> 'd \<Rightarrow> 'd result" where
  "remove_token E db type token d =
     res_bind (secureToken E token) (\<lambda>secured.
     res_bind (td_find db type secured d) (\<lambda>found.
       case found of None \<Rightarrow> Inr d | Some entity \<Rightarrow> td_remove db [entity] d))"

text \<open>The text of the query and its parameters, as the code hands them to typeorm.\<close>

definition clearExpired :: "'d token_db \<Rightarrow> int \<Rightarrow> 'd \<Rightarrow> 'd result" where
  "clearExpired db now d =
     (let (y, m, dd) = civil_of_day (day_of now);
          nowDate = join_with ''-'' [int_string y, int_string m, int_string dd];
          condition = ''auth_tokens.expiry < '' @ [CHR 0x27] @ '':now_date'' @ [CHR 0x27] @ ''::interval''
      in res_bind (td_query db condition [(''nowDate'', nowDate)] d) (\<lambda>entities.
           td_remove db entities d))"

section \<open>The table\<close>

locale token_store =
  fixes db :: "'d token_db" and rows :: "'d \<Rightarrow> auth_token list" and ok :: "'d \<Rightarrow> bool"
  assumes find_some: "ok d \<Longrightarrow> td_find db ty tok d = Inr (Some r) \<Longrightarrow>
      r \<in> set (rows d) \<and> at_type r = ty \<and> at_token r = tok"
    and find_none: "ok d \<Longrightarrow> td_find db ty tok d = Inr None \<Longrightarrow> r \<in> set (rows d) \<Longrightarrow>
      at_token r = tok \<Longrightarrow> at_type r \<noteq> ty"
    and find_works: "ok d \<Longrightarrow> \<exists>x. td_find db ty tok d = Inr x"
    and save_new: "ok d \<Longrightarrow> at_id e = None \<Longrightarrow> td_save db e d = Inr (e', d') \<Longrightarrow> ok d' \<and>
      (\<exists>i c. e' = e\<lparr> at_id := Some i, at_createdAt := c \<rparr>) \<and> set (rows d') = insert e' (set (rows d))
      \<and> (\<forall>r \<in> set (rows d). at_token r \<noteq> at_token e)"
    and save_old: "ok d \<Longrightarrow> r \<in> set (rows d) \<Longrightarrow> at_id e = at_id r \<Longrightarrow> at_token e = at_token r \<Longrightarrow>
      \<exists>e' d'. td_save db e d = Inr (e', d') \<and> ok d' \<and> set (rows d') = insert e (set (rows d) - {r})"
    and remove_rows: "ok d \<Longrightarrow> td_remove db es d = Inr d' \<Longrightarrow> ok d' \<and> set (rows d') = set (rows d) - set es"
    and unique_token: "ok d \<Longrightarrow> r \<in> set (rows d) \<Longrightarrow> r' \<in> set (rows d) \<Longrightarrow> at_token r = at_token r' \<Longrightarrow> r = r'"
begin

lemma find_row:
  assumes "ok d" "r \<in> set (rows d)" "at_type r = ty" "at_token r = tok"
  shows "td_find db ty tok d = Inr (Some r)"
  using find_works [OF assms(1), of ty tok] find_some [OF assms(1), of ty tok]
    find_none [OF assms(1), of ty tok r] unique_token [OF assms(1,2)] assms
  by (metis option.exhaust)

text \<open>The outcome of a check, read off the row of the token.\<close>

lemma check_row:
  assumes "ok d" "secureToken E token = Inr tok" "r \<in> set (rows d)" "at_token r = tok" "at_type r = ty"
  shows "\<exists>d'. check E db now ty token owner d =
      Inr ((owner = None \<or> owner = Some [] \<or> owner = Some (at_owner r))
        \<and> (\<forall>e. at_expiry r = Some e \<longrightarrow> now \<le> e), d') \<and> ok d'
    \<and> set (rows d') = (if (owner = None \<or> owner = Some [] \<or> owner = Some (at_owner r))
        \<and> (\<forall>e. at_expiry r = Some e \<longrightarrow> now \<le> e)
      then insert (r\<lparr> at_lastUsedAt := Some now \<rparr>) (set (rows d) - {r}) else set (rows d))"
proof -
  obtain e' d' where "td_save db (r\<lparr> at_lastUsedAt := Some now \<rparr>) d = Inr (e', d')" "ok d'"
    "set (rows d') = insert (r\<lparr> at_lastUsedAt := Some now \<rparr>) (set (rows d) - {r})"
    using save_old [OF assms(1,3), of "r\<lparr> at_lastUsedAt := Some now \<rparr>"] by auto
  then show ?thesis
    using find_row [OF assms(1,3,5,4)] assms(1,2) by (auto simp: check_def not_less split: option.splits)
qed

lemma check_unknown:
  assumes "ok d" "secureToken E token = Inr tok" "\<forall>r \<in> set (rows d). at_token r = tok \<longrightarrow> at_type r \<noteq> ty"
  shows "check E db now ty token owner d = Inr (False, d)"
proof -
  have "td_find db ty tok d = Inr None"
    using find_works [OF assms(1), of ty tok] find_some [OF assms(1), of ty tok] assms(3)
    by (metis option.exhaust)
  then show ?thesis using assms by (simp add: check_def)
qed

lemma generate_row:
  assumes "ok d" "generate E db rnd now params d = Inr (res, d')"
  shows "\<exists>row tok. ok d' \<and> set (rows d') = insert row (set (rows d)) \<and> secureToken E (at_token res) = Inr tok
    \<and> at_token row = tok \<and> at_type row = gp_type params \<and> at_owner row = gp_owner params
    \<and> at_expiry row = Option.bind (gp_expireInNumDays params) (\<lambda>n. new_date (Num (of_int (now + n * MILLISECONDS_PER_DAY))))
    \<and> at_token res = hex_string (rnd (nat (TOKEN_LENGTH div 2)))
    \<and> (\<forall>r \<in> set (rows d). at_token r \<noteq> tok)"
proof -
  obtain tok row where g: "secureToken E (hex_string (rnd (nat (TOKEN_LENGTH div 2)))) = Inr tok"
    "td_save db \<lparr> at_id = None, at_type = gp_type params, at_owner = gp_owner params,
       at_name = None, at_token = tok, at_expiry = Option.bind (gp_expireInNumDays params)
         (\<lambda>n. new_date (Num (of_int (now + n * MILLISECONDS_PER_DAY)))), at_createdAt = None,
       at_lastUsedAt = None, at_revokedAt = None \<rparr> d = Inr (row, d')"
    "res = row\<lparr> at_token := hex_string (rnd (nat (TOKEN_LENGTH div 2))) \<rparr>"
    using assms(2) by (auto simp: generate_def generateToken_def res_bind_Inr_iff Let_def
        split: option.splits prod.splits)
  from save_new [OF assms(1) _ g(2)] show ?thesis using g(1,3) by (intro exI [of _ row] exI [of _ tok]) auto
qed

end

subsection \<open>A table\<close>

type_synonym token_table = "int \<times> auth_token list"

definition table_ok :: "token_table \<Rightarrow> bool" where
  "table_ok t \<longleftrightarrow> distinct (map at_token (snd t)) \<and> distinct (map at_id (snd t))
     \<and> list_all (\<lambda>r. \<exists>i<fst t. at_id r = Some i) (snd t)"

definition table_save :: "auth_token \<Rightarrow> token_table \<Rightarrow> (auth_token \<times> token_table) result" where
  "table_save e t =
     (case at_id e of
        None \<Rightarrow>
          if at_token e \<in> at_token ` set (snd t)
          then Inl (ErrObj QueryFailedErrorClass ''duplicate key value violates unique constraint'' None None)
          else let e' = e\<lparr> at_id := Some (fst t), at_createdAt := Some 0 \<rparr>
               in Inr (e', fst t + 1, snd t @ [e'])
      | Some i \<Rightarrow> Inr (e, fst t, map (\<lambda>r. if at_id r = Some i then e else r) (snd t)))"

definition table_db :: "token_table token_db" where
  "table_db = \<lparr> td_find = (\<lambda>ty tok t. Inr (find (\<lambda>r. at_type r = ty \<and> at_token r = tok) (snd t))),
     td_save = table_save,
     td_remove = (\<lambda>es t. Inr (fst t, filter (\<lambda>r. r \<notin> set es) (snd t))),
     td_query = (\<lambda>_ _ _. Inl (ErrObj QueryFailedErrorClass ''invalid input syntax for type interval'' None None)) \<rparr>"

lemma distinct_filter_map: "distinct (map f xs) \<Longrightarrow> distinct (map f (filter P xs))"
  by (induction xs) auto

interpretation table: token_store table_db snd table_ok
proof unfold_locales
  fix d :: token_table and ty tok r r' e e' d' es
  show "table_ok d \<Longrightarrow> td_find table_db ty tok d = Inr (Some r) \<Longrightarrow>
      r \<in> set (snd d) \<and> at_type r = ty \<and> at_token r = tok"
    by (auto simp: table_db_def find_Some_iff)
  show "table_ok d \<Longrightarrow> td_find table_db ty tok d = Inr None \<Longrightarrow> r \<in> set (snd d) \<Longrightarrow>
      at_token r = tok \<Longrightarrow> at_type r \<noteq> ty"
    by (auto simp: table_db_def find_None_iff)
  show "\<exists>x. td_find table_db ty tok d = Inr x" by (simp add: table_db_def)
  show "table_ok d \<Longrightarrow> r \<in> set (snd d) \<Longrightarrow> r' \<in> set (snd d) \<Longrightarrow> at_token r = at_token r' \<Longrightarrow> r = r'"
    by (auto simp: table_ok_def distinct_map inj_on_def)
  show "table_ok d' \<and> set (snd d') = set (snd d) - set es" if "table_ok d" "td_remove table_db es d = Inr d'"
    using that by (auto simp: table_db_def table_ok_def list_all_iff distinct_filter_map)
  show "table_ok d' \<and> (\<exists>i c. e' = e\<lparr> at_id := Some i, at_createdAt := c \<rparr>)
      \<and> set (snd d') = insert e' (set (snd d)) \<and> (\<forall>r \<in> set (snd d). at_token r \<noteq> at_token e)"
    if "table_ok d" "at_id e = None" "td_save table_db e d = Inr (e', d')"
  proof -
    have new: "at_token e \<notin> at_token ` set (snd d)" "e' = e\<lparr> at_id := Some (fst d), at_createdAt := Some 0 \<rparr>"
      "d' = (fst d + 1, snd d @ [e'])"
      using that by (auto simp: table_db_def table_save_def Let_def split: if_splits)
    have "Some (fst d) \<notin> at_id ` set (snd d)" using that(1) by (auto simp: table_ok_def list_all_iff)
    moreover have "list_all (\<lambda>r. \<exists>i<fst d + 1. at_id r = Some i) (snd d)"
      using that(1) unfolding table_ok_def list_all_iff by (metis zless_add1_eq)
    ultimately have "table_ok d'" using that(1) new(1) by (simp add: table_ok_def new(2,3))
    then show ?thesis using new by (auto intro: rev_image_eqI)
  qed
  show "\<exists>e' d'. td_save table_db e d = Inr (e', d') \<and> table_ok d' \<and> set (snd d') = insert e (set (snd d) - {r})"
    if "table_ok d" "r \<in> set (snd d)" "at_id e = at_id r" "at_token e = at_token r"
  proof -
    note h = that
    obtain i where i: "at_id r = Some i" "i < fst d"
      using h(1,2) unfolding table_ok_def list_all_iff by blast
    let ?m = "map (\<lambda>r. if at_id r = Some i then e else r) (snd d)"
    have only: "x \<in> set (snd d) \<Longrightarrow> at_id x = Some i \<longleftrightarrow> x = r" for x
      using that i by (auto simp: table_ok_def distinct_map inj_on_def)
    have same: "x \<in> set (snd d) \<Longrightarrow> at_id x = Some i \<Longrightarrow> at_token e = at_token x \<and> at_id e = at_id x" for x
      using only h(3,4) by metis
    then have m: "map at_token ?m = map at_token (snd d)" "map at_id ?m = map at_id (snd d)"
      by (simp_all add: map_eq_conv)
    have l: "list_all (\<lambda>r. \<exists>i<fst d. at_id r = Some i) ?m"
      using h(1,3) i by (auto simp: table_ok_def list_all_iff)
    have "table_ok (fst d, ?m)"
      using h(1) unfolding table_ok_def fst_conv snd_conv m by (simp only: l simp_thms)
    moreover have "set ?m = insert e (set (snd d) - {r})" using only h(2) by auto
    moreover have "at_id e = Some i" using h(3) i(1) by simp
    ultimately show ?thesis by (simp add: table_db_def table_save_def)
  qed
qed

section \<open>Properties\<close>

text \<open>C11: the life of a token.  A generated token, checked with its type and with its owner or
  none, is accepted exactly until its expiry, and for ever when no number of days was given; the
  acceptance is stamped on its row.\<close>

theorem generated_token_checks:
  assumes "token_store db rows ok" "ok d"
    and "generate E db randomBytes now params d = Inr (res, d')"
    and "owner = None \<or> owner = Some (gp_owner params)"
  shows "\<exists>d''. check E db later (gp_type params) (at_token res) owner d' =
      Inr ((\<forall>n e. gp_expireInNumDays params = Some n \<longrightarrow> time_clip (now + n * msPerDay) = Some e \<longrightarrow> later \<le> e), d'')
    \<and> ok d''"
proof -
  note g = token_store.generate_row [OF assms(1,2,3)]
  have nd: "new_date (Num (of_int (now + n * MILLISECONDS_PER_DAY))) = time_clip (now + n * msPerDay)" for n
    by (simp only: new_date_of_int ms_per_day)
  obtain row tok where r: "ok d'" "row \<in> set (rows d')" "secureToken E (at_token res) = Inr tok"
    "at_token row = tok" "at_type row = gp_type params" "at_owner row = gp_owner params"
    "at_expiry row = Option.bind (gp_expireInNumDays params) (\<lambda>n. time_clip (now + n * msPerDay))"
    using g unfolding nd by blast
  have "(\<forall>e. at_expiry row = Some e \<longrightarrow> later \<le> e) \<longleftrightarrow>
      (\<forall>n e. gp_expireInNumDays params = Some n \<longrightarrow> time_clip (now + n * msPerDay) = Some e \<longrightarrow> later \<le> e)"
    by (auto simp: r(7) bind_eq_Some_conv)
  then show ?thesis
    using token_store.check_row [OF assms(1) r(1,3,2,4,5), of later owner] assms(4) r(6) by auto
qed

text \<open>What an accepted check means: the table holds a row of that type whose token is the hash
  of the presented one, with the requested owner and not expired.  Nothing is asked of
  \<open>revokedAt\<close>: the same row with a revocation date is accepted as well.\<close>

theorem accepted_check_row:
  assumes "token_store db rows ok" "ok d" "check E db now type token owner d = Inr (True, d')"
  shows "\<exists>row \<in> set (rows d). secureToken E token = Inr (at_token row) \<and> at_type row = type
    \<and> (owner = None \<or> owner = Some [] \<or> owner = Some (at_owner row))
    \<and> (\<forall>e. at_expiry row = Some e \<longrightarrow> now \<le> e)
    \<and> (\<forall>d\<^sub>r t. ok d\<^sub>r \<longrightarrow> row\<lparr> at_revokedAt := Some t \<rparr> \<in> set (rows d\<^sub>r) \<longrightarrow>
        (\<exists>d''. check E db now type token owner d\<^sub>r = Inr (True, d'')))"
proof -
  obtain tok where tok: "secureToken E token = Inr tok"
    using assms(3) by (auto simp: check_def res_bind_Inr_iff)
  have "\<exists>r \<in> set (rows d). at_token r = tok \<and> at_type r = type"
    using token_store.check_unknown [OF assms(1,2) tok, of type now owner] assms(3) by fastforce
  then obtain r where r: "r \<in> set (rows d)" "at_token r = tok" "at_type r = type" by blast
  have c: "(owner = None \<or> owner = Some [] \<or> owner = Some (at_owner r)) \<and> (\<forall>e. at_expiry r = Some e \<longrightarrow> now \<le> e)"
    using token_store.check_row [OF assms(1,2) tok r, of now owner] assms(3) by auto
  have "\<exists>d''. check E db now type token owner d\<^sub>r = Inr (True, d'')"
    if "ok d\<^sub>r" "r\<lparr> at_revokedAt := Some t \<rparr> \<in> set (rows d\<^sub>r)" for d\<^sub>r t
    using token_store.check_row [OF assms(1) that(1) tok that(2), of type now owner] r c by auto
  then show ?thesis using r c tok by blast
qed

text \<open>A removed token is dead: after remove, a check with its type fails, whatever the owner and
  the time, and no other row is touched.\<close>

theorem removed_token_rejected:
  assumes "token_store db rows ok" "ok d" "remove_token E db type token d = Inr d'"
  shows "check E db now type token owner d' = Inr (False, d')
    \<and> set (rows d') = {r \<in> set (rows d). \<not> (secureToken E token = Inr (at_token r) \<and> at_type r = type)}"
proof -
  obtain tok x where tok: "secureToken E token = Inr tok" "td_find db type tok d = Inr x"
    using assms(3) by (auto simp: remove_token_def res_bind_Inr_iff)
  show ?thesis
  proof (cases x)
    case None
    then have none: "\<forall>r \<in> set (rows d). at_token r = tok \<longrightarrow> at_type r \<noteq> type"
      using token_store.find_none [OF assms(1,2)] tok(2) by blast
    moreover have "d' = d" using assms(3) tok None by (simp add: remove_token_def)
    ultimately show ?thesis using token_store.check_unknown [OF assms(1,2) tok(1) none] tok(1) by auto
  next
    case (Some e)
    then have e: "e \<in> set (rows d)" "at_type e = type" "at_token e = tok"
      using token_store.find_some [OF assms(1,2)] tok(2) by blast+
    have "td_remove db [e] d = Inr d'" using assms(3) tok Some by (simp add: remove_token_def)
    then have d': "ok d'" "set (rows d') = set (rows d) - {e}"
      using token_store.remove_rows [OF assms(1,2), of "[e]" d'] by auto
    have only: "r \<in> set (rows d) \<Longrightarrow> at_token r = tok \<Longrightarrow> r = e" for r
      using token_store.unique_token [OF assms(1,2)] e by metis
    then have "\<forall>r \<in> set (rows d'). at_token r = tok \<longrightarrow> at_type r \<noteq> type" using d' by blast
    note unknown = token_store.check_unknown [OF assms(1) d'(1) tok(1) this]
    have "set (rows d') = {r \<in> set (rows d). \<not> (tok = at_token r \<and> at_type r = type)}"
      unfolding d'(2) using only e by blast
    then show ?thesis using unknown tok(1) by simp
  qed
qed

lemma hex_string_length: "length (hex_string bs) = 2 * length bs"
  by (induction bs) (simp_all add: hex_string_def)

text \<open>The raw token has 74 characters, not the 75 of TOKEN_LENGTH: half the length is not an
  integer and the size of the random bytes loses its fraction.\<close>

theorem generated_token_length:
  assumes "\<And>n. length (randomBytes n) = n" "generateToken E randomBytes TOKEN_LENGTH = Inr (token, secured)"
  shows "length token = 74"
  using assms by (auto simp: generateToken_def Let_def res_bind_Inr_iff TOKEN_LENGTH_def hex_string_length)

section \<open>Witnesses\<close>

definition sample_token_env :: token_env where
  "sample_token_env = \<lparr> te_salt = Some ''salt'', te_hmac = (\<lambda>k t. k @ t) \<rparr>"

definition sample_generate :: generate_params where
  "sample_generate = \<lparr> gp_type = ''api-key'', gp_expireInNumDays = Some 1, gp_expiry = None, gp_owner = ''me'' \<rparr>"

lemma sample_table: "table_ok (0, [])"
  by (simp add: table_ok_def)

lemma sample_generated:
  "\<exists>res d'. generate sample_token_env table_db (\<lambda>n. replicate n 0) 0 sample_generate (0, []) = Inr (res, d')"
  by (simp add: generate_def generateToken_def secureToken_def sample_token_env_def table_db_def table_save_def Let_def)

lemma generated_token_checks_witness:
  "\<exists>res d' d''. generate sample_token_env table_db (\<lambda>n. replicate n 0) 0 sample_generate (0, []) = Inr (res, d')
    \<and> check sample_token_env table_db 86400001 ''api-key'' (at_token res) None d' = Inr (False, d'')"
proof -
  obtain res d' where g: "generate sample_token_env table_db (\<lambda>n. replicate n 0) 0 sample_generate (0, []) = Inr (res, d')"
    using sample_generated by blast
  from generated_token_checks [OF table.token_store_axioms sample_table g, of None 86400001] g
  show ?thesis by (auto simp: sample_generate_def time_clip_def max_time_def)
qed

definition sample_row :: auth_token where
  "sample_row = \<lparr> at_id = Some 0, at_type = ''api-key'', at_owner = ''me'', at_name = None,
     at_token = ''saltabc'', at_expiry = None, at_createdAt = None, at_lastUsedAt = None, at_revokedAt = None \<rparr>"

lemma sample_row_ok: "table_ok (1, [sample_row])"
  by (simp add: table_ok_def sample_row_def)

lemma accepted_check_row_witness:
  "\<exists>d'. check sample_token_env table_db 5 ''api-key'' ''abc'' None (1, [sample_row]) = Inr (True, d')
    \<and> secureToken sample_token_env ''abc'' = Inr (at_token sample_row)"
proof -
  obtain d' where c: "check sample_token_env table_db 5 ''api-key'' ''abc'' None (1, [sample_row]) = Inr (True, d')"
    by (simp add: check_def secureToken_def sample_token_env_def table_db_def table_save_def sample_row_def)
  from accepted_check_row [OF table.token_store_axioms sample_row_ok c] c show ?thesis by auto
qed

lemma removed_token_rejected_witness:
  "\<exists>d'. remove_token sample_token_env table_db ''api-key'' ''abc'' (1, [sample_row]) = Inr d'
    \<and> check sample_token_env table_db 5 ''api-key'' ''abc'' None d' = Inr (False, d')"
proof -
  obtain d' where r: "remove_token sample_token_env table_db ''api-key'' ''abc'' (1, [sample_row]) = Inr d'"
    by (simp add: remove_token_def secureToken_def sample_token_env_def table_db_def sample_row_def)
  from removed_token_rejected [OF table.token_store_axioms sample_row_ok r] r show ?thesis by blast
qed

lemma generated_token_length_witness:
  "\<exists>token secured. generateToken sample_token_env (\<lambda>n. replicate n 0) TOKEN_LENGTH = Inr (token, secured)
    \<and> length token = 74"
proof -
  obtain token secured where g: "generateToken sample_token_env (\<lambda>n. replicate n 0) TOKEN_LENGTH = Inr (token, secured)"
    by (simp add: generateToken_def Let_def secureToken_def sample_token_env_def)
  from generated_token_length [OF _ g] g show ?thesis by simp
qed

end
