(* ===== verification/Backfill.thy ===== *)
theory Backfill
  imports VixV2
begin

text \<open>
  \<^verbatim>\<open>services/backfill.service.ts\<close>: the mfiv action starts a calculator in the
  background, answers at once, and every index the calculator reports becomes a row of
  \<^verbatim>\<open>mfiv_indices\<close> (\<^verbatim>\<open>src/entities/mfiv_index.ts\<close>).  A failing insert is
  logged; the rows handed to the database are returned.
\<close>

section \<open>Rows\<close>

record mfiv_extra =
  mx_type :: string
  mx_src :: string
  mx_val :: jsnum
  mx_ts :: jsdate

record mfiv_row =
  rw_timestamp :: jsdate
  rw_exchange :: string
  rw_timePeriod :: string
  rw_asset :: string
  rw_dVol :: string
  rw_invdVol :: string
  rw_underlyingPrice :: string
  rw_nearExpiry :: jsdate
  rw_nextExpiry :: jsdate
  rw_extra :: mfiv_extra
  rw_createdAt :: jsdate

text \<open>The row both services build from a reported index.  Writing a number as a string is the
  parameter \<open>num_str\<close>.\<close>

definition mfiv_row_of :: "dayjs_lib \<Rightarrow> (jsnum \<Rightarrow> string) \<Rightarrow> jsdate \<Rightarrow> vix_index \<Rightarrow> mfiv_row" where
  "mfiv_row_of D num_str now index =
     \<lparr> rw_timestamp = dj_utc D (ix_timestamp index), rw_exchange = ''deribit'',
       rw_timePeriod = ix_timePeriod index, rw_asset = ix_asset index,
       rw_dVol = num_str (ix_dVol index), rw_invdVol = num_str (ix_invdVol index),
       rw_underlyingPrice = num_str (ix_underlyingPrice index),
       rw_nearExpiry = dj_utc D (ix_nearExpiry index), rw_nextExpiry = dj_utc D (ix_nextExpiry index),
       rw_extra = \<lparr> mx_type = ''idx'', mx_src = ir_risklessRateSource (ix_rate index),
         mx_val = ir_risklessRate (ix_rate index),
         mx_ts = dj_utc D (ir_risklessRateAt (ix_rate index)) \<rparr>,
       rw_createdAt = now \<rparr>"

section \<open>The action\<close>

record backfill_params =
  bp_exchange :: string
  bp_timePeriod :: string
  bp_asset :: string
  bp_replayFrom :: jsdate
  bp_replayTo :: jsdate

record backfill_status =
  bs_status :: string
  bs_reqId :: string
  bs_nodeId :: string

text \<open>What runs before the answer: the dates are formatted and the calculator is built.\<close>

definition backfill_calculator :: "dayjs_lib \<Rightarrow> backfill_params \<Rightarrow> vix result" where
  "backfill_calculator D params =
     res_bind (to_iso_string (bp_replayFrom params)) (\<lambda>from.
     res_bind (to_iso_string (bp_replayTo params)) (\<lambda>to.
       new_vix D \<lparr> vc_exchange = bp_exchange params, vc_replayFrom = from, vc_replayTo = to,
         vc_timePeriod = bp_timePeriod params, vc_reportFrequency = Some (Num 5),
         vc_asset = bp_asset params \<rparr>))"

definition backfill_mfiv ::
  "dayjs_lib \<Rightarrow> string \<Rightarrow> string \<Rightarrow> backfill_params \<Rightarrow> backfill_status result" where
  "backfill_mfiv D requestID nodeID params =
     res_bind (backfill_calculator D params) (\<lambda>_.
       Inr \<lparr> bs_status = ''processing'', bs_reqId = requestID, bs_nodeId = nodeID \<rparr>)"

text \<open>The background run: the rows inserted by the callback; \<^verbatim>\<open>fetchIndex\<close> that
  rejects is logged.  The clock is read once per row.  \<open>None\<close> is a calculator that has not come back within the fuel.\<close>

definition backfill_rows ::
  "vix_env \<Rightarrow> (jsnum \<Rightarrow> string) \<Rightarrow> (nat \<Rightarrow> jsdate) \<Rightarrow> bool \<Rightarrow> nat \<Rightarrow> backfill_params \<Rightarrow> mfiv_row list result option" where
  "backfill_rows E num_str clock skipDb fuel params =
     (case backfill_calculator (ve_dayjs E) params of
        Inl e \<Rightarrow> Some (Inl e)
      | Inr s \<Rightarrow>
          (case fetchIndex E fuel s of
             None \<Rightarrow> None
           | Some (s', _) \<Rightarrow> Some (Inr (if skipDb then []
               else map (\<lambda>(i, index). mfiv_row_of (ve_dayjs E) num_str (clock i) index)
                      (enumerate 0 (vx_computed s'))))))"

section \<open>Lemmas\<close>

lemma in_set_enumerate: "(i, x) \<in> set (enumerate n xs) \<Longrightarrow> x \<in> set xs"
  by (metis map_snd_enumerate image_eqI list.set_map snd_conv)

text \<open>Every reported index carries the expiries the calculator held when it was computed, so the
  expiries of a stream of reports change only at rollovers; here: what a single report holds.\<close>

lemma calculateIndex_fields:
  "calculateIndex E msg s = Inr i \<Longrightarrow>
    ix_nearExpiry i = nearExpiry (vx_expiries s) \<and> ix_nextExpiry i = nextExpiry (vx_expiries s)
    \<and> ix_timePeriod i = vx_timePeriodOption s \<and> ix_rate i = getInterestRate
    \<and> ix_underlyingPrice i = or_default (os_underlyingPrice msg) (Num 0)"
  by (auto simp: calculateIndex_def Let_def res_bind_Inr_iff)

definition reported_ok :: "string \<Rightarrow> vix_index \<Rightarrow> bool" where
  "reported_ok tp i \<longleftrightarrow> ix_timePeriod i = tp \<and> ix_rate i = getInterestRate"

lemma report_reported:
  "list_all (reported_ok (vx_timePeriodOption s)) (vx_computed s) \<Longrightarrow>
    (\<forall>i. vx_index s = Some i \<longrightarrow> reported_ok (vx_timePeriodOption s) i) \<Longrightarrow>
    list_all (reported_ok (vx_timePeriodOption s)) (vx_computed (report E msg s))
    \<and> (\<forall>i. vx_index (report E msg s) = Some i \<longrightarrow> reported_ok (vx_timePeriodOption s) i)
    \<and> vx_timePeriodOption (report E msg s) = vx_timePeriodOption s"
  by (auto simp: report_def Let_def reported_ok_def dest: calculateIndex_fields split: sum.splits option.splits)

definition vix_reported :: "vix \<Rightarrow> bool" where
  "vix_reported s \<longleftrightarrow> list_all (reported_ok (vx_timePeriodOption s)) (vx_computed s)
     \<and> (\<forall>i. vx_index s = Some i \<longrightarrow> reported_ok (vx_timePeriodOption s) i)"

lemma on_message_reported:
  assumes "vix_reported s" "on_message E b near next msg (lr, s) = (ex, lr', s')"
  shows "vix_reported s' \<and> vx_timePeriodOption s' = vx_timePeriodOption s"
proof -
  have "vix_reported (s\<lparr> vx_midBook := m \<rparr>)" "vix_reported (s\<lparr> vx_options := m \<rparr>)" for m
    using assms(1) by (simp_all add: vix_reported_def)
  moreover have "vix_reported t \<Longrightarrow> vix_reported (report E msg t)
      \<and> vx_timePeriodOption (report E msg t) = vx_timePeriodOption t" for t
    using report_reported [of t E msg] by (simp add: vix_reported_def)
  ultimately show ?thesis using assms(2)
    by (auto simp: on_message_def Let_def split: if_splits)
qed

lemma stream_loop_reported:
  "vix_reported s \<Longrightarrow> stream_loop E b near next msgs (lr, s) = (ex, lr', s') \<Longrightarrow>
    vix_reported s' \<and> vx_timePeriodOption s' = vx_timePeriodOption s"
proof (induction msgs arbitrary: lr s)
  case (Cons msg msgs)
  obtain ex1 lr1 s1 where m: "on_message E b near next msg (lr, s) = (ex1, lr1, s1)"
    by (cases "on_message E b near next msg (lr, s)") auto
  note r = on_message_reported [OF Cons.prems(1) m]
  show ?case using Cons.IH [of s1 lr1] Cons.prems(2) m r by (cases ex1) auto
qed simp

lemma summaryStream_reported:
  "vix_reported s \<Longrightarrow> summaryStream E fuel b k s = Some (s', r) \<Longrightarrow>
    vix_reported s' \<and> vx_timePeriodOption s' = vx_timePeriodOption s"
proof (induction fuel arbitrary: b k s)
  case (Suc fuel)
  show ?case
  proof (cases "createStream E k s")
    case (Inr rs)
    obtain req s1 where rs: "rs = (req, s1)" by (cases rs) auto
    obtain msgs failure where str: "ve_stream E k req = (msgs, failure)" by force
    let ?near = "dj_utc (ve_dayjs E) (nearExpiry (vx_expiries s))"
    let ?next = "dj_utc (ve_dayjs E) (nextExpiry (vx_expiries s))"
    let ?lr = "dj_add_int (ve_dayjs E) (- 1) Minute (dj_of_date (ve_dayjs E) (vx_refDate s))"
    obtain ex lr' s2 where run: "stream_loop E b ?near ?next msgs (?lr, s1) = (ex, lr', s2)"
      by (cases "stream_loop E b ?near ?next msgs (?lr, s1)") auto
    obtain s3 u where ro: "roll_over E k ?near s2 = (s3, u)" by force
    have "vix_reported s1 \<and> vx_timePeriodOption s1 = vx_timePeriodOption s"
      using Inr rs Suc.prems(1)
      by (auto simp: createStream_def Let_def res_bind_Inr_iff vix_reported_def split: if_splits)
    with stream_loop_reported [OF _ run] have
      s2: "vix_reported s2 \<and> vx_timePeriodOption s2 = vx_timePeriodOption s" by simp
    then have "vix_reported s3 \<and> vx_timePeriodOption s3 = vx_timePeriodOption s"
      using ro by (auto simp: roll_over_def Let_def deleteEntries_def vix_reported_def split: sum.splits if_splits)
    moreover have "vix_reported (s2\<lparr> vx_completed := n \<rparr>)" for n using conjunct1 [OF s2] by (simp add: vix_reported_def)
    ultimately show ?thesis using Suc Inr rs str run ro s2
      by (cases ex; cases u) (auto split: option.splits)
  qed (use Suc.prems in auto)
qed simp

section \<open>Properties\<close>

text \<open>Every row a backfill hands to the database carries the time period that was asked for,
  the deribit exchange and the constant riskless rate; with persistence off there are none.\<close>

theorem backfill_rows_content:
  assumes "backfill_rows E num_str clock skipDb fuel params = Some (Inr rows)"
  shows "if skipDb then rows = []
    else \<forall>row \<in> set rows. rw_timePeriod row = bp_timePeriod params \<and> rw_exchange row = ''deribit''
      \<and> rw_extra row = \<lparr> mx_type = ''idx'', mx_src = ''AAVE'', mx_val = Num (56 / 10000),
          mx_ts = dj_utc (ve_dayjs E) ''2022-03-17T17:17:00.702Z'' \<rparr>"
proof -
  obtain s s' r where c: "backfill_calculator (ve_dayjs E) params = Inr s" "fetchIndex E fuel s = Some (s', r)"
    "rows = (if skipDb then [] else map (\<lambda>(i, index). mfiv_row_of (ve_dayjs E) num_str (clock i) index)
      (enumerate 0 (vx_computed s')))"
    using assms by (auto simp: backfill_rows_def split: sum.splits option.splits prod.splits)
  have s: "vix_reported s" "vx_timePeriodOption s = bp_timePeriod params"
    using c(1) by (auto simp: backfill_calculator_def new_vix_def res_bind_Inr_iff Let_def vix_reported_def)
  have "vix_reported s' \<and> vx_timePeriodOption s' = bp_timePeriod params"
  proof (cases "fetch_expiries E 0 s")
    case (Inl e)
    then show ?thesis using c(2) s by (auto simp: fetchIndex_def)
  next
    case (Inr x)
    have "vix_reported (s\<lparr> vx_expiries := x \<rparr>)" using s(1) by (simp add: vix_reported_def)
    then show ?thesis using c(2) s(2) Inr summaryStream_reported [of "s\<lparr> vx_expiries := x \<rparr>" E fuel False 0]
      by (auto simp: fetchIndex_def Let_def split: option.splits sum.splits prod.splits)
  qed
  then show ?thesis
    by (auto simp: c(3) vix_reported_def list_all_iff reported_ok_def mfiv_row_of_def getInterestRate_def
        dest!: in_set_enumerate)
qed

text \<open>The backfill of a period of exchange data in good order always comes back, with rows or
  with the error that stopped it, and the action itself answers as soon as the calculator is
  built.\<close>

theorem backfill_returns:
  assumes "good_env E" "backfill_calculator (ve_dayjs E) params = Inr s"
    and "vix_at start d n start s" "nat d < fuel"
  shows "(\<exists>rows. backfill_rows E num_str clock skipDb fuel params = Some (Inr rows))
    \<and> backfill_mfiv (ve_dayjs E) requestID nodeID params =
        Inr \<lparr> bs_status = ''processing'', bs_reqId = requestID, bs_nodeId = nodeID \<rparr>"
proof -
  obtain r where "fetchIndex E fuel s = Some r"
    using fetchIndex_settles [OF assms(1,3,4)] by blast
  then show ?thesis using assms(2)
    by (cases r) (simp add: backfill_rows_def backfill_mfiv_def)
qed

section \<open>Witnesses\<close>

definition sample_backfill :: backfill_params where
  "sample_backfill = \<lparr> bp_exchange = ''deribit'', bp_timePeriod = ''14D'', bp_asset = ''ETH'',
     bp_replayFrom = Some 1651363200000, bp_replayTo = Some 1651363260000 \<rparr>"

lemma sample_backfill_calculator:
  "\<exists>s. backfill_calculator utc_dayjs sample_backfill = Inr s \<and> vix_at 1651363200000 60000 14 1651363200000 s"
proof -
  have "timePeriodToInteger ''14D'' = Inr (Num (of_int 14))"
    using timePeriodToInteger_digits [of "''14''" "[]"] by (simp add: is_digit_def dec_val_def digit_val_def)
  then show ?thesis
    by (simp add: backfill_calculator_def sample_backfill_def new_vix_def Let_def utc.utc_iso utc.start_of
        utc.diff num_of_date_def vix_at_def)
qed

lemma backfill_returns_witness:
  "\<exists>rows. backfill_rows sample_env (\<lambda>_. ''1'') (\<lambda>_. None) False 60001 sample_backfill = Some (Inr rows)"
proof -
  obtain s where s: "backfill_calculator (ve_dayjs sample_env) sample_backfill = Inr s"
    "vix_at 1651363200000 60000 14 1651363200000 s"
    using sample_backfill_calculator by (auto simp: sample_env_def)
  from backfill_returns [OF sample_good s, of 60001] show ?thesis by auto
qed

lemma backfill_rows_content_witness:
  "\<exists>rows. backfill_rows sample_env (\<lambda>_. ''1'') (\<lambda>_. None) False 60001 sample_backfill = Some (Inr rows)
    \<and> (\<forall>row \<in> set rows. rw_timePeriod row = ''14D'')"
proof -
  obtain s where s: "backfill_calculator (ve_dayjs sample_env) sample_backfill = Inr s"
    "vix_at 1651363200000 60000 14 1651363200000 s"
    using sample_backfill_calculator by (auto simp: sample_env_def)
  obtain r where "fetchIndex sample_env 60001 s = Some r"
    using fetchIndex_settles [OF sample_good s(2), of 60001] by auto
  then obtain rows where r: "backfill_rows sample_env (\<lambda>_. ''1'') (\<lambda>_. None) False 60001 sample_backfill = Some (Inr rows)"
    using s(1) by (cases r) (auto simp: backfill_rows_def)
  from backfill_rows_content [OF r] r show ?thesis by (simp add: sample_backfill_def)
qed

end
