(* ===== verification/WsApi.thy ===== *)
theory WsApi
  imports "HOL-Library.Multiset" Backfill Tokens
begin

text \<open>
  The HTTP side of \<^verbatim>\<open>services/ws.service.ts\<close>: how a request is
  authorized against the tokens service, and the mfiv action, which returns the persisted index
  values of a period thinned to the requested interval.  The parser of the query string (of the
  web gateway), the broker's call of \<^verbatim>\<open>tokens.check\<close>, typeorm's
  \<^verbatim>\<open>getMany\<close> and transducist's \<^verbatim>\<open>takeNth\<close> are parameters;
  the last two have the interfaces \<open>index_table\<close> and \<open>taking_nth\<close>.
\<close>

section \<open>Authorization\<close>

record http_request =
  hr_authorization :: "string option"
  hr_query :: string

text \<open>The prefix \<^verbatim>\<open>"Bearer "\<close> has seven characters.\<close>

definition bearer :: string where "bearer = ''Bearer ''"

text \<open>The header is looked at first; the query only when there is no header.\<close>

definition request_api_key ::
  "(string \<Rightarrow> (string, string) jsmap result) \<Rightarrow> http_request \<Rightarrow> string result" where
  "request_api_key parseQueryString req =
     (let authHeader = or_default (hr_authorization req) [] in
      if 0 < length authHeader
      then Inr (if take (length bearer) authHeader = bearer then drop (length bearer) authHeader else [])
      else res_bind (parseQueryString (hr_query req)) (\<lambda>queryParams.
        Inr (or_default (map_get queryParams ''apiKey'') [])))"

text \<open>The authorize action; its argument is returned.\<close>

definition authorize_action ::
  "(string \<Rightarrow> (string, string) jsmap result) \<Rightarrow> (string \<Rightarrow> string \<Rightarrow> 'd \<Rightarrow> (bool \<times> 'd) result)
   \<Rightarrow> http_request \<Rightarrow> 'd \<Rightarrow> (http_request \<times> 'd) result" where
  "authorize_action parseQueryString tokens_check req d =
     res_bind (request_api_key parseQueryString req) (\<lambda>apiKey.
       if length apiKey = 0 then Inl (unauthorized_error ''No authorization method found'')
       else res_bind (tokens_check ''api-key'' apiKey d) (\<lambda>(tokenCheck, d').
         if \<not> tokenCheck then Inl (unauthorized_error ''401 Forbidden'') else Inr (req, d')))"

text \<open>The method the gateway calls for a socket: the same steps, and every failure, of the
  parser and of the token service as well, is thrown as the same error.\<close>

definition handleAuthorize ::
  "(string \<Rightarrow> (string, string) jsmap result) \<Rightarrow> (string \<Rightarrow> string \<Rightarrow> 'd \<Rightarrow> (bool \<times> 'd) result)
   \<Rightarrow> http_request \<Rightarrow> 'd \<Rightarrow> (bool \<times> 'd) result" where
  "handleAuthorize parseQueryString tokens_check req d =
     (case res_bind (request_api_key parseQueryString req) (\<lambda>apiKey.
         if length apiKey = 0 then Inl (unauthorized_error ''No authorization method found'')
         else res_bind (tokens_check ''api-key'' apiKey d) (\<lambda>(tokenCheck, d').
           if \<not> tokenCheck then Inl (unauthorized_error ''401 Forbidden'') else Inr (tokenCheck, d')))
      of Inr success \<Rightarrow> Inr success
       | Inl err \<Rightarrow> Inl (unauthorized_error ''401 Forbidden''))"

definition handleAuthorize2 ::
  "(string \<Rightarrow> string \<Rightarrow> 'd \<Rightarrow> (bool \<times> 'd) result) \<Rightarrow> string \<Rightarrow> 'd \<Rightarrow> (bool \<times> 'd) result" where
  "handleAuthorize2 tokens_check apiKey d =
     res_bind (tokens_check ''api-key'' apiKey d) (\<lambda>(tokenCheck, d').
       if \<not> tokenCheck then Inl (unauthorized_error ''401 Forbidden'') else Inr (tokenCheck, d'))"

section \<open>The mfiv action\<close>

record api_mfiv_params =
  ap_apiKey :: string
  ap_interval :: string
  ap_dateFrom :: jsdate
  ap_dateTo :: jsdate
  ap_timePeriod :: string
  ap_asset :: string

text \<open>The selected columns of a row.\<close>

record mfiv_point =
  pt_timestamp :: jsdate
  pt_timePeriod :: string
  pt_asset :: string
  pt_dVol :: string
  pt_invdVol :: string
  pt_underlyingPrice :: string

record paginated_response =
  pr_data :: "mfiv_point list"
  pr_prev :: "string option"
  pr_next :: "string option"

text \<open>The conditions the query builder is given.\<close>

datatype mfiv_condition =
    TimestampFrom jsdate | TimestampBefore jsdate | TimePeriodIs string | AssetIs string

definition select_columns :: "mfiv_row \<Rightarrow> mfiv_point" where
  "select_columns index =
     \<lparr> pt_timestamp = rw_timestamp index, pt_timePeriod = rw_timePeriod index, pt_asset = rw_asset index,
       pt_dVol = rw_dVol index, pt_invdVol = rw_invdVol index,
       pt_underlyingPrice = rw_underlyingPrice index \<rparr>"

text \<open>A query as it is built: the columns, the conditions, and the column and direction it is ordered
  by.\<close>

datatype order_direction = ASC | DESC

record mfiv_query =
  mq_select :: "mfiv_row \<Rightarrow> mfiv_point"
  mq_where :: "mfiv_condition list"
  mq_orderBy :: "((mfiv_row \<Rightarrow> jsdate) \<times> order_direction) option"

definition queryMfiv ::
  "(mfiv_query \<Rightarrow> 'd \<Rightarrow> mfiv_point list result) \<Rightarrow> api_mfiv_params \<Rightarrow> 'd \<Rightarrow> mfiv_point list result" where
  "queryMfiv getMany params d =
     getMany
       \<lparr> mq_select = select_columns,
         mq_where = [TimestampFrom (ap_dateFrom params), TimestampBefore (ap_dateTo params),
           TimePeriodIs (ap_timePeriod params), AssetIs (ap_asset params)],
         mq_orderBy = Some (rw_timestamp, ASC) \<rparr> d"

definition filterMap :: "(string, nat) jsmap" where
  "filterMap = [(''5M'', 1), (''15M'', 3), (''1H'', 11), (''1D'', 287)]"

definition empty_page :: paginated_response where
  "empty_page = \<lparr> pr_data = [], pr_prev = None, pr_next = None \<rparr>"

text \<open>A failing query is logged and answered with an empty page.\<close>

definition mfiv_action ::
  "(string \<Rightarrow> string \<Rightarrow> 'd \<Rightarrow> (bool \<times> 'd) result)
   \<Rightarrow> (mfiv_query \<Rightarrow> 'd \<Rightarrow> mfiv_point list result)
   \<Rightarrow> (nat \<Rightarrow> mfiv_point list \<Rightarrow> mfiv_point list) \<Rightarrow> api_mfiv_params \<Rightarrow> 'd
   \<Rightarrow> (paginated_response \<times> 'd) result" where
  "mfiv_action tokens_check getMany takeNth params d =
     res_bind (handleAuthorize2 tokens_check (ap_apiKey params) d) (\<lambda>(_, d').
       case map_get filterMap (ap_interval params) of
         None \<Rightarrow> Inr (empty_page, d')
       | Some n \<Rightarrow>
           (case queryMfiv getMany params d' of
              Inl err \<Rightarrow> Inr (empty_page, d')
            | Inr arr \<Rightarrow> Inr (\<lparr> pr_data = takeNth n arr, pr_prev = None, pr_next = None \<rparr>, d')))"

section \<open>The database and takeNth\<close>

fun satisfies :: "mfiv_row \<Rightarrow> mfiv_condition \<Rightarrow> bool" where
  "satisfies r (TimestampFrom t) \<longleftrightarrow> date_le t (rw_timestamp r)"
| "satisfies r (TimestampBefore t) \<longleftrightarrow> date_lt (rw_timestamp r) t"
| "satisfies r (TimePeriodIs tp) \<longleftrightarrow> rw_timePeriod r = tp"
| "satisfies r (AssetIs a) \<longleftrightarrow> rw_asset r = a"

fun in_order :: "order_direction \<Rightarrow> jsdate \<Rightarrow> jsdate \<Rightarrow> bool" where
  "in_order ASC a b = date_le a b"
| "in_order DESC a b = date_le b a"

text \<open>What a query promises: the selected columns of the rows that satisfy every condition, ordered by
  the column in the direction it asks for, and in any order if it asks for none.  A query may also
  fail.\<close>

locale index_table =
  fixes getMany :: "mfiv_query \<Rightarrow> 'd \<Rightarrow> mfiv_point list result" and rows :: "'d \<Rightarrow> mfiv_row list"
  assumes many_rows: "getMany q d = Inr xs \<Longrightarrow>
      \<exists>rs. xs = map (mq_select q) rs \<and> mset rs = filter_mset (\<lambda>r. list_all (satisfies r) (mq_where q)) (mset (rows d))
        \<and> (\<forall>column direction. mq_orderBy q = Some (column, direction) \<longrightarrow> (\<forall>r \<in> set (rows d). column r \<noteq> None) \<longrightarrow>
             sorted_wrt (in_order direction) (map column rs))"
begin

lemma many_set: "getMany q d = Inr xs \<Longrightarrow>
    set xs = mq_select q ` {r \<in> set (rows d). list_all (satisfies r) (mq_where q)}"
  by (drule many_rows) (auto dest!: arg_cong [where f = set_mset])

lemma query_rows:
  "queryMfiv getMany params d = Inr xs \<Longrightarrow> set xs = select_columns ` {r \<in> set (rows d).
      date_le (ap_dateFrom params) (rw_timestamp r) \<and> date_lt (rw_timestamp r) (ap_dateTo params)
      \<and> rw_timePeriod r = ap_timePeriod params \<and> rw_asset r = ap_asset params}"
  unfolding queryMfiv_def by (drule many_set) simp

lemma query_ascending:
  assumes "queryMfiv getMany params d = Inr xs" "\<forall>r \<in> set (rows d). rw_timestamp r \<noteq> None"
  shows "sorted_wrt date_le (map pt_timestamp xs)"
proof -
  obtain rs where "xs = map select_columns rs" "sorted_wrt (in_order ASC) (map rw_timestamp rs)"
    using many_rows [OF assms(1) [unfolded queryMfiv_def]] assms(2) by auto
  then show ?thesis by (simp add: sorted_wrt_map select_columns_def)
qed

end

definition date_key :: "jsdate \<Rightarrow> int" where
  "date_key d = (case d of None \<Rightarrow> 0 | Some t \<Rightarrow> t)"

definition table_many :: "mfiv_query \<Rightarrow> mfiv_row list \<Rightarrow> mfiv_point list result" where
  "table_many q rows =
     (let found = filter (\<lambda>r. list_all (satisfies r) (mq_where q)) rows
      in Inr (map (mq_select q)
        (case mq_orderBy q of
           None \<Rightarrow> found
         | Some (column, ASC) \<Rightarrow> sort_key (\<lambda>r. date_key (column r)) found
         | Some (column, DESC) \<Rightarrow> rev (sort_key (\<lambda>r. date_key (column r)) found))))"

lemma sort_key_ascending:
  assumes "\<forall>r \<in> set rs. column r \<noteq> None"
  shows "sorted_wrt (\<lambda>a b. date_le (column a) (column b)) (sort_key (\<lambda>r. date_key (column r)) rs)"
proof -
  have "sorted_wrt (\<lambda>a b. date_key (column a) \<le> date_key (column b)) (sort_key (\<lambda>r. date_key (column r)) rs)"
    using sorted_sort_key [of "\<lambda>r. date_key (column r)" rs] by (simp add: sorted_map)
  then show ?thesis
    by (rule sorted_wrt_mono_rel [rotated]) (use assms in \<open>auto simp: date_key_def split: option.splits\<close>)
qed

interpretation sql: index_table table_many "\<lambda>rows. rows"
proof unfold_locales
  fix q and d :: "mfiv_row list" and xs
  assume "table_many q d = Inr xs"
  moreover have "sorted_wrt (in_order ASC) (map column (sort_key (\<lambda>r. date_key (column r)) (filter P d)))"
    "sorted_wrt (in_order DESC) (map column (rev (sort_key (\<lambda>r. date_key (column r)) (filter P d))))"
    if "\<forall>r \<in> set d. column r \<noteq> None" for column P
    using sort_key_ascending [of "filter P d" column] that by (simp_all add: sorted_wrt_map sorted_wrt_rev)
  ultimately show "\<exists>rs. xs = map (mq_select q) rs \<and> mset rs = filter_mset (\<lambda>r. list_all (satisfies r) (mq_where q)) (mset d)
        \<and> (\<forall>column direction. mq_orderBy q = Some (column, direction) \<longrightarrow> (\<forall>r \<in> set d. column r \<noteq> None) \<longrightarrow>
             sorted_wrt (in_order direction) (map column rs))"
    by (auto simp: table_many_def Let_def split: option.splits order_direction.splits)
qed

text \<open>\<^verbatim>\<open>takeNth(n)\<close> keeps the first element and every n-th after
  it.\<close>

locale taking_nth =
  fixes takeNth :: "nat \<Rightarrow> 'a list \<Rightarrow> 'a list"
  assumes nth_taken: "0 < n \<Longrightarrow> i * n < length xs \<Longrightarrow> i < length (takeNth n xs) \<and> takeNth n xs ! i = xs ! (i * n)"
    and length_taken: "0 < n \<Longrightarrow> length (takeNth n xs) = (length xs + n - 1) div n"
begin

lemma taken_index:
  assumes "0 < n" "i < length (takeNth n xs)"
  shows "i * n < length xs"
proof -
  have "Suc i \<le> (length xs + n - 1) div n" using assms length_taken by simp
  then have "Suc i * n \<le> length xs + n - 1"
    using assms(1) by (simp add: less_eq_div_iff_mult_less_eq)
  then show ?thesis using assms(1) by simp
qed

lemma taken_map: "0 < n \<Longrightarrow> takeNth n xs = map (\<lambda>i. xs ! (i * n)) [0..<(length xs + n - 1) div n]"
  using length_taken [of n xs] taken_index [of n _ xs] nth_taken [of n _ xs]
  by (auto intro!: nth_equalityI)

end

definition take_nth :: "nat \<Rightarrow> 'a list \<Rightarrow> 'a list" where
  "take_nth n xs = map (\<lambda>i. xs ! (i * n)) [0..<(length xs + n - 1) div n]"

interpretation transducist: taking_nth take_nth
proof unfold_locales
  fix n i :: nat and xs :: "'a list"
  assume a: "0 < n" "i * n < length xs"
  have "Suc i * n \<le> length xs + n - 1" using a by simp
  then have "Suc i \<le> (length xs + n - 1) div n" using a(1) by (simp add: less_eq_div_iff_mult_less_eq)
  then show "i < length (take_nth n xs) \<and> take_nth n xs ! i = xs ! (i * n)"
    by (simp add: take_nth_def)
qed (simp add: take_nth_def)

section \<open>Lemmas\<close>

text \<open>The tokens service behind the broker's call; the owner is not passed.\<close>

definition tokens_service ::
  "token_env \<Rightarrow> 'd token_db \<Rightarrow> int \<Rightarrow> string \<Rightarrow> string \<Rightarrow> 'd \<Rightarrow> (bool \<times> 'd) result" where
  "tokens_service E db now type token = check E db now type token None"

definition accepted_row :: "token_env \<Rightarrow> int \<Rightarrow> string \<Rightarrow> auth_token \<Rightarrow> bool" where
  "accepted_row E now key r \<longleftrightarrow> secureToken E key = Inr (at_token r) \<and> at_type r = ''api-key''
     \<and> (\<forall>e. at_expiry r = Some e \<longrightarrow> now \<le> e)"

context token_store begin

lemma service_accepts:
  assumes "ok d"
  shows "(\<exists>r \<in> set (rows d). accepted_row E now key r) \<longleftrightarrow>
    (\<exists>d'. tokens_service E db now ''api-key'' key d = Inr (True, d'))"
proof
  assume "\<exists>r \<in> set (rows d). accepted_row E now key r"
  then obtain r where r: "r \<in> set (rows d)" "accepted_row E now key r" by blast
  then show "\<exists>d'. tokens_service E db now ''api-key'' key d = Inr (True, d')"
    using check_row [OF assms _ r(1) refl refl, of E key now None]
    by (auto simp: accepted_row_def tokens_service_def)
next
  assume "\<exists>d'. tokens_service E db now ''api-key'' key d = Inr (True, d')"
  then obtain d' where c: "check E db now ''api-key'' key None d = Inr (True, d')"
    by (auto simp: tokens_service_def)
  obtain tok where tok: "secureToken E key = Inr tok"
    using c by (auto simp: check_def res_bind_Inr_iff)
  have "\<exists>r \<in> set (rows d). at_token r = tok \<and> at_type r = ''api-key''"
    using check_unknown [OF assms tok, of "''api-key''" now None] c by fastforce
  then obtain r where r: "r \<in> set (rows d)" "at_token r = tok" "at_type r = ''api-key''" by blast
  moreover have "\<forall>e. at_expiry r = Some e \<longrightarrow> now \<le> e"
    using check_row [OF assms tok r, of now None] c by auto
  ultimately show "\<exists>r \<in> set (rows d). accepted_row E now key r"
    using tok by (auto simp: accepted_row_def)
qed

end

lemma handleAuthorize_cases:
  "handleAuthorize parseQ tokens_check req d =
    (case request_api_key parseQ req of
       Inr key \<Rightarrow> (if key = [] then Inl (unauthorized_error ''401 Forbidden'')
         else (case tokens_check ''api-key'' key d of
                 Inr (True, d') \<Rightarrow> Inr (True, d')
               | _ \<Rightarrow> Inl (unauthorized_error ''401 Forbidden'')))
     | Inl _ \<Rightarrow> Inl (unauthorized_error ''401 Forbidden''))"
  by (auto simp: handleAuthorize_def split: sum.splits prod.splits bool.splits)

lemma request_api_key_bearer:
  "request_api_key parseQ \<lparr> hr_authorization = Some (bearer @ key), hr_query = q \<rparr> = Inr key"
  by (simp add: request_api_key_def bearer_def)

text \<open>A request that was let in carried a key of the table.\<close>

lemma authorized_key:
  assumes "token_store db rows ok" "ok d" "handleAuthorize parseQ (tokens_service E db now) req d = Inr (True, d')"
  shows "\<exists>key r. request_api_key parseQ req = Inr key \<and> key \<noteq> [] \<and> r \<in> set (rows d) \<and> accepted_row E now key r"
proof -
  obtain key d' where k: "request_api_key parseQ req = Inr key" "key \<noteq> []"
    "tokens_service E db now ''api-key'' key d = Inr (True, d')"
    using assms(3) by (auto simp: handleAuthorize_cases split: sum.splits prod.splits bool.splits if_splits)
  then show ?thesis using token_store.service_accepts [OF assms(1,2), of E now key] by blast
qed

lemma handleAuthorize_admits:
  assumes "token_store db rows ok" "ok d"
  shows "if \<exists>key. request_api_key parseQ req = Inr key \<and> key \<noteq> []
      \<and> (\<exists>r \<in> set (rows d). accepted_row E now key r)
    then \<exists>d'. handleAuthorize parseQ (tokens_service E db now) req d = Inr (True, d')
    else handleAuthorize parseQ (tokens_service E db now) req d = Inl (unauthorized_error ''401 Forbidden'')"
  by (auto simp: handleAuthorize_cases token_store.service_accepts [OF assms]
      split: sum.splits prod.splits bool.splits if_splits)

section \<open>Properties\<close>

text \<open>C7: a socket is authorized exactly when its request carries a non-empty key whose hash is in
  the table of tokens as an unexpired api-key; in every other case, also when the query cannot be
  parsed or the database fails, it is refused with the one error 401 Forbidden.\<close>

theorem handleAuthorize_exact:
  assumes "token_store db rows ok" "ok d"
  shows "if \<exists>key. request_api_key parseQ req = Inr key \<and> key \<noteq> []
      \<and> (\<exists>r \<in> set (rows d). accepted_row E now key r)
    then \<exists>d'. handleAuthorize parseQ (tokens_service E db now) req d = Inr (True, d')
    else handleAuthorize parseQ (tokens_service E db now) req d = Inl (unauthorized_error ''401 Forbidden'')"
  by (rule handleAuthorize_admits [OF assms])

text \<open>C36: the life of an API key across the two services.  The key answered by generate, sent as a
  bearer token, opens a socket exactly until its expiry; once it is removed it never does.\<close>

theorem bearer_key_lifecycle:
  assumes "token_store db rows ok" "ok d" "gp_type params = ''api-key''"
    and "generate E db randomBytes now params d = Inr (res, d1)" "randomBytes 37 \<noteq> []"
    and "remove_token E db ''api-key'' (at_token res) d1 = Inr d2"
    and "req = \<lparr> hr_authorization = Some (bearer @ at_token res), hr_query = q \<rparr>"
  shows "((\<exists>d'. handleAuthorize parseQ (tokens_service E db later) req d1 = Inr (True, d')) \<longleftrightarrow>
      (\<forall>n e. gp_expireInNumDays params = Some n \<longrightarrow> time_clip (now + n * msPerDay) = Some e \<longrightarrow> later \<le> e))
    \<and> handleAuthorize parseQ (tokens_service E db later) req d2 = Inl (unauthorized_error ''401 Forbidden'')"
proof -
  note ts = assms(1)
  have nd: "new_date (Num (of_int (now + n * MILLISECONDS_PER_DAY))) = time_clip (now + n * msPerDay)" for n
    by (simp only: new_date_of_int ms_per_day)
  obtain row tok where r: "ok d1" "row \<in> set (rows d1)" "secureToken E (at_token res) = Inr tok"
    "at_token row = tok" "at_type row = ''api-key''"
    "at_expiry row = Option.bind (gp_expireInNumDays params) (\<lambda>n. time_clip (now + n * msPerDay))"
    "at_token res = hex_string (randomBytes (nat (TOKEN_LENGTH div 2)))"
    using token_store.generate_row [OF ts assms(2,4)] unfolding nd assms(3) by blast
  have ne: "at_token res \<noteq> []"
    using r(7) assms(5) hex_string_length [of "randomBytes 37"] by (auto simp: TOKEN_LENGTH_def)
  have key: "request_api_key parseQ req = Inr (at_token res)"
    unfolding assms(7) by (rule request_api_key_bearer)
  have same: "x = row" if "x \<in> set (rows d1)" "accepted_row E later (at_token res) x" for x
    using token_store.unique_token [OF ts r(1) that(1) r(2)] that(2) r(3,4) by (simp add: accepted_row_def)
  have "(\<exists>x \<in> set (rows d1). accepted_row E later (at_token res) x) \<longleftrightarrow> accepted_row E later (at_token res) row"
    using same r(2) by blast
  also have "\<dots> \<longleftrightarrow>
      (\<forall>n e. gp_expireInNumDays params = Some n \<longrightarrow> time_clip (now + n * msPerDay) = Some e \<longrightarrow> later \<le> e)"
    using r(3-6) by (auto simp: accepted_row_def bind_eq_Some_conv)
  finally have 1: "(\<exists>d'. handleAuthorize parseQ (tokens_service E db later) req d1 = Inr (True, d')) \<longleftrightarrow>
      (\<forall>n e. gp_expireInNumDays params = Some n \<longrightarrow> time_clip (now + n * msPerDay) = Some e \<longrightarrow> later \<le> e)"
    unfolding token_store.service_accepts [OF ts r(1)]
    using ne by (auto simp: handleAuthorize_cases key split: sum.splits prod.splits bool.splits)
  have "td_find db ''api-key'' tok d1 = Inr (Some row)"
    using token_store.find_row [OF ts r(1,2,5,4)] .
  then have "td_remove db [row] d1 = Inr d2" using assms(6) r(3) by (simp add: remove_token_def)
  then have d2: "ok d2" "set (rows d2) = set (rows d1) - {row}"
    using token_store.remove_rows [OF ts r(1)] by auto
  have "\<not> (\<exists>x \<in> set (rows d2). accepted_row E later (at_token res) x)"
    using same d2(2) by blast
  then have "\<nexists>d'. tokens_service E db later ''api-key'' (at_token res) d2 = Inr (True, d')"
    unfolding token_store.service_accepts [OF ts d2(1)] .
  then have "handleAuthorize parseQ (tokens_service E db later) req d2 = Inl (unauthorized_error ''401 Forbidden'')"
    by (auto simp: handleAuthorize_cases key split: sum.splits prod.splits bool.splits)
  with 1 show ?thesis by blast
qed

text \<open>C38: the page of an accepted request: of the persisted rows of the asset, the time period and
  the half-open range of dates, in the ascending order of their timestamps the query asks for, the first and every n-th after it, with n the
  entry of the interval; a refused key rejects, and a failing query or an unknown interval is an
  empty page.\<close>

theorem mfiv_action_page:
  assumes "index_table getMany rows" "taking_nth takeNth"
    and "tokens_check ''api-key'' (ap_apiKey params) d = Inr (accepted, d')"
    and "\<forall>r \<in> set (rows d'). rw_timestamp r \<noteq> None"
  shows "if \<not> accepted
    then mfiv_action tokens_check getMany takeNth params d = Inl (unauthorized_error ''401 Forbidden'')
    else \<exists>page. mfiv_action tokens_check getMany takeNth params d = Inr (page, d') \<and>
      (case (map_get filterMap (ap_interval params), queryMfiv getMany params d') of
         (Some n, Inr arr) \<Rightarrow>
           pr_data page = map (\<lambda>i. arr ! (i * n)) [0..<(length arr + n - 1) div n]
           \<and> sorted_wrt date_le (map pt_timestamp arr)
           \<and> set arr = select_columns ` {r \<in> set (rows d').
               date_le (ap_dateFrom params) (rw_timestamp r) \<and> date_lt (rw_timestamp r) (ap_dateTo params)
               \<and> rw_timePeriod r = ap_timePeriod params \<and> rw_asset r = ap_asset params}
       | _ \<Rightarrow> page = empty_page)"
proof -
  have pos: "map_get filterMap i = Some n \<Longrightarrow> 0 < n" for i n
    by (auto simp: filterMap_def map_get_def split: if_splits)
  note srt = index_table.query_ascending [OF assms(1) _ assms(4)]
  show ?thesis
    using assms(3) index_table.query_rows [OF assms(1), of params d'] srt
      taking_nth.taken_map [OF assms(2) pos]
    by (auto simp: mfiv_action_def handleAuthorize2_def split: option.splits sum.splits)
qed

text \<open>Over rows persisted every five minutes the intervals 5M and 15M are those of their names,
  but 1H is 55 minutes and 1D is 23 hours and 55 minutes.\<close>

theorem mfiv_action_spacing:
  assumes "taking_nth takeNth" "tokens_check ''api-key'' (ap_apiKey params) d = Inr (True, d')"
    and "queryMfiv getMany params d' = Inr arr"
    and "\<forall>i < length arr. pt_timestamp (arr ! i) = Some (t0 + int i * (5 * 60000))"
    and "mfiv_action tokens_check getMany takeNth params d = Inr (page, d'')"
    and "Suc i < length (pr_data page)"
    and "(ap_interval params, minutes) \<in> {(''5M'', 5), (''15M'', 15), (''1H'', 55), (''1D'', 24 * 60 - 5)}"
  shows "date_diff (pt_timestamp (pr_data page ! Suc i)) (pt_timestamp (pr_data page ! i)) = Some (minutes * 60000)"
proof -
  obtain n where n: "map_get filterMap (ap_interval params) = Some n" "0 < n" "minutes = int n * 5"
    using assms(7) by (auto simp: filterMap_def map_get_def)
  have p: "pr_data page = takeNth n arr"
    using assms(2,3,5) n(1) by (auto simp: mfiv_action_def handleAuthorize2_def)
  then have j: "Suc i * n < length arr" "i * n < length arr"
    using taking_nth.taken_index [OF assms(1) n(2), of "Suc i" arr]
      taking_nth.taken_index [OF assms(1) n(2), of i arr] assms(6) by simp_all
  then have "pr_data page ! Suc i = arr ! (Suc i * n)" "pr_data page ! i = arr ! (i * n)"
    using taking_nth.nth_taken [OF assms(1) n(2)] p by auto
  then show ?thesis using assms(4) j n(3) by (simp add: date_diff_def algebra_simps)
qed

section \<open>Witnesses\<close>

definition no_query :: "string \<Rightarrow> (string, string) jsmap result" where
  "no_query q = (if q = [] then Inr [] else Inl type_error)"

definition bearer_request :: "string \<Rightarrow> http_request" where
  "bearer_request key = \<lparr> hr_authorization = Some (bearer @ key), hr_query = [] \<rparr>"

lemma handleAuthorize_exact_witness:
  "(\<exists>d'. handleAuthorize no_query (tokens_service sample_token_env table_db 5) (bearer_request ''abc'')
      (1, [sample_row]) = Inr (True, d'))
   \<and> handleAuthorize no_query (tokens_service sample_token_env table_db 5) (bearer_request ''abd'')
      (1, [sample_row]) = Inl (unauthorized_error ''401 Forbidden'')"
proof -
  have k: "request_api_key no_query (bearer_request key) = Inr key" for key
    unfolding bearer_request_def by (rule request_api_key_bearer)
  note w = handleAuthorize_exact [OF table.token_store_axioms sample_row_ok,
      where E = sample_token_env and now = 5 and parseQ = no_query]
  have "accepted_row sample_token_env 5 ''abc'' sample_row" "\<not> accepted_row sample_token_env 5 ''abd'' sample_row"
    by (simp_all add: accepted_row_def secureToken_def sample_token_env_def sample_row_def)
  then show ?thesis using w [of "bearer_request ''abc''"] w [of "bearer_request ''abd''"] by (simp add: k)
qed

lemma sample_admitted:
  "\<exists>d'. handleAuthorize no_query (tokens_service sample_token_env table_db 5) (bearer_request ''abc'')
      (1, [sample_row]) = Inr (True, d')"
proof -
  have "accepted_row sample_token_env 5 ''abc'' sample_row"
    by (simp add: accepted_row_def secureToken_def sample_token_env_def sample_row_def)
  then obtain d' where "tokens_service sample_token_env table_db 5 ''api-key'' ''abc'' (1, [sample_row]) = Inr (True, d')"
    using table.service_accepts [OF sample_row_ok, of sample_token_env 5 "''abc''"] by auto
  moreover have "request_api_key no_query (bearer_request ''abc'') = Inr ''abc''"
    unfolding bearer_request_def by (rule request_api_key_bearer)
  ultimately show ?thesis by (simp add: handleAuthorize_cases)
qed

lemma bearer_key_lifecycle_witness:
  "\<exists>res d1 d2. generate sample_token_env table_db (\<lambda>n. replicate n 0) 0 sample_generate (0, []) = Inr (res, d1)
    \<and> (\<exists>d'. handleAuthorize no_query (tokens_service sample_token_env table_db 86400000)
        (bearer_request (at_token res)) d1 = Inr (True, d'))
    \<and> handleAuthorize no_query (tokens_service sample_token_env table_db 86400000)
        (bearer_request (at_token res)) d2 = Inl (unauthorized_error ''401 Forbidden'')"
proof -
  obtain res d1 where g: "generate sample_token_env table_db (\<lambda>n. replicate n 0) 0 sample_generate (0, []) = Inr (res, d1)"
    using sample_generated by blast
  obtain d2 where r: "remove_token sample_token_env table_db ''api-key'' (at_token res) d1 = Inr d2"
    by (cases "find (\<lambda>r. at_type r = ''api-key'' \<and> at_token r = ''salt'' @ at_token res) (snd d1)")
      (auto simp: remove_token_def secureToken_def sample_token_env_def table_db_def)
  have t: "gp_type sample_generate = ''api-key''" "replicate 37 (0::nat) \<noteq> []"
    by (simp_all add: sample_generate_def)
  have "\<forall>n e. gp_expireInNumDays sample_generate = Some n \<longrightarrow> time_clip (0 + n * msPerDay) = Some e \<longrightarrow>
      86400000 \<le> e"
    by (simp add: sample_generate_def time_clip_def max_time_def)
  then show ?thesis
    using bearer_key_lifecycle [OF table.token_store_axioms sample_table t(1) g t(2) r refl,
        of no_query 86400000 "[]"] g
    unfolding bearer_request_def by blast
qed

definition sample_index_row :: "int \<Rightarrow> mfiv_row" where
  "sample_index_row t = \<lparr> rw_timestamp = Some t, rw_exchange = ''deribit'', rw_timePeriod = ''14D'',
     rw_asset = ''ETH'', rw_dVol = ''80'', rw_invdVol = ''80'', rw_underlyingPrice = ''3000'',
     rw_nearExpiry = Some 0, rw_nextExpiry = Some 0,
     rw_extra = \<lparr> mx_type = ''idx'', mx_src = ''AAVE'', mx_val = Num 0, mx_ts = Some 0 \<rparr>,
     rw_createdAt = Some t \<rparr>"

definition sample_api :: "string \<Rightarrow> api_mfiv_params" where
  "sample_api interval = \<lparr> ap_apiKey = ''abc'', ap_interval = interval, ap_dateFrom = Some 0,
     ap_dateTo = Some 3600000, ap_timePeriod = ''14D'', ap_asset = ''ETH'' \<rparr>"

definition sample_index_rows :: "mfiv_row list" where
  "sample_index_rows = map (\<lambda>i. sample_index_row (int i * 300000)) [0..<12]"

lemma sample_query:
  "queryMfiv table_many (sample_api i) sample_index_rows = Inr (map select_columns sample_index_rows)"
proof -
  have f: "filter (\<lambda>r. list_all (satisfies r) [TimestampFrom (Some 0), TimestampBefore (Some 3600000),
      TimePeriodIs ''14D'', AssetIs ''ETH'']) sample_index_rows = sample_index_rows"
    by (auto simp: sample_index_rows_def sample_index_row_def filter_id_conv)
  have "sorted (map (\<lambda>r. date_key (rw_timestamp r)) sample_index_rows)"
    by (simp add: sample_index_rows_def sample_index_row_def comp_def sorted_iff_nth_mono date_key_def)
  then show ?thesis
    unfolding queryMfiv_def sample_api_def table_many_def
    by (simp only: api_mfiv_params.simps mfiv_query.simps f sort_key_id_if_sorted Let_def option.case prod.case order_direction.case)
qed

lemma sample_interval: "map_get filterMap (ap_interval (sample_api ''1H'')) = Some 11"
  by (simp add: sample_api_def filterMap_def map_get_def)

lemma mfiv_action_page_witness:
  "\<exists>page. mfiv_action (\<lambda>_ _ d. Inr (True, d)) table_many take_nth (sample_api ''1H'') sample_index_rows
      = Inr (page, sample_index_rows) \<and> length (pr_data page) = 2"
proof -
  have "\<forall>r \<in> set sample_index_rows. rw_timestamp r \<noteq> None" "length sample_index_rows = 12"
    by (auto simp: sample_index_rows_def sample_index_row_def)
  then show ?thesis
    using mfiv_action_page [OF sql.index_table_axioms transducist.taking_nth_axioms,
        of "\<lambda>_ _ d. Inr (True, d)" "sample_api ''1H''" sample_index_rows True sample_index_rows]
    unfolding sample_interval sample_query by auto
qed

lemma mfiv_action_spacing_witness:
  "\<exists>page. mfiv_action (\<lambda>_ _ d. Inr (True, d)) table_many take_nth (sample_api ''1H'') sample_index_rows
      = Inr (page, sample_index_rows)
    \<and> date_diff (pt_timestamp (pr_data page ! 1)) (pt_timestamp (pr_data page ! 0)) = Some 3300000"
proof -
  let ?arr = "map select_columns sample_index_rows"
  let ?page = "\<lparr> pr_data = take_nth 11 ?arr, pr_prev = None, pr_next = None \<rparr>"
  have a: "mfiv_action (\<lambda>_ _ d. Inr (True, d)) table_many take_nth (sample_api ''1H'') sample_index_rows
      = Inr (?page, sample_index_rows)"
    by (simp add: mfiv_action_def handleAuthorize2_def sample_query sample_interval)
  have l: "\<forall>i < length ?arr. pt_timestamp (?arr ! i) = Some (0 + int i * (5 * 60000))"
    by (simp add: sample_index_rows_def sample_index_row_def select_columns_def)
  have "Suc 0 < length (pr_data ?page)" by (simp add: take_nth_def sample_index_rows_def)
  then show ?thesis
    using mfiv_action_spacing [OF transducist.taking_nth_axioms _ sample_query l a, of 0 55] a
    by (simp add: sample_api_def)
qed

end
