(* ===== verification/TradeServices.thy ===== *)
theory TradeServices
  imports Buckets Ingest
begin

text \<open>
  \<^verbatim>\<open>services/trade_option.service.ts\<close> and
  \<^verbatim>\<open>services/trade_pair.service.ts\<close>, with their tables
  (\<^verbatim>\<open>src/entities/trade_option.ts\<close>,
  \<^verbatim>\<open>trade_pair.ts\<close>): every bucket of the stream becomes a row, the last
  message and (for options) the latest row of each symbol are kept for the actions.  The database
  answers the n-th insert with \<open>ins n row\<close>; the rows handed to it and the errors reported by
  \<^verbatim>\<open>onStreamError\<close> are recorded in the state.  Writing a number as a string is
  the parameter \<open>num_str\<close>.
\<close>

section \<open>Trade options\<close>

record trade_option =
  to_timestamp :: jsdate
  to_exchange :: string
  to_asset :: string
  to_symbol :: string
  to_underlyingPrice :: string
  to_strikePrice :: jsnum
  to_price :: string
  to_optionType :: "option_type option"
  to_markIV :: string
  to_delta :: string
  to_expirationDate :: int
  to_localTimestamp :: int

datatype option_message = SummaryMessage option_summary | BucketMessage option_bucket

record trade_option_service =
  ts_lastMessage :: "option_message option"
  ts_latest :: "(string, trade_option) jsmap"
  ts_inserts :: "trade_option list"
  ts_errors :: "thrown list"

definition new_trade_option_service :: trade_option_service where
  "new_trade_option_service =
     \<lparr> ts_lastMessage = None, ts_latest = [], ts_inserts = [], ts_errors = [] \<rparr>"

text \<open>\<^verbatim>\<open>x?.toString() ?? "0"\<close>.\<close>

definition string_or_zero :: "(jsnum \<Rightarrow> string) \<Rightarrow> jsnum option \<Rightarrow> string" where
  "string_or_zero num_str x = (case x of None \<Rightarrow> ''0'' | Some v \<Rightarrow> num_str v)"

definition summary_row :: "(jsnum \<Rightarrow> string) \<Rightarrow> string \<Rightarrow> option_summary \<Rightarrow> trade_option" where
  "summary_row num_str asset m =
     \<lparr> to_timestamp = Some (os_timestamp m), to_exchange = os_exchange m, to_asset = asset,
       to_symbol = os_symbol m, to_underlyingPrice = string_or_zero num_str (os_underlyingPrice m),
       to_strikePrice = os_strikePrice m, to_price = string_or_zero num_str (os_lastPrice m),
       to_optionType = Some (os_optionType m), to_markIV = string_or_zero num_str (os_markIV m),
       to_delta = string_or_zero num_str (os_delta m), to_expirationDate = os_expirationDate m,
       to_localTimestamp = os_localTimestamp m \<rparr>"

definition bucket_row :: "(jsnum \<Rightarrow> string) \<Rightarrow> string \<Rightarrow> option_bucket \<Rightarrow> trade_option" where
  "bucket_row num_str asset m =
     \<lparr> to_timestamp = ob_timestamp m, to_exchange = ob_exchange m, to_asset = asset,
       to_symbol = ob_symbol m, to_underlyingPrice = string_or_zero num_str (Some (ob_underlyingPrice m)),
       to_strikePrice = ob_strikePrice m, to_price = string_or_zero num_str (Some (ob_lastPrice m)),
       to_optionType = ob_optionType m, to_markIV = string_or_zero num_str (Some (ob_markIV m)),
       to_delta = string_or_zero num_str (Some (ob_delta m)), to_expirationDate = ob_expirationDate m,
       to_localTimestamp = ob_localTimestamp m \<rparr>"

definition option_onStreamError :: "thrown \<Rightarrow> trade_option_service \<Rightarrow> trade_option_service" where
  "option_onStreamError err s = s\<lparr> ts_errors := ts_errors s @ [err] \<rparr>"

definition option_executeInsert ::
  "(nat \<Rightarrow> trade_option \<Rightarrow> unit result) \<Rightarrow> trade_option \<Rightarrow> trade_option_service
   \<Rightarrow> unit result \<times> trade_option_service" where
  "option_executeInsert ins row s =
     (ins (length (ts_inserts s)) row, s\<lparr> ts_inserts := ts_inserts s @ [row] \<rparr>)"

text \<open>An insert that fails is reported and resolves.\<close>

definition option_insert_caught ::
  "(nat \<Rightarrow> trade_option \<Rightarrow> unit result) \<Rightarrow> trade_option \<Rightarrow> trade_option_service
   \<Rightarrow> unit result \<times> trade_option_service" where
  "option_insert_caught ins row s =
     (case option_executeInsert ins row s of
        (Inr _, s1) \<Rightarrow> (Inr (), s1)
      | (Inl err, s1) \<Rightarrow> (Inr (), option_onStreamError err s1))"

definition option_captureMessage ::
  "(jsnum \<Rightarrow> string) \<Rightarrow> string \<Rightarrow> (nat \<Rightarrow> trade_option \<Rightarrow> unit result) \<Rightarrow> option_message
   \<Rightarrow> trade_option_service \<Rightarrow> unit result \<times> trade_option_service" where
  "option_captureMessage num_str asset ins message s =
     (let s1 = s\<lparr> ts_lastMessage := Some message \<rparr> in
      case message of
        SummaryMessage m \<Rightarrow> option_insert_caught ins (summary_row num_str asset m) s1
      | BucketMessage b \<Rightarrow>
          (let data = bucket_row num_str asset b in
           option_insert_caught ins data (s1\<lparr> ts_latest := map_set (ob_symbol b) data (ts_latest s1) \<rparr>)))"

text \<open>Only the buckets of the stream are captured; an error that the handler maps is logged, one
  that it rethrows ends the loop.\<close>

fun option_processMessages ::
  "(jsnum \<Rightarrow> string) \<Rightarrow> string \<Rightarrow> (nat \<Rightarrow> trade_option \<Rightarrow> unit result) \<Rightarrow> option_message list
   \<Rightarrow> trade_option_service \<Rightarrow> unit result \<times> trade_option_service" where
  "option_processMessages num_str asset ins [] s = (Inr (), s)"
| "option_processMessages num_str asset ins (message # messages) s =
     (case message of
        SummaryMessage m \<Rightarrow> option_processMessages num_str asset ins messages s
      | BucketMessage b \<Rightarrow>
          (case option_captureMessage num_str asset ins message s of (r, s1) \<Rightarrow>
             case from_promise handleTypeOrmError r of
               Inl e \<Rightarrow> (Inl e, s1)
             | Inr _ \<Rightarrow> option_processMessages num_str asset ins messages s1))"

definition option_getLatest :: "trade_option_service \<Rightarrow> trade_option list" where
  "option_getLatest s = map_values (ts_latest s)"

definition buildOptionLists :: "instrument_info list result \<Rightarrow> string list result" where
  "buildOptionLists instruments =
     res_bind instruments (\<lambda>is. Inr (map ii_id (filter (\<lambda>i. ii_expiry i \<noteq> None) is)))"

text \<open>What \<^verbatim>\<open>started\<close> settles to and the symbols of the stream it opens, if it
  opens one.\<close>

definition option_started ::
  "unit result \<Rightarrow> instrument_info list result \<Rightarrow> trade_option_service
   \<Rightarrow> unit result \<times> (string \<times> string list) option \<times> trade_option_service" where
  "option_started ready instruments s =
     (case res_bind ready (\<lambda>_. buildOptionLists instruments) of
        Inr optionIds \<Rightarrow> (Inr (), Some (''deribit'', optionIds), s)
      | Inl err \<Rightarrow> (Inr (), None, option_onStreamError err s))"

section \<open>Trade pairs\<close>

record trade_pair =
  tp_timestamp :: int
  tp_exchange :: string
  tp_symbol :: string
  tp_id :: "string option"
  tp_price :: string
  tp_localTimestamp :: int

datatype pair_message = TradeMessage trade | TradeBucketMessage trade_bucket

record trade_pair_service =
  ps_lastMessage :: "pair_message option"
  ps_inserts :: "trade_pair list"
  ps_errors :: "thrown list"

definition new_trade_pair_service :: trade_pair_service where
  "new_trade_pair_service = \<lparr> ps_lastMessage = None, ps_inserts = [], ps_errors = [] \<rparr>"

definition tradePairAssets :: "(string, (string \<times> string) list) jsmap" where
  "tradePairAssets =
     [(''ETH'', [(''binance'', ''ETHUSDT''), (''bitstamp'', ''ETHUSD''), (''coinbase'', ''ETH-USD''),
        (''ftx'', ''ETH-USD''), (''gemini'', ''ETHUSD''), (''kraken'', ''ETH/USD'')]),
      (''BTC'', [(''binance'', ''BTCUSDT''), (''bitstamp'', ''BTCUSD''), (''coinbase'', ''BTC-USD''),
        (''ftx'', ''BTC-USD''), (''gemini'', ''BTCUSD''), (''kraken'', ''BTC/USD'')]),
      (''SOL'', [(''binance'', ''SOLUSDT''), (''bitstamp'', ''SOLUSD''), (''coinbase'', ''SOL-USD''),
        (''ftx'', ''SOL-USD''), (''gemini'', ''SOLUSD''), (''kraken'', ''SOL/USD'')])]"

text \<open>An asset that has no entry is undefined.\<close>

definition selectTradePairs :: "string \<Rightarrow> (string \<times> string) list option" where
  "selectTradePairs asset = map_get tradePairAssets asset"

definition pair_row :: "(jsnum \<Rightarrow> string) \<Rightarrow> pair_message \<Rightarrow> trade_pair" where
  "pair_row num_str message =
     (case message of
        TradeMessage t \<Rightarrow> \<lparr> tp_timestamp = tr_timestamp t, tp_exchange = tr_exchange t,
          tp_symbol = tr_symbol t, tp_id = tr_id t, tp_price = num_str (tr_price t),
          tp_localTimestamp = tr_localTimestamp t \<rparr>
      | TradeBucketMessage b \<Rightarrow> \<lparr> tp_timestamp = tb_closeTimestamp b, tp_exchange = tb_exchange b,
          tp_symbol = tb_symbol b, tp_id = tb_id b, tp_price = num_str (tb_price b),
          tp_localTimestamp = tb_localTimestamp b \<rparr>)"

definition pair_onStreamError :: "thrown \<Rightarrow> trade_pair_service \<Rightarrow> trade_pair_service" where
  "pair_onStreamError err s = s\<lparr> ps_errors := ps_errors s @ [err] \<rparr>"

definition pair_executeInsert ::
  "(nat \<Rightarrow> trade_pair \<Rightarrow> unit result) \<Rightarrow> trade_pair \<Rightarrow> trade_pair_service
   \<Rightarrow> unit result \<times> trade_pair_service" where
  "pair_executeInsert ins row s =
     (ins (length (ps_inserts s)) row, s\<lparr> ps_inserts := ps_inserts s @ [row] \<rparr>)"

definition pair_captureMessage ::
  "(jsnum \<Rightarrow> string) \<Rightarrow> (nat \<Rightarrow> trade_pair \<Rightarrow> unit result) \<Rightarrow> pair_message
   \<Rightarrow> trade_pair_service \<Rightarrow> unit result \<times> trade_pair_service" where
  "pair_captureMessage num_str ins message s =
     (case pair_executeInsert ins (pair_row num_str message) (s\<lparr> ps_lastMessage := Some message \<rparr>) of
        (Inr _, s1) \<Rightarrow> (Inr (), s1)
      | (Inl err, s1) \<Rightarrow> (Inr (), pair_onStreamError err s1))"

fun pair_processMessages ::
  "(jsnum \<Rightarrow> string) \<Rightarrow> (nat \<Rightarrow> trade_pair \<Rightarrow> unit result) \<Rightarrow> pair_message list
   \<Rightarrow> trade_pair_service \<Rightarrow> unit result \<times> trade_pair_service" where
  "pair_processMessages num_str ins [] s = (Inr (), s)"
| "pair_processMessages num_str ins (message # messages) s =
     (case message of
        TradeMessage t \<Rightarrow> pair_processMessages num_str ins messages s
      | TradeBucketMessage b \<Rightarrow>
          (case pair_captureMessage num_str ins message s of (r, s1) \<Rightarrow>
             case from_promise handleTypeOrmError r of
               Inl e \<Rightarrow> (Inl e, s1)
             | Inr _ \<Rightarrow> pair_processMessages num_str ins messages s1))"

text \<open>The trade pairs whose streams \<^verbatim>\<open>started\<close> combines; mapping over
  undefined throws inside the promise.\<close>

definition pair_started ::
  "unit result \<Rightarrow> string \<Rightarrow> trade_pair_service
   \<Rightarrow> unit result \<times> (string \<times> string) list option \<times> trade_pair_service" where
  "pair_started ready asset s =
     (case res_bind ready (\<lambda>_. case selectTradePairs asset of None \<Rightarrow> Inl type_error | Some ps \<Rightarrow> Inr ps) of
        Inr pairs \<Rightarrow> (Inr (), Some pairs, s)
      | Inl err \<Rightarrow> (Inr (), None, pair_onStreamError err s))"

section \<open>Lemmas\<close>

fun bucket_of :: "option_message \<Rightarrow> option_bucket option" where
  "bucket_of (SummaryMessage m) = None"
| "bucket_of (BucketMessage b) = Some b"

fun trade_bucket_of :: "pair_message \<Rightarrow> trade_bucket option" where
  "trade_bucket_of (TradeMessage t) = None"
| "trade_bucket_of (TradeBucketMessage b) = Some b"

text \<open>The errors of the failing inserts, the first of which has number k.\<close>

fun insert_errors :: "(nat \<Rightarrow> 'r \<Rightarrow> unit result) \<Rightarrow> nat \<Rightarrow> 'r list \<Rightarrow> thrown list" where
  "insert_errors ins k [] = []"
| "insert_errors ins k (r # rs) =
     (case ins k r of Inl e \<Rightarrow> [e] | Inr _ \<Rightarrow> []) @ insert_errors ins (Suc k) rs"

lemma option_insert_caught_eq:
  "option_insert_caught ins row s = (Inr (), s\<lparr> ts_inserts := ts_inserts s @ [row],
    ts_errors := ts_errors s @ insert_errors ins (length (ts_inserts s)) [row] \<rparr>)"
  by (auto simp: option_insert_caught_def option_executeInsert_def option_onStreamError_def split: sum.splits)

lemma option_process_eq:
  "option_processMessages num_str asset ins ms s =
    (Inr (), let bs = List.map_filter bucket_of ms in s\<lparr>
      ts_lastMessage := (if bs = [] then ts_lastMessage s else Some (BucketMessage (last bs))),
      ts_latest := fold (\<lambda>b. map_set (ob_symbol b) (bucket_row num_str asset b)) bs (ts_latest s),
      ts_inserts := ts_inserts s @ map (bucket_row num_str asset) bs,
      ts_errors := ts_errors s @ insert_errors ins (length (ts_inserts s)) (map (bucket_row num_str asset) bs) \<rparr>)"
proof (induction ms arbitrary: s)
  case (Cons m ms)
  show ?case
  proof (cases m)
    case (BucketMessage b)
    then show ?thesis
      by (simp add: option_captureMessage_def Let_def option_insert_caught_eq Cons.IH from_promise_def
          List.map_filter_simps)
  qed (simp add: Cons.IH List.map_filter_simps)
qed (simp add: List.map_filter_simps)

lemma pair_process_eq:
  "pair_processMessages num_str ins ms s =
    (Inr (), let bs = List.map_filter trade_bucket_of ms; rows = map (\<lambda>b. pair_row num_str (TradeBucketMessage b)) bs in s\<lparr>
      ps_lastMessage := (if bs = [] then ps_lastMessage s else Some (TradeBucketMessage (last bs))),
      ps_inserts := ps_inserts s @ rows,
      ps_errors := ps_errors s @ insert_errors ins (length (ps_inserts s)) rows \<rparr>)"
proof (induction ms arbitrary: s)
  case (Cons m ms)
  show ?case
  proof (cases m)
    case (TradeBucketMessage b)
    then show ?thesis
      by (simp add: pair_captureMessage_def pair_executeInsert_def pair_onStreamError_def Let_def Cons.IH
          from_promise_def List.map_filter_simps split: sum.splits)
  qed (simp add: Cons.IH List.map_filter_simps)
qed (simp add: List.map_filter_simps)

lemma fold_map_set_last:
  "map_get (fold (\<lambda>b. map_set (f b) (g b)) bs m) y =
    (if filter (\<lambda>b. f b = y) bs = [] then map_get m y else Some (g (last (filter (\<lambda>b. f b = y) bs))))"
  by (induction bs arbitrary: m) auto

lemma map_keys_set: "map_keys (map_set k v m) = set_add k (map_keys m)"
  by (induction m) (auto simp: map_keys_def map_set_def set_add_def)

lemma map_keys_fold_set:
  "map_keys (fold (\<lambda>b. map_set (f b) (g b)) bs m) = fold set_add (map f bs) (map_keys m)"
  by (induction bs arbitrary: m) (simp_all add: map_keys_set)

lemma getLatest_fold:
  "map_values (fold (\<lambda>b. map_set (f b) (g b)) bs []) =
    map (\<lambda>y. g (last (filter (\<lambda>b. f b = y) bs))) (fold set_add (map f bs) [])"
proof -
  let ?m = "fold (\<lambda>b. map_set (f b) (g b)) bs []"
  have ok: "map_ok m \<Longrightarrow> map_ok (fold (\<lambda>b. map_set (f b) (g b)) bs m)" for m
    by (induction bs arbitrary: m) auto
  have "map_ok ?m" by (rule ok) simp
  then have v: "map_values ?m = map (\<lambda>k. the (map_get ?m k)) (map_keys ?m)"
    by (auto simp: map_values_def map_keys_def map_get_def map_ok_def)
  have k: "map_keys ?m = fold set_add (map f bs) []"
    using map_keys_fold_set [of f g bs "[]"] by (simp add: map_keys_def)
  have mem: "y \<in> set (fold set_add ys zs) \<longleftrightarrow> y \<in> set ys \<or> y \<in> set zs" for y ys zs
    by (induction ys arbitrary: zs) auto
  show ?thesis
    unfolding v k by (rule map_cong [OF refl]) (auto simp: fold_map_set_last mem filter_empty_conv)
qed

section \<open>Properties\<close>

text \<open>Whatever the database answers, the trade option service runs to the end of its stream:
  every bucket is handed to the database once and in order, the errors reported are those of the
  failing inserts, and the latest action returns, for every symbol in the order of its first
  bucket, the row of its last one.\<close>

theorem trade_options_run:
  "let bs = List.map_filter bucket_of ms in \<exists>s. option_processMessages num_str asset ins ms new_trade_option_service = (Inr (), s)
    \<and> ts_inserts s = map (bucket_row num_str asset) bs
    \<and> ts_errors s = insert_errors ins 0 (map (bucket_row num_str asset) bs)
    \<and> option_getLatest s =
        map (\<lambda>y. bucket_row num_str asset (last (filter (\<lambda>b. ob_symbol b = y) bs)))
          (fold set_add (map ob_symbol bs) [])
    \<and> ts_lastMessage s = (if bs = [] then None else Some (BucketMessage (last bs)))"
  unfolding option_process_eq option_getLatest_def
  by (simp add: new_trade_option_service_def Let_def getLatest_fold)

text \<open>The trade pair service likewise captures every bucket once and in order, whatever the
  database answers; a row carries the closing time of its bucket, and raw trades are not
  persisted.\<close>

theorem trade_pairs_run:
  "let bs = List.map_filter trade_bucket_of ms in \<exists>s. pair_processMessages num_str ins ms new_trade_pair_service = (Inr (), s)
    \<and> map tp_timestamp (ps_inserts s) = map tb_closeTimestamp bs
    \<and> map tp_price (ps_inserts s) = map (num_str \<circ> tb_price) bs
    \<and> ps_errors s = insert_errors ins 0 (ps_inserts s)
    \<and> ps_lastMessage s = (if bs = [] then None else Some (TradeBucketMessage (last bs)))"
  unfolding pair_process_eq
  by (simp add: new_trade_pair_service_def Let_def pair_row_def)

text \<open>Both services start whatever happens: when the data source never becomes ready, when the
  instruments cannot be listed or when the configured asset is none of the three known ones, the
  error is reported and the service is up without a stream.\<close>

theorem trade_services_start:
  "fst (option_started ready instruments s) = Inr () \<and> fst (pair_started ready asset t) = Inr ()
    \<and> fst (snd (option_started ready instruments s)) =
        (case (ready, instruments) of
           (Inr _, Inr is) \<Rightarrow> Some (''deribit'', map ii_id (filter (\<lambda>i. ii_expiry i \<noteq> None) is))
         | _ \<Rightarrow> None)
    \<and> fst (snd (pair_started ready asset t)) =
        (if ready = Inr () \<and> asset \<in> {''ETH'', ''BTC'', ''SOL''} then map_get tradePairAssets asset else None)"
  by (cases ready; cases instruments)
    (auto simp: option_started_def pair_started_def buildOptionLists_def selectTradePairs_def
      tradePairAssets_def map_get_def)

end
