(* ===== verification/JsMath.thy ===== *)
theory JsMath
  imports Prelude
begin

text \<open>
  \<^verbatim>\<open>Math.max\<close> and \<^verbatim>\<open>Math.min\<close> of any number of
  arguments, and the order of the numbers without the value that is none.
\<close>

section \<open>Largest and smallest\<close>

text \<open>The largest and the smallest of the arguments; one that is not a number makes the result not
  a number.\<close>

fun math_max :: "jsnum list \<Rightarrow> jsnum" where
  "math_max [] = NegInf"
| "math_max (x # xs) = (let m = math_max xs in
     if num_is_nan x \<or> num_is_nan m then NaN else if num_le m x then x else m)"

fun math_min :: "jsnum list \<Rightarrow> jsnum" where
  "math_min [] = PosInf"
| "math_min (x # xs) = (let m = math_min xs in
     if num_is_nan x \<or> num_is_nan m then NaN else if num_le x m then x else m)"

section \<open>Lemmas\<close>

lemma math_max_NaN: "math_max xs = NaN \<longleftrightarrow> NaN \<in> set xs"
  by (induction xs) (auto simp: Let_def elim: num_is_nan.elims)

lemma math_min_NaN: "math_min xs = NaN \<longleftrightarrow> NaN \<in> set xs"
  by (induction xs) (auto simp: Let_def elim: num_is_nan.elims)

lemma num_le_total: "x \<noteq> NaN \<Longrightarrow> y \<noteq> NaN \<Longrightarrow> num_le x y \<or> num_le y x"
  by (cases x; cases y) auto

lemma num_le_refl [simp]: "num_le x x \<longleftrightarrow> x \<noteq> NaN"
  by (cases x) auto

lemma num_le_trans: "num_le x y \<Longrightarrow> num_le y z \<Longrightarrow> num_le x z"
  by (cases x; cases y; cases z) auto

lemma is_nan_iff: "num_is_nan x \<longleftrightarrow> x = NaN"
  by (cases x) auto

lemma math_max_greatest: "NaN \<notin> set xs \<Longrightarrow> x \<in> set xs \<Longrightarrow> num_le x (math_max xs)"
proof (induction xs)
  case (Cons y ys)
  have m: "math_max ys \<noteq> NaN" "y \<noteq> NaN" using Cons.prems by (auto simp: math_max_NaN)
  show ?case
    using Cons m num_le_total [of y "math_max ys"] num_le_trans [of x "math_max ys" y]
    by (auto simp: Let_def is_nan_iff)
qed simp

lemma math_min_least: "NaN \<notin> set xs \<Longrightarrow> x \<in> set xs \<Longrightarrow> num_le (math_min xs) x"
proof (induction xs)
  case (Cons y ys)
  have m: "math_min ys \<noteq> NaN" "y \<noteq> NaN" using Cons.prems by (auto simp: math_min_NaN)
  show ?case
    using Cons m num_le_total [of y "math_min ys"] num_le_trans [of y "math_min ys" x]
    by (auto simp: Let_def is_nan_iff)
qed simp

end
