(* ===== verification/VixBook.thy ===== *)
theory VixBook
  imports "HOL-Library.Multiset" MfivDates MarketData JsMath
begin

text \<open>
  The arithmetic of \<^verbatim>\<open>src/lib/vix_calculator.ts\<close>, the first calculator: the
  mid price of a quote, the strike nearest below the forward price, the forward price from
  put-call parity, the book of out-of-the-money options around the strike and its contribution
  to the variance.  A book entry is an instrument name and a price; the name has the form
  asset, expiry, strike and type between dashes.
\<close>

section \<open>Numbers and names\<close>

text \<open>\<^verbatim>\<open>x ** 2\<close>, \<^verbatim>\<open>Math.E ** x\<close> and
  \<^verbatim>\<open>Math.sqrt(x)\<close>, and the truth value of a number.\<close>

definition num_square :: "jsnum \<Rightarrow> jsnum" where
  "num_square x = num_mul x x"

fun num_exp :: "jsnum \<Rightarrow> jsnum" where
  "num_exp (Num x) = Num (exp x)"
| "num_exp PosInf = PosInf"
| "num_exp NegInf = Num 0"
| "num_exp NaN = NaN"

fun num_sqrt :: "jsnum \<Rightarrow> jsnum" where
  "num_sqrt (Num x) = (if x < 0 then NaN else Num (sqrt x))"
| "num_sqrt PosInf = PosInf"
| "num_sqrt _ = NaN"

definition num_truthy :: "jsnum \<Rightarrow> bool" where
  "num_truthy x \<longleftrightarrow> x \<noteq> NaN \<and> x \<noteq> Num 0"

type_synonym book = "(string \<times> jsnum) list"

text \<open>\<^verbatim>\<open>s.split("-")[i]\<close>; a part that is missing is undefined.\<close>

definition part_of :: "nat \<Rightarrow> string \<Rightarrow> string option" where
  "part_of i s = (let parts = split_on (CHR ''-'') s in if i < length parts then Some (parts ! i) else None)"

definition strike_of :: "string \<Rightarrow> jsnum" where
  "strike_of s = (case part_of 2 s of None \<Rightarrow> NaN | Some p \<Rightarrow> string_to_number p)"

section \<open>Mid prices\<close>

definition mid_price :: "option_summary \<Rightarrow> jsnum option" where
  "mid_price msg =
     (let u = or_default (os_underlyingPrice msg) (Num 0);
          bid = num_mul (or_default (os_bestBidPrice msg) (Num 0)) u;
          ask = num_mul (or_default (os_bestAskPrice msg) (Num 0)) u;
          mark = num_mul (or_default (os_markPrice msg) (Num 0)) u
      in if \<not> num_truthy bid then None
         else if ask = NaN then Some mark
         else let mid = num_div (num_add ask bid) (Num 2) in
              if num_le (num_mul (Num (15 / 10)) mark) mid then Some mark else Some mid)"

definition midBookChange :: "option_summary \<Rightarrow> (string, jsnum) jsmap \<Rightarrow> (string, jsnum) jsmap" where
  "midBookChange msg book =
     (case mid_price msg of
        Some mid \<Rightarrow> if num_truthy mid then map_set (os_symbol msg) mid book else book
      | None \<Rightarrow> book)"

section \<open>Strikes and the forward price\<close>

definition adjacentStrikeGet :: "string list \<Rightarrow> jsnum \<Rightarrow> jsnum" where
  "adjacentStrikeGet optionList forwardPrice =
     fold (\<lambda>option adjacentStrike.
         let thisStrike = strike_of option in
         if num_le thisStrike forwardPrice \<and> num_lt adjacentStrike thisStrike then thisStrike else adjacentStrike)
       optionList (Num 0)"

text \<open>The name without its last part, and that part as a number.\<close>

definition reduced_option :: "string \<Rightarrow> string" where
  "reduced_option x = join_with ''-'' (butlast (split_on (CHR ''-'') x))"

definition last_part :: "string \<Rightarrow> jsnum" where
  "last_part option = string_to_number (last (split_on (CHR ''-'') option))"

record best_pair =
  bp_option :: string
  bp_diff :: jsnum
  bp_strike :: jsnum
  bp_call :: jsnum
  bp_put :: jsnum

definition no_pair :: best_pair where
  "no_pair = \<lparr> bp_option = [], bp_diff = PosInf, bp_strike = Num 0, bp_call = Num 0, bp_put = Num 0 \<rparr>"

definition better_pair :: "(string, jsnum) jsmap \<Rightarrow> string \<Rightarrow> best_pair \<Rightarrow> best_pair" where
  "better_pair midBook option best =
     (case (map_get midBook (option @ ''-C''), map_get midBook (option @ ''-P'')) of
        (Some callMid, Some putMid) \<Rightarrow>
          (let diff = num_abs (num_sub callMid putMid) in
           if diff \<noteq> NaN \<and> num_lt diff (bp_diff best)
           then \<lparr> bp_option = option, bp_diff = diff, bp_strike = last_part option,
                  bp_call = callMid, bp_put = putMid \<rparr>
           else best)
      | _ \<Rightarrow> best)"

definition best_pair_of :: "(string, jsnum) jsmap \<Rightarrow> string list \<Rightarrow> best_pair" where
  "best_pair_of midBook thisOptionList =
     fold (better_pair midBook) (rev (remdups (rev (map reduced_option thisOptionList)))) no_pair"

text \<open>\<open>ms_to\<close> is the number of milliseconds from the reference date to the expiry, read from its
  part of the name.\<close>

definition forwardPriceGet ::
  "(string option \<Rightarrow> jsnum) \<Rightarrow> jsnum \<Rightarrow> jsnum \<Rightarrow> (string, jsnum) jsmap \<Rightarrow> string list \<Rightarrow> jsnum" where
  "forwardPriceGet ms_to year_ms risklessRate midBook thisOptionList =
     (let best = best_pair_of midBook thisOptionList;
          yearFraction = num_div (ms_to (part_of 1 (bp_option best))) year_ms
      in num_add (bp_strike best)
           (num_mul (num_exp (num_mul risklessRate yearFraction)) (num_sub (bp_call best) (bp_put best))))"

section \<open>The final book\<close>

definition filterBook :: "string \<Rightarrow> (string, jsnum) jsmap \<Rightarrow> book" where
  "filterBook expiry midBook =
     filter (\<lambda>(key, value). value \<noteq> NaN \<and> includes_str key expiry) midBook"

definition keeps_entry :: "jsnum \<Rightarrow> string \<times> jsnum \<Rightarrow> bool" where
  "keeps_entry target entry \<longleftrightarrow>
     num_lt (strike_of (fst entry)) target \<and> part_of 3 (fst entry) = Some ''P''
     \<or> num_lt target (strike_of (fst entry)) \<and> part_of 3 (fst entry) = Some ''C''"

definition at_strike :: "jsnum \<Rightarrow> string \<times> jsnum \<Rightarrow> bool" where
  "at_strike target entry \<longleftrightarrow> num_eq (strike_of (fst entry)) target"

text \<open>Sorting by a number: a stable insertion sort, which on keys that are numbers is the order of
  the comparison by subtraction.\<close>

fun num_insort :: "('a \<Rightarrow> jsnum) \<Rightarrow> 'a \<Rightarrow> 'a list \<Rightarrow> 'a list" where
  "num_insort f x [] = [x]"
| "num_insort f x (y # ys) = (if num_le (f x) (f y) then x # y # ys else y # num_insort f x ys)"

definition num_sort :: "('a \<Rightarrow> jsnum) \<Rightarrow> 'a list \<Rightarrow> 'a list" where
  "num_sort f xs = foldr (num_insort f) xs []"

text \<open>The puts below and the calls above the strike, and the average of the two quotes at it; with
  fewer than two quotes at the strike the average reads a field of undefined.\<close>

definition finalBookGet :: "book \<Rightarrow> jsnum \<Rightarrow> book result" where
  "finalBookGet entries targetStrike =
     (case filter (\<lambda>e. \<not> keeps_entry targetStrike e \<and> at_strike targetStrike e) entries of
        e0 # e1 # _ \<Rightarrow>
          Inr (num_sort (\<lambda>e. strike_of (fst e))
            (filter (keeps_entry targetStrike) entries
             @ [(fst e0 @ ''AV'', num_div (num_add (snd e0) (snd e1)) (Num 2))]))
      | _ \<Rightarrow> Inl type_error)"

definition delta_strike :: "book \<Rightarrow> nat \<Rightarrow> jsnum" where
  "delta_strike finalBook i =
     (let strike = (\<lambda>j. strike_of (fst (finalBook ! j))) in
      if i = 0 then num_sub (strike (i + 1)) (strike i)
      else if i = length finalBook - 1 then num_sub (strike i) (strike (i - 1))
      else num_div (num_sub (strike (i + 1)) (strike (i - 1))) (Num 2))"

text \<open>The loop over the book; a book of one entry reads its second one.\<close>

definition contributionGet :: "book \<Rightarrow> jsnum result" where
  "contributionGet finalBook =
     (if length finalBook = 1 then Inl type_error
      else Inr (fold (\<lambda>i contribution. num_add contribution
             (num_mul (num_div (delta_strike finalBook i) (num_square (strike_of (fst (finalBook ! i)))))
                (snd (finalBook ! i))))
           [0..<length finalBook] (Num 0)))"

section \<open>The index\<close>

text \<open>What the calculator's fields give the formula: the expiries relative to the reference date in
  milliseconds, the two weeks and the year, the forward prices and the two books.\<close>

record index_terms =
  it_NT1 :: jsnum
  it_NT2 :: jsnum
  it_N14 :: jsnum
  it_N365 :: jsnum
  it_f1 :: jsnum
  it_f2 :: jsnum
  it_k1 :: jsnum
  it_k2 :: jsnum
  it_near :: jsnum
  it_next :: jsnum

definition mod_sigma_squared :: "jsnum \<Rightarrow> jsnum \<Rightarrow> jsnum \<Rightarrow> jsnum \<Rightarrow> jsnum \<Rightarrow> jsnum" where
  "mod_sigma_squared r T contribution f k =
     num_sub (num_mul (num_mul (num_exp (num_mul r T)) (Num 2)) contribution)
       (num_square (num_sub (num_div f k) (Num 1)))"

definition dVol_of :: "jsnum \<Rightarrow> index_terms \<Rightarrow> jsnum" where
  "dVol_of r t =
     (let s1 = mod_sigma_squared r (num_div (it_NT1 t) (it_N365 t)) (it_near t) (it_f1 t) (it_k1 t);
          s2 = mod_sigma_squared r (num_div (it_NT2 t) (it_N365 t)) (it_next t) (it_f2 t) (it_k2 t);
          A = num_div (num_sub (it_NT2 t) (it_N14 t)) (num_sub (it_NT2 t) (it_NT1 t));
          B = num_div (num_sub (it_N14 t) (it_NT1 t)) (num_sub (it_NT2 t) (it_NT1 t));
          C = num_div (it_N365 t) (it_N14 t)
      in num_sqrt (num_mul (num_add (num_mul s1 A) (num_mul s2 B)) C))"

section \<open>Lemmas\<close>

text \<open>The order of the numbers other than \<open>NaN\<close>.\<close>

lemma num_le_not_NaN: "num_le x y \<Longrightarrow> x \<noteq> NaN \<and> y \<noteq> NaN"
  by (cases x; cases y) auto

lemma num_lt_iff: "num_lt x y \<longleftrightarrow> x \<noteq> NaN \<and> y \<noteq> NaN \<and> \<not> num_le y x"
  by (cases x; cases y) (auto simp: num_lt_def)

lemma num_eq_iff: "num_eq x y \<longleftrightarrow> x = y \<and> x \<noteq> NaN"
  by (cases x; cases y) auto

lemma num_not_le: "x \<noteq> NaN \<Longrightarrow> y \<noteq> NaN \<Longrightarrow> \<not> num_le y x \<Longrightarrow> num_le x y"
  by (cases x; cases y) auto

lemma num_lt_le: "num_lt x y \<Longrightarrow> num_le x y"
  by (simp add: num_lt_def)

subsection \<open>Sorting\<close>

lemma mset_num_insort [simp]: "mset (num_insort f x ys) = add_mset x (mset ys)"
  by (induction ys) auto

lemma mset_num_sort [simp]: "mset (num_sort f xs) = mset xs"
  by (induction xs) (simp_all add: num_sort_def)

lemma set_num_insort [simp]: "set (num_insort f x ys) = insert x (set ys)"
  by (induction ys) auto

lemma sorted_num_insort:
  "f x \<noteq> NaN \<Longrightarrow> \<forall>y \<in> set ys. f y \<noteq> NaN \<Longrightarrow> sorted_wrt (\<lambda>a b. num_le (f a) (f b)) ys \<Longrightarrow>
    sorted_wrt (\<lambda>a b. num_le (f a) (f b)) (num_insort f x ys)"
proof (induction ys)
  case (Cons y ys)
  show ?case
  proof (cases "num_le (f x) (f y)")
    case True
    then show ?thesis using Cons.prems by (auto intro: num_le_trans)
  next
    case False
    then have "num_le (f y) (f x)" using Cons.prems num_lt_iff num_lt_le by (metis list.set_intros(1))
    then show ?thesis using Cons False by auto
  qed
qed simp

lemma sorted_num_sort:
  "\<forall>x \<in> set xs. f x \<noteq> NaN \<Longrightarrow> sorted_wrt (\<lambda>a b. num_le (f a) (f b)) (num_sort f xs)"
proof (induction xs)
  case (Cons x xs)
  have "set (num_sort f xs) = set xs" by (metis mset_num_sort set_mset_mset)
  then show ?case using Cons by (simp add: num_sort_def sorted_num_insort)
qed (simp add: num_sort_def)

subsection \<open>Names\<close>

lemma split_on_suffix: "c \<notin> set t \<Longrightarrow> split_on c (s @ t) = butlast (split_on c s) @ [last (split_on c s) @ t]"
proof (induction s)
  case Nil
  then show ?case by (simp add: split_on_notin)
next
  case (Cons x s)
  have ne: "split_on c s \<noteq> []" by simp
  then obtain p ps where p: "split_on c s = p # ps" by (cases "split_on c s") auto
  show ?case using Cons p by (cases ps) auto
qed

lemma part_of_suffix:
  "CHR ''-'' \<notin> set t \<Longrightarrow> part_of (Suc i) s \<noteq> None \<Longrightarrow> part_of i (s @ t) = part_of i s"
  by (auto simp: part_of_def Let_def split_on_suffix nth_append nth_butlast split: if_splits)

lemma strike_of_average: "part_of 3 s \<noteq> None \<Longrightarrow> strike_of (s @ ''AV'') = strike_of s"
  using part_of_suffix [of "''AV''" 2 s] by (simp add: strike_of_def numeral_3_eq_3 eval_nat_numeral)

subsection \<open>The adjacent strike\<close>

definition closer_strike :: "jsnum \<Rightarrow> string \<Rightarrow> jsnum \<Rightarrow> jsnum" where
  "closer_strike f option k =
     (if num_le (strike_of option) f \<and> num_lt k (strike_of option) then strike_of option else k)"

lemma fold_closer_strike:
  "k \<noteq> NaN \<Longrightarrow> let r = fold (closer_strike f) opts k in
    num_le k r \<and> (r = k \<or> (\<exists>x \<in> set opts. strike_of x = r \<and> num_le r f \<and> num_lt k r))
    \<and> (\<forall>x \<in> set opts. num_le (strike_of x) f \<longrightarrow> num_le (strike_of x) r)"
proof (induction opts arbitrary: k)
  case (Cons x opts)
  let ?k = "closer_strike f x k"
  have k: "?k \<noteq> NaN" "num_le k ?k" "num_le (strike_of x) f \<Longrightarrow> num_le (strike_of x) ?k"
    using Cons.prems by (auto simp: closer_strike_def num_lt_iff dest: num_le_not_NaN intro: num_not_le)
  have lt: "num_lt k r" if "num_lt ?k r" for r
    using that k(2) by (auto simp: num_lt_iff dest: num_le_not_NaN intro: num_le_trans)
  define r where "r = fold (closer_strike f) opts ?k"
  have IH: "num_le ?k r" "r = ?k \<or> (\<exists>y \<in> set opts. strike_of y = r \<and> num_le r f \<and> num_lt ?k r)"
    "\<forall>y \<in> set opts. num_le (strike_of y) f \<longrightarrow> num_le (strike_of y) r"
    using Cons.IH [OF k(1)] by (simp_all add: Let_def r_def)
  have "?k = k \<or> ?k = strike_of x \<and> num_le ?k f \<and> num_lt k ?k" by (auto simp: closer_strike_def)
  then have "r = k \<or> (\<exists>y \<in> set (x # opts). strike_of y = r \<and> num_le r f \<and> num_lt k r)"
    using IH(2) lt by auto
  moreover have "num_le k r" by (rule num_le_trans [OF k(2) IH(1)])
  moreover have "\<forall>y \<in> set (x # opts). num_le (strike_of y) f \<longrightarrow> num_le (strike_of y) r"
    using IH(3) num_le_trans [OF k(3) IH(1)] by auto
  ultimately show ?case by (simp add: Let_def r_def)
qed simp

lemma adjacentStrikeGet_fold: "adjacentStrikeGet opts f = fold (closer_strike f) opts (Num 0)"
  by (simp add: adjacentStrikeGet_def closer_strike_def [abs_def] Let_def)

subsection \<open>The contribution\<close>

text \<open>The sum of the white paper over real strikes and prices: half the distance between the
  neighbouring strikes, the whole distance to the only neighbour at both ends.\<close>

definition strike_width :: "(nat \<Rightarrow> real) \<Rightarrow> nat \<Rightarrow> nat \<Rightarrow> real" where
  "strike_width K n i = (if i = 0 then K 1 - K 0 else if i = n - 1 then K i - K (i - 1)
     else (K (i + 1) - K (i - 1)) / 2)"

definition variance_sum :: "(nat \<Rightarrow> real) \<Rightarrow> (nat \<Rightarrow> real) \<Rightarrow> nat \<Rightarrow> real" where
  "variance_sum K P n = (\<Sum>i < n. strike_width K n i / (K i)\<^sup>2 * P i)"

lemma delta_strike_real:
  assumes "\<forall>i < length book. strike_of (fst (book ! i)) = Num (K i)" "2 \<le> length book" "i < length book"
  shows "delta_strike book i = Num (strike_width K (length book) i)"
  using assms by (auto simp: delta_strike_def strike_width_def Let_def)

lemma fold_num_add_sum:
  "fold (\<lambda>i acc. num_add acc (Num (g i))) [0..<n] (Num a) = Num (a + (\<Sum>i < n. g i))"
  by (induction n) (simp_all add: add.assoc)

lemma contributionGet_real:
  assumes "\<forall>i < length book. strike_of (fst (book ! i)) = Num (K i) \<and> snd (book ! i) = Num (P i) \<and> K i \<noteq> 0"
    and "2 \<le> length book"
  shows "contributionGet book = Inr (Num (variance_sum K P (length book)))"
proof -
  let ?g = "\<lambda>i. strike_width K (length book) i / (K i)\<^sup>2 * P i"
  have "num_mul (num_div (delta_strike book i) (num_square (strike_of (fst (book ! i))))) (snd (book ! i)) = Num (?g i)"
    if "i < length book" for i
    using assms that delta_strike_real [of book K i] by (simp add: num_square_def power2_eq_square)
  then have "fold (\<lambda>i acc. num_add acc
      (num_mul (num_div (delta_strike book i) (num_square (strike_of (fst (book ! i))))) (snd (book ! i))))
      [0..<length book] (Num 0) = fold (\<lambda>i acc. num_add acc (Num (?g i))) [0..<length book] (Num 0)"
    by (intro fold_cong) auto
  then show ?thesis using assms(2) fold_num_add_sum [of ?g "length book" 0]
    by (simp add: contributionGet_def variance_sum_def)
qed

lemma variance_sum_nonneg:
  assumes "\<forall>i < n. \<forall>j < i. K j \<le> K i" "\<forall>i < n. 0 \<le> P i" "2 \<le> n"
  shows "0 \<le> variance_sum K P n"
proof -
  have "0 \<le> strike_width K n i" if "i < n" for i
    using that assms(1,3) by (auto simp: strike_width_def)
  then show ?thesis using assms(2) by (auto simp: variance_sum_def intro!: sum_nonneg)
qed

subsection \<open>Quotes\<close>

definition fair_quote :: "option_summary \<Rightarrow> bool" where
  "fair_quote msg \<longleftrightarrow> list_all (\<lambda>p. case p of None \<Rightarrow> True | Some (Num x) \<Rightarrow> 0 \<le> x | Some _ \<Rightarrow> False)
     [os_underlyingPrice msg, os_bestBidPrice msg, os_bestAskPrice msg, os_markPrice msg]"

definition mid_quotes :: "(string, jsnum) jsmap \<Rightarrow> bool" where
  "mid_quotes m \<longleftrightarrow> map_ok m \<and> (\<forall>k v. map_get m k = Some v \<longrightarrow> (\<exists>x > 0. v = Num x))"

lemma fair_price: "(case p of None \<Rightarrow> True | Some (Num x) \<Rightarrow> 0 \<le> x | Some _ \<Rightarrow> False) \<Longrightarrow>
    \<exists>x \<ge> 0. or_default p (Num 0) = Num x"
  by (auto split: option.splits jsnum.splits)

lemma fair_mid_price:
  assumes "fair_quote msg"
  shows "mid_price msg = None \<or> (\<exists>x m. mid_price msg = Some (Num x) \<and> 0 \<le> x \<and> 0 \<le> m \<and> x \<le> 3 / 2 * m
    \<and> num_mul (or_default (os_markPrice msg) (Num 0)) (or_default (os_underlyingPrice msg) (Num 0)) = Num m)"
proof -
  obtain u b a m where p: "or_default (os_underlyingPrice msg) (Num 0) = Num u" "0 \<le> u"
    "or_default (os_bestBidPrice msg) (Num 0) = Num b" "0 \<le> b"
    "or_default (os_bestAskPrice msg) (Num 0) = Num a" "0 \<le> a"
    "or_default (os_markPrice msg) (Num 0) = Num m" "0 \<le> m"
    using assms fair_price unfolding fair_quote_def list.pred_inject by meson
  define mark where "mark = m * u"
  define mid where "mid = (a * u + b * u) / 2"
  have "0 \<le> mark" "0 \<le> mid" using p by (simp_all add: mark_def mid_def)
  moreover have "mid_price msg = (if \<not> num_truthy (Num (b * u)) then None
      else if 3 / 2 * mark \<le> mid then Some (Num mark) else Some (Num mid))"
    by (simp add: mid_price_def Let_def p mark_def mid_def)
  ultimately show ?thesis by (auto simp: p mark_def [symmetric])
qed

lemma midBookChange_quotes:
  assumes "fair_quote msg" "mid_quotes m"
  shows "mid_quotes (midBookChange msg m)"
  using fair_mid_price [OF assms(1)] assms(2)
  by (fastforce simp: midBookChange_def mid_quotes_def num_truthy_def split: if_splits)

section \<open>The pair of the forward price\<close>

text \<open>The call and the put of a reduced name are in the book.\<close>

definition quoted_pair :: "(string, jsnum) jsmap \<Rightarrow> string \<Rightarrow> real \<Rightarrow> real \<Rightarrow> bool" where
  "quoted_pair m option c p \<longleftrightarrow>
     map_get m (option @ ''-C'') = Some (Num c) \<and> map_get m (option @ ''-P'') = Some (Num p)"

lemma better_pair_cases:
  assumes "mid_quotes m"
  obtains c p where "quoted_pair m option c p"
      "better_pair m option best = (if num_lt (Num \<bar>c - p\<bar>) (bp_diff best)
        then \<lparr> bp_option = option, bp_diff = Num \<bar>c - p\<bar>, bp_strike = last_part option, bp_call = Num c, bp_put = Num p \<rparr>
        else best)"
    | "\<nexists>c p. quoted_pair m option c p" "better_pair m option best = best"
proof (cases "\<exists>c p. quoted_pair m option c p")
  case True
  then show thesis using that(1) by (auto simp: quoted_pair_def better_pair_def Let_def)
next
  case False
  then have "map_get m (option @ ''-C'') = None \<or> map_get m (option @ ''-P'') = None"
    using assms unfolding mid_quotes_def quoted_pair_def by (metis option.exhaust)
  then have "better_pair m option best = best" by (auto simp: better_pair_def split: option.splits)
  then show thesis using that(2) False by blast
qed

text \<open>After some names: the pair is that of one of them, or none was found, and no pair is closer.\<close>

definition closest_pair :: "(string, jsnum) jsmap \<Rightarrow> string list \<Rightarrow> best_pair \<Rightarrow> bool" where
  "closest_pair m names best \<longleftrightarrow>
     (best = no_pair \<and> (\<forall>option \<in> set names. \<nexists>c p. quoted_pair m option c p)
      \<or> (\<exists>option \<in> set names. \<exists>c p. quoted_pair m option c p
           \<and> best = \<lparr> bp_option = option, bp_diff = Num \<bar>c - p\<bar>, bp_strike = last_part option, bp_call = Num c, bp_put = Num p \<rparr>
           \<and> (\<forall>other \<in> set names. \<forall>c' p'. quoted_pair m other c' p' \<longrightarrow> \<bar>c - p\<bar> \<le> \<bar>c' - p'\<bar>)))"

lemma quoted_pair_unique: "quoted_pair m option c p \<Longrightarrow> quoted_pair m option c' p' \<Longrightarrow> c' = c \<and> p' = p"
  by (simp add: quoted_pair_def)

lemma closest_pairI:
  assumes "option \<in> set names" "quoted_pair m option c p"
    and "\<And>other c' p'. other \<in> set names \<Longrightarrow> quoted_pair m other c' p' \<Longrightarrow> \<bar>c - p\<bar> \<le> \<bar>c' - p'\<bar>"
  shows "closest_pair m names
    \<lparr> bp_option = option, bp_diff = Num \<bar>c - p\<bar>, bp_strike = last_part option, bp_call = Num c, bp_put = Num p \<rparr>"
  using assms unfolding closest_pair_def by blast

lemma closest_pair_step:
  assumes "mid_quotes m" "closest_pair m names best"
  shows "closest_pair m (names @ [option]) (better_pair m option best)"
  using better_pair_cases [OF assms(1), of option best]
proof cases
  case (1 c p)
  have one: "quoted_pair m option c' p' \<Longrightarrow> c' = c \<and> p' = p" for c' p' using quoted_pair_unique [OF 1(1)] .
  consider "best = no_pair" "\<forall>x \<in> set names. \<nexists>c p. quoted_pair m x c p"
    | x c0 p0 where "x \<in> set names" "quoted_pair m x c0 p0"
        "best = \<lparr> bp_option = x, bp_diff = Num \<bar>c0 - p0\<bar>, bp_strike = last_part x, bp_call = Num c0, bp_put = Num p0 \<rparr>"
        "\<forall>y \<in> set names. \<forall>c' p'. quoted_pair m y c' p' \<longrightarrow> \<bar>c0 - p0\<bar> \<le> \<bar>c' - p'\<bar>"
    using assms(2) unfolding closest_pair_def by blast
  then show ?thesis
  proof cases
    case 1
    have "num_lt (Num \<bar>c - p\<bar>) (bp_diff best)" by (simp add: 1(1) no_pair_def num_lt_def)
    then have "better_pair m option best =
        \<lparr> bp_option = option, bp_diff = Num \<bar>c - p\<bar>, bp_strike = last_part option, bp_call = Num c, bp_put = Num p \<rparr>"
      using \<open>better_pair m option best = _\<close> by (simp only: if_True)
    moreover have "\<bar>c - p\<bar> \<le> \<bar>c' - p'\<bar>" if "y \<in> set (names @ [option])" "quoted_pair m y c' p'" for y c' p'
      using that 1(2) one by fastforce
    ultimately show ?thesis using closest_pairI [of option "names @ [option]" m c p] \<open>quoted_pair m option c p\<close> by simp
  next
    case (2 x c0 p0)
    show ?thesis
    proof (cases "\<bar>c - p\<bar> < \<bar>c0 - p0\<bar>")
      case True
      then have "better_pair m option best =
          \<lparr> bp_option = option, bp_diff = Num \<bar>c - p\<bar>, bp_strike = last_part option, bp_call = Num c, bp_put = Num p \<rparr>"
        using \<open>better_pair m option best = _\<close> by (simp add: 2(3))
      moreover have "\<bar>c - p\<bar> \<le> \<bar>c' - p'\<bar>" if "y \<in> set (names @ [option])" "quoted_pair m y c' p'" for y c' p'
        using that True 2(4) one by fastforce
      ultimately show ?thesis using closest_pairI [of option "names @ [option]" m c p] \<open>quoted_pair m option c p\<close> by simp
    next
      case False
      then have "better_pair m option best = best" using \<open>better_pair m option best = _\<close> by (simp add: 2(3))
      moreover have "\<bar>c0 - p0\<bar> \<le> \<bar>c' - p'\<bar>" if "y \<in> set (names @ [option])" "quoted_pair m y c' p'" for y c' p'
        using that False 2(4) one by fastforce
      ultimately show ?thesis using closest_pairI [of x "names @ [option]" m c0 p0] 2(1-3) by simp
    qed
  qed
next
  case 2
  then show ?thesis using assms(2) by (auto simp: closest_pair_def)
qed

lemma closest_pair_fold: "mid_quotes m \<Longrightarrow> closest_pair m names (fold (better_pair m) names no_pair)"
proof (induction names rule: rev_induct)
  case Nil
  then show ?case by (simp add: closest_pair_def)
next
  case (snoc option names)
  then show ?case using closest_pair_step by simp
qed

section \<open>Properties\<close>

text \<open>The adjacent strike is the greatest listed strike that is at most the forward price, and 0
  when no positive strike is.\<close>

theorem adjacent_strike_greatest:
  fixes optionList forwardPrice
  assumes "k = adjacentStrikeGet optionList forwardPrice"
  shows "(k = Num 0 \<or> (\<exists>x \<in> set optionList. strike_of x = k \<and> num_le k forwardPrice \<and> num_lt (Num 0) k))
    \<and> (\<forall>x \<in> set optionList. num_le (strike_of x) forwardPrice \<longrightarrow> num_le (strike_of x) k)"
  using fold_closer_strike [of "Num 0" forwardPrice optionList]
  by (auto simp: assms adjacentStrikeGet_fold Let_def)

text \<open>C32: the final book.  With two quotes at the strike it holds exactly the puts below and the calls
  above the strike and one entry at it with the average of the first two quotes, sorted by strike;
  with fewer it throws.\<close>

theorem final_book_content:
  assumes "list_all (\<lambda>e. part_of 3 (fst e) \<noteq> None) entries"
    and "quotes = filter (at_strike targetStrike) entries"
  shows "if length quotes < 2 then finalBookGet entries targetStrike = Inl type_error
    else \<exists>finalBook avg. finalBookGet entries targetStrike = Inr finalBook
      \<and> mset finalBook = add_mset avg (filter_mset (keeps_entry targetStrike) (mset entries))
      \<and> strike_of (fst avg) = targetStrike
      \<and> snd avg = num_div (num_add (snd (quotes ! 0)) (snd (quotes ! 1))) (Num 2)
      \<and> sorted_wrt (\<lambda>a b. num_le (strike_of (fst a)) (strike_of (fst b))) finalBook"
proof -
  have q: "filter (\<lambda>e. \<not> keeps_entry targetStrike e \<and> at_strike targetStrike e) entries = quotes"
    unfolding assms(2) by (rule filter_cong) (auto simp: keeps_entry_def at_strike_def num_lt_iff num_eq_iff)
  show ?thesis
  proof (cases "length quotes < 2")
    case True
    then show ?thesis unfolding finalBookGet_def q by (auto split: list.splits)
  next
    case False
    then obtain e0 e1 r where e: "quotes = e0 # e1 # r"
      by (metis (no_types) One_nat_def Suc_1 length_Cons less_Suc0 less_Suc_eq list.exhaust list.size(3) zero_less_Suc)
    then have e0: "e0 \<in> set entries" "strike_of (fst e0) = targetStrike" "targetStrike \<noteq> NaN"
      using assms(2) by (auto simp: filter_eq_Cons_iff at_strike_def num_eq_iff)
    define avg where "avg = (fst e0 @ ''AV'', num_div (num_add (snd e0) (snd e1)) (Num 2))"
    have avg: "strike_of (fst avg) = targetStrike"
      using strike_of_average assms(1) e0 by (auto simp: avg_def list_all_iff)
    let ?es = "filter (keeps_entry targetStrike) entries @ [avg]"
    have "\<forall>x \<in> set ?es. strike_of (fst x) \<noteq> NaN"
      using avg e0(3) by (auto simp: keeps_entry_def num_lt_iff)
    from sorted_num_sort [OF this]
    show ?thesis using False avg unfolding finalBookGet_def q e by (auto simp: avg_def)
  qed
qed

text \<open>C33: over real strikes and prices the contribution is the sum of the white paper, which is not
  negative when the strikes ascend; a book of a single entry throws.\<close>

theorem contribution_is_variance_sum:
  assumes "\<forall>i < length book. strike_of (fst (book ! i)) = Num (K i) \<and> snd (book ! i) = Num (P i) \<and> 0 < K i \<and> 0 \<le> P i"
    and "\<forall>i < length book. \<forall>j < i. K j \<le> K i" "book \<noteq> []"
  shows "if length book = 1 then contributionGet book = Inl type_error
    else contributionGet book = Inr (Num (variance_sum K P (length book))) \<and> 0 \<le> variance_sum K P (length book)"
proof (cases "length book = 1")
  case False
  then have "2 \<le> length book" using assms(3) by (cases book) (auto simp: Suc_le_eq)
  then show ?thesis
    using False contributionGet_real [of book K P] variance_sum_nonneg [of "length book" K P] assms(1,2)
    by (simp add: less_imp_neq [symmetric])
qed (simp add: contributionGet_def)

text \<open>C40: the strike of the forward price.  Among the strikes of the listed options whose call and put
  both have a price in the book, it is one whose two prices lie closest together; the forward price is
  that strike, carried by the difference of the prices and the rate up to the expiry in its name.
  With no such strike the forward price is made of zeros.\<close>

theorem forward_price_pair:
  assumes "mid_quotes m"
  shows "if \<exists>x \<in> set options. \<exists>c p. quoted_pair m (reduced_option x) c p
    then \<exists>x \<in> set options. \<exists>c p. quoted_pair m (reduced_option x) c p
      \<and> (\<forall>y \<in> set options. \<forall>c' p'. quoted_pair m (reduced_option y) c' p' \<longrightarrow> \<bar>c - p\<bar> \<le> \<bar>c' - p'\<bar>)
      \<and> forwardPriceGet ms_to year_ms rate m options = num_add (last_part (reduced_option x))
          (num_mul (num_exp (num_mul rate (num_div (ms_to (part_of 1 (reduced_option x))) year_ms))) (Num (c - p)))
    else forwardPriceGet ms_to year_ms rate m options =
      num_add (Num 0) (num_mul (num_exp (num_mul rate (num_div (ms_to None) year_ms))) (Num 0))"
proof -
  let ?names = "rev (remdups (rev (map reduced_option options)))"
  have names: "set ?names = reduced_option ` set options" by simp
  have best: "best_pair_of m options = fold (better_pair m) ?names no_pair" by (simp add: best_pair_of_def)
  from closest_pair_fold [OF assms, of ?names] show ?thesis
    unfolding best [symmetric] closest_pair_def names
  proof (elim disjE conjE)
    assume "best_pair_of m options = no_pair" "\<forall>option \<in> reduced_option ` set options. \<nexists>c p. quoted_pair m option c p"
    then show ?thesis by (simp add: forwardPriceGet_def no_pair_def part_of_def Let_def)
  next
    assume "\<exists>option \<in> reduced_option ` set options. \<exists>c p. quoted_pair m option c p
      \<and> best_pair_of m options = \<lparr> bp_option = option, bp_diff = Num \<bar>c - p\<bar>, bp_strike = last_part option, bp_call = Num c, bp_put = Num p \<rparr>
      \<and> (\<forall>other \<in> reduced_option ` set options. \<forall>c' p'. quoted_pair m other c' p' \<longrightarrow> \<bar>c - p\<bar> \<le> \<bar>c' - p'\<bar>)"
    then obtain x c p where x: "x \<in> set options" "quoted_pair m (reduced_option x) c p"
      "best_pair_of m options = \<lparr> bp_option = reduced_option x, bp_diff = Num \<bar>c - p\<bar>,
        bp_strike = last_part (reduced_option x), bp_call = Num c, bp_put = Num p \<rparr>"
      "\<forall>y \<in> set options. \<forall>c' p'. quoted_pair m (reduced_option y) c' p' \<longrightarrow> \<bar>c - p\<bar> \<le> \<bar>c' - p'\<bar>"
      by auto
    have "forwardPriceGet ms_to year_ms rate m options = num_add (last_part (reduced_option x))
          (num_mul (num_exp (num_mul rate (num_div (ms_to (part_of 1 (reduced_option x))) year_ms))) (Num (c - p)))"
      by (simp add: forwardPriceGet_def x(3))
    with x(1,2,4) show ?thesis by (auto split: if_splits)
  qed
qed

section \<open>Witnesses\<close>

definition sample_names :: "string list" where
  "sample_names = [''ETH-13MAY22-2800-P'', ''ETH-13MAY22-3000-C'', ''ETH-13MAY22-3000-P'', ''ETH-13MAY22-3200-C'']"

lemma sample_strikes:
  "map strike_of sample_names = [Num 2800, Num 3000, Num 3000, Num 3200]"
  "map (part_of 3) sample_names = [Some ''P'', Some ''C'', Some ''P'', Some ''C'']"
  by (simp_all add: sample_names_def strike_of_def part_of_def Let_def string_to_number_def trim_def is_space_def
      unsigned_decimal_def is_digit_def dec_val_def digit_val_def pow10_def)

lemma adjacent_strike_greatest_witness: "num_le (Num 3000) (adjacentStrikeGet sample_names (Num 3100))"
proof -
  have "''ETH-13MAY22-3000-C'' \<in> set sample_names" "strike_of ''ETH-13MAY22-3000-C'' = Num 3000"
    using sample_strikes by (simp_all add: sample_names_def)
  then show ?thesis using adjacent_strike_greatest [OF refl, of sample_names "Num 3100"] by fastforce
qed

definition sample_book :: book where
  "sample_book = zip sample_names [Num 10, Num 90, Num 80, Num 20]"

lemma final_book_content_witness:
  "\<exists>b. finalBookGet sample_book (Num 3000) = Inr b \<and> length b = 3"
proof -
  have 1: "list_all (\<lambda>e. part_of 3 (fst e) \<noteq> None) sample_book"
    using sample_strikes by (simp add: sample_book_def sample_names_def)
  have "filter (at_strike (Num 3000)) sample_book = [(''ETH-13MAY22-3000-C'', Num 90), (''ETH-13MAY22-3000-P'', Num 80)]"
    and k: "filter_mset (keeps_entry (Num 3000)) (mset sample_book) = {#(''ETH-13MAY22-2800-P'', Num 10), (''ETH-13MAY22-3200-C'', Num 20)#}"
    using sample_strikes
    by (simp_all add: sample_book_def sample_names_def at_strike_def keeps_entry_def num_lt_def)
  then obtain b avg where b: "finalBookGet sample_book (Num 3000) = Inr b"
    "mset b = add_mset avg (filter_mset (keeps_entry (Num 3000)) (mset sample_book))"
    using final_book_content [OF 1 refl, of "Num 3000"] by auto
  then have "size (mset b) = 3" unfolding b(2) k by simp
  then show ?thesis using b by (metis size_mset)
qed

lemma contribution_is_variance_sum_witness:
  "contributionGet [(''ETH-13MAY22-2800-P'', Num 10), (''ETH-13MAY22-3200-C'', Num 20)]
    = Inr (Num (400 / 2800\<^sup>2 * 10 + 400 / 3200\<^sup>2 * 20))"
proof -
  let ?b = "[(''ETH-13MAY22-2800-P'', Num 10), (''ETH-13MAY22-3200-C'', Num 20)]"
  have "contributionGet ?b = Inr (Num (variance_sum (\<lambda>i. [2800, 3200] ! i) (\<lambda>i. [10, 20] ! i) (length ?b)))"
    using contribution_is_variance_sum [of ?b "\<lambda>i. [2800, 3200] ! i" "\<lambda>i. [10, 20] ! i"] sample_strikes
    by (simp add: sample_names_def less_Suc_eq)
  then show ?thesis by (simp add: variance_sum_def strike_width_def)
qed

lemma sample_quotes: "mid_quotes [(''ETH-13MAY22-3000-C'', Num 90), (''ETH-13MAY22-3000-P'', Num 80),
    (''ETH-13MAY22-3200-C'', Num 20), (''ETH-13MAY22-3200-P'', Num 190)]"
  by (auto simp: mid_quotes_def map_ok_def map_keys_def map_get_def split: if_splits)

lemma forward_price_pair_witness:
  "\<exists>x \<in> set sample_names. \<exists>c p. \<bar>c - p\<bar> \<le> 10
    \<and> forwardPriceGet (\<lambda>_. Num 0) (Num 31536000000) (Num (1 / 100)) [(''ETH-13MAY22-3000-C'', Num 90), (''ETH-13MAY22-3000-P'', Num 80),
        (''ETH-13MAY22-3200-C'', Num 20), (''ETH-13MAY22-3200-P'', Num 190)] sample_names
      = num_add (last_part (reduced_option x)) (Num (c - p))"
proof -
  let ?m = "[(''ETH-13MAY22-3000-C'', Num 90), (''ETH-13MAY22-3000-P'', Num 80),
    (''ETH-13MAY22-3200-C'', Num 20), (''ETH-13MAY22-3200-P'', Num 190)]"
  have q: "quoted_pair ?m (reduced_option ''ETH-13MAY22-3000-C'') 90 80" "''ETH-13MAY22-3000-C'' \<in> set sample_names"
    by (simp_all add: quoted_pair_def reduced_option_def map_get_def sample_names_def)
  then have ex: "\<exists>x \<in> set sample_names. \<exists>c p. quoted_pair ?m (reduced_option x) c p" by blast
  from forward_price_pair [OF sample_quotes, of sample_names "\<lambda>_. Num 0" "Num 31536000000" "Num (1 / 100)", unfolded if_P [OF ex]]
  obtain x c p where x: "x \<in> set sample_names"
    "\<forall>y \<in> set sample_names. \<forall>c' p'. quoted_pair ?m (reduced_option y) c' p' \<longrightarrow> \<bar>c - p\<bar> \<le> \<bar>c' - p'\<bar>"
    "forwardPriceGet (\<lambda>_. Num 0) (Num 31536000000) (Num (1 / 100)) ?m sample_names = num_add (last_part (reduced_option x))
      (num_mul (num_exp (num_mul (Num (1 / 100)) (num_div (Num 0) (Num 31536000000)))) (Num (c - p)))"
    by blast
  have "\<bar>c - p\<bar> \<le> \<bar>90 - 80\<bar>" using x(2) q by blast
  then show ?thesis using x(1,3) by (intro bexI [OF _ x(1)] exI [of _ c] exI [of _ p]) simp
qed

end
