(* ===== verification/VixV1.thy ===== *)
theory VixV1
  imports VixBook VixV2
begin

text \<open>
  \<^verbatim>\<open>src/lib/vix_calculator.ts\<close>, the first calculator: it keeps the mid prices of
  the options of the near and next expiries, computes the index from them with the arithmetic of
  \<open>VixBook\<close> at every message, and rolls over on the weekly schedule.  The state is the record of
  the fields with the trace of the callbacks; the field \<^verbatim>\<open>summary\<close>, which is only
  ever cleared, and the error callback, which is never called, are left out.  The exchange, the
  instruments, the clock and the two uses of the date format are the record \<open>v1_env\<close>.
\<close>

section \<open>Data\<close>

record v1_index =
  i1_value :: jsnum
  i1_dVol :: jsnum
  i1_invdVol :: jsnum
  i1_methodology :: string
  i1_asset :: string
  i1_timestamp :: string
  i1_underlyingPrice :: jsnum
  i1_rate :: interest_rate

record v1_config =
  c1_replayFrom :: string
  c1_replayTo :: string
  c1_reportFrequency :: "jsnum option"
  c1_rolloverFrequency :: string
  c1_asset :: string

record v1_env =
  e1_dayjs :: dayjs_lib
  e1_format :: "jsdate \<Rightarrow> string"
  e1_parse :: "string option \<Rightarrow> jsdate"
  e1_now :: "nat \<Rightarrow> jsdate"
  e1_instruments :: "nat \<Rightarrow> instrument_info list result"
  e1_stream :: "nat \<Rightarrow> stream_request \<Rightarrow> option_summary list \<times> thrown option"

record v1 =
  w_refDate :: jsdate
  w_startDate :: jsdate
  w_rolloverAt :: jsdate
  w_nearExpiry :: jsdate
  w_nextExpiry :: jsdate
  w_risklessRate :: jsnum
  w_reportFrequency :: jsnum
  w_rolloverFrequency :: string
  w_maxDuration :: jsnum
  w_asset :: string
  w_nearOptionList :: "string list"
  w_nextOptionList :: "string list"
  w_index :: "jsnum option"
  w_invdVol :: "jsnum option"
  w_log :: "(string, jsnum) jsmap"
  w_midBook :: "(string, jsnum) jsmap"
  w_computed :: "v1_index list"
  w_completed :: nat

section \<open>Rollover\<close>

text \<open>Eight o'clock of the day of a date, some days later.  An invalid day makes the result
  invalid.\<close>

definition at_eight_plus :: "dayjs_lib \<Rightarrow> jsdate \<Rightarrow> int option \<Rightarrow> jsdate" where
  "at_eight_plus D d days =
     (let base = dj_start_of D Hour (dj_set_hour D 8 (dj_of_date D d)) in
      case days of None \<Rightarrow> dj_add D NaN Day base | Some n \<Rightarrow> dj_add_int D n Day base)"

text \<open>The dates are printed, which throws for one that is invalid.\<close>

definition print_dates :: "dayjs_lib \<Rightarrow> v1 \<Rightarrow> v1 result" where
  "print_dates D s =
     res_bind (dj_to_iso D (w_rolloverAt s)) (\<lambda>_.
     res_bind (dj_to_iso D (w_nearExpiry s)) (\<lambda>_.
     res_bind (dj_to_iso D (w_nextExpiry s)) (\<lambda>_. Inr s)))"

definition rolloverWeekly :: "dayjs_lib \<Rightarrow> v1 \<Rightarrow> v1 result" where
  "rolloverWeekly D s =
     (let ref = w_refDate s; day = dj_day D ref;
          late = (case dj_hour D ref of Some h \<Rightarrow> 8 \<le> h | None \<Rightarrow> False);
          nextExpiry = (if day = Some 5 \<and> late then at_eight_plus D ref (Some 21)
                        else if day = Some 6 then at_eight_plus D ref (Some 20)
                        else at_eight_plus D ref (map_option (\<lambda>d. 19 - d) day))
      in res_bind (dj_to_iso D ref) (\<lambda>_. print_dates D
           (s\<lparr> w_nextExpiry := nextExpiry,
               w_nearExpiry := dj_add_int D (- 7) Day (dj_of_date D nextExpiry),
               w_rolloverAt := dj_add_int D (- 14) Day (dj_of_date D nextExpiry) \<rparr>)))"

definition hour_start :: "dayjs_lib \<Rightarrow> int \<Rightarrow> jsdate \<Rightarrow> jsdate" where
  "hour_start D h d = dj_start_of D Hour (dj_set_hour D h d)"

definition plus_days :: "dayjs_lib \<Rightarrow> int option \<Rightarrow> jsdate \<Rightarrow> jsdate" where
  "plus_days D days d = (case days of None \<Rightarrow> dj_add D NaN Day d | Some n \<Rightarrow> dj_add_int D n Day d)"

definition rolloverSemiWeekly :: "dayjs_lib \<Rightarrow> v1 \<Rightarrow> v1 result" where
  "rolloverSemiWeekly D s =
     (let ref = w_refDate s; day = dj_day D ref; from = (\<lambda>n. map_option (\<lambda>d. n - d) day);
          hour_in = (\<lambda>P. case dj_hour D ref of Some h \<Rightarrow> P h | None \<Rightarrow> False);
          s1 = s\<lparr> w_nearExpiry := at_eight_plus D ref (from 12) \<rparr>
      in print_dates D
        (if day = Some 4 \<and> hour_in (\<lambda>h. 14 \<le> h) \<or> day = Some 5 \<or> day = Some 6
            \<or> day = Some 0 \<and> hour_in (\<lambda>h. h \<le> 2)
         then s1\<lparr> w_rolloverAt := hour_start D 2 (plus_days D (from 7) (dj_of_date D ref)),
                  w_nextExpiry := at_eight_plus D ref (from 26) \<rparr>
         else s1\<lparr> w_rolloverAt := hour_start D 14 (plus_days D (from 4) (dj_of_date D ref)),
                  w_nextExpiry := at_eight_plus D ref (from 19) \<rparr>))"

text \<open>The rollover frequency is kept and not consulted.\<close>

definition setupRollover :: "dayjs_lib \<Rightarrow> v1 \<Rightarrow> v1 result" where
  "setupRollover D s = rolloverWeekly D s"

definition new_v1 :: "dayjs_lib \<Rightarrow> v1_config \<Rightarrow> v1 result" where
  "new_v1 D config =
     (let ref = dj_start_of D Minute (dj_utc D (c1_replayFrom config)) in
      setupRollover D
        \<lparr> w_refDate = ref, w_startDate = ref, w_rolloverAt = None, w_nearExpiry = None, w_nextExpiry = None,
          w_risklessRate = ir_risklessRate getInterestRate,
          w_reportFrequency = or_default (c1_reportFrequency config) (dj_duration_ms D (Num 5) Second),
          w_rolloverFrequency = c1_rolloverFrequency config,
          w_maxDuration = num_of_date (dj_diff D (dj_utc D (c1_replayTo config)) ref),
          w_asset = c1_asset config, w_nearOptionList = [], w_nextOptionList = [], w_index = None,
          w_invdVol = None, w_log = [], w_midBook = [], w_computed = [], w_completed = 0 \<rparr>)"

section \<open>The option lists\<close>

definition expirationDateToString :: "v1_env \<Rightarrow> jsdate \<Rightarrow> string" where
  "expirationDateToString E expiration = to_upper (e1_format E (dj_of_date (e1_dayjs E) expiration))"

definition options_expiring :: "v1_env \<Rightarrow> jsdate \<Rightarrow> instrument_info list \<Rightarrow> string list" where
  "options_expiring E expiry instruments =
     filter (\<lambda>i. part_of 1 i = Some (expirationDateToString E expiry)) (map ii_id instruments)"

definition v1_buildOptionLists :: "v1_env \<Rightarrow> nat \<Rightarrow> v1 \<Rightarrow> unit result \<times> v1" where
  "v1_buildOptionLists E k s =
     (case e1_instruments E k of
        Inl e \<Rightarrow> (Inl e, s)
      | Inr instruments \<Rightarrow>
          (Inr (), s\<lparr> w_nearOptionList := options_expiring E (w_nearExpiry s) instruments,
                      w_nextOptionList := options_expiring E (w_nextExpiry s) instruments \<rparr>))"

definition v1_createStream :: "v1_env \<Rightarrow> nat \<Rightarrow> v1 \<Rightarrow> stream_request result" where
  "v1_createStream E k s =
     (let D = e1_dayjs E; symbols = w_nearOptionList s @ w_nextOptionList s;
          maxRef = dj_add D (w_maxDuration s) Ms (dj_of_date D (w_refDate s))
      in if dj_is_before D (w_refDate s) (dj_start_of D Minute (e1_now E k))
         then res_bind (dj_to_iso D (dj_of_date D (w_refDate s))) (\<lambda>from.
              res_bind (dj_to_iso D (if dj_is_after D maxRef (w_rolloverAt s) then w_rolloverAt s else maxRef)) (\<lambda>to.
                Inr (ReplayRequest ''deribit'' symbols from to)))
         else Inr (LiveRequest ''deribit'' symbols))"

section \<open>The index\<close>

definition msToExpiration :: "v1_env \<Rightarrow> v1 \<Rightarrow> string option \<Rightarrow> jsnum" where
  "msToExpiration E s name =
     num_of_date (dj_diff (e1_dayjs E) (dj_of_date (e1_dayjs E) (e1_parse E name)) (w_refDate s))"

text \<open>The terms of the formula: the book is filtered before the final book is built, for both
  expiries; the contributions follow.\<close>

definition v1_terms :: "v1_env \<Rightarrow> v1 \<Rightarrow> index_terms result" where
  "v1_terms E s =
     (let D = e1_dayjs E; year = dj_duration_ms D (Num 1) Year;
          forward = forwardPriceGet (msToExpiration E s) year (w_risklessRate s) (w_midBook s);
          f1 = forward (w_nearOptionList s); f2 = forward (w_nextOptionList s);
          k1 = adjacentStrikeGet (w_nearOptionList s) f1; k2 = adjacentStrikeGet (w_nextOptionList s) f2;
          nearEntries = filterBook (expirationDateToString E (w_nearExpiry s)) (w_midBook s);
          nextEntries = filterBook (expirationDateToString E (w_nextExpiry s)) (w_midBook s)
      in res_bind (finalBookGet nearEntries k1) (\<lambda>nearBook.
         res_bind (finalBookGet nextEntries k2) (\<lambda>nextBook.
         res_bind (contributionGet nearBook) (\<lambda>near.
         res_bind (contributionGet nextBook) (\<lambda>next.
           Inr \<lparr> it_NT1 = num_sub (num_of_date (w_nearExpiry s)) (num_of_date (w_refDate s)),
                 it_NT2 = num_sub (num_of_date (w_nextExpiry s)) (num_of_date (w_refDate s)),
                 it_N14 = dj_duration_ms D (Num 2) Week, it_N365 = year, it_f1 = f1, it_f2 = f2,
                 it_k1 = k1, it_k2 = k2, it_near = near, it_next = next \<rparr>)))))"

text \<open>The fields are assigned only when nothing throws.\<close>

definition v1_calculateIndex :: "v1_env \<Rightarrow> v1 \<Rightarrow> jsnum result \<times> v1" where
  "v1_calculateIndex E s =
     (case v1_terms E s of
        Inl e \<Rightarrow> (Inl e, s)
      | Inr terms \<Rightarrow>
          (let dVol = dVol_of (w_risklessRate s) terms; index = num_mul (Num 100) dVol in
           (Inr index, s\<lparr> w_index := Some index,
              w_invdVol := Some (num_mul (Num 100) (num_div (Num 1) dVol)) \<rparr>)))"

text \<open>The assignment after the call repeats the one inside it; an error is dropped.\<close>

definition try_index :: "v1_env \<Rightarrow> v1 \<Rightarrow> v1" where
  "try_index E s =
     (case v1_calculateIndex E s of
        (Inr index, s1) \<Rightarrow> if num_truthy index then s1\<lparr> w_index := Some index \<rparr> else s1
      | (Inl _, s1) \<Rightarrow> s1)"

definition v1_report :: "v1_env \<Rightarrow> jsdate \<Rightarrow> option_summary \<Rightarrow> v1 \<Rightarrow> v1 result" where
  "v1_report E ts msg s =
     res_bind (dj_to_iso (e1_dayjs E) ts) (\<lambda>time.
       Inr (s\<lparr> w_computed := w_computed s @ [\<lparr> i1_value = or_default (w_index s) (Num 0),
         i1_dVol = or_default (w_index s) (Num 0), i1_invdVol = or_default (w_invdVol s) (Num 0),
         i1_methodology = ''MFIV'', i1_asset = w_asset s, i1_timestamp = time,
         i1_underlyingPrice = or_default (os_underlyingPrice msg) (Num 0), i1_rate = getInterestRate \<rparr>] \<rparr>))"

section \<open>The stream\<close>

datatype v1_exit = Go | Stop | RollOver | Failed thrown

text \<open>\<^verbatim>\<open>if (breakOnFirstSuccess && this.index)\<close>: neither null nor 0 nor
  \<^verbatim>\<open>NaN\<close>.\<close>

definition v1_on_message ::
  "v1_env \<Rightarrow> bool \<Rightarrow> option_summary \<Rightarrow> jsdate \<times> v1 \<Rightarrow> v1_exit \<times> jsdate \<times> v1" where
  "v1_on_message E breakOnFirst msg ls =
     (let D = e1_dayjs E; lastReport = fst ls; s = snd ls;
          ts = message_ts D msg;
          s1 = try_index E (s\<lparr> w_midBook := midBookChange msg (w_midBook s) \<rparr>);
          due = num_le (w_reportFrequency s1) (num_of_date (dj_diff D ts lastReport));
          lr = (if due then ts else lastReport)
      in case (if due then v1_report E ts msg s1 else Inr s1) of
           Inl e \<Rightarrow> (Failed e, lr, s1)
         | Inr s2 \<Rightarrow>
             if breakOnFirst \<and> (\<exists>x. w_index s2 = Some x \<and> num_truthy x) then (Stop, lr, s2)
             else if num_le (w_maxDuration s2) (num_of_date (dj_diff D ts (w_startDate s2))) then (Stop, lr, s2)
             else if dj_is_same_or_after D ts (w_rolloverAt s2) then (RollOver, lr, s2)
             else (Go, lr, s2))"

fun v1_stream_loop ::
  "v1_env \<Rightarrow> bool \<Rightarrow> option_summary list \<Rightarrow> jsdate \<times> v1 \<Rightarrow> v1_exit \<times> jsdate \<times> v1" where
  "v1_stream_loop E breakOnFirst [] ls = (Go, ls)"
| "v1_stream_loop E breakOnFirst (msg # msgs) ls =
     (case v1_on_message E breakOnFirst msg ls of
        (Go, ls1) \<Rightarrow> v1_stream_loop E breakOnFirst msgs ls1
      | (exit, ls1) \<Rightarrow> (exit, ls1))"

text \<open>The next stream of a rollover starts at its date.\<close>

definition v1_roll_over :: "v1_env \<Rightarrow> nat \<Rightarrow> v1 \<Rightarrow> unit result \<times> v1" where
  "v1_roll_over E k s =
     (let s1 = s\<lparr> w_refDate := dj_of_date (e1_dayjs E) (w_rolloverAt s) \<rparr> in
      case setupRollover (e1_dayjs E) s1 of
        Inl e \<Rightarrow> (Inl e, s1)
      | Inr s2 \<Rightarrow> v1_buildOptionLists E (k + 1) s2)"

definition v1_complete :: "v1 \<Rightarrow> jsnum result \<times> v1" where
  "v1_complete s = (Inr (or_default (w_index s) (Num 0)), s\<lparr> w_completed := w_completed s + 1 \<rparr>)"

text \<open>The fuel bounds the number of streams.\<close>

fun v1_summaryStream :: "v1_env \<Rightarrow> nat \<Rightarrow> bool \<Rightarrow> nat \<Rightarrow> v1 \<Rightarrow> (jsnum result \<times> v1) option" where
  "v1_summaryStream E 0 breakOnFirst k s = None"
| "v1_summaryStream E (Suc fuel) breakOnFirst k s =
     (let D = e1_dayjs E; lastReport = dj_add_int D (- 1) Minute (dj_of_date D (w_refDate s)) in
      case v1_createStream E k s of
        Inl e \<Rightarrow> Some (Inl e, s)
      | Inr req \<Rightarrow>
          (case e1_stream E k req of (msgs, failure) \<Rightarrow>
             case v1_stream_loop E breakOnFirst msgs (lastReport, s) of
               (RollOver, _, s1) \<Rightarrow>
                 (case v1_roll_over E k s1 of
                    (Inl e, s2) \<Rightarrow> Some (Inl e, s2)
                  | (Inr _, s2) \<Rightarrow> v1_summaryStream E fuel False (k + 1) s2)
             | (Stop, _, s1) \<Rightarrow> Some (v1_complete s1)
             | (Failed e, _, s1) \<Rightarrow> Some (Inl e, s1)
             | (Go, _, s1) \<Rightarrow>
                 (case failure of Some e \<Rightarrow> Some (Inl e, s1) | None \<Rightarrow> Some (v1_complete s1))))"

definition v1_fetchIndex :: "v1_env \<Rightarrow> nat \<Rightarrow> v1 \<Rightarrow> (vix_result result \<times> v1) option" where
  "v1_fetchIndex E fuel s =
     (case v1_buildOptionLists E 0 s of
        (Inl e, s1) \<Rightarrow> Some (Inl e, s1)
      | (Inr _, s1) \<Rightarrow>
          (case v1_summaryStream E fuel False 0 s1 of
             None \<Rightarrow> None
           | Some (Inl e, s2) \<Rightarrow> Some (Inl e, s2)
           | Some (Inr _, s2) \<Rightarrow>
               let avgIndex = num_div (num_sum (map_values (w_log s2))) (Num (of_nat (length (w_log s2)))) in
               Some (res_bind (dj_to_iso (e1_dayjs E) (w_refDate s2)) (\<lambda>time.
                 Inr \<lparr> vr_at = time, vr_index = avgIndex \<rparr>), s2)))"

section \<open>The weekly schedule\<close>

context dayjs_utc begin

lemma of_date_eight:
  assumes "four_digit_year t" "four_digit_year ((day_of t + n) * msPerDay + 8 * msPerHour)"
    and "four_digit_year (day_of t * msPerDay + 8 * msPerHour)"
    and "four_digit_year (day_of t * msPerDay + 8 * msPerHour + t mod msPerHour)"
  shows "at_eight_plus D (Some t) (Some n) = Some ((day_of t + n) * msPerDay + 8 * msPerHour)"
proof -
  have "(day_of t * msPerDay + 8 * msPerHour + t mod msPerHour) mod msPerHour = t mod msPerHour"
    using mod_mult_self3 [of "day_of t * 24 + 8" msPerHour "t mod msPerHour"] by (simp add: algebra_simps)
  then have "dj_start_of D Hour (dj_set_hour D 8 (Some t)) = Some (day_of t * msPerDay + 8 * msPerHour)"
    using assms(1,4) set_hour [of t 8] start_of [of "day_of t * msPerDay + 8 * msPerHour + t mod msPerHour" Hour]
    by simp
  moreover have "day_of t * msPerDay + 8 * msPerHour + n * msPerDay = (day_of t + n) * msPerDay + 8 * msPerHour"
    by (simp add: algebra_simps)
  ultimately show ?thesis
    using assms(1-3) add_days [of "day_of t * msPerDay + 8 * msPerHour" n]
    by (simp add: at_eight_plus_def of_date algebra_simps)
qed

lemma rolloverWeekly_next_friday8:
  assumes "w_refDate s = Some t" "four_digit_year (t - msPerDay)" "four_digit_year (t + 22 * msPerDay)"
  shows "rolloverWeekly D s = Inr (s\<lparr> w_nextExpiry := Some (next_friday8 t + 2 * msPerWeek),
    w_nearExpiry := Some (next_friday8 t + msPerWeek), w_rolloverAt := Some (next_friday8 t) \<rparr>)"
proof -
  define n where "n = (if utc_day t = 5 \<and> 8 \<le> utc_hours t then 21
    else if utc_day t = 6 then 20 else 19 - utc_day t)"
  have fri: "(day_of t + n) * msPerDay + 8 * msPerHour = next_friday8 t + 2 * msPerWeek"
    by (rule friday_offset [OF n_def])
  note nf = next_friday8_props(2,3) [of t]
  have between: "four_digit_year u" if "t - msPerDay \<le> u" "u \<le> t + 22 * msPerDay" for u
    using that assms(2,3) by (auto simp: four_digit_year_def)
  have y: "four_digit_year t" "four_digit_year (next_friday8 t)" "four_digit_year (next_friday8 t + msPerWeek)"
    "four_digit_year (next_friday8 t + 2 * msPerWeek)"
    using nf by (auto intro!: between)
  have r: "day_of t * msPerDay \<le> t" "t < day_of t * msPerDay + msPerDay"
    using mult_div_mod_eq [of msPerDay t] pos_mod_bound [of msPerDay t] pos_mod_sign [of msPerDay t]
    by (simp_all add: day_of_def)
  have z: "four_digit_year (day_of t * msPerDay + 8 * msPerHour)"
    "four_digit_year (day_of t * msPerDay + 8 * msPerHour + t mod msPerHour)"
    using r pos_mod_bound [of msPerHour t] pos_mod_sign [of msPerHour t] by (auto intro!: between)
  have at: "at_eight_plus D (Some t) (Some n) = Some (next_friday8 t + 2 * msPerWeek)"
    using of_date_eight [OF y(1) y(4) [folded fri] z] unfolding fri .
  have nxt: "(if dj_day D (Some t) = Some 5 \<and> (case dj_hour D (Some t) of Some h \<Rightarrow> 8 \<le> h | None \<Rightarrow> False)
      then at_eight_plus D (Some t) (Some 21)
      else if dj_day D (Some t) = Some 6 then at_eight_plus D (Some t) (Some 20)
      else at_eight_plus D (Some t) (map_option (\<lambda>d. 19 - d) (dj_day D (Some t))))
    = Some (next_friday8 t + 2 * msPerWeek)"
    unfolding at [symmetric] by (simp add: day hour y n_def)
  have minus: "dj_add_int D (- 7) Day (Some (next_friday8 t + 2 * msPerWeek)) = Some (next_friday8 t + msPerWeek)"
    "dj_add_int D (- 14) Day (Some (next_friday8 t + 2 * msPerWeek)) = Some (next_friday8 t)"
    using add_days [OF y(4), of "- 7"] add_days [OF y(4), of "- 14"] y by (simp_all add: add.commute)
  show ?thesis
    unfolding rolloverWeekly_def assms(1) Let_def nxt of_date [OF y(4)] minus
    by (simp add: to_iso y y(4) [simplified] print_dates_def)
qed

end

end
