(* ===== verification/VixV1Run.thy ===== *)
theory VixV1Run
  imports VixV1
begin

text \<open>
  Runs of the first calculator: the reference date and the expiries stay on the weekly schedule
  and the book stays a book of positive prices from the constructor to the end of
  \<^verbatim>\<open>fetchIndex\<close>, the streams end, and the index is an interpolation between
  the variances of the two expiries.
\<close>

section \<open>What a message leaves alone\<close>

definition v1_fixed :: "v1 \<Rightarrow> jsdate list \<times> jsnum \<times> (string, jsnum) jsmap" where
  "v1_fixed s = ([w_refDate s, w_startDate s, w_rolloverAt s, w_nearExpiry s, w_nextExpiry s],
     w_maxDuration s, w_log s)"

lemma v1_calculateIndex_fixed:
  "v1_calculateIndex E s = (r, s') \<Longrightarrow> v1_fixed s' = v1_fixed s \<and> w_midBook s' = w_midBook s"
  by (auto simp: v1_calculateIndex_def v1_fixed_def Let_def split: sum.splits)

lemma try_index_fixed: "v1_fixed (try_index E s) = v1_fixed s" "w_midBook (try_index E s) = w_midBook s"
proof -
  obtain r s1 where r: "v1_calculateIndex E s = (r, s1)" by force
  show "v1_fixed (try_index E s) = v1_fixed s" "w_midBook (try_index E s) = w_midBook s"
    using v1_calculateIndex_fixed [OF r] by (auto simp: try_index_def r v1_fixed_def split: sum.splits)
qed

lemma v1_report_fixed:
  "v1_report E ts msg s = Inr s' \<Longrightarrow> v1_fixed s' = v1_fixed s \<and> w_midBook s' = w_midBook s"
  by (auto simp: v1_report_def v1_fixed_def res_bind_Inr_iff)

lemma v1_on_message_steps:
  assumes "v1_on_message E b msg (lr, s) = (ex, lr', s')"
  shows "v1_fixed s' = v1_fixed s" "w_midBook s' = midBookChange msg (w_midBook s)"
    and "ex = RollOver \<Longrightarrow>
      \<not> num_le (w_maxDuration s) (num_of_date (dj_diff (e1_dayjs E) (message_ts (e1_dayjs E) msg) (w_startDate s)))
      \<and> dj_is_same_or_after (e1_dayjs E) (message_ts (e1_dayjs E) msg) (w_rolloverAt s)"
proof -
  define s1 where "s1 = try_index E (s\<lparr> w_midBook := midBookChange msg (w_midBook s) \<rparr>)"
  have s1: "v1_fixed s1 = v1_fixed s" "w_midBook s1 = midBookChange msg (w_midBook s)"
    by (simp_all add: s1_def try_index_fixed) (simp add: v1_fixed_def)
  define due where "due = num_le (w_reportFrequency s1)
    (num_of_date (dj_diff (e1_dayjs E) (message_ts (e1_dayjs E) msg) lr))"
  define rep where "rep = (if due then v1_report E (message_ts (e1_dayjs E) msg) msg s1 else Inr s1)"
  note run = assms [unfolded v1_on_message_def Let_def fst_conv snd_conv, folded s1_def, folded due_def, folded rep_def]
  have rep: "v1_fixed s2 = v1_fixed s1 \<and> w_midBook s2 = w_midBook s1" if "rep = Inr s2" for s2
    using that v1_report_fixed [of E _ msg s1 s2] by (auto simp: rep_def split: if_splits)
  have both: "v1_fixed s' = v1_fixed s \<and> w_midBook s' = midBookChange msg (w_midBook s)
    \<and> (ex = RollOver \<longrightarrow>
      \<not> num_le (w_maxDuration s') (num_of_date (dj_diff (e1_dayjs E) (message_ts (e1_dayjs E) msg) (w_startDate s')))
      \<and> dj_is_same_or_after (e1_dayjs E) (message_ts (e1_dayjs E) msg) (w_rolloverAt s'))"
  proof (cases rep)
    case (Inl e)
    then show ?thesis using run s1 by auto
  next
    case (Inr s2)
    then show ?thesis using run s1 rep [OF Inr] by (auto split: if_splits)
  qed
  then show "v1_fixed s' = v1_fixed s" "w_midBook s' = midBookChange msg (w_midBook s)" by simp_all
  show "ex = RollOver \<Longrightarrow>
      \<not> num_le (w_maxDuration s) (num_of_date (dj_diff (e1_dayjs E) (message_ts (e1_dayjs E) msg) (w_startDate s)))
      \<and> dj_is_same_or_after (e1_dayjs E) (message_ts (e1_dayjs E) msg) (w_rolloverAt s)"
    using both unfolding v1_fixed_def by (metis list.inject prod.inject)
qed

lemma v1_stream_loop_steps:
  assumes "v1_stream_loop E b msgs (lr, s) = (ex, lr', s')"
  shows "v1_fixed s' = v1_fixed s"
    and "list_all fair_quote msgs \<Longrightarrow> mid_quotes (w_midBook s) \<Longrightarrow> mid_quotes (w_midBook s')"
    and "ex = RollOver \<Longrightarrow> \<exists>msg \<in> set msgs.
      \<not> num_le (w_maxDuration s) (num_of_date (dj_diff (e1_dayjs E) (message_ts (e1_dayjs E) msg) (w_startDate s)))
      \<and> dj_is_same_or_after (e1_dayjs E) (message_ts (e1_dayjs E) msg) (w_rolloverAt s)"
proof -
  have "v1_fixed s' = v1_fixed s
    \<and> (list_all fair_quote msgs \<longrightarrow> mid_quotes (w_midBook s) \<longrightarrow> mid_quotes (w_midBook s'))
    \<and> (ex = RollOver \<longrightarrow> (\<exists>msg \<in> set msgs.
      \<not> num_le (w_maxDuration s) (num_of_date (dj_diff (e1_dayjs E) (message_ts (e1_dayjs E) msg) (w_startDate s)))
      \<and> dj_is_same_or_after (e1_dayjs E) (message_ts (e1_dayjs E) msg) (w_rolloverAt s)))"
    using assms
  proof (induction msgs arbitrary: lr s)
    case (Cons msg msgs)
    obtain ex1 lr1 s1 where m: "v1_on_message E b msg (lr, s) = (ex1, lr1, s1)"
      by (cases "v1_on_message E b msg (lr, s)") auto
    note st = v1_on_message_steps [OF m]
    show ?case
    proof (cases "ex1 = Go")
      case True
      then have "v1_stream_loop E b msgs (lr1, s1) = (ex, lr', s')" using m Cons.prems by simp
      from Cons.IH [OF this] show ?thesis
        using st(1,2) midBookChange_quotes [of msg "w_midBook s"] by (auto simp: v1_fixed_def)
    next
      case False
      then have e: "ex = ex1" "s' = s1" using m Cons.prems by (cases ex1; simp)+
      show ?thesis using st midBookChange_quotes [of msg "w_midBook s"] by (auto simp: e)
    qed
  qed simp
  then show "v1_fixed s' = v1_fixed s"
    "list_all fair_quote msgs \<Longrightarrow> mid_quotes (w_midBook s) \<Longrightarrow> mid_quotes (w_midBook s')"
    "ex = RollOver \<Longrightarrow> \<exists>msg \<in> set msgs.
      \<not> num_le (w_maxDuration s) (num_of_date (dj_diff (e1_dayjs E) (message_ts (e1_dayjs E) msg) (w_startDate s)))
      \<and> dj_is_same_or_after (e1_dayjs E) (message_ts (e1_dayjs E) msg) (w_rolloverAt s)"
    by blast+
qed

section \<open>The schedule of a run\<close>

text \<open>The dates of a calculator that stands at the reference date \<open>ref\<close>.\<close>

definition on_schedule :: "int \<Rightarrow> v1 \<Rightarrow> bool" where
  "on_schedule ref s \<longleftrightarrow> w_refDate s = Some ref \<and> w_rolloverAt s = Some (next_friday8 ref)
     \<and> w_nearExpiry s = Some (next_friday8 ref + msPerWeek)
     \<and> w_nextExpiry s = Some (next_friday8 ref + 2 * msPerWeek)"

text \<open>A run that starts at \<open>start\<close> and queries \<open>d\<close> milliseconds, with a day and three
  weeks of calendar around it.\<close>

definition v1_at :: "int \<Rightarrow> int \<Rightarrow> int \<Rightarrow> v1 \<Rightarrow> bool" where
  "v1_at start d ref s \<longleftrightarrow> four_digit_year (start - msPerDay) \<and> four_digit_year (start + 22 * msPerDay)
     \<and> four_digit_year (start + d + 22 * msPerDay) \<and> start \<le> ref \<and> (ref = start \<or> is_friday8 ref \<and> ref < start + d)
     \<and> w_startDate s = Some start \<and> w_maxDuration s = Num (of_int d) \<and> on_schedule ref s"

definition good_v1_env :: "v1_env \<Rightarrow> bool" where
  "good_v1_env E \<longleftrightarrow> dayjs_utc (e1_dayjs E) \<and> (\<forall>k req. list_all message_ok (fst (e1_stream E k req)))"

lemma v1_at_fixed: "v1_fixed s = v1_fixed s' \<Longrightarrow> v1_at start d ref s = v1_at start d ref s'"
  by (simp add: v1_at_def on_schedule_def v1_fixed_def)

lemma v1_at_years:
  assumes "v1_at start d ref s"
  shows "four_digit_year (ref - msPerDay)" "four_digit_year (ref + 22 * msPerDay)" "four_digit_year ref"
    "four_digit_year start"
  using assms by (auto simp: v1_at_def four_digit_year_def)

lemma setupRollover_schedule:
  assumes "dayjs_utc D" "w_refDate s = Some t" "four_digit_year (t - msPerDay)" "four_digit_year (t + 22 * msPerDay)"
  obtains s' where "setupRollover D s = Inr s'" "on_schedule t s'" "w_startDate s' = w_startDate s"
    "w_maxDuration s' = w_maxDuration s" "w_midBook s' = w_midBook s" "w_log s' = w_log s"
  using dayjs_utc.rolloverWeekly_next_friday8 [OF assms] that assms(2)
  by (simp add: setupRollover_def on_schedule_def)

lemma v1_buildOptionLists_fixed:
  "v1_buildOptionLists E k s = (r, s') \<Longrightarrow> v1_fixed s' = v1_fixed s \<and> w_midBook s' = w_midBook s"
  by (auto simp: v1_buildOptionLists_def v1_fixed_def split: sum.splits)

text \<open>A rollover moves the reference date to the Friday it was due at, still inside the query
  period, and the schedule to the following weeks.\<close>

lemma v1_rolls:
  assumes E: "good_v1_env E" and s: "v1_at start d ref s"
    and run: "v1_stream_loop E b msgs (lr, s) = (RollOver, lr', s1)" and msgs: "list_all message_ok msgs"
    and roll: "v1_roll_over E k s1 = (r, s2)"
  shows "v1_at start d (next_friday8 ref) s2" "next_friday8 ref < start + d" "w_midBook s2 = w_midBook s1"
    "w_log s2 = w_log s1"
proof -
  have D: "dayjs_utc (e1_dayjs E)" using E by (simp add: good_v1_env_def)
  let ?f = "next_friday8 ref"
  have f: "is_friday8 ?f" "ref < ?f" "?f \<le> ref + msPerWeek" by (rule next_friday8_props)+
  have sch: "w_rolloverAt s = Some ?f" "w_startDate s = Some start" "w_maxDuration s = Num (of_int d)"
    using s by (simp_all add: v1_at_def on_schedule_def)
  have y: "four_digit_year ?f" "four_digit_year start"
    using v1_at_years [OF s] f by (auto simp: four_digit_year_def)
  obtain msg where msg: "msg \<in> set msgs"
    "\<not> num_le (w_maxDuration s) (num_of_date (dj_diff (e1_dayjs E) (message_ts (e1_dayjs E) msg) (w_startDate s)))"
    "dj_is_same_or_after (e1_dayjs E) (message_ts (e1_dayjs E) msg) (w_rolloverAt s)"
    using v1_stream_loop_steps(3) [OF run refl] by blast
  have "message_ok msg" using msgs msg(1) by (simp add: list_all_iff)
  note ts = dayjs_utc.message_ts_grid [OF D this]
  show in_time: "?f < start + d"
    using msg(2,3) dayjs_utc.diff [OF D ts(2) y(2)] dayjs_utc.is_same_or_after [OF D ts(2) y(1)]
    by (simp add: ts(1) sch num_of_date_def)
  note s1 = v1_at_fixed [OF v1_stream_loop_steps(1) [OF run], of start d ref]
  let ?s = "s1\<lparr> w_refDate := dj_of_date (e1_dayjs E) (w_rolloverAt s1) \<rparr>"
  have ref: "w_refDate ?s = Some ?f"
    using s1 s dayjs_utc.of_date [OF D y(1)] by (simp add: v1_at_def on_schedule_def)
  have cal: "four_digit_year (?f - msPerDay)" "four_digit_year (?f + 22 * msPerDay)"
    using s f in_time by (auto simp: v1_at_def four_digit_year_def)
  obtain s' where s': "setupRollover (e1_dayjs E) ?s = Inr s'" "on_schedule ?f s'" "w_startDate s' = w_startDate ?s"
    "w_maxDuration s' = w_maxDuration ?s" "w_midBook s' = w_midBook ?s" "w_log s' = w_log ?s"
    using setupRollover_schedule [OF D ref cal] by blast
  from roll have "v1_buildOptionLists E (k + 1) s' = (r, s2)" by (simp add: v1_roll_over_def s'(1))
  note built = v1_buildOptionLists_fixed [OF this]
  have "v1_at start d ?f s'"
    using s s1 s' f in_time by (simp add: v1_at_def)
  then show "v1_at start d ?f s2" using v1_at_fixed built by blast
  show "w_midBook s2 = w_midBook s1" "w_log s2 = w_log s1" using built s' by (simp_all add: v1_fixed_def)
qed

lemma next_friday8_week: "is_friday8 f \<Longrightarrow> next_friday8 f = f + msPerWeek"
  by (simp add: next_friday8_def is_friday8_mod)

section \<open>The streams end\<close>

lemma streams_left:
  "is_friday8 f \<Longrightarrow> f < e \<Longrightarrow> nat ((e - next_friday8 f) div msPerWeek + 1) < nat ((e - f) div msPerWeek + 1)"
proof -
  assume f: "is_friday8 f" "f < e"
  have "(e - f) div msPerWeek = (e - next_friday8 f) div msPerWeek + 1"
    using div_add_self2 [of msPerWeek "e - next_friday8 f"] by (simp add: next_friday8_week [OF f(1)])
  moreover have "0 \<le> (e - f) div msPerWeek" using f(2) by (simp add: pos_imp_zdiv_nonneg_iff)
  ultimately show ?thesis by simp
qed

text \<open>One stream and what follows it, for an invariant of the run.\<close>

lemma v1_summaryStream_run:
  assumes E: "good_v1_env E"
  shows "v1_at start d ref s \<Longrightarrow> nat ((start + d - next_friday8 ref) div msPerWeek + 1) < fuel \<Longrightarrow>
    \<exists>r s' ref'. v1_summaryStream E fuel b k s = Some (r, s') \<and> v1_at start d ref' s' \<and> w_log s' = w_log s
      \<and> ((\<forall>k req. list_all fair_quote (fst (e1_stream E k req))) \<longrightarrow>
           mid_quotes (w_midBook s) \<longrightarrow> mid_quotes (w_midBook s'))"
proof (induction fuel arbitrary: b k s ref)
  case (Suc fuel)
  show ?case
  proof (cases "v1_createStream E k s")
    case (Inl e)
    then show ?thesis using Suc.prems by (auto simp: Let_def)
  next
    case (Inr req)
    obtain msgs failure where str: "e1_stream E k req = (msgs, failure)" by force
    let ?lr = "dj_add_int (e1_dayjs E) (- 1) Minute (dj_of_date (e1_dayjs E) (w_refDate s))"
    obtain ex lr' s1 where run: "v1_stream_loop E b msgs (?lr, s) = (ex, lr', s1)"
      by (cases "v1_stream_loop E b msgs (?lr, s)") auto
    have msgs: "list_all message_ok msgs" using E str by (metis good_v1_env_def fst_conv)
    note st = v1_stream_loop_steps(1,2) [OF run]
    have at1: "v1_at start d ref s1" using v1_at_fixed [OF st(1)] Suc.prems(1) by simp
    have log1: "w_log s1 = w_log s" using st(1) by (simp add: v1_fixed_def)
    have mid1: "(\<forall>k req. list_all fair_quote (fst (e1_stream E k req))) \<longrightarrow>
        mid_quotes (w_midBook s) \<longrightarrow> mid_quotes (w_midBook s1)"
      using st(2) str by (metis fst_conv)
    show ?thesis
    proof (cases "ex = RollOver")
      case False
      have "v1_at start d ref (snd (v1_complete s1))" using at1 by (simp add: v1_complete_def v1_at_def on_schedule_def)
      moreover have "w_log (snd (v1_complete s1)) = w_log s1" "w_midBook (snd (v1_complete s1)) = w_midBook s1"
        by (simp_all add: v1_complete_def)
      ultimately show ?thesis using False Inr str run at1 log1 mid1
        by (cases ex; cases failure; cases "v1_complete s1") (force simp: Let_def)+
    next
      case True
      obtain r s2 where ro: "v1_roll_over E k s1 = (r, s2)" by force
      note roll = v1_rolls [OF E Suc.prems(1) run [unfolded True] msgs ro]
      show ?thesis
      proof (cases r)
        case (Inl e)
        then show ?thesis using Inr str run True ro roll log1 mid1 by (auto simp: Let_def)
      next
        case (Inr u)
        have "nat ((start + d - next_friday8 (next_friday8 ref)) div msPerWeek + 1) < fuel"
          using streams_left [OF next_friday8_props(1) roll(2)] Suc.prems(2) by linarith
        from Suc.IH [OF roll(1) this, of False "k + 1"] obtain r' s' ref' where rest:
          "v1_summaryStream E fuel False (k + 1) s2 = Some (r', s')" "v1_at start d ref' s'" "w_log s' = w_log s2"
          "(\<forall>k req. list_all fair_quote (fst (e1_stream E k req))) \<longrightarrow>
             mid_quotes (w_midBook s2) \<longrightarrow> mid_quotes (w_midBook s')" by blast
        have "v1_summaryStream E (Suc fuel) b k s = Some (r', s')"
          using \<open>v1_createStream E k s = Inr req\<close> str run True ro Inr rest(1) by (simp add: Let_def)
        then show ?thesis using rest(2-4) roll(3,4) log1 mid1 by metis
      qed
    qed
  qed
qed simp

lemma v1_fetchIndex_run:
  assumes "good_v1_env E" "v1_at start d start s" "nat (d div msPerWeek + 1) < fuel"
  shows "\<exists>r s' ref. v1_fetchIndex E fuel s = Some (r, s') \<and> v1_at start d ref s'
    \<and> (\<forall>i. r = Inr i \<longrightarrow> w_log s = [] \<longrightarrow> vr_index i = NaN)
    \<and> ((\<forall>k req. list_all fair_quote (fst (e1_stream E k req))) \<longrightarrow>
         mid_quotes (w_midBook s) \<longrightarrow> mid_quotes (w_midBook s'))"
proof -
  obtain r1 s1 where b: "v1_buildOptionLists E 0 s = (r1, s1)" by force
  note fx = v1_buildOptionLists_fixed [OF b]
  have at1: "v1_at start d start s1" using v1_at_fixed fx assms(2) by blast
  have "(start + d - next_friday8 start) div msPerWeek \<le> d div msPerWeek"
    using next_friday8_props(2) [of start] by (intro zdiv_mono1) auto
  then have "nat ((start + d - next_friday8 start) div msPerWeek + 1) < fuel" using assms(3) by linarith
  from v1_summaryStream_run [OF assms(1) at1 this] obtain r2 s2 ref where r2:
    "v1_summaryStream E fuel False 0 s1 = Some (r2, s2)" "v1_at start d ref s2" "w_log s2 = w_log s1"
    "(\<forall>k req. list_all fair_quote (fst (e1_stream E k req))) \<longrightarrow>
           mid_quotes (w_midBook s1) \<longrightarrow> mid_quotes (w_midBook s2)" by blast
  have nan: "vr_index i = NaN" if "w_log s = []"
    "res_bind (dj_to_iso (e1_dayjs E) (w_refDate s2)) (\<lambda>time. Inr \<lparr> vr_at = time,
      vr_index = num_div (num_sum (map_values (w_log s2))) (Num (of_nat (length (w_log s2)))) \<rparr>) = Inr i" for i
    using that fx r2(3) by (auto simp: res_bind_Inr_iff v1_fixed_def num_sum_def map_values_def num_of_sign_def)
  show ?thesis
  proof (cases r1)
    case (Inl e)
    then show ?thesis using b at1 fx by (auto simp: v1_fetchIndex_def)
  next
    case (Inr u)
    then show ?thesis using b r2 fx nan by (cases r2) (auto simp: v1_fetchIndex_def Let_def)
  qed
qed

lemma new_v1_at:
  assumes D: "dayjs_utc D" and config: "c1_replayFrom config = iso_string a" "c1_replayTo config = iso_string b"
    and start: "start = a - a mod 60000"
    and years: "four_digit_year a" "four_digit_year b" "four_digit_year (start - msPerDay)"
      "four_digit_year (start + 22 * msPerDay)" "four_digit_year (b + 22 * msPerDay)"
  obtains s where "new_v1 D config = Inr s" "v1_at start (b - start) start s" "w_log s = []" "w_midBook s = []"
proof -
  have y: "four_digit_year start" using years(3,4) by (simp add: four_digit_year_def)
  have ref: "dj_start_of D Minute (dj_utc D (c1_replayFrom config)) = Some start"
    using dayjs_utc.start_of [OF D years(1), of Minute] by (simp add: config dayjs_utc.utc_iso [OF D years(1)] start)
  have dur: "dj_diff D (dj_utc D (c1_replayTo config)) (Some start) = Some (b - start)"
    by (simp add: config dayjs_utc.utc_iso [OF D years(2)] dayjs_utc.diff [OF D years(2) y])
  define s0 where "s0 = \<lparr> w_refDate = Some start, w_startDate = Some start, w_rolloverAt = None, w_nearExpiry = None, w_nextExpiry = None,
          w_risklessRate = ir_risklessRate getInterestRate,
          w_reportFrequency = or_default (c1_reportFrequency config) (dj_duration_ms D (Num 5) Second),
          w_rolloverFrequency = c1_rolloverFrequency config,
          w_maxDuration = num_of_date (Some (b - start)),
          w_asset = c1_asset config, w_nearOptionList = [], w_nextOptionList = [], w_index = None,
          w_invdVol = None, w_log = [], w_midBook = [], w_computed = [], w_completed = 0 \<rparr>"
  have new: "new_v1 D config = setupRollover D s0" by (simp add: new_v1_def ref dur s0_def Let_def)
  have "w_refDate s0 = Some start" by (simp add: s0_def)
  from setupRollover_schedule [OF D this years(3,4)] obtain s' where s': "setupRollover D s0 = Inr s'"
    "on_schedule start s'" "w_startDate s' = w_startDate s0"
    "w_maxDuration s' = w_maxDuration s0" "w_midBook s' = w_midBook s0" "w_log s' = w_log s0" by blast
  then show ?thesis using that new years(3-5) by (simp add: v1_at_def s0_def num_of_date_def)
qed

section \<open>The interpolation\<close>

lemma interpolation_bounds:
  fixes a b w :: real
  assumes "0 \<le> w" "w \<le> 1"
  shows "min a b \<le> a * (1 - w) + b * w" "a * (1 - w) + b * w \<le> max a b"
proof -
  have "min a b * (1 - w) + min a b * w \<le> a * (1 - w) + b * w"
    using assms by (intro add_mono mult_right_mono) auto
  then show "min a b \<le> a * (1 - w) + b * w" by (simp add: algebra_simps)
  have "a * (1 - w) + b * w \<le> max a b * (1 - w) + max a b * w"
    using assms by (intro add_mono mult_right_mono) auto
  then show "a * (1 - w) + b * w \<le> max a b" by (simp add: algebra_simps)
qed

definition near_variance :: "v1 \<Rightarrow> index_terms \<Rightarrow> jsnum" where
  "near_variance s T = mod_sigma_squared (w_risklessRate s) (num_div (it_NT1 T) (it_N365 T))
     (it_near T) (it_f1 T) (it_k1 T)"

definition next_variance :: "v1 \<Rightarrow> index_terms \<Rightarrow> jsnum" where
  "next_variance s T = mod_sigma_squared (w_risklessRate s) (num_div (it_NT2 T) (it_N365 T))
     (it_next T) (it_f2 T) (it_k2 T)"

lemma v1_terms_times:
  assumes "v1_terms E s = Inr T" "dayjs_utc (e1_dayjs E)" "on_schedule t s"
  shows "it_NT1 T = Num (of_int (next_friday8 t + msPerWeek - t))"
    "it_NT2 T = Num (of_int (next_friday8 t + 2 * msPerWeek - t))"
    "it_N14 T = Num (of_int (2 * msPerWeek))" "it_N365 T = Num (of_int (365 * msPerDay))"
  using assms dayjs_utc.duration [OF assms(2), of 2 Week] dayjs_utc.duration [OF assms(2), of 1 Year]
  by (auto simp: v1_terms_def Let_def res_bind_Inr_iff on_schedule_def num_of_date_def)

lemma dVol_of_interpolates:
  assumes "v1_terms E s = Inr T" "dayjs_utc (e1_dayjs E)" "on_schedule t s"
    and "near_variance s T = Num a" "next_variance s T = Num b" "0 \<le> a" "0 \<le> b"
    and w: "w = 1 - of_int (next_friday8 t - t) / of_int msPerWeek"
  shows "0 \<le> w" "w \<le> 1"
    "dVol_of (w_risklessRate s) T = Num (sqrt ((a * (1 - w) + b * w) * (365 / 14)))"
proof -
  define n where "n = next_friday8 t - t"
  have n: "0 < n" "n \<le> msPerWeek" using next_friday8_props(2,3) [of t] by (simp_all add: n_def)
  have wn: "w = 1 - of_int n / 604800000" by (simp add: w n_def)
  show w01: "0 \<le> w" "w \<le> 1" using n by (simp_all add: wn)
  have A: "num_div (num_sub (it_NT2 T) (it_N14 T)) (num_sub (it_NT2 T) (it_NT1 T)) = Num (1 - w)"
    and B: "num_div (num_sub (it_N14 T) (it_NT1 T)) (num_sub (it_NT2 T) (it_NT1 T)) = Num w"
    and C: "num_div (it_N365 T) (it_N14 T) = Num (365 / 14)"
    using v1_terms_times [OF assms(1-3)] by (simp_all add: wn n_def field_simps)
  have "0 \<le> a * (1 - w) + b * w" using interpolation_bounds(1) [OF w01, of a b] assms(6,7) by linarith
  then show "dVol_of (w_risklessRate s) T = Num (sqrt ((a * (1 - w) + b * w) * (365 / 14)))"
    using assms(4,5) unfolding dVol_of_def Let_def A B C
    by (simp add: near_variance_def next_variance_def)
qed

section \<open>Properties\<close>

text \<open>C34: the weekly schedule of the first calculator is that of the estimates.  For the same date
  the dates that rolloverWeekly computes with the date library, printed, are the near and next
  expirations and the rollover that mfivDates computes with its own arithmetic, for a time period
  of whole weeks.\<close>

theorem rolloverWeekly_is_mfivDates:
  assumes "dayjs_utc D" "w_refDate s = Some t" "four_digit_year (t - msPerDay)" "four_digit_year (t + 22 * msPerDay)"
    and "timePeriodToInteger timePeriod = Inr (Num (of_int (7 * k)))" "\<bar>t + 7 * k * msPerDay\<bar> \<le> max_time"
  shows "\<exists>s' dates. rolloverWeekly D s = Inr s' \<and> mfivDates (Some t) timePeriod FridayT08 asset = Inr dates
    \<and> dj_to_iso D (w_rolloverAt s') = Inr (rollover dates)
    \<and> dj_to_iso D (w_nearExpiry s') = Inr (nearExpiration dates)
    \<and> dj_to_iso D (w_nextExpiry s') = Inr (nextExpiration dates)"
proof -
  have "four_digit_year t" "four_digit_year (next_friday8 t)" "four_digit_year (next_friday8 t + msPerWeek)"
    "four_digit_year (next_friday8 t + 2 * msPerWeek)"
    using assms(3,4) next_friday8_props(2,3) [of t] by (auto simp: four_digit_year_def)
  then show ?thesis
    using dayjs_utc.rolloverWeekly_next_friday8 [OF assms(1-4)] mfivDates_weeks [OF assms(5,6) _ assms(4)]
    by (simp add: dayjs_utc.to_iso [OF assms(1)])
qed

text \<open>C10: the first calculator ends.  Constructed on a query period and run on a stream with
  plausible timestamps, fetchIndex opens at most one stream per week of the period and two more.\<close>

theorem v1_fetchIndex_returns:
  assumes "good_v1_env E" "c1_replayFrom config = iso_string a" "c1_replayTo config = iso_string b"
    and "four_digit_year a" "four_digit_year b" "four_digit_year (a - a mod 60000 - msPerDay)"
    and "four_digit_year (a + 22 * msPerDay)" "four_digit_year (b + 22 * msPerDay)"
    and "nat ((b - a) div msPerWeek + 2) < fuel"
  shows "\<exists>s r. new_v1 (e1_dayjs E) config = Inr s \<and> v1_fetchIndex E fuel s = Some r"
proof -
  define start where "start = a - a mod 60000"
  have st: "a - 60000 < start" "start \<le> a" by (simp_all add: start_def)
  then have "four_digit_year (start + 22 * msPerDay)"
    using assms(6,7) by (auto simp: four_digit_year_def start_def)
  then obtain s where s: "new_v1 (e1_dayjs E) config = Inr s" "v1_at start (b - start) start s"
    using new_v1_at [OF _ assms(2,3) start_def assms(4,5) assms(6) [folded start_def] _ assms(8)] assms(1)
    unfolding good_v1_env_def by blast
  have "(b - start) div msPerWeek \<le> (b - a + msPerWeek) div msPerWeek"
    using st by (intro zdiv_mono1) auto
  then have "nat ((b - start) div msPerWeek + 1) < fuel"
    using assms(9) div_add_self2 [of msPerWeek "b - a"] by linarith
  from v1_fetchIndex_run [OF assms(1) s(2) this] show ?thesis using s(1) by blast
qed

text \<open>C31: the invariant of a run.  When fetchIndex settles, on whatever path, the dates are still
  those of the schedule at the reference date, which is the start or a Friday 08:00 UTC inside the
  query period, and every price of the book is a positive number.\<close>

theorem v1_run_invariant:
  assumes "good_v1_env E" "\<forall>k req. list_all fair_quote (fst (e1_stream E k req))"
    and "v1_at start d start s" "mid_quotes (w_midBook s)" "nat (d div msPerWeek + 1) < fuel"
    and "v1_fetchIndex E fuel s = Some (r, s')"
  shows "mid_quotes (w_midBook s') \<and> (\<exists>ref. on_schedule ref s' \<and> (ref = start \<or> is_friday8 ref \<and> ref < start + d))"
  using v1_fetchIndex_run [OF assms(1,3,5)] assms(2,4,6) by (auto simp: v1_at_def)

text \<open>C8: on the schedule the index interpolates.  The two weeks lie between the two expiries, so
  from two variances that are not negative the calculator gets a number, and its square lies
  between theirs, in the scale of a year in two weeks.\<close>

theorem v1_index_interpolates:
  assumes "dayjs_utc (e1_dayjs E)" "on_schedule t s" "v1_terms E s = Inr T"
    and "near_variance s T = Num a" "next_variance s T = Num b" "0 \<le> a" "0 \<le> b"
  shows "\<exists>x s'. v1_calculateIndex E s = (Inr (Num (100 * x)), s') \<and> w_index s' = Some (Num (100 * x)) \<and> 0 \<le> x
    \<and> min a b * (365 / 14) \<le> x\<^sup>2 \<and> x\<^sup>2 \<le> max a b * (365 / 14)"
proof -
  define w :: real where "w = 1 - of_int (next_friday8 t - t) / of_int msPerWeek"
  note d = dVol_of_interpolates [OF assms(3,1,2) assms(4-7) w_def]
  define v where "v = a * (1 - w) + b * w"
  have v: "min a b \<le> v" "v \<le> max a b" using interpolation_bounds [OF d(1,2), of a b] by (simp_all add: v_def)
  have "0 \<le> v" using v(1) assms(6,7) by linarith
  then have "(sqrt (v * (365 / 14)))\<^sup>2 = v * (365 / 14)" "0 \<le> sqrt (v * (365 / 14))" by simp_all
  moreover have "min a b * (365 / 14) \<le> v * (365 / 14)" "v * (365 / 14) \<le> max a b * (365 / 14)"
    using v by simp_all
  ultimately show ?thesis
    using d(3) [folded v_def] by (intro exI [of _ "sqrt (v * (365 / 14))"]) (simp add: v1_calculateIndex_def assms(3) Let_def)
qed

section \<open>Witnesses\<close>

definition sample_v1_env :: v1_env where
  "sample_v1_env = \<lparr> e1_dayjs = utc_dayjs,
     e1_format = (\<lambda>d. if d = Some 1652428800000 then ''13May22'' else ''20May22''),
     e1_parse = (\<lambda>n. Some (if n = Some ''13MAY22'' then 1652428800000 else 1653033600000)),
     e1_now = (\<lambda>_. Some 1660000020000), e1_instruments = (\<lambda>_. Inr []),
     e1_stream = (\<lambda>_ _. ([sample_message ''A'' 1652428800000, sample_message ''B'' 1653033600000], None)) \<rparr>"

definition sample_v1_config :: v1_config where
  "sample_v1_config = \<lparr> c1_replayFrom = iso_string 1651363200000, c1_replayTo = iso_string 1651363260000,
     c1_reportFrequency = None, c1_rolloverFrequency = ''weekly'', c1_asset = ''ETH'' \<rparr>"

definition sample_v1 :: v1 where
  "sample_v1 = \<lparr> w_refDate = Some 1651363200000, w_startDate = Some 1651363200000,
     w_rolloverAt = Some 1651824000000, w_nearExpiry = Some 1652428800000, w_nextExpiry = Some 1653033600000,
     w_risklessRate = Num (56 / 10000), w_reportFrequency = Num 5000, w_rolloverFrequency = ''weekly'',
     w_maxDuration = Num (of_int 60000), w_asset = ''ETH'',
     w_nearOptionList = [''ETH-13MAY22-3000-C'', ''ETH-13MAY22-2800-P'', ''ETH-13MAY22-3000-P''],
     w_nextOptionList = [''ETH-20MAY22-3000-P'', ''ETH-20MAY22-3000-C'', ''ETH-20MAY22-2800-P''],
     w_index = None, w_invdVol = None, w_log = [],
     w_midBook = [(''ETH-13MAY22-3000-C'', Num 90), (''ETH-20MAY22-3000-C'', Num 99), (''ETH-13MAY22-3000-P'', Num 90),
       (''ETH-20MAY22-3000-P'', Num 99), (''ETH-20MAY22-2800-P'', Num 12), (''ETH-13MAY22-2800-P'', Num 10)],
     w_computed = [], w_completed = 0 \<rparr>"

lemma sample_friday: "next_friday8 1651363200000 = 1651824000000"
  by (simp add: next_friday8_def friday8_origin_def)

lemma sample_v1_years: "four_digit_year (1651363200000 - msPerDay)" "four_digit_year (1651363200000 + 22 * msPerDay)"
  "four_digit_year (1651363260000 + 22 * msPerDay)"
  by (simp_all add: four_digit_year_def)

lemma sample_v1_good: "good_v1_env sample_v1_env" "\<forall>k req. list_all fair_quote (fst (e1_stream sample_v1_env k req))"
  by (simp_all add: good_v1_env_def sample_v1_env_def utc.dayjs_utc_axioms message_ok_def sample_message_def
      fair_quote_def)

lemma rolloverWeekly_is_mfivDates_witness:
  "\<exists>s' dates. rolloverWeekly utc_dayjs sample_v1 = Inr s'
    \<and> mfivDates (Some 1651363200000) ''14D'' FridayT08 None = Inr dates
    \<and> dj_to_iso utc_dayjs (w_nextExpiry s') = Inr (nextExpiration dates)"
proof -
  have "timePeriodToInteger ''14D'' = Inr (Num (of_int (7 * 2)))"
    using timePeriodToInteger_digits [of "''14''" "[]"] by (simp add: is_digit_def dec_val_def digit_val_def)
  moreover have "w_refDate sample_v1 = Some 1651363200000" by (simp add: sample_v1_def)
  moreover have "\<bar>1651363200000 + 7 * 2 * msPerDay\<bar> \<le> max_time" by (simp add: max_time_def)
  ultimately show ?thesis
    using rolloverWeekly_is_mfivDates [OF utc.dayjs_utc_axioms _ sample_v1_years(1,2), of sample_v1 "''14D''" 2 None]
    by blast
qed

lemma v1_fetchIndex_returns_witness:
  "\<exists>s r. new_v1 utc_dayjs sample_v1_config = Inr s \<and> v1_fetchIndex sample_v1_env 3 s = Some r"
  using v1_fetchIndex_returns [OF sample_v1_good(1), of sample_v1_config 1651363200000 1651363260000 3] sample_v1_years
  by (simp add: sample_v1_env_def sample_v1_config_def)

lemma sample_v1_at: "v1_at 1651363200000 60000 1651363200000 sample_v1"
  using sample_v1_years by (simp add: v1_at_def sample_v1_def on_schedule_def sample_friday)

lemma sample_v1_quotes: "mid_quotes (w_midBook sample_v1)"
  by (auto simp: mid_quotes_def sample_v1_def map_ok_def map_keys_def map_get_def)

lemma v1_run_invariant_witness:
  "\<exists>r s'. v1_fetchIndex sample_v1_env 2 sample_v1 = Some (r, s') \<and> mid_quotes (w_midBook s')"
proof -
  obtain r s' where f: "v1_fetchIndex sample_v1_env 2 sample_v1 = Some (r, s')"
    using v1_fetchIndex_run [OF sample_v1_good(1) sample_v1_at, of 2] by auto
  then show ?thesis
    using v1_run_invariant [OF sample_v1_good sample_v1_at sample_v1_quotes _ f] by auto
qed

lemmas name_simps = strike_of_def part_of_def Let_def string_to_number_def trim_def is_space_def
  unsigned_decimal_def is_digit_def dec_val_def digit_val_def pow10_def

lemma sample_v1_names:
  "map strike_of (w_nearOptionList sample_v1 @ w_nextOptionList sample_v1) =
    [Num 3000, Num 2800, Num 3000, Num 3000, Num 3000, Num 2800]"
  "map (part_of 3) (w_nearOptionList sample_v1 @ w_nextOptionList sample_v1) =
    [Some ''C'', Some ''P'', Some ''P'', Some ''P'', Some ''C'', Some ''P'']"
  "map reduced_option (w_nearOptionList sample_v1 @ w_nextOptionList sample_v1) =
    [''ETH-13MAY22-3000'', ''ETH-13MAY22-2800'', ''ETH-13MAY22-3000'',
     ''ETH-20MAY22-3000'', ''ETH-20MAY22-3000'', ''ETH-20MAY22-2800'']"
  "last_part ''ETH-13MAY22-3000'' = Num 3000" "last_part ''ETH-20MAY22-3000'' = Num 3000"
  "strike_of ''ETH-13MAY22-3000-CAV'' = Num 3000" "strike_of ''ETH-20MAY22-3000-CAV'' = Num 3000"
  "part_of 1 ''ETH-13MAY22-3000'' = Some ''13MAY22''" "part_of 1 ''ETH-20MAY22-3000'' = Some ''20MAY22''"
  by (simp_all add: sample_v1_def name_simps reduced_option_def last_part_def)

lemma sample_v1_pairs:
  "best_pair_of (w_midBook sample_v1) (w_nearOptionList sample_v1) =
    \<lparr> bp_option = ''ETH-13MAY22-3000'', bp_diff = Num 0, bp_strike = Num 3000, bp_call = Num 90, bp_put = Num 90 \<rparr>"
  "best_pair_of (w_midBook sample_v1) (w_nextOptionList sample_v1) =
    \<lparr> bp_option = ''ETH-20MAY22-3000'', bp_diff = Num 0, bp_strike = Num 3000, bp_call = Num 99, bp_put = Num 99 \<rparr>"
  using sample_v1_names
  by (simp_all add: best_pair_of_def better_pair_def no_pair_def sample_v1_def map_get_def num_lt_def)

lemma sample_v1_forward:
  "forwardPriceGet ms_to (Num 31536000000) (Num (56 / 10000)) (w_midBook sample_v1) (w_nearOptionList sample_v1) = Num 3000"
  "forwardPriceGet ms_to (Num 31536000000) (Num (56 / 10000)) (w_midBook sample_v1) (w_nextOptionList sample_v1) = Num 3000"
  if "\<And>n. ms_to n = Num (m n)"
  by (simp_all add: forwardPriceGet_def sample_v1_pairs that)

lemma sample_v1_strikes:
  "adjacentStrikeGet (w_nearOptionList sample_v1) (Num 3000) = Num 3000"
  "adjacentStrikeGet (w_nextOptionList sample_v1) (Num 3000) = Num 3000"
  using sample_v1_names(1) by (simp_all add: adjacentStrikeGet_def sample_v1_def num_lt_def)

lemma sample_v1_books:
  "finalBookGet (filterBook ''13MAY22'' (w_midBook sample_v1)) (Num 3000) =
    Inr [(''ETH-13MAY22-2800-P'', Num 10), (''ETH-13MAY22-3000-CAV'', Num 90)]"
  "finalBookGet (filterBook ''20MAY22'' (w_midBook sample_v1)) (Num 3000) =
    Inr [(''ETH-20MAY22-2800-P'', Num 12), (''ETH-20MAY22-3000-CAV'', Num 99)]"
  using sample_v1_names(1,2,6,7)
  by (simp_all add: filterBook_def sample_v1_def finalBookGet_def keeps_entry_def at_strike_def
      num_lt_def num_sort_def)

lemma sample_v1_contributions:
  "contributionGet [(''ETH-13MAY22-2800-P'', Num 10), (''ETH-13MAY22-3000-CAV'', Num 90)] =
    Inr (Num (200 / 2800\<^sup>2 * 10 + 200 / 3000\<^sup>2 * 90))"
  "contributionGet [(''ETH-20MAY22-2800-P'', Num 12), (''ETH-20MAY22-3000-CAV'', Num 99)] =
    Inr (Num (200 / 2800\<^sup>2 * 12 + 200 / 3000\<^sup>2 * 99))"
  using sample_v1_names(1,6,7)
  by (simp_all add: contributionGet_def delta_strike_def sample_v1_def num_square_def)

lemma sample_v1_terms:
  obtains T where "v1_terms sample_v1_env sample_v1 = Inr T"
    "it_near T = Num (200 / 2800\<^sup>2 * 10 + 200 / 3000\<^sup>2 * 90)" "it_next T = Num (200 / 2800\<^sup>2 * 12 + 200 / 3000\<^sup>2 * 99)"
    "it_f1 T = Num 3000" "it_f2 T = Num 3000" "it_k1 T = Num 3000" "it_k2 T = Num 3000"
proof -
  have D: "e1_dayjs sample_v1_env = utc_dayjs" by (simp add: sample_v1_env_def)
  have year: "dj_duration_ms utc_dayjs (Num 1) Year = Num 31536000000"
    using utc.duration [of 1 Year] by simp
  have ms: "\<exists>m. msToExpiration sample_v1_env sample_v1 n = Num m" for n
    by (simp add: msToExpiration_def sample_v1_env_def sample_v1_def utc.of_date utc.diff num_of_date_def)
  then obtain m where m: "\<And>n. msToExpiration sample_v1_env sample_v1 n = Num (m n)" by metis
  have e: "expirationDateToString sample_v1_env (w_nearExpiry sample_v1) = ''13MAY22''"
    "expirationDateToString sample_v1_env (w_nextExpiry sample_v1) = ''20MAY22''"
    by (simp_all add: expirationDateToString_def sample_v1_env_def sample_v1_def utc.of_date to_upper_def upper_char_def char_of_def bit_0)
  have r: "w_risklessRate sample_v1 = Num (56 / 10000)" by (simp add: sample_v1_def)
  show ?thesis
    using that unfolding v1_terms_def Let_def D year r e sample_v1_forward [OF m] sample_v1_strikes sample_v1_books
      res_bind_simps sample_v1_contributions by simp
qed

lemma at_the_forward:
  "f \<noteq> 0 \<Longrightarrow> y \<noteq> 0 \<Longrightarrow> 0 \<le> c \<Longrightarrow>
    \<exists>a \<ge> 0. mod_sigma_squared (Num r) (num_div (Num x) (Num y)) (Num c) (Num f) (Num f) = Num a"
  by (intro exI [of _ "exp (r * (x / y)) * 2 * c"]) (simp add: mod_sigma_squared_def num_square_def)

lemma v1_index_interpolates_witness:
  "\<exists>x s'. v1_calculateIndex sample_v1_env sample_v1 = (Inr (Num (100 * x)), s') \<and> 0 \<le> x"
proof -
  obtain T where T: "v1_terms sample_v1_env sample_v1 = Inr T"
    "it_near T = Num (200 / 2800\<^sup>2 * 10 + 200 / 3000\<^sup>2 * 90)" "it_next T = Num (200 / 2800\<^sup>2 * 12 + 200 / 3000\<^sup>2 * 99)"
    "it_f1 T = Num 3000" "it_f2 T = Num 3000" "it_k1 T = Num 3000" "it_k2 T = Num 3000"
    by (rule sample_v1_terms)
  have D: "dayjs_utc (e1_dayjs sample_v1_env)" by (simp add: sample_v1_env_def utc.dayjs_utc_axioms)
  have at: "on_schedule 1651363200000 sample_v1" using sample_v1_at by (simp add: v1_at_def)
  note t = v1_terms_times [OF T(1) D at]
  have r: "w_risklessRate sample_v1 = Num (56 / 10000)" by (simp add: sample_v1_def)
  have "\<exists>a \<ge> 0. near_variance sample_v1 T = Num a" "\<exists>b \<ge> 0. next_variance sample_v1 T = Num b"
    unfolding near_variance_def next_variance_def T t r by (rule at_the_forward; simp)+
  then obtain a b where "near_variance sample_v1 T = Num a" "next_variance sample_v1 T = Num b" "0 \<le> a" "0 \<le> b"
    by blast
  from v1_index_interpolates [OF D at T(1) this] show ?thesis by blast
qed

end
