(* ===== verification/Calculator.thy ===== *)
theory Calculator
  imports VixV1Run
begin

text \<open>
  What the clients of the two calculators of \<^verbatim>\<open>src/lib\<close> rely on, as interfaces:
  \<open>streaming\<close> is one stream after another, \<open>calculator\<close> the promise of
  \<^verbatim>\<open>fetchIndex\<close> with the callbacks made before it settles.  Both are interpreted on
  both calculators.  The fuel is the only thing the models add to the code; the interfaces say that
  it decides nothing but whether there is an answer.
\<close>

section \<open>The interfaces\<close>

text \<open>Reports are only added, and the log is not written.\<close>

definition grown :: "('s \<Rightarrow> 'i list) \<Rightarrow> ('s \<Rightarrow> 'l) \<Rightarrow> 's \<Rightarrow> 's \<Rightarrow> bool" where
  "grown computed logged s s' \<longleftrightarrow> logged s' = logged s \<and> (\<exists>new. computed s' = computed s @ new)"

lemma grown_refl [simp]: "grown computed logged s s"
  by (simp add: grown_def)

lemma grown_trans: "grown computed logged s t \<Longrightarrow> grown computed logged t u \<Longrightarrow> grown computed logged s u"
  by (auto simp: grown_def)

text \<open>A turn is one stream: it settles, or the next stream goes on from its state.\<close>

locale streaming =
  fixes stream :: "nat \<Rightarrow> bool \<Rightarrow> nat \<Rightarrow> 's \<Rightarrow> ('s \<times> 'r result) option"
    and computed :: "'s \<Rightarrow> 'i list" and completed :: "'s \<Rightarrow> nat" and logged :: "'s \<Rightarrow> 'l"
  assumes no_fuel: "stream 0 b k s = None"
    and turn: "(\<exists>s' r. (\<forall>n. stream (Suc n) b k s = Some (s', r)) \<and> grown computed logged s s'
        \<and> completed s' = completed s + (case r of Inl _ \<Rightarrow> 0 | Inr _ \<Rightarrow> 1))
      \<or> (\<exists>s'. (\<forall>n. stream (Suc n) b k s = stream n False (Suc k) s') \<and> grown computed logged s s'
        \<and> completed s' = completed s)"
begin

lemma stream_more: "stream n b k s = Some a \<Longrightarrow> stream (Suc n) b k s = Some a"
proof (induction n arbitrary: b k s)
  case (Suc n)
  from turn [of b k s] show ?case
  proof (elim disjE exE conjE)
    fix s'
    assume "\<forall>n. stream (Suc n) b k s = stream n False (Suc k) s'"
    with Suc.prems Suc.IH [of False "Suc k" s'] show ?thesis by simp
  qed (use Suc.prems in simp)
qed (simp add: no_fuel)

lemma stream_trace:
  "stream n b k s = Some (s', r) \<Longrightarrow> grown computed logged s s'
    \<and> completed s' = completed s + (case r of Inl _ \<Rightarrow> 0 | Inr _ \<Rightarrow> 1)"
proof (induction n arbitrary: b k s)
  case (Suc n)
  from turn [of b k s] show ?case
  proof (elim disjE exE conjE)
    fix t
    assume t: "\<forall>n. stream (Suc n) b k s = stream n False (Suc k) t" "grown computed logged s t" "completed t = completed s"
    with Suc.prems Suc.IH [of False "Suc k" t] show ?thesis by (auto intro: grown_trans)
  qed (use Suc.prems in simp)
qed (simp add: no_fuel)

end

text \<open>A state that settles stays settled with more fuel; every report made before is kept; the
  completion callback runs at most once, and does when there is a value; the value is the average of
  the log.\<close>

locale calculator =
  fixes run :: "nat \<Rightarrow> 's \<Rightarrow> ('s \<times> vix_result result) option"
    and computed :: "'s \<Rightarrow> 'i list" and completed :: "'s \<Rightarrow> nat" and logged :: "'s \<Rightarrow> (string, jsnum) jsmap"
  assumes run_more: "run n s = Some a \<Longrightarrow> run (Suc n) s = Some a"
    and run_grown: "run n s = Some (s', r) \<Longrightarrow> grown computed logged s s'"
    and run_completed: "run n s = Some (s', r) \<Longrightarrow> completed s' \<le> Suc (completed s)
      \<and> ((\<exists>x. r = Inr x) \<longrightarrow> completed s' = Suc (completed s))"
    and run_average: "run n s = Some (s', Inr x) \<Longrightarrow>
      vr_index x = num_div (num_sum (map_values (logged s'))) (Num (of_nat (length (logged s'))))"
begin

lemma run_mono: "run n s = Some a \<Longrightarrow> n \<le> m \<Longrightarrow> run m s = Some a"
  by (induction m) (auto simp: le_Suc_eq intro: run_more)

lemma run_unique: "run n s = Some a \<Longrightarrow> run m s = Some b \<Longrightarrow> a = b"
  using run_mono [of n s a m] run_mono [of m s b n] by (cases "n \<le> m") auto

text \<open>A new calculator: one completion at most, and no number to average.\<close>

lemma fresh_run:
  assumes "run n s = Some (s', r)" "completed s = 0" "logged s = []"
  shows "completed s' \<le> 1 \<and> (completed s' = 1 \<or> (\<exists>e. r = Inl e)) \<and> (\<forall>x. r = Inr x \<longrightarrow> vr_index x = NaN)"
proof -
  have "logged s' = []" using run_grown [OF assms(1)] assms(3) by (simp add: grown_def)
  then have "vr_index x = NaN" if "r = Inr x" for x
    using run_average [of n s s' x] assms(1) that by (simp add: num_sum_def map_values_def num_of_sign_def)
  then show ?thesis using run_completed [OF assms(1)] assms(2) by (cases r) auto
qed

end

section \<open>The second calculator\<close>

lemma v2_kept: "roll_over E k near s = (s', r) \<Longrightarrow>
    grown vx_computed vx_log s s' \<and> vx_completed s' = vx_completed s"
  by (auto simp: roll_over_def Let_def deleteEntries_def grown_def split: sum.splits if_splits)

lemma v2_created: "createStream E k s = Inr (req, s') \<Longrightarrow>
    grown vx_computed vx_log s s' \<and> vx_completed s' = vx_completed s"
  by (auto simp: createStream_def Let_def res_bind_Inr_iff grown_def split: if_splits)

lemma v2_message: "on_message E b near next msg (lr, s) = (ex, lr', s') \<Longrightarrow>
    grown vx_computed vx_log s s' \<and> vx_completed s' = vx_completed s"
  by (auto simp: on_message_def report_def Let_def grown_def split: if_splits sum.splits option.splits)

lemma v2_loop: "stream_loop E b near next msgs (lr, s) = (ex, lr', s') \<Longrightarrow>
    grown vx_computed vx_log s s' \<and> vx_completed s' = vx_completed s"
proof (induction msgs arbitrary: lr s)
  case (Cons msg msgs)
  obtain ex1 lr1 s1 where m: "on_message E b near next msg (lr, s) = (ex1, lr1, s1)"
    by (cases "on_message E b near next msg (lr, s)") auto
  with Cons show ?case using v2_message [OF m] by (cases ex1) (auto intro: grown_trans)
qed simp

lemma v2_turn:
  "(\<exists>s' r. (\<forall>n. summaryStream E (Suc n) b k s = Some (s', r)) \<and> grown vx_computed vx_log s s'
      \<and> vx_completed s' = vx_completed s + (case r of Inl _ \<Rightarrow> 0 | Inr _ \<Rightarrow> 1))
    \<or> (\<exists>s'. (\<forall>n. summaryStream E (Suc n) b k s = summaryStream E n False (Suc k) s') \<and> grown vx_computed vx_log s s'
      \<and> vx_completed s' = vx_completed s)"
proof (cases "createStream E k s")
  case (Inl e)
  then show ?thesis by (intro disjI1 exI [of _ s] exI [of _ "Inl e"]) (simp add: Let_def)
next
  case (Inr x)
  let ?near = "dj_utc (ve_dayjs E) (nearExpiry (vx_expiries s))"
  obtain req s1 where x: "x = (req, s1)" by force
  obtain msgs failure where v: "ve_stream E k req = (msgs, failure)" by force
  obtain ex lr s2 where l: "stream_loop E b ?near (dj_utc (ve_dayjs E) (nextExpiry (vx_expiries s))) msgs
      (dj_add_int (ve_dayjs E) (- 1) Minute (dj_of_date (ve_dayjs E) (vx_refDate s)), s1) = (ex, lr, s2)"
    by (metis prod_cases3)
  obtain s3 q where o: "roll_over E k ?near s2 = (s3, q)" by force
  have s2: "grown vx_computed vx_log s s2" "vx_completed s2 = vx_completed s"
    using v2_created [OF Inr [unfolded x]] v2_loop [OF l] by (auto intro: grown_trans)
  have s3: "grown vx_computed vx_log s s3" "vx_completed s3 = vx_completed s"
    using s2 v2_kept [OF o] by (auto intro: grown_trans)
  have finished: "grown vx_computed vx_log s (s2\<lparr> vx_completed := n \<rparr>)" for n using s2(1) by (simp add: grown_def)
  have eq: "summaryStream E (Suc n) b k s =
    (case ex of
       Roll \<Rightarrow> (case q of Inl e \<Rightarrow> Some (s3, Inl e) | Inr _ \<Rightarrow> summaryStream E n False (k + 1) s3)
     | Break \<Rightarrow> Some (s2\<lparr> vx_completed := vx_completed s2 + 1 \<rparr>, Inr (vx_index s2))
     | Continue \<Rightarrow> (case failure of Some e \<Rightarrow> Some (s2, Inl e)
         | None \<Rightarrow> Some (s2\<lparr> vx_completed := vx_completed s2 + 1 \<rparr>, Inr (vx_index s2))))" for n
    unfolding summaryStream.simps Let_def Inr x sum.case prod.case v l o ..
  show ?thesis
    unfolding eq using s2 s3 finished by (cases ex; cases failure; cases q) auto
qed

interpretation v2_stream: streaming "summaryStream E" vx_computed vx_completed vx_log for E
  by unfold_locales (simp, rule v2_turn)

lemma fetchIndex_settled:
  assumes "fetchIndex E fuel s = Some (s', r)"
  obtains e where "fetch_expiries E 0 s = Inl e" "s' = s" "r = Inl e"
  | x q where "fetch_expiries E 0 s = Inr x" "summaryStream E fuel False 0 (s\<lparr> vx_expiries := x \<rparr>) = Some (s', q)"
      "r = res_bind q (\<lambda>_. res_bind (dj_to_iso (ve_dayjs E) (vx_refDate s')) (\<lambda>time.
        Inr \<lparr> vr_at = time, vr_index = num_div (num_sum (map_values (vx_log s'))) (Num (of_nat (length (vx_log s')))) \<rparr>))"
  using assms by (auto simp: fetchIndex_def Let_def split: sum.splits option.splits prod.splits)

lemma fetchIndex_completed:
  "fetchIndex E fuel s = Some (s', r) \<Longrightarrow> vx_completed s' \<le> Suc (vx_completed s)
    \<and> ((\<exists>x. r = Inr x) \<longrightarrow> vx_completed s' = Suc (vx_completed s))"
  by (erule fetchIndex_settled) (auto dest!: v2_stream.stream_trace simp: res_bind_Inr_iff split: sum.splits)

interpretation v2: calculator "fetchIndex E" vx_computed vx_completed vx_log for E
proof unfold_locales
  fix n s a
  assume a: "fetchIndex E n s = Some a"
  show "fetchIndex E (Suc n) s = Some a"
  proof (cases "fetch_expiries E 0 s")
    case (Inr x)
    then obtain q where "summaryStream E n False 0 (s\<lparr> vx_expiries := x \<rparr>) = Some q"
      using a by (auto simp: fetchIndex_def split: option.splits)
    with a Inr v2_stream.stream_more [OF this] show ?thesis by (simp add: fetchIndex_def del: summaryStream.simps)
  qed (use a in \<open>simp add: fetchIndex_def\<close>)
next
  fix n s s' and r :: "vix_result result"
  assume "fetchIndex E n s = Some (s', r)"
  then show "grown vx_computed vx_log s s'"
    by (rule fetchIndex_settled) (auto dest!: v2_stream.stream_trace simp: grown_def)
qed (erule fetchIndex_completed, erule fetchIndex_settled, auto simp: res_bind_def split: sum.splits)

section \<open>The first calculator\<close>

lemma v1_setup: "setupRollover D s = Inr s' \<Longrightarrow> grown w_computed w_log s s' \<and> w_completed s' = w_completed s"
  by (auto simp: setupRollover_def rolloverWeekly_def print_dates_def Let_def res_bind_Inr_iff grown_def)

lemma v1_lists: "v1_buildOptionLists E k s = (r, s') \<Longrightarrow>
    grown w_computed w_log s s' \<and> w_completed s' = w_completed s"
  by (auto simp: v1_buildOptionLists_def grown_def split: sum.splits)

lemma v1_kept: "v1_roll_over E k s = (r, s') \<Longrightarrow> grown w_computed w_log s s' \<and> w_completed s' = w_completed s"
  by (fastforce simp: v1_roll_over_def Let_def grown_def dest: v1_setup v1_lists split: sum.splits)

lemma v1_tried: "grown w_computed w_log s (try_index E s) \<and> w_completed (try_index E s) = w_completed s"
  by (auto simp: try_index_def v1_calculateIndex_def Let_def grown_def split: sum.splits prod.splits)

lemma v1_reported: "v1_report E ts msg s = Inr s' \<Longrightarrow> grown w_computed w_log s s' \<and> w_completed s' = w_completed s"
  by (auto simp: v1_report_def res_bind_Inr_iff grown_def)

lemma v1_message:
  assumes "v1_on_message E b msg (lr, s) = (ex, lr', s')"
  shows "grown w_computed w_log s s' \<and> w_completed s' = w_completed s"
proof -
  let ?s1 = "try_index E (s\<lparr> w_midBook := midBookChange msg (w_midBook s) \<rparr>)"
  have "grown w_computed w_log s ?s1 \<and> w_completed ?s1 = w_completed s"
    using v1_tried [of "s\<lparr> w_midBook := midBookChange msg (w_midBook s) \<rparr>" E] by (simp add: grown_def)
  moreover have "s' = ?s1 \<or> (\<exists>ts. v1_report E ts msg ?s1 = Inr s')"
    using assms by (auto simp: v1_on_message_def Let_def split: sum.splits if_splits)
  ultimately show ?thesis by (auto dest!: v1_reported intro: grown_trans)
qed

lemma v1_loop: "v1_stream_loop E b msgs (lr, s) = (ex, lr', s') \<Longrightarrow>
    grown w_computed w_log s s' \<and> w_completed s' = w_completed s"
proof (induction msgs arbitrary: lr s)
  case (Cons msg msgs)
  obtain ex1 lr1 s1 where m: "v1_on_message E b msg (lr, s) = (ex1, lr1, s1)"
    by (cases "v1_on_message E b msg (lr, s)") auto
  with Cons show ?case using v1_message [OF m] by (cases ex1) (auto intro: grown_trans)
qed simp

text \<open>The first calculator's functions answer with the value in front.\<close>

definition v1_stream :: "v1_env \<Rightarrow> nat \<Rightarrow> bool \<Rightarrow> nat \<Rightarrow> v1 \<Rightarrow> (v1 \<times> jsnum result) option" where
  "v1_stream E n b k s = map_option prod.swap (v1_summaryStream E n b k s)"

definition v1_run :: "v1_env \<Rightarrow> nat \<Rightarrow> v1 \<Rightarrow> (v1 \<times> vix_result result) option" where
  "v1_run E n s = map_option prod.swap (v1_fetchIndex E n s)"

lemma v1_stream_iff: "v1_stream E n b k s = Some (s', r) \<longleftrightarrow> v1_summaryStream E n b k s = Some (r, s')"
  by (auto simp: v1_stream_def prod.swap_def)

lemma v1_run_iff: "v1_run E n s = Some (s', r) \<longleftrightarrow> v1_fetchIndex E n s = Some (r, s')"
  by (auto simp: v1_run_def prod.swap_def)

lemma v1_turn:
  "(\<exists>s' r. (\<forall>n. v1_stream E (Suc n) b k s = Some (s', r)) \<and> grown w_computed w_log s s'
      \<and> w_completed s' = w_completed s + (case r of Inl _ \<Rightarrow> 0 | Inr _ \<Rightarrow> 1))
    \<or> (\<exists>s'. (\<forall>n. v1_stream E (Suc n) b k s = v1_stream E n False (Suc k) s') \<and> grown w_computed w_log s s'
      \<and> w_completed s' = w_completed s)"
proof (cases "v1_createStream E k s")
  case (Inl e)
  then show ?thesis by (intro disjI1 exI [of _ s] exI [of _ "Inl e"]) (simp add: v1_stream_iff Let_def)
next
  case (Inr req)
  obtain msgs failure where v: "e1_stream E k req = (msgs, failure)" by force
  obtain ex lr s1 where l: "v1_stream_loop E b msgs
      (dj_add_int (e1_dayjs E) (- 1) Minute (dj_of_date (e1_dayjs E) (w_refDate s)), s) = (ex, lr, s1)"
    by (metis prod_cases3)
  obtain q s2 where o: "v1_roll_over E k s1 = (q, s2)" by force
  have s1: "grown w_computed w_log s s1" "w_completed s1 = w_completed s" using v1_loop [OF l] by auto
  have s2: "grown w_computed w_log s s2" "w_completed s2 = w_completed s"
    using s1 v1_kept [OF o] by (auto intro: grown_trans)
  have finished: "v1_complete s1 = (Inr (or_default (w_index s1) (Num 0)), s1\<lparr> w_completed := Suc (w_completed s) \<rparr>)"
    "grown w_computed w_log s (s1\<lparr> w_completed := n \<rparr>)" for n
    using s1 by (simp_all add: v1_complete_def grown_def)
  have eq: "v1_summaryStream E (Suc n) b k s =
    (case ex of
       RollOver \<Rightarrow> (case q of Inl e \<Rightarrow> Some (Inl e, s2) | Inr _ \<Rightarrow> v1_summaryStream E n False (k + 1) s2)
     | Stop \<Rightarrow> Some (v1_complete s1)
     | Failed e \<Rightarrow> Some (Inl e, s1)
     | Go \<Rightarrow> (case failure of Some e \<Rightarrow> Some (Inl e, s1) | None \<Rightarrow> Some (v1_complete s1)))" for n
    unfolding v1_summaryStream.simps Let_def Inr sum.case prod.case v l o ..
  show ?thesis
    unfolding v1_stream_def eq using s1 s2 finished by (cases ex; cases failure; cases q) auto
qed

interpretation v1_stream: streaming "v1_stream E" w_computed w_completed w_log for E
  by unfold_locales (simp add: v1_stream_def, rule v1_turn)

lemma v1_fetchIndex_settled:
  assumes "v1_fetchIndex E fuel s = Some (r, s')"
  obtains e where "v1_buildOptionLists E 0 s = (Inl e, s')" "r = Inl e"
  | s1 q where "v1_buildOptionLists E 0 s = (Inr (), s1)" "v1_stream E fuel False 0 s1 = Some (s', q)"
      "r = res_bind q (\<lambda>_. res_bind (dj_to_iso (e1_dayjs E) (w_refDate s')) (\<lambda>time.
        Inr \<lparr> vr_at = time, vr_index = num_div (num_sum (map_values (w_log s'))) (Num (of_nat (length (w_log s')))) \<rparr>))"
  using assms by (auto simp: v1_fetchIndex_def v1_stream_iff Let_def split: sum.splits option.splits prod.splits)

interpretation v1: calculator "v1_run E" w_computed w_completed w_log for E
proof unfold_locales
  fix n s a
  assume "v1_run E n s = Some a"
  then have a: "v1_fetchIndex E n s = Some (prod.swap a)" by (auto simp: v1_run_def)
  have "v1_fetchIndex E (Suc n) s = Some (prod.swap a)"
  proof (cases "v1_buildOptionLists E 0 s")
    case (Pair r s1)
    show ?thesis
    proof (cases r)
      case (Inr u)
      then obtain q where "v1_stream E n False 0 s1 = Some (prod.swap q)" "v1_summaryStream E n False 0 s1 = Some q"
        using a Pair by (auto simp: v1_fetchIndex_def v1_stream_def split: option.splits)
      with a Pair Inr v1_stream.stream_more [OF this(1)] show ?thesis
        by (simp add: v1_fetchIndex_def v1_stream_def prod.swap_def del: v1_summaryStream.simps split: prod.splits)
    qed (use a Pair in \<open>simp add: v1_fetchIndex_def\<close>)
  qed
  then show "v1_run E (Suc n) s = Some a" by (simp add: v1_run_def)
next
  fix n s s' and r :: "vix_result result"
  assume "v1_run E n s = Some (s', r)"
  then show "grown w_computed w_log s s'"
    unfolding v1_run_iff
    by (rule v1_fetchIndex_settled) (auto dest!: v1_stream.stream_trace v1_lists intro: grown_trans)
next
  fix n s s' and r :: "vix_result result"
  assume "v1_run E n s = Some (s', r)"
  then show "w_completed s' \<le> Suc (w_completed s) \<and> ((\<exists>x. r = Inr x) \<longrightarrow> w_completed s' = Suc (w_completed s))"
    unfolding v1_run_iff
    by (rule v1_fetchIndex_settled)
      (auto dest!: v1_stream.stream_trace v1_lists simp: res_bind_Inr_iff split: sum.splits)
next
  fix n s s' x
  assume "v1_run E n s = Some (s', Inr x)"
  then show "vr_index x = num_div (num_sum (map_values (w_log s'))) (Num (of_nat (length (w_log s'))))"
    unfolding v1_run_iff by (rule v1_fetchIndex_settled) (auto simp: res_bind_def split: sum.splits)
qed

section \<open>Property\<close>

text \<open>C12: both calculators keep the same promise, whatever the exchange, the instruments, the clock and
  the configuration.  Two runs of a new calculator that settle have settled alike, however many
  streams they were allowed; the completion callback has run at most once, and has run when there is
  a value; and the value is never a number, since the log it averages is never written.\<close>

theorem calculators_promise:
  assumes "new_vix D config = Inr s" "fetchIndex E fuel s = Some (s', r)"
    and "new_v1 D1 config1 = Inr w" "v1_fetchIndex E1 fuel1 w = Some (r1, w')"
  shows "((\<exists>a. fetchIndex E n s = Some a) \<longrightarrow> fetchIndex E n s = Some (s', r))
    \<and> vx_completed s' \<in> {0, 1} \<and> (vx_completed s' = 0 \<longrightarrow> (\<exists>e. r = Inl e)) \<and> (\<forall>x. r = Inr x \<longrightarrow> vr_index x = NaN)
    \<and> ((\<exists>a. v1_fetchIndex E1 n w = Some a) \<longrightarrow> v1_fetchIndex E1 n w = Some (r1, w'))
    \<and> w_completed w' \<in> {0, 1} \<and> (w_completed w' = 0 \<longrightarrow> (\<exists>e. r1 = Inl e)) \<and> (\<forall>x. r1 = Inr x \<longrightarrow> vr_index x = NaN)"
proof -
  have s: "vx_completed s = 0" "vx_log s = []"
    using assms(1) by (auto simp: new_vix_def Let_def res_bind_Inr_iff)
  have w: "w_completed w = 0" "w_log w = []"
    using assms(3) by (auto simp: new_v1_def Let_def grown_def dest!: v1_setup)
  have g: "v1_run E1 fuel1 w = Some (w', r1)" using assms(4) by (simp add: v1_run_iff)
  have "v1_fetchIndex E1 n w = Some (r1, w')" if "v1_fetchIndex E1 n w = Some a" for a
    using v1.run_unique [OF g, of n "prod.swap a"] that by (cases a) (simp add: v1_run_iff)
  then show ?thesis
    using v2.fresh_run [OF assms(2) s] v1.fresh_run [OF g w] v2.run_unique [OF assms(2), of n] by auto
qed

lemma calculators_promise_witness:
  "\<exists>s' r w r1 w'. fetchIndex sample_env 1 sample_vix = Some (s', r) \<and> vx_completed s' = 1
    \<and> new_v1 utc_dayjs sample_v1_config = Inr w \<and> v1_fetchIndex sample_v1_env 3 w = Some (r1, w')
    \<and> (w_completed w' = 1 \<or> (\<exists>e. r1 = Inl e))"
proof -
  obtain s' x where f: "fetchIndex sample_env 1 sample_vix = Some (s', Inr x)" using sample_run by blast
  obtain w where w: "new_v1 utc_dayjs sample_v1_config = Inr w" "v1_at 1651363200000 60000 1651363200000 w"
    using new_v1_at [OF utc.dayjs_utc_axioms, of sample_v1_config 1651363200000 1651363260000 1651363200000] sample_v1_years
    by (auto simp: sample_v1_config_def)
  obtain r1 w' where g: "v1_fetchIndex sample_v1_env 3 w = Some (r1, w')"
    using v1_fetchIndex_run [OF sample_v1_good(1) w(2), of 3] by auto
  have "vx_completed s' = 1" "w_completed w' = 1 \<or> (\<exists>e. r1 = Inl e)"
    using calculators_promise [OF new_sample_vix f w(1) g, of 1] by auto
  with f w(1) g show ?thesis by blast
qed

end
