(* ===== verification/WsSocket.thy ===== *)
theory WsSocket
  imports WsApi TradeServices IndexService Calculator
begin

text \<open>
  The sockets of \<^verbatim>\<open>services/ws.service.ts\<close> and
  \<^verbatim>\<open>src/ws/stream.ts\<close>: the handlers of a socket (open, message, close), the
  event that publishes a new index to the subscribers of its channel, and the replay of a period
  over the service's own cache of option summaries.  What a handler does to the socket, the
  application and the database is its list of effects, in order.  JSON and the validator of the
  channel are parameters.
\<close>

section \<open>Names of messages\<close>

definition MESSAGE_ENUM :: "string list" where
  "MESSAGE_ENUM = [''SUBSCRIBE'', ''SELF_CONNECTED'', ''CLIENT_CONNECTED'', ''CLIENT_DISCONNECTED'', ''CLIENT_MESSAGE'']"

text \<open>The status that \<^verbatim>\<open>GET /health\<close> answers with.\<close>

definition ws_health :: string where
  "ws_health = ''OK''"

section \<open>Client messages\<close>

text \<open>A field of the parsed message: absent, null or a string.\<close>

datatype json_field = Absent | JsonNull | Present string

record client_message =
  cm_type :: string
  cm_channel :: json_field
  cm_body :: string
  cm_replayFrom :: json_field
  cm_replayTo :: json_field
  cm_record :: bool

datatype ws_effect =
    Published string string
  | SubscribedTo json_field
  | SentIndex vix_index
  | SentTopicNotFound string
  | SentConnected string
  | Inserted mfiv_row
  | SocketClosed
  | SocketDisconnected
  | OncloseCalled

text \<open>The compiled check of the validator returns \<^verbatim>\<open>true\<close>, or the list of
  the errors; an array is a truthy value.\<close>

datatype validation = ValidTrue | ValidationErrors "string list"

fun truthy :: "validation \<Rightarrow> bool" where
  "truthy ValidTrue = True"
| "truthy (ValidationErrors es) = True"

text \<open>The text from which \<^verbatim>\<open>dayjs.utc\<close> reads the value of a field:
  undefined is the current time and null no time.\<close>

fun replay_text :: "string \<Rightarrow> json_field \<Rightarrow> string" where
  "replay_text now Absent = now"
| "replay_text now JsonNull = ''null''"
| "replay_text now (Present t) = t"

text \<open>Destructuring the parts of the channel.  A missing time period has no method to call; a
  missing asset is written \<^verbatim>\<open>undefined\<close>.\<close>

definition replay_calculator ::
  "dayjs_lib \<Rightarrow> string \<Rightarrow> client_message \<Rightarrow> vix result" where
  "replay_calculator D now m =
     (case cm_channel m of
        Present channel \<Rightarrow>
          (let parts = split_on (CHR ''/'') channel in
           if length parts < 2 then Inl type_error
           else new_vix D \<lparr> vc_exchange = ''deribit'',
             vc_replayFrom = replay_text now (cm_replayFrom m), vc_replayTo = replay_text now (cm_replayTo m),
             vc_timePeriod = parts ! 1,
             vc_reportFrequency = (if cm_record m then Some (Num 5) else None),
             vc_asset = (if length parts < 3 then ''undefined'' else parts ! 2) \<rparr>)
      | _ \<Rightarrow> Inl type_error)"

text \<open>What the calculator's callbacks do: every index is sent and, when recording, inserted; a
  completed run closes the socket.  The error callback is not one of the calculator's calls, and
  a rejected \<^verbatim>\<open>fetchIndex\<close> is only logged.\<close>

definition on_compute ::
  "dayjs_lib \<Rightarrow> (jsnum \<Rightarrow> string) \<Rightarrow> bool \<Rightarrow> jsdate \<Rightarrow> vix_index \<Rightarrow> ws_effect list" where
  "on_compute D num_str record clock index =
     SentIndex index # (if record then [Inserted (mfiv_row_of D num_str clock index)] else [])"

definition replay_effects ::
  "vix_env \<Rightarrow> (jsnum \<Rightarrow> string) \<Rightarrow> (nat \<Rightarrow> jsdate) \<Rightarrow> nat \<Rightarrow> bool \<Rightarrow> vix \<Rightarrow> ws_effect list option" where
  "replay_effects E num_str clock fuel record s =
     (case fetchIndex E fuel s of
        None \<Rightarrow> None
      | Some (s', _) \<Rightarrow>
          Some (concat (map (\<lambda>(i, index). on_compute (ve_dayjs E) num_str record (clock i) index)
                  (enumerate 0 (vx_computed s')))
                @ replicate (vx_completed s') SocketClosed))"

text \<open>The message handler, after the message has been decoded; the promise's value and the
  effects, or nothing while the replay has not come back within the fuel.\<close>

definition ws_message ::
  "vix_env \<Rightarrow> (jsnum \<Rightarrow> string) \<Rightarrow> (nat \<Rightarrow> jsdate) \<Rightarrow> nat \<Rightarrow> (json_field \<Rightarrow> validation) \<Rightarrow> string
   \<Rightarrow> (string \<Rightarrow> client_message result) \<Rightarrow> string \<Rightarrow> string \<Rightarrow> (ws_effect list \<times> unit result) option" where
  "ws_message E num_str clock fuel subscriptionCheck now parse message topic =
     (case parse message of
        Inl e \<Rightarrow> Some ([], Inl e)
      | Inr m \<Rightarrow>
          if cm_type m = ''CLIENT_MESSAGE''
          then Some ([Published ''CLIENT_MESSAGE'' (cm_body m)], Inr ())
          else if cm_type m = ''SUBSCRIBE'' then
            if truthy (subscriptionCheck (cm_channel m)) then
              if cm_replayFrom m = Absent \<and> (cm_replayTo m = Absent \<or> cm_replayTo m = JsonNull)
              then Some ([SubscribedTo (cm_channel m)], Inr ())
              else
                (case replay_calculator (ve_dayjs E) now m of
                   Inl e \<Rightarrow> Some ([], Inl e)
                 | Inr s \<Rightarrow>
                     map_option (\<lambda>effects. (effects, Inr ()))
                       (replay_effects E num_str clock fuel (cm_record m) s))
            else Some ([SentTopicNotFound topic], Inr ())
          else Some ([SocketDisconnected], Inr ()))"

definition ws_open :: "string \<Rightarrow> ws_effect list" where
  "ws_open uid = [SentConnected uid]"

record ws_socket =
  sk_closed :: bool
  sk_onclose :: bool

definition ws_close :: "ws_socket \<Rightarrow> ws_effect list \<times> ws_socket" where
  "ws_close ws = (if sk_onclose ws then [OncloseCalled] else [], ws\<lparr> sk_closed := True \<rparr>)"

section \<open>Publishing an index\<close>

record index_data =
  xd_id :: string
  xd_type :: string
  xd_dVol :: "jsnum option"
  xd_invdVol :: "jsnum option"
  xd_value :: "jsnum option"
  xd_underlying :: jsnum
  xd_methodology :: string
  xd_timePeriod :: string
  xd_asset :: string
  xd_rate :: interest_rate
  xd_timestamp :: string

definition index_created :: "mfiv_evidence \<Rightarrow> string \<times> index_data" where
  "index_created evidence =
     (let result = me_result evidence; ctx = me_context evidence;
          methodology = to_upper (mc_methodology ctx); timePeriod = to_upper (mc_timePeriod ctx);
          asset = mr_asset result
      in (methodology @ ''/'' @ timePeriod @ ''/'' @ asset,
          \<lparr> xd_id = methodology @ ''.'' @ timePeriod @ ''.'' @ asset, xd_type = ''index'',
            xd_dVol = mr_dVol result, xd_invdVol = mr_invdVol result, xd_value = mr_value result,
            xd_underlying = mp_underlyingPrice (me_params evidence), xd_methodology = methodology,
            xd_timePeriod = timePeriod, xd_asset = asset, xd_rate = mc_rate ctx,
            xd_timestamp = mp_at (me_params evidence) \<rparr>))"

section \<open>The service's own replay\<close>

text \<open>The service keeps the same state as the ingest service and the indices it has sent.\<close>

record replay_index =
  ri_underlyingPrice :: jsnum
  ri_result :: mfiv_result
  ri_rate :: interest_rate

record 'c ws_service =
  wv_feed :: "'c ingest_service"
  wv_sent :: "replay_index list"

record replay_params =
  rp_at :: string
  rp_nearDate :: string
  rp_nextDate :: string
  rp_options :: "option_summary option list"
  rp_underlyingPrice :: jsnum

definition ws_cacheMessage ::
  "'c cacher_lib option \<Rightarrow> option_summary \<Rightarrow> 'c ws_service \<Rightarrow> 'c ws_service result" where
  "ws_cacheMessage C o' s =
     (let feed = (wv_feed s)\<lparr> ig_expiryMap := file_symbol o' (ig_expiryMap (wv_feed s)) \<rparr> in
      case C of
        None \<Rightarrow> Inr (s\<lparr> wv_feed := feed \<rparr>)
      | Some lib \<Rightarrow>
          res_bind (ch_set lib (os_symbol o') (summaryWithDefaults o' (Num 0) (Num 0) (Num 0)) (ig_cache feed))
            (\<lambda>c. Inr (s\<lparr> wv_feed := feed\<lparr> ig_cache := c \<rparr> \<rparr>)))"

definition ws_fetchOptionSummaries ::
  "'c cacher_lib option \<Rightarrow> (option_summary option result list \<Rightarrow> option_summary option list result)
   \<Rightarrow> string \<Rightarrow> 'c ws_service \<Rightarrow> option_summary option list result result" where
  "ws_fetchOptionSummaries C combine expiry s = fetchOptionSummaries C combine expiry (wv_feed s)"

text \<open>\<^verbatim>\<open>(await ...).unwrapOr([])\<close>.\<close>

definition unwrap_or_empty :: "'a list result \<Rightarrow> 'a list" where
  "unwrap_or_empty r = (case r of Inl _ \<Rightarrow> [] | Inr xs \<Rightarrow> xs)"

text \<open>A bucket: the index over the cached summaries of the near and next expiries is sent; a
  computation that throws skips the bucket.\<close>

definition ws_process_bucket ::
  "'c cacher_lib option \<Rightarrow> (option_summary option result list \<Rightarrow> option_summary option list result)
   \<Rightarrow> (mfiv_context \<Rightarrow> replay_params \<Rightarrow> mfiv_result result) \<Rightarrow> mfiv_context \<Rightarrow> mfiv_expiry
   \<Rightarrow> option_bucket \<Rightarrow> 'c ws_service \<Rightarrow> 'c ws_service result" where
  "ws_process_bucket C combine compute ctx expiry b s =
     res_bind (ws_fetchOptionSummaries C combine (nearExpiration expiry) s) (\<lambda>near.
     res_bind (ws_fetchOptionSummaries C combine (nextExpiration expiry) s) (\<lambda>next.
     res_bind (to_iso_string (ob_timestamp b)) (\<lambda>time.
       let rate = getInterestRate; underlyingPrice = ob_underlyingPrice b;
           context = ctx\<lparr> mc_rate := rate \<rparr>;
           params = \<lparr> rp_at = time, rp_nearDate = nearExpiration expiry, rp_nextDate = nextExpiration expiry,
             rp_options = unwrap_or_empty near @ unwrap_or_empty next, rp_underlyingPrice = underlyingPrice \<rparr>
       in case compute context params of
            Inl _ \<Rightarrow> Inr s
          | Inr r \<Rightarrow> Inr (s\<lparr> wv_sent := wv_sent s @
              [\<lparr> ri_underlyingPrice = underlyingPrice, ri_result = r, ri_rate = rate \<rparr>] \<rparr>))))"

fun ws_process ::
  "'c cacher_lib option \<Rightarrow> (option_summary option result list \<Rightarrow> option_summary option list result)
   \<Rightarrow> (mfiv_context \<Rightarrow> replay_params \<Rightarrow> mfiv_result result) \<Rightarrow> mfiv_context \<Rightarrow> mfiv_expiry list
   \<Rightarrow> option_message list \<Rightarrow> 'c ws_service \<Rightarrow> (bool \<times> 'c ws_service) result" where
  "ws_process C combine compute ctx expiries [] s = Inr (True, s)"
| "ws_process C combine compute ctx expiries (SummaryMessage o' # messages) s =
     res_bind (ws_cacheMessage C o' (s\<lparr> wv_feed := (wv_feed s)\<lparr> ig_latestMessage := Some o' \<rparr> \<rparr>))
       (ws_process C combine compute ctx expiries messages)"
| "ws_process C combine compute ctx expiries (BucketMessage b # messages) s =
     (case expiries of
        [] \<Rightarrow> Inr (True, s)
      | expiry # _ \<Rightarrow>
          res_bind (ws_process_bucket C combine compute ctx expiry b s)
            (ws_process C combine compute ctx expiries messages))"

definition ws_fetchInstruments ::
  "(string \<Rightarrow> info_params \<Rightarrow> string list result) \<Rightarrow> info_params \<Rightarrow> mfiv_expiry \<Rightarrow> string \<Rightarrow> string
   \<Rightarrow> string list result" where
  "ws_fetchInstruments call defaults expiries asset timestamp =
     call (''instrument_info-'' @ to_lower asset @ ''.instrumentInfo'')
       (defaults\<lparr> ip_expirationDates := [nearExpiration expiries, nextExpiration expiries],
          ip_timestamp := Some timestamp, ip_asset := asset \<rparr>)"

record replay_options =
  ro_replayFrom :: string
  ro_replayTo :: string
  ro_exchange :: string
  ro_timePeriod :: string
  ro_asset :: string
  ro_expiryType :: string

definition replayNormalizedOptions :: "string \<Rightarrow> string \<Rightarrow> string \<Rightarrow> string list \<Rightarrow> stream_request" where
  "replayNormalizedOptions exchange from to symbols = ReplayRequest exchange (sort symbols) from to"

text \<open>The expiries are computed before the promise; what follows runs in the background, and an
  error of the instruments or of the opened stream is logged.  The result is what the background
  settles to.\<close>

definition ws_replay ::
  "(string \<Rightarrow> int option) \<Rightarrow> (string \<Rightarrow> info_params \<Rightarrow> string list result) \<Rightarrow> info_params
   \<Rightarrow> (stream_request \<Rightarrow> option_message list) \<Rightarrow> 'c cacher_lib option
   \<Rightarrow> (option_summary option result list \<Rightarrow> option_summary option list result)
   \<Rightarrow> (mfiv_context \<Rightarrow> replay_params \<Rightarrow> mfiv_result result) \<Rightarrow> replay_options \<Rightarrow> 'c ws_service
   \<Rightarrow> (bool \<times> 'c ws_service) result result" where
  "ws_replay parse call defaults historical C combine compute opts s =
     res_bind (mfivDates (parse_iso parse (ro_replayFrom opts)) (ro_timePeriod opts) (ro_expiryType opts)
         (Some (ro_asset opts))) (\<lambda>expiries.
       Inr (res_bind (from_promise handleError
              (ws_fetchInstruments call defaults expiries (ro_asset opts) (ro_replayFrom opts))) (\<lambda>r.
            res_bind r (\<lambda>symbols.
              let messages = historical (replayNormalizedOptions (ro_exchange opts) (ro_replayFrom opts)
                    (ro_replayTo opts) symbols);
                  ctx = \<lparr> mc_rate = getInterestRate, mc_timePeriod = ro_timePeriod opts,
                    mc_exchange = ro_exchange opts, mc_methodology = ''MFIV'', mc_asset = ro_asset opts \<rparr>
              in ws_process C combine compute ctx [expiries] messages s))))"

section \<open>The normalized stream of \<^verbatim>\<open>src/ws/stream.ts\<close>\<close>

datatype stream_effect = SentStart string "string list" | EndedSocket int string

text \<open>Waiting for the buffer: the n-th reading of the buffered amount, or its error.  The fuel
  bounds the number of waits.\<close>

fun wait_buffer :: "(nat \<Rightarrow> nat result) \<Rightarrow> nat \<Rightarrow> nat \<Rightarrow> unit result option" where
  "wait_buffer buffered 0 n = None"
| "wait_buffer buffered (Suc fuel) n =
     (case buffered n of
        Inl e \<Rightarrow> Some (Inl e)
      | Inr amount \<Rightarrow> if 0 < amount then wait_buffer buffered fuel (Suc n) else Some (Inr ()))"

text \<open>The stream of the exchange is made and never read: the callback of the map returns the outer
  variable, still unset, so the first iterable is undefined and there is nothing to return.\<close>

definition streamNormalizedWS ::
  "unit result \<Rightarrow> (nat \<Rightarrow> nat result) \<Rightarrow> nat \<Rightarrow> bool \<Rightarrow> (thrown \<Rightarrow> string) \<Rightarrow> stream_effect list option" where
  "streamNormalizedWS send_result buffered fuel is_closed show_error =
     (let failed = (\<lambda>e. if is_closed then [] else [EndedSocket 1011 (show_error e)]) in
      case send_result of
        Inl e \<Rightarrow> Some (failed e)
      | Inr _ \<Rightarrow>
          (case wait_buffer buffered fuel 0 of
             None \<Rightarrow> None
           | Some (Inl e) \<Rightarrow> Some (SentStart ''MFIV.14D.ETH'' [''ETHUSDT''] # failed e)
           | Some (Inr _) \<Rightarrow> Some [SentStart ''MFIV.14D.ETH'' [''ETHUSDT''],
               EndedSocket 1000 ''WS stream-normalized finished'']))"

section \<open>Lemmas\<close>

text \<open>The latest summaries of an expiry, in the order their symbols were first seen.\<close>

definition latest_summaries :: "int \<Rightarrow> option_summary list \<Rightarrow> option_summary list" where
  "latest_summaries e ms =
     map (\<lambda>y. summaryWithDefaults (last (filter (\<lambda>m. os_symbol m = y) ms)) (Num 0) (Num 0) (Num 0))
       (fold set_add (listed_symbols e ms) [])"

lemma set_fold_set_add: "set (fold set_add ys zs) = set ys \<union> set zs"
  by (induction ys arbitrary: zs) auto

context cacher begin

lemma fetch_latest:
  assumes "combining combine" "process (Some C) ms (new_ingest c) = Inr s" "four_digit_year e"
    and "list_all (\<lambda>m. four_digit_year (os_expirationDate m)) ms"
  shows "fetchOptionSummaries (Some C) combine (iso_string e) s =
    (if listed_symbols e ms = []
     then Inl (FailObj (insufficientDataError ''Expiry is missing from expiry map.''
       [''The requested expiry '' @ [CHR 0x27] @ iso_string e @ [CHR 0x27] @ '' has not been seen yet'',
        ''Check that the expiry date matches an existing intrument'' @ [CHR 0x27] @ ''s expirationDate.'']))
     else Inr (Inr (map Some (latest_summaries e ms))))"
proof (cases "listed_symbols e ms = []")
  case True
  then show ?thesis
    using process_expiryMap [OF assms(3,2,4)] by (simp add: fetchOptionSummaries_def)
next
  case False
  then have m: "map_get (ig_expiryMap s) (iso_string e) = Some (fold set_add (listed_symbols e ms) [])"
    using process_expiryMap [OF assms(3,2,4)] by simp
  have "ch_get C (ig_cache s) y = Inr (Some
      (summaryWithDefaults (last (filter (\<lambda>m. os_symbol m = y) ms)) (Num 0) (Num 0) (Num 0)))"
    if "y \<in> set (fold set_add (listed_symbols e ms) [])" for y
    using that process_cache [OF assms(2), of y] by (auto simp: set_fold_set_add listed_symbols_def)
  from summaries_cached [OF assms(1) m this]
  have "summaries (Some C) combine (iso_string e) s = Inr (map Some (latest_summaries e ms))"
    by (simp add: latest_summaries_def comp_def)
  then show ?thesis using False by (simp add: summaries_def res_bind_Inr_iff)
qed

end

text \<open>The summaries of a replay leave the feed the ingest service would have.\<close>

lemma ws_process_summaries:
  "ig_pending (wv_feed s) = None \<Longrightarrow>
    ws_process (Some lib) combine compute ctx es (map SummaryMessage ms @ rest) s =
      res_bind (process (Some lib) ms (wv_feed s)) (\<lambda>f.
        ws_process (Some lib) combine compute ctx es rest (s\<lparr> wv_feed := f \<rparr>))"
proof (induction ms arbitrary: s)
  case (Cons m ms)
  let ?o = "summaryWithDefaults m (Num 0) (Num 0) (Num 0)"
  show ?case
  proof (cases "ch_set lib (os_symbol m) ?o (ig_cache (wv_feed s))")
    case (Inr c)
    let ?f = "(wv_feed s)\<lparr> ig_latestMessage := Some m, ig_expiryMap := file_symbol m (ig_expiryMap (wv_feed s)),
      ig_cache := c, ig_pending := None \<rparr>"
    have f: "(wv_feed s)\<lparr> ig_latestMessage := Some m, ig_expiryMap := file_symbol m (ig_expiryMap (wv_feed s)),
        ig_cache := c \<rparr> = ?f"
      using Cons.prems by (cases s; cases "wv_feed s") simp
    have "process_message (Some lib) m (wv_feed s) = Inr ?f"
      using Inr by (simp add: process_message_Some)
    then show ?thesis using Inr Cons.prems Cons.IH [of "s\<lparr> wv_feed := ?f \<rparr>"]
      by (simp add: ws_cacheMessage_def Let_def f [symmetric])
  next
    case (Inl e)
    then show ?thesis
      by (simp add: ws_cacheMessage_def Let_def process_message_def store_def receive_def)
  qed
qed simp

section \<open>Properties\<close>

text \<open>No subscription is refused.  The check of the channel answers with an array of errors,
  which is truthy, so a socket joins whatever channel it names, the one on which the messages of all
  clients are published included; the answer for an unknown topic is never sent.\<close>

theorem subscription_unchecked:
  assumes "ws_message E num_str clock fuel validate now parse message topic = Some (effects, r)"
  shows "(\<forall>t. SentTopicNotFound t \<notin> set effects)
    \<and> (\<forall>m. parse message = Inr m \<longrightarrow> cm_type m = ''SUBSCRIBE'' \<longrightarrow> cm_replayFrom m = Absent \<longrightarrow>
        cm_replayTo m \<noteq> Absent \<or> (effects = [SubscribedTo (cm_channel m)] \<and> r = Inr ()))"
proof -
  have t: "truthy v" for v by (cases v) simp_all
  have "SentTopicNotFound x \<notin> set (concat (map (\<lambda>(i, index). on_compute D num_str b (clock i) index) xs) @ replicate n SocketClosed)"
    for x D b xs n by (auto simp: on_compute_def)
  then show ?thesis using assms
    by (auto simp: ws_message_def t replay_effects_def split: sum.splits if_splits option.splits)
qed

text \<open>A replay over a socket.  It sends the indices the calculator reports, in order, and records
  each when asked to; the socket is closed after all of them and at most once, always when the
  promise of the calculator is fulfilled.\<close>

theorem replay_socket_effects:
  assumes "replay_calculator (ve_dayjs E) now m = Inr s"
    and "replay_effects E num_str clock fuel (cm_record m) s = Some effects"
  shows "\<exists>s' r sent closes. fetchIndex E fuel s = Some (s', r) \<and> effects = sent @ closes
    \<and> List.map_filter (\<lambda>e. case e of SentIndex i \<Rightarrow> Some i | _ \<Rightarrow> None) sent = vx_computed s'
    \<and> length (filter (\<lambda>e. \<exists>row. e = Inserted row) sent) = (if cm_record m then length (vx_computed s') else 0)
    \<and> SocketClosed \<notin> set sent \<and> closes \<in> {[], [SocketClosed]}
    \<and> ((\<exists>e. r = Inl e) \<or> closes = [SocketClosed])"
proof -
  obtain s' r where f: "fetchIndex E fuel s = Some (s', r)"
    and eff: "effects = concat (map (\<lambda>(i, index). on_compute (ve_dayjs E) num_str (cm_record m) (clock i) index)
        (enumerate 0 (vx_computed s'))) @ replicate (vx_completed s') SocketClosed"
    using assms(2) by (auto simp: replay_effects_def split: option.splits)
  let ?sent = "\<lambda>k xs. concat (map (\<lambda>(i, index). on_compute (ve_dayjs E) num_str (cm_record m) (clock i) index)
    (enumerate k xs))"
  have c0: "vx_completed s = 0"
    using assms(1) by (auto simp: replay_calculator_def new_vix_def Let_def res_bind_Inr_iff
        split: json_field.splits if_splits)
  have 1: "List.map_filter (\<lambda>e. case e of SentIndex i \<Rightarrow> Some i | _ \<Rightarrow> None) (?sent k xs) = xs" for k xs
    by (cases "cm_record m"; induction xs arbitrary: k) (simp_all add: on_compute_def List.map_filter_simps)
  have 2: "length (filter (\<lambda>e. \<exists>row. e = Inserted row) (?sent k xs)) = (if cm_record m then length xs else 0)"
    for k xs
    by (cases "cm_record m"; induction xs arbitrary: k) (simp_all add: on_compute_def)
  have 3: "SocketClosed \<notin> set (?sent k xs)" for k xs
    by (induction xs arbitrary: k) (simp_all add: on_compute_def)
  have 4: "vx_completed s' \<le> 1" "(\<exists>x. r = Inr x) \<Longrightarrow> vx_completed s' = 1"
    using fetchIndex_completed [OF f] c0 by simp_all
  then have "replicate (vx_completed s') SocketClosed \<in> {[], [SocketClosed]}"
    "(\<exists>e. r = Inl e) \<or> replicate (vx_completed s') SocketClosed = [SocketClosed]"
    by (cases "vx_completed s'"; cases r; auto)+
  then show ?thesis using f eff 1 2 3 by blast
qed

text \<open>C17: the index of a bucket in a replay of the service.  It is computed over exactly the latest
  summaries of the near and then of the next expiry, with the underlying price of the bucket, and it
  is sent; an expiry no summary has had rejects the whole replay instead of being replaced by the
  empty list that \<^verbatim>\<open>unwrapOr([])\<close> offers.\<close>

theorem replay_bucket_index:
  assumes "cacher lib" "combining combine" "process (Some lib) ms (new_ingest c) = Inr feed"
    and "four_digit_year near" "four_digit_year next" "list_all (\<lambda>m. four_digit_year (os_expirationDate m)) ms"
    and "nearExpiration expiry = iso_string near" "nextExpiration expiry = iso_string next"
    and "to_iso_string (ob_timestamp b) = Inr time"
    and "\<And>c p. compute c p = Inr (result c p)"
    and "run = ws_process (Some lib) combine compute ctx [expiry] (map SummaryMessage ms @ [BucketMessage b])
      \<lparr> wv_feed = new_ingest c, wv_sent = [] \<rparr>"
  shows "if listed_symbols near ms = [] \<or> listed_symbols next ms = []
    then \<exists>details. run = Inl (FailObj (insufficientDataError ''Expiry is missing from expiry map.'' details))
    else run = Inr (True, \<lparr> wv_feed = feed, wv_sent = [\<lparr> ri_underlyingPrice = ob_underlyingPrice b,
      ri_result = result (ctx\<lparr> mc_rate := getInterestRate \<rparr>) \<lparr> rp_at = time,
        rp_nearDate = iso_string near, rp_nextDate = iso_string next,
        rp_options = map Some (latest_summaries near ms @ latest_summaries next ms),
        rp_underlyingPrice = ob_underlyingPrice b \<rparr>,
      ri_rate = getInterestRate \<rparr>] \<rparr>)"
proof -
  note fetch = cacher.fetch_latest [OF assms(1-3) _ assms(6)]
  have run: "run = res_bind (ws_process_bucket (Some lib) combine compute ctx expiry b
      \<lparr> wv_feed = feed, wv_sent = [] \<rparr>) (ws_process (Some lib) combine compute ctx [expiry] [])"
    unfolding assms(11) using assms(3) by (subst ws_process_summaries) (simp_all add: new_ingest_def)
  show ?thesis
    unfolding run ws_process_bucket_def ws_fetchOptionSummaries_def assms(7-10) Let_def
    by (auto simp: fetch assms(4,5) unwrap_or_empty_def)
qed

section \<open>Witnesses\<close>

definition subscribe_message :: client_message where
  "subscribe_message = \<lparr> cm_type = ''SUBSCRIBE'', cm_channel = Present ''CLIENT_MESSAGE'', cm_body = [],
     cm_replayFrom = Absent, cm_replayTo = Absent, cm_record = False \<rparr>"

lemma subscription_unchecked_witness:
  "\<exists>effects r. ws_message sample_env (\<lambda>_. []) (\<lambda>_. None) 0 (\<lambda>_. ValidationErrors [''pattern'']) []
      (\<lambda>_. Inr subscribe_message) [] [] = Some (effects, r)
    \<and> effects = [SubscribedTo (Present ''CLIENT_MESSAGE'')]"
proof -
  obtain effects r where w: "ws_message sample_env (\<lambda>_. []) (\<lambda>_. None) 0 (\<lambda>_. ValidationErrors [''pattern'']) []
      (\<lambda>_. Inr subscribe_message) [] [] = Some (effects, r)"
    by (simp add: ws_message_def subscribe_message_def)
  from subscription_unchecked [OF w] w show ?thesis by (simp add: subscribe_message_def)
qed

definition sample_bucket :: option_bucket where
  "sample_bucket = empty_option_bucket\<lparr> ob_timestamp := Some 1651363200000, ob_underlyingPrice := Num 2900 \<rparr>"

lemma replay_bucket_index_witness:
  "\<forall>ctx. \<exists>s'. ws_process (Some memory_cacher) promise_all
      (\<lambda>c p. Inr \<lparr> mr_asset = mc_asset c, mr_dVol = Some (Num (real (length (rp_options p)))), mr_invdVol = None,
        mr_value = None, mr_methodology = ''MFIV'', mr_estimatedFor = rp_at p \<rparr>) ctx
      [\<lparr> nearExpiration = iso_string 1652428800000, nextExpiration = iso_string 1653033600000,
         rollover = [], expiry_asset = None \<rparr>]
      (map SummaryMessage [tick ''A'' 1652428800000 (Num 1), tick ''B'' 1653033600000 (Num 2),
        tick ''A'' 1652428800000 (Num 3)] @ [BucketMessage sample_bucket])
      \<lparr> wv_feed = new_ingest [], wv_sent = [] \<rparr> = Inr (True, s')
    \<and> map (mr_dVol \<circ> ri_result) (wv_sent s') = [Some (Num 2)]"
proof (rule allI)
  fix ctx
  obtain feed where s: "process (Some memory_cacher) [tick ''A'' 1652428800000 (Num 1),
      tick ''B'' 1653033600000 (Num 2), tick ''A'' 1652428800000 (Num 3)] (new_ingest []) = Inr feed"
    by (simp add: process_message_def store_def receive_def memory_cacher_def)
  have t: "to_iso_string (ob_timestamp sample_bucket) = Inr (iso_string 1651363200000)"
    by (simp add: sample_bucket_def to_iso_string_def)
  have y: "four_digit_year 1652428800000" "four_digit_year 1653033600000"
    "list_all (\<lambda>m. four_digit_year (os_expirationDate m)) [tick ''A'' 1652428800000 (Num 1),
      tick ''B'' 1653033600000 (Num 2), tick ''A'' 1652428800000 (Num 3)]"
    by (simp_all add: four_digit_year_def tick_def)
  note w = replay_bucket_index [OF memory.cacher_axioms neverthrow.combining_axioms s y _ _ t,
      of "\<lparr> nearExpiration = iso_string 1652428800000, nextExpiration = iso_string 1653033600000,
         rollover = [], expiry_asset = None \<rparr>"]
  show "\<exists>s'. ws_process (Some memory_cacher) promise_all
      (\<lambda>c p. Inr \<lparr> mr_asset = mc_asset c, mr_dVol = Some (Num (real (length (rp_options p)))), mr_invdVol = None,
        mr_value = None, mr_methodology = ''MFIV'', mr_estimatedFor = rp_at p \<rparr>) ctx
      [\<lparr> nearExpiration = iso_string 1652428800000, nextExpiration = iso_string 1653033600000,
         rollover = [], expiry_asset = None \<rparr>]
      (map SummaryMessage [tick ''A'' 1652428800000 (Num 1), tick ''B'' 1653033600000 (Num 2),
        tick ''A'' 1652428800000 (Num 3)] @ [BucketMessage sample_bucket])
      \<lparr> wv_feed = new_ingest [], wv_sent = [] \<rparr> = Inr (True, s')
    \<and> map (mr_dVol \<circ> ri_result) (wv_sent s') = [Some (Num 2)]"
    by (subst w [OF _ _ refl refl]) (simp_all add: latest_summaries_def listed_symbols_def tick_def set_add_def)
qed

definition replay_message :: client_message where
  "replay_message = \<lparr> cm_type = ''SUBSCRIBE'', cm_channel = Present ''MFIV/14D/ETH'', cm_body = [],
     cm_replayFrom = Present (iso_string 1651363200000), cm_replayTo = Present (iso_string 1651363260000),
     cm_record = False \<rparr>"

lemma replay_socket_effects_witness:
  "\<exists>effects. ws_message sample_env (\<lambda>_. []) (\<lambda>_. None) 1 (\<lambda>_. ValidTrue) [] (\<lambda>_. Inr replay_message) [] []
      = Some (effects, Inr ()) \<and> last effects = SocketClosed"
proof -
  have D: "ve_dayjs sample_env = utc_dayjs" by (simp add: sample_env_def)
  have c: "replay_calculator (ve_dayjs sample_env) [] replay_message = Inr sample_vix"
    using new_sample_vix by (simp add: D replay_calculator_def replay_message_def sample_config_def)
  obtain s' r where f: "fetchIndex sample_env 1 sample_vix = Some (s', Inr r)" using sample_run by blast
  then obtain effects where e: "replay_effects sample_env (\<lambda>_. []) (\<lambda>_. None) 1 (cm_record replay_message) sample_vix = Some effects"
    by (simp add: replay_effects_def)
  have "ws_message sample_env (\<lambda>_. []) (\<lambda>_. None) 1 (\<lambda>_. ValidTrue) [] (\<lambda>_. Inr replay_message) [] [] = Some (effects, Inr ())"
    using c e by (simp add: ws_message_def replay_message_def)
  then show ?thesis using replay_socket_effects [OF c e] f by fastforce
qed

end
