(* ===== verification/Rate.thy ===== *)
theory Rate
  imports Ingest IndexService
begin

text \<open>
  \<^verbatim>\<open>services/rate.service.ts\<close> and what it reads the riskless rate with:
  \<^verbatim>\<open>src/datasources/aave.ts\<close>, \<^verbatim>\<open>etherscan.ts\<close>,
  \<^verbatim>\<open>src/clients/secrets_client.ts\<close> and the mapper to the entity
  \<^verbatim>\<open>src/entities/rate.ts\<close>.  The network, the contract library, JSON and the
  database are the record \<open>rate_env\<close>, one for every tick of the cron job.  A
  \<^verbatim>\<open>ResultAsync\<close> is the promise of a result: the outer \<open>Inl\<close> is
  a rejection, the inner one an error value.
\<close>

section \<open>Chains of results\<close>

text \<open>\<^verbatim>\<open>map\<close> applies the function to a value and leaves an error alone; what
  the function throws rejects.  \<^verbatim>\<open>unwrapOr\<close> replaces an error.\<close>

definition async_map :: "('a \<Rightarrow> 'b result) \<Rightarrow> 'a result result \<Rightarrow> 'b result result" where
  "async_map f r = res_bind r (\<lambda>x. case x of Inl e \<Rightarrow> Inr (Inl e) | Inr v \<Rightarrow> res_bind (f v) (\<lambda>y. Inr (Inr y)))"

definition unwrap_or :: "'a \<Rightarrow> 'a result result \<Rightarrow> 'a result" where
  "unwrap_or d r = res_bind r (\<lambda>x. case x of Inl _ \<Rightarrow> Inr d | Inr v \<Rightarrow> Inr v)"

lemma async_map_simps [simp]:
  "async_map f (Inl e) = Inl e" "async_map f (Inr (Inl e)) = Inr (Inl e)"
  "async_map f (Inr (Inr x)) = res_bind (f x) (\<lambda>y. Inr (Inr y))"
  by (simp_all add: async_map_def)

lemma async_map_Ok: "async_map f r = Inr (Inr y) \<longleftrightarrow> (\<exists>x. r = Inr (Inr x) \<and> f x = Inr y)"
  by (cases r; cases "projr r") (auto simp: async_map_def res_bind_Inr_iff)

lemma async_map_Err: "async_map f r = Inr (Inl e) \<longleftrightarrow> r = Inr (Inl e)"
  by (auto simp: async_map_def res_bind_def split: sum.splits)

lemma unwrap_or_simps [simp]:
  "unwrap_or d (Inl e) = Inl e" "unwrap_or d (Inr (Inl e)) = Inr d" "unwrap_or d (Inr (Inr x)) = Inr x"
  by (simp_all add: unwrap_or_def)

section \<open>Secrets\<close>

text \<open>A variable of the environment that is not set is undefined.\<close>

type_synonym secrets = "(string, string option) jsmap"

definition secrets_source :: "(string \<Rightarrow> string option) \<Rightarrow> secrets" where
  "secrets_source env =
     map (\<lambda>k. (k, env k)) [''TARDIS_API_KEY'', ''INFURA_PROJ_ID'', ''ETHERSCAN_API_KEY'', ''NEW_RELIC_LICENSE_KEY'']
     @ [(''FLEEK_ID'', Some []), (''FLEEK_SECRET'', Some [])]"

record secrets_client =
  sc_dataSource :: "secrets result"
  sc_secretName :: string

definition secrets_DefaultClient :: "(string \<Rightarrow> string option) \<Rightarrow> string \<Rightarrow> secrets_client" where
  "secrets_DefaultClient env secretName =
     \<lparr> sc_dataSource = Inr (secrets_source env),
       sc_secretName = or_default (env ''AWS_SECRET_MANAGER_SECRET_NAME'') secretName \<rparr>"

text \<open>The keys that were asked for, of those that are there.\<close>

definition requireRead :: "secrets_client \<Rightarrow> string list \<Rightarrow> secrets result" where
  "requireRead client args =
     (case sc_dataSource client of
        Inr secrets \<Rightarrow> Inr (filter (\<lambda>(k, _). k \<in> set args) secrets)
      | Inl err \<Rightarrow> Inl (secret_client_error (sc_secretName client) err args))"

definition read_secret :: "string \<Rightarrow> secrets \<Rightarrow> string option" where
  "read_secret key secrets = Option.bind (map_get secrets key) (\<lambda>v. v)"

section \<open>The contract\<close>

record 'abi rate_env =
  re_isa :: "err_class \<Rightarrow> err_class \<Rightarrow> bool"
  re_env :: "string \<Rightarrow> string option"
  re_post :: "string \<Rightarrow> string result"
  re_json :: "string \<Rightarrow> 'abi result"
  re_checksum :: "string \<Rightarrow> string"
  re_contract :: "string \<Rightarrow> 'abi \<Rightarrow> string \<Rightarrow> (string \<Rightarrow> jsnum list result) result"
  re_now :: jsdate
  re_saved_at :: jsdate
  re_num_str :: "jsnum \<Rightarrow> string"

definition AAVE_LendingPoolV2 :: string where
  "AAVE_LendingPoolV2 = ''0xc02aaa39b223fe8d0a0e5c4f27ead9083c756cc2''"

definition AAVE_LendingPoolV2Impl :: string where
  "AAVE_LendingPoolV2Impl = ''0xc6845a5c768bf8d7681249f8927877efda425baf''"

definition AAVE_LendingPoolV2Proxy :: string where
  "AAVE_LendingPoolV2Proxy = ''0x7d2768de32b0b80b7a3454c06bdac94a69ddc7a9''"

definition provideAddressUrl :: "string option \<Rightarrow> string \<Rightarrow> string" where
  "provideAddressUrl apiKey address =
     ''https://api.etherscan.io/api?module=contract&action=getabi&address='' @ address
       @ ''&apikey='' @ text_of apiKey"

text \<open>The answer's \<^verbatim>\<open>result\<close> is the interface as JSON.\<close>

definition fetchContractFromAbiProvider :: "'abi rate_env \<Rightarrow> string \<Rightarrow> 'abi result" where
  "fetchContractFromAbiProvider E address = res_bind (re_post E address) (re_json E)"

definition provideEtherscan :: "'abi rate_env \<Rightarrow> string \<Rightarrow> 'abi result result" where
  "provideEtherscan E address =
     async_map (fetchContractFromAbiProvider E)
       (async_map (\<lambda>provider. Inr (provider address))
         (async_map (\<lambda>apiKey. Inr (provideAddressUrl apiKey))
           (async_map (\<lambda>secrets. Inr (read_secret ''ETHERSCAN_API_KEY'' secrets))
             (from_promise (handleAsMoleculerError (re_isa E))
               (requireRead (secrets_DefaultClient (re_env E) ''API_Keys'') [''ETHERSCAN_API_KEY''])))))"

definition provideInfuraClient :: "string option \<Rightarrow> string" where
  "provideInfuraClient projectId = ''https://mainnet.infura.io/v3/'' @ text_of projectId"

text \<open>A web3 client is its endpoint.\<close>

definition defaultWeb3 :: "'abi rate_env \<Rightarrow> string result result" where
  "defaultWeb3 E =
     async_map (\<lambda>projectId. Inr (provideInfuraClient projectId))
       (async_map (\<lambda>hash. Inr (read_secret ''INFURA_PROJ_ID'' hash))
         (from_promise (handleAsMoleculerError (re_isa E))
           (requireRead (secrets_DefaultClient (re_env E) ''API_Keys'') [''INFURA_PROJ_ID''])))"

text \<open>What the handler of an error returns is thrown again, what it throws is thrown.\<close>

definition provideContract ::
  "'abi rate_env \<Rightarrow> (string \<Rightarrow> 'abi result result) \<Rightarrow> string \<Rightarrow> (string \<Rightarrow> jsnum list result) result result" where
  "provideContract E abiClient web3 =
     res_bind (abiClient AAVE_LendingPoolV2Impl) (\<lambda>abiResult.
       case abiResult of
         Inr abi \<Rightarrow> from_promise (handleAsMoleculerError (re_isa E))
           (re_contract E web3 abi (re_checksum E AAVE_LendingPoolV2Proxy))
       | Inl e \<Rightarrow> (case handleAsMoleculerError (re_isa E) e of Inl e' \<Rightarrow> Inl e' | Inr e' \<Rightarrow> Inl e'))"

text \<open>The fourth entry of the reserve data; a shorter answer gives undefined.\<close>

definition provideAaveLiquidityValue :: "'abi rate_env \<Rightarrow> jsnum option result result" where
  "provideAaveLiquidityValue E =
     async_map (\<lambda>result. case result of
         Inr contract \<Rightarrow> res_bind (contract (re_checksum E AAVE_LendingPoolV2)) (\<lambda>values.
           Inr (if 3 < length values then Some (values ! 3) else None))
       | Inl e \<Rightarrow> Inl e)
       (async_map (provideContract E (provideEtherscan E)) (defaultWeb3 E))"

definition toLiquidityRate :: "jsnum option \<Rightarrow> jsnum" where
  "toLiquidityRate value = num_mul (Num 100) (num_div (or_default value NaN) (Num (10 ^ 27)))"

record rate_response = interest_rate +
  rr_contractValue :: "jsnum option"

definition provideRateResponse :: "'abi rate_env \<Rightarrow> rate_response result" where
  "provideRateResponse E =
     res_bind (unwrap_or (Some (Num 0)) (provideAaveLiquidityValue E)) (\<lambda>contractValue.
     res_bind (to_iso_string (re_now E)) (\<lambda>time.
       Inr \<lparr> ir_risklessRate = toLiquidityRate contractValue, ir_risklessRateAt = time,
         ir_risklessRateSource = ''AAVE'', rr_contractValue = contractValue \<rparr>))"

section \<open>The service\<close>

record rate_row =
  rt_value :: string
  rt_sourceValue :: "jsnum option"
  rt_source :: string
  rt_rateAt :: jsdate

definition Mappers_Rate_from :: "(jsnum \<Rightarrow> string) \<Rightarrow> jsdate \<Rightarrow> rate_response \<Rightarrow> rate_row" where
  "Mappers_Rate_from num_str now item =
     \<lparr> rt_value = num_str (ir_risklessRate item), rt_sourceValue = rr_contractValue item,
       rt_source = ir_risklessRateSource item, rt_rateAt = now \<rparr>"

datatype rate_effect = RateSaved rate_row | RateBroadcast string rate_response "string list"

record rate_service =
  rs_skipPersist :: bool
  rs_risklessRateSource :: string
  rs_lastRate :: "rate_row option"
  rs_effects :: "rate_effect list"

definition new_rate_service :: "(string \<Rightarrow> string option) \<Rightarrow> rate_service" where
  "new_rate_service env =
     \<lparr> rs_skipPersist = (env ''RATE_SKIP_PERSIST'' = Some ''true''),
       rs_risklessRateSource = or_default (env ''RATE_RISKLESS_RATE_SOURCE'') ''AAVE'',
       rs_lastRate = None, rs_effects = [] \<rparr>"

definition rate_persist :: "'abi rate_env \<Rightarrow> (rate_row \<Rightarrow> rate_row result) \<Rightarrow> rate_response
    \<Rightarrow> rate_service \<Rightarrow> rate_row result \<times> rate_service" where
  "rate_persist E save response s =
     (let entity = Mappers_Rate_from (re_num_str E) (re_saved_at E) response in
      case save entity of
        Inl e \<Rightarrow> (Inl e, s)
      | Inr row \<Rightarrow> (Inr row, s\<lparr> rs_effects := rs_effects s @ [RateSaved row] \<rparr>))"

text \<open>The rate is saved only when its text differs from that of the last one.\<close>

definition fetchRate :: "'abi rate_env \<Rightarrow> (rate_row \<Rightarrow> rate_row result) \<Rightarrow> rate_service
    \<Rightarrow> rate_response result result \<times> rate_service" where
  "fetchRate E save s =
     (case from_promise (handleAsMoleculerError (re_isa E)) (provideRateResponse E) of
        Inl e \<Rightarrow> (Inl e, s)
      | Inr (Inl e) \<Rightarrow> (Inr (Inl e), s)
      | Inr (Inr response) \<Rightarrow>
          if \<not> rs_skipPersist s
             \<and> map_option rt_value (rs_lastRate s) \<noteq> Some (re_num_str E (ir_risklessRate response))
          then (case rate_persist E save response s of
                  (Inl e, s1) \<Rightarrow> (Inl e, s1)
                | (Inr row, s1) \<Rightarrow> (Inr (Inr response), s1\<lparr> rs_lastRate := Some row \<rparr>))
          else (Inr (Inr response), s))"

text \<open>The action answers with a response or throws; its declared type also allows an error as the
  answer.\<close>

datatype rate_answer = RateIs rate_response | RateError thrown

definition risklessRate :: "'abi rate_env \<Rightarrow> (rate_row \<Rightarrow> rate_row result) \<Rightarrow> rate_service
    \<Rightarrow> rate_answer result \<times> rate_service" where
  "risklessRate E save s =
     (case fetchRate E save s of
        (Inl e, s1) \<Rightarrow> (Inl e, s1)
      | (Inr (Inr response), s1) \<Rightarrow> (Inr (RateIs response), s1)
      | (Inr (Inl e), s1) \<Rightarrow> (Inl e, s1))"

text \<open>The parameters of the action: the one source it knows.  The broker refuses a call with another
  one before the handler runs.\<close>

definition risklessRate_params :: "string \<Rightarrow> unit result" where
  "risklessRate_params source =
     (if source \<in> {''AAVE''} then Inr ()
      else Inl (ErrObj MoleculerClientErrorClass ''Parameters validation error!'' (Some 422) (Some ''VALIDATION_ERROR'')))"

definition risklessRate_action :: "'abi rate_env \<Rightarrow> (rate_row \<Rightarrow> rate_row result) \<Rightarrow> string \<Rightarrow> rate_service
    \<Rightarrow> rate_answer result \<times> rate_service" where
  "risklessRate_action E save source s =
     (case risklessRate_params source of
        Inl e \<Rightarrow> (Inl e, s)
      | Inr _ \<Rightarrow> risklessRate E save s)"

text \<open>The tick asks for the source of the settings, which is whatever the environment says.\<close>

definition rate_tick :: "'abi rate_env \<Rightarrow> (rate_row \<Rightarrow> rate_row result) \<Rightarrow> rate_service
    \<Rightarrow> unit result \<times> rate_service" where
  "rate_tick E save s =
     (case risklessRate_action E save (rs_risklessRateSource s) s of
        (Inl e, s1) \<Rightarrow> (Inl e, s1)
      | (Inr (RateError _), s1) \<Rightarrow> (Inr (), s1)
      | (Inr (RateIs response), s1) \<Rightarrow>
          (Inr (), s1\<lparr> rs_effects := rs_effects s1
             @ [RateBroadcast ''rate.updated'' response [''index'', ''index-eth'', ''index-btc'']] \<rparr>))"

text \<open>A run of the cron job; a tick that rejects does not stop it.\<close>

definition rate_ticks :: "(rate_row \<Rightarrow> rate_row result) \<Rightarrow> 'abi rate_env list \<Rightarrow> rate_service \<Rightarrow> rate_service" where
  "rate_ticks save Es s = fold (\<lambda>E s. snd (rate_tick E save s)) Es s"

section \<open>What is fetched\<close>

text \<open>The responses of the ticks that got one, each with the text it is compared by.\<close>

definition fetched :: "'abi rate_env \<Rightarrow> (string \<times> rate_response) option" where
  "fetched E = (case from_promise (handleAsMoleculerError (re_isa E)) (provideRateResponse E) of
     Inr (Inr response) \<Rightarrow> Some (re_num_str E (ir_risklessRate response), response)
   | _ \<Rightarrow> None)"

definition fetched_list :: "'abi rate_env list \<Rightarrow> (string \<times> rate_response) list" where
  "fetched_list Es = List.map_filter fetched Es"

lemma fetched_Some: "fetched E = Some (v, response) \<longleftrightarrow>
    provideRateResponse E = Inr response \<and> v = re_num_str E (ir_risklessRate response)"
  by (auto simp: fetched_def from_promise_def split: sum.splits)

fun saved_row :: "rate_effect \<Rightarrow> rate_row option" where
  "saved_row (RateSaved row) = Some row"
| "saved_row (RateBroadcast _ _ _) = None"

fun announced_rate :: "rate_effect \<Rightarrow> rate_response option" where
  "announced_rate (RateSaved row) = None"
| "announced_rate (RateBroadcast _ response _) = Some response"

abbreviation saved_values :: "rate_service \<Rightarrow> string list" where
  "saved_values s \<equiv> map rt_value (List.map_filter saved_row (rs_effects s))"

abbreviation announced_rates :: "rate_service \<Rightarrow> rate_response list" where
  "announced_rates s \<equiv> List.map_filter announced_rate (rs_effects s)"

text \<open>A save that returns the entity it was given, with what the database adds to it.\<close>

definition saving :: "(rate_row \<Rightarrow> rate_row result) \<Rightarrow> bool" where
  "saving save \<longleftrightarrow> (\<forall>row. \<exists>row'. save row = Inr row' \<and> rt_value row' = rt_value row)"

lemma map_filter_append: "List.map_filter f (xs @ ys) = List.map_filter f xs @ List.map_filter f ys"
  by (simp add: List.map_filter_def)

lemma rate_tick_None: "fetched E = None \<Longrightarrow> snd (rate_tick E save s) = s"
  by (auto simp: rate_tick_def risklessRate_action_def risklessRate_def fetchRate_def fetched_def split: sum.splits prod.splits if_splits)

lemma rate_tick_refused: "rs_risklessRateSource s \<noteq> ''AAVE'' \<Longrightarrow> snd (rate_tick E save s) = s"
  by (simp add: rate_tick_def risklessRate_action_def risklessRate_params_def)

lemma rate_tick_source: "rs_risklessRateSource (snd (rate_tick E save s)) = rs_risklessRateSource s"
  by (auto simp: rate_tick_def risklessRate_action_def risklessRate_def fetchRate_def rate_persist_def Let_def
      split: sum.splits prod.splits if_splits rate_answer.splits)

lemma rate_tick_Some:
  assumes "fetched E = Some (v, response)" "saving save" "rs_risklessRateSource s = ''AAVE''"
  shows "let s' = snd (rate_tick E save s) in
    rs_skipPersist s' = rs_skipPersist s \<and> announced_rates s' = announced_rates s @ [response]
    \<and> (if rs_skipPersist s \<or> map_option rt_value (rs_lastRate s) = Some v
       then rs_lastRate s' = rs_lastRate s \<and> saved_values s' = saved_values s
       else map_option rt_value (rs_lastRate s') = Some v \<and> saved_values s' = saved_values s @ [v])"
proof -
  have r: "provideRateResponse E = Inr response" and v: "v = re_num_str E (ir_risklessRate response)"
    using assms(1) by (simp_all add: fetched_Some)
  define entity where "entity = Mappers_Rate_from (re_num_str E) (re_saved_at E) response"
  have "rt_value entity = v" by (simp add: entity_def Mappers_Rate_from_def v)
  then obtain row where row: "save entity = Inr row" "rt_value row = v"
    using assms(2) unfolding saving_def by metis
  show ?thesis
    by (simp add: rate_tick_def risklessRate_action_def risklessRate_params_def assms(3) risklessRate_def fetchRate_def
        from_promise_def r rate_persist_def Let_def
        v [symmetric] row [unfolded entity_def] map_filter_append List.map_filter_simps)
qed

lemma remdups_adj_Cons_tl: "remdups_adj (v # vs) = v # tl (remdups_adj (v # vs))"
  by (cases vs) (auto simp: remdups_adj_Cons split: list.splits)

lemma tl_remdups_adj: "tl (remdups_adj (v # w # vs)) = (if v = w then tl (remdups_adj (w # vs)) else remdups_adj (w # vs))"
  by simp

definition saves_from :: "rate_service \<Rightarrow> string list \<Rightarrow> string list" where
  "saves_from s vs = (if rs_skipPersist s then []
     else case map_option rt_value (rs_lastRate s) of
            None \<Rightarrow> remdups_adj vs | Some v \<Rightarrow> tl (remdups_adj (v # vs)))"

lemma rate_ticks_refused: "rs_risklessRateSource s \<noteq> ''AAVE'' \<Longrightarrow> rate_ticks save Es s = s"
  by (induction Es) (simp_all add: rate_ticks_def rate_tick_refused)

lemma rate_ticks_fetched:
  assumes "saving save" "rs_risklessRateSource s = ''AAVE''"
  shows "announced_rates (rate_ticks save Es s) = announced_rates s @ map snd (fetched_list Es)
    \<and> saved_values (rate_ticks save Es s) = saved_values s @ saves_from s (map fst (fetched_list Es))"
  using assms(2)
proof (induction Es arbitrary: s)
  case Nil
  show ?case by (simp add: rate_ticks_def fetched_list_def List.map_filter_simps saves_from_def split: option.splits)
next
  case (Cons E Es)
  let ?s = "snd (rate_tick E save s)"
  have run: "rate_ticks save (E # Es) s = rate_ticks save Es ?s" by (simp add: rate_ticks_def)
  show ?case
  proof (cases "fetched E")
    case None
    then have fl: "fetched_list (E # Es) = fetched_list Es"
      by (simp add: fetched_list_def List.map_filter_simps(1))
    show ?thesis using Cons.IH [of s] Cons.prems unfolding run rate_tick_None [OF None] fl .
  next
    case (Some vr)
    obtain v response where vr: "vr = (v, response)" by force
    note t = rate_tick_Some [OF Some [unfolded vr] assms(1) Cons.prems, unfolded Let_def]
    have fl: "fetched_list (E # Es) = (v, response) # fetched_list Es"
      using Some vr by (simp add: fetched_list_def List.map_filter_simps)
    have "saved_values ?s @ saves_from ?s vs = saved_values s @ saves_from s (v # vs)" for vs
      using t remdups_adj_Cons_tl [of v vs]
      by (auto simp: saves_from_def tl_remdups_adj split: if_splits option.splits simp del: remdups_adj.simps)
    then show ?thesis unfolding run fl using Cons.IH [of ?s] Cons.prems t by (simp add: rate_tick_source)
  qed
qed

text \<open>Every broadcast is the same event to the same services.\<close>

fun to_index :: "rate_effect \<Rightarrow> bool" where
  "to_index (RateSaved row) \<longleftrightarrow> True"
| "to_index (RateBroadcast event response groups) \<longleftrightarrow>
     event = ''rate.updated'' \<and> groups = [''index'', ''index-eth'', ''index-btc'']"

lemma rate_tick_to_index: "list_all to_index (rs_effects s) \<Longrightarrow> list_all to_index (rs_effects (snd (rate_tick E save s)))"
  by (auto simp: rate_tick_def risklessRate_action_def risklessRate_def fetchRate_def rate_persist_def Let_def
      split: sum.splits prod.splits if_splits rate_answer.splits)

lemma rate_ticks_to_index: "list_all to_index (rs_effects s) \<Longrightarrow> list_all to_index (rs_effects (rate_ticks save Es s))"
  by (induction Es arbitrary: s) (simp_all add: rate_ticks_def rate_tick_to_index)

lemma requireRead_default: "requireRead (secrets_DefaultClient env n) args = Inr (filter (\<lambda>(k, _). k \<in> set args) (secrets_source env))"
  by (simp add: requireRead_def secrets_DefaultClient_def)

lemma defaultWeb3_ok: "defaultWeb3 E = Inr (Inr (provideInfuraClient (re_env E ''INFURA_PROJ_ID'')))"
  by (simp add: defaultWeb3_def requireRead_default from_promise_def secrets_source_def read_secret_def map_get_def)

lemma provideEtherscan_ok:
  "provideEtherscan E address =
    res_bind (fetchContractFromAbiProvider E (provideAddressUrl (re_env E ''ETHERSCAN_API_KEY'') address))
      (\<lambda>abi. Inr (Inr abi))"
  by (simp add: provideEtherscan_def requireRead_default from_promise_def secrets_source_def read_secret_def map_get_def)

section \<open>Properties\<close>

text \<open>C39: a rate is read from the contract.  A response carries the fourth entry of the reserve data
  of the contract whose interface the provider answered with, at the fixed addresses, as a
  percentage (NaN when there are fewer entries): the default of 0 is never used, because reading the
  secrets does not fail, not even for one that is not set.\<close>

theorem rate_read_from_contract:
  assumes "provideRateResponse E = Inr r"
  shows "\<exists>json abi contract values.
    re_post E (provideAddressUrl (re_env E ''ETHERSCAN_API_KEY'') AAVE_LendingPoolV2Impl) = Inr json
    \<and> re_json E json = Inr abi
    \<and> re_contract E (provideInfuraClient (re_env E ''INFURA_PROJ_ID'')) abi
        (re_checksum E AAVE_LendingPoolV2Proxy) = Inr contract
    \<and> contract (re_checksum E AAVE_LendingPoolV2) = Inr values
    \<and> rr_contractValue r = (if 3 < length values then Some (values ! 3) else None)
    \<and> ir_risklessRate r =
        (if 3 < length values then num_mul (Num 100) (num_div (values ! 3) (Num (10 ^ 27))) else NaN)"
proof -
  obtain v where v: "unwrap_or (Some (Num 0)) (provideAaveLiquidityValue E) = Inr v"
    "rr_contractValue r = v" "ir_risklessRate r = toLiquidityRate v"
    using assms by (auto simp: provideRateResponse_def res_bind_Inr_iff)
  have ne: "provideAaveLiquidityValue E \<noteq> Inr (Inl e)" for e
    by (auto simp: provideAaveLiquidityValue_def defaultWeb3_ok async_map_Err res_bind_def split: sum.splits)
  then have "provideAaveLiquidityValue E = Inr (Inr v)"
    using v(1) by (cases "provideAaveLiquidityValue E") (auto simp: unwrap_or_def split: sum.splits)
  then obtain result where res: "provideContract E (provideEtherscan E) (provideInfuraClient (re_env E ''INFURA_PROJ_ID'')) = Inr result"
    "(case result of Inr contract \<Rightarrow> res_bind (contract (re_checksum E AAVE_LendingPoolV2)) (\<lambda>values.
           Inr (if 3 < length values then Some (values ! 3) else None)) | Inl e \<Rightarrow> Inl e) = Inr v"
    by (auto simp: provideAaveLiquidityValue_def defaultWeb3_ok async_map_Ok res_bind_Inr_iff)
  then obtain contr vals where c: "result = Inr contr" "contr (re_checksum E AAVE_LendingPoolV2) = Inr vals"
    "v = (if 3 < length vals then Some (vals ! 3) else None)"
    by (auto simp: res_bind_Inr_iff split: sum.splits)
  obtain abi where a: "fetchContractFromAbiProvider E
      (provideAddressUrl (re_env E ''ETHERSCAN_API_KEY'') AAVE_LendingPoolV2Impl) = Inr abi"
    "from_promise (handleAsMoleculerError (re_isa E))
      (re_contract E (provideInfuraClient (re_env E ''INFURA_PROJ_ID'')) abi
        (re_checksum E AAVE_LendingPoolV2Proxy)) = Inr (Inr contr)"
    using res(1) c(1) by (auto simp: provideContract_def provideEtherscan_ok res_bind_Inr_iff)
  have "re_contract E (provideInfuraClient (re_env E ''INFURA_PROJ_ID'')) abi (re_checksum E AAVE_LendingPoolV2Proxy)
      = Inr contr"
    using a(2) by (simp add: from_promise_def split: sum.splits)
  moreover obtain json where
    "re_post E (provideAddressUrl (re_env E ''ETHERSCAN_API_KEY'') AAVE_LendingPoolV2Impl) = Inr json"
    "re_json E json = Inr abi"
    using a(1) by (auto simp: fetchContractFromAbiProvider_def res_bind_Inr_iff)
  ultimately show ?thesis using c(2,3) v(2,3) by (auto simp: toLiquidityRate_def num_div.simps)
qed

text \<open>A run of the rate service.  Every tick that gets a response announces it, in order; what is
  saved is the sequence of their rates without immediate repetitions, or nothing when persistence is
  switched off.  A tick that gets none rejects and changes nothing, and with another source in the
  environment than the one the action knows every tick is refused.\<close>

definition known_source :: "(string \<Rightarrow> string option) \<Rightarrow> bool" where
  "known_source env \<longleftrightarrow> env ''RATE_RISKLESS_RATE_SOURCE'' \<in> {None, Some ''AAVE''}"

lemma new_rate_source: "rs_risklessRateSource (new_rate_service env) = ''AAVE'' \<longleftrightarrow> known_source env"
  by (cases "env ''RATE_RISKLESS_RATE_SOURCE''") (auto simp: new_rate_service_def known_source_def)

theorem rate_run:
  assumes "saving save" "s = rate_ticks save Es (new_rate_service env)"
  shows "announced_rates s = (if known_source env then map snd (fetched_list Es) else [])
    \<and> saved_values s = (if env ''RATE_SKIP_PERSIST'' = Some ''true'' \<or> \<not> known_source env then []
        else remdups_adj (map fst (fetched_list Es)))"
proof (cases "known_source env")
  case True
  then show ?thesis
    using rate_ticks_fetched [OF assms(1), of "new_rate_service env" Es] new_rate_source [of env]
    by (simp add: assms(2)) (simp add: new_rate_service_def saves_from_def List.map_filter_simps)
next
  case False
  then have "s = new_rate_service env" using rate_ticks_refused new_rate_source [of env] assms(2) by metis
  then show ?thesis using False by (simp add: new_rate_service_def List.map_filter_simps)
qed

section \<open>Witnesses\<close>

definition sample_rate_env :: "real \<Rightarrow> string rate_env" where
  "sample_rate_env v = \<lparr> re_isa = class_isa, re_env = (\<lambda>_. Some ''k''), re_post = (\<lambda>_. Inr ''[]''), re_json = Inr,
     re_checksum = (\<lambda>a. a), re_contract = (\<lambda>_ _ _. Inr (\<lambda>_. Inr [Num 0, Num 0, Num 0, Num (v * 10 ^ 27)])),
     re_now = Some 1651363200000, re_saved_at = Some 1651363200000,
     re_num_str = (\<lambda>x. if x = Num 100 then ''100'' else ''200'') \<rparr>"

lemma sample_provide: "\<exists>r. provideRateResponse (sample_rate_env v) = Inr r \<and> ir_risklessRate r = Num (100 * v)"
  by (simp add: provideRateResponse_def provideAaveLiquidityValue_def defaultWeb3_ok provideContract_def
      provideEtherscan_ok fetchContractFromAbiProvider_def from_promise_def sample_rate_env_def toLiquidityRate_def
      to_iso_string_Some)

lemma rate_read_from_contract_witness:
  "\<exists>r values. provideRateResponse (sample_rate_env 1) = Inr r \<and> length values = 4
    \<and> rr_contractValue r = Some (values ! 3)"
proof -
  obtain r where r: "provideRateResponse (sample_rate_env 1) = Inr r" using sample_provide by blast
  from rate_read_from_contract [OF this] obtain vals where
    "vals = [Num 0, Num 0, Num 0, Num (1 * 10 ^ 27)]"
    "rr_contractValue r = (if 3 < length vals then Some (vals ! 3) else None)"
    by (auto simp: sample_rate_env_def)
  then show ?thesis using r by (intro exI [of _ r] exI [of _ vals]) simp
qed

lemma sample_fetched: "fetched (sample_rate_env 1) \<noteq> None \<and> fst (the (fetched (sample_rate_env 1))) = ''100''"
  "fetched (sample_rate_env 2) \<noteq> None \<and> fst (the (fetched (sample_rate_env 2))) = ''200''"
proof -
  obtain r1 r2 where "provideRateResponse (sample_rate_env 1) = Inr r1" "ir_risklessRate r1 = Num 100"
    "provideRateResponse (sample_rate_env 2) = Inr r2" "ir_risklessRate r2 = Num 200"
    using sample_provide [of 1] sample_provide [of 2] by auto
  moreover have "re_num_str (sample_rate_env v) x = (if x = Num 100 then ''100'' else ''200'')" for v x
    by (simp add: sample_rate_env_def)
  ultimately show "fetched (sample_rate_env 1) \<noteq> None \<and> fst (the (fetched (sample_rate_env 1))) = ''100''"
    "fetched (sample_rate_env 2) \<noteq> None \<and> fst (the (fetched (sample_rate_env 2))) = ''200''"
    by (simp_all add: fetched_def from_promise_def)
qed

lemma rate_run_witness:
  "saved_values (rate_ticks Inr [sample_rate_env 1, sample_rate_env 1, sample_rate_env 2] (new_rate_service (\<lambda>_. None)))
    = [''100'', ''200'']"
proof -
  have s: "saving Inr" by (simp add: saving_def)
  show ?thesis
    using conjunct2 [OF rate_run [OF s refl, of "[sample_rate_env 1, sample_rate_env 1, sample_rate_env 2]" "\<lambda>_. None"]]
      sample_fetched by (auto simp: fetched_list_def List.map_filter_simps known_source_def)
qed

end
