(* ===== verification/Live.thy ===== *)
theory Live
  imports Ingest IndexService Rate
begin

text \<open>
  The running system: the ingest, the rate and the index service of
  \<^verbatim>\<open>services/\<close> side by side.  Their events interleave as \<open>live_step\<close>s: a message
  arrives, its summary is stored, the cron job of the rate service ticks, an estimate is asked for.
  The two requests of an estimate are answered one after the other and messages arrive in between,
  so each of them may see any state the ingest service has been in.
\<close>

section \<open>Rates on their way to the index service\<close>

text \<open>The index service under one of its names receives the broadcasts of the rate service.\<close>

definition deliver_rates :: "string \<Rightarrow> rate_effect list \<Rightarrow> index_service \<Rightarrow> index_service" where
  "deliver_rates name effects s =
     fold (\<lambda>e s. case e of
         RateSaved _ \<Rightarrow> s
       | RateBroadcast event response groups \<Rightarrow>
           if event = ''rate.updated'' \<and> name \<in> set groups then rate_updated (interest_rate.truncate response) s
           else s) effects s"

lemma deliver_rates_last:
  "name \<in> {''index'', ''index-eth'', ''index-btc''} \<Longrightarrow> list_all to_index effects \<Longrightarrow>
    xs_risklessRate (deliver_rates name effects s) =
      (case List.map_filter announced_rate effects of
         [] \<Rightarrow> xs_risklessRate s
       | r # rs \<Rightarrow> Some (interest_rate.truncate (last (r # rs))))"
proof (induction effects arbitrary: s)
  case (Cons e effects)
  then show ?case
    by (cases e) (auto simp: deliver_rates_def rate_updated_def List.map_filter_simps split: list.splits)
qed (simp add: deliver_rates_def List.map_filter_simps)

lemma deliver_rates_effects [simp]: "xs_effects (deliver_rates name effects s) = xs_effects s"
  by (induction effects arbitrary: s) (auto simp: deliver_rates_def rate_updated_def split: rate_effect.splits)

lemma deliver_rates_announced:
  "xs_risklessRate (deliver_rates name effects s) \<in> insert (xs_risklessRate s)
    ((\<lambda>r. Some (interest_rate.truncate r)) ` set (List.map_filter announced_rate effects))"
proof (induction effects arbitrary: s)
  case (Cons e effects)
  define s1 where "s1 = deliver_rates name [e] s"
  have "deliver_rates name (e # effects) s = deliver_rates name effects s1"
    by (simp add: deliver_rates_def s1_def)
  moreover have "xs_risklessRate s1 \<in> insert (xs_risklessRate s)
      ((\<lambda>r. Some (interest_rate.truncate r)) ` set (List.map_filter announced_rate [e]))"
    by (cases e) (auto simp: s1_def deliver_rates_def rate_updated_def List.map_filter_simps)
  ultimately show ?case using Cons.IH [of s1] by (cases e) (auto simp: List.map_filter_simps)
qed (simp add: deliver_rates_def)

section \<open>The steps\<close>

text \<open>\<^verbatim>\<open>lv_received\<close>, \<^verbatim>\<open>lv_seen\<close> and \<^verbatim>\<open>lv_asked\<close>
  are history: the messages that have arrived, the states the ingest service has been in, and the
  environments the estimates ran in.\<close>

record 'c live =
  lv_ingest :: "'c ingest_service"
  lv_rate :: rate_service
  lv_index :: index_service
  lv_received :: "option_summary list"
  lv_seen :: "'c ingest_service list"
  lv_asked :: "index_env list"

definition new_live :: "'c \<Rightarrow> (string \<Rightarrow> string option) \<Rightarrow> bool \<Rightarrow> 'c live" where
  "new_live c env skipPersist =
     \<lparr> lv_ingest = new_ingest c, lv_rate = new_rate_service env,
       lv_index = \<lparr> xs_risklessRate = None, xs_skipPersist = skipPersist, xs_effects = [] \<rparr>,
       lv_received = [], lv_seen = [new_ingest c], lv_asked = [] \<rparr>"

definition live_ingest :: "'c ingest_service \<Rightarrow> 'c live \<Rightarrow> 'c live" where
  "live_ingest t s = s\<lparr> lv_ingest := t, lv_seen := lv_seen s @ [t] \<rparr>"

definition live_tick :: "(rate_row \<Rightarrow> rate_row result) \<Rightarrow> string \<Rightarrow> 'abi rate_env \<Rightarrow> 'c live \<Rightarrow> 'c live" where
  "live_tick save name E s =
     (let r = snd (rate_tick E save (lv_rate s))
      in s\<lparr> lv_rate := r,
            lv_index := deliver_rates name (drop (length (rs_effects (lv_rate s))) (rs_effects r)) (lv_index s) \<rparr>)"

text \<open>The environment of an estimate: a request is answered by the ingest service in a state it has
  been in, or it fails (a time limit, a node that is gone).\<close>

definition answered_by ::
  "'c cacher_lib \<Rightarrow> (option_summary option result list \<Rightarrow> option_summary option list result)
   \<Rightarrow> 'c ingest_service list \<Rightarrow> index_env \<Rightarrow> bool" where
  "answered_by lib combine seen X \<longleftrightarrow>
     (\<forall>action expiry asset. (\<exists>e. xe_call X action expiry asset = Inl e)
       \<or> (\<exists>t \<in> set seen. xe_call X action expiry asset = summaries (Some lib) combine expiry t))"

inductive live_step ::
  "'c cacher_lib \<Rightarrow> (option_summary option result list \<Rightarrow> option_summary option list result)
   \<Rightarrow> (rate_row \<Rightarrow> rate_row result) \<Rightarrow> string \<Rightarrow> 'abi rate_env set \<Rightarrow> 'c live \<Rightarrow> 'c live \<Rightarrow> bool"
  for lib combine save name envs where
  Message: "ig_pending (lv_ingest s) = None \<Longrightarrow>
    live_step lib combine save name envs s
      ((live_ingest (receive (Some lib) m (lv_ingest s)) s)\<lparr> lv_received := lv_received s @ [m] \<rparr>)"
| Stored: "ig_pending (lv_ingest s) = Some m \<Longrightarrow> store (Some lib) (lv_ingest s) = Inr t \<Longrightarrow>
    live_step lib combine save name envs s (live_ingest t s)"
| RateTick: "E \<in> envs \<Longrightarrow> live_step lib combine save name envs s (live_tick save name E s)"
| Estimate: "answered_by lib combine (lv_seen s) X \<Longrightarrow> estimate X requestId params (lv_index s) = (answer, x) \<Longrightarrow>
    live_step lib combine save name envs s (s\<lparr> lv_index := x, lv_asked := lv_asked s @ [X] \<rparr>)"

inductive live_reachable ::
  "'c cacher_lib \<Rightarrow> (option_summary option result list \<Rightarrow> option_summary option list result)
   \<Rightarrow> (rate_row \<Rightarrow> rate_row result) \<Rightarrow> string \<Rightarrow> 'abi rate_env set \<Rightarrow> 'c live \<Rightarrow> 'c live \<Rightarrow> bool"
  for lib combine save name envs s0 where
  Start: "live_reachable lib combine save name envs s0 s0"
| Step: "live_reachable lib combine save name envs s0 s \<Longrightarrow> live_step lib combine save name envs s s' \<Longrightarrow>
    live_reachable lib combine save name envs s0 s'"

lemma live_reachable_trans:
  "live_reachable lib combine save name envs s1 s2 \<Longrightarrow> live_reachable lib combine save name envs s0 s1 \<Longrightarrow>
    live_reachable lib combine save name envs s0 s2"
  by (induction rule: live_reachable.induct) (auto intro: live_reachable.Step)

inductive_cases live_stepE: "live_step lib combine save name envs s s'"

section \<open>The invariant\<close>

definition sent_summaries :: "option_summary list \<Rightarrow> option_summary set" where
  "sent_summaries ms = (\<lambda>m. summaryWithDefaults m (Num 0) (Num 0) (Num 0)) ` set ms"

definition contract_rates :: "'abi rate_env set \<Rightarrow> interest_rate set" where
  "contract_rates envs = {interest_rate.truncate r | E r. E \<in> envs \<and> provideRateResponse E = Inr r}"

text \<open>What the cache holds was received; so was the message that is being stored.\<close>

definition ingest_sourced :: "'c cacher_lib \<Rightarrow> option_summary list \<Rightarrow> 'c ingest_service \<Rightarrow> bool" where
  "ingest_sourced lib ms t \<longleftrightarrow>
     (\<forall>y v. ch_get lib (ig_cache t) y = Inr (Some v) \<longrightarrow> v \<in> sent_summaries ms)
     \<and> (\<forall>m. ig_pending t = Some m \<longrightarrow> m \<in> set ms)"

definition sourced_evidence :: "option_summary list \<Rightarrow> interest_rate set \<Rightarrow> mfiv_evidence \<Rightarrow> bool" where
  "sourced_evidence ms rates ev \<longleftrightarrow> mp_options (me_params ev) \<noteq> []
     \<and> set (mp_options (me_params ev)) \<subseteq> sent_summaries ms \<and> mc_rate (me_context ev) \<in> insert default_rate rates"

text \<open>A saved row is that of an evidence: its columns are those of the context, its time is the time of
  the parameters, and its value and the extra one are the printed results of the computation.\<close>

definition row_of :: "index_env set \<Rightarrow> methodology_index \<Rightarrow> mfiv_evidence \<Rightarrow> bool" where
  "row_of Xs row ev \<longleftrightarrow> (\<exists>X \<in> Xs. xe_compute X (me_context ev) (me_params ev) = Inr (me_result ev)
     \<and> mi_symbolType row = ''option'' \<and> mi_asset row = mc_asset (me_context ev)
     \<and> mi_exchange row = mc_exchange (me_context ev) \<and> mi_methodology row = mc_methodology (me_context ev)
     \<and> mi_timePeriod row = mc_timePeriod (me_context ev)
     \<and> mi_timestamp row = parse_iso (xe_parse X) (mp_at (me_params ev))
     \<and> mi_value row = (case mr_dVol (me_result ev) of Some v \<Rightarrow> xe_number_string X v | None \<Rightarrow> ''undefined'')
     \<and> xx_near (mi_extra row) = mp_nearDate (me_params ev) \<and> xx_next (mi_extra row) = mp_nextDate (me_params ev)
     \<and> xx_iVal (mi_extra row) = (case mr_invdVol (me_result ev) of
         Some v \<Rightarrow> if xe_number_string X v = [] then ''undefined'' else xe_number_string X v
       | None \<Rightarrow> ''undefined''))"

lemma row_of_mono: "row_of Xs row ev \<Longrightarrow> Xs \<subseteq> Ys \<Longrightarrow> row_of Ys row ev"
  unfolding row_of_def by blast

fun announced_evidence :: "index_effect list \<Rightarrow> mfiv_evidence list" where
  "announced_evidence [] = []"
| "announced_evidence (Announced event ev groups # xs) = ev # announced_evidence xs"
| "announced_evidence (Saved row # xs) = announced_evidence xs"

text \<open>Every row is saved after the announcement of its evidence.\<close>

fun saved_after :: "index_env set \<Rightarrow> mfiv_evidence set \<Rightarrow> index_effect list \<Rightarrow> bool" where
  "saved_after Xs evs [] \<longleftrightarrow> True"
| "saved_after Xs evs (Announced event ev groups # xs) \<longleftrightarrow> saved_after Xs (insert ev evs) xs"
| "saved_after Xs evs (Saved row # xs) \<longleftrightarrow> (\<exists>ev \<in> evs. row_of Xs row ev) \<and> saved_after Xs evs xs"

definition live_inv :: "'c cacher_lib \<Rightarrow> 'abi rate_env set \<Rightarrow> 'c live \<Rightarrow> bool" where
  "live_inv lib envs s \<longleftrightarrow>
     lv_ingest s \<in> set (lv_seen s) \<and> (\<forall>t \<in> set (lv_seen s). ingest_sourced lib (lv_received s) t)
     \<and> xs_risklessRate (lv_index s) \<in> insert None (Some ` contract_rates envs)
     \<and> (\<forall>ev \<in> set (announced_evidence (xs_effects (lv_index s))).
          sourced_evidence (lv_received s) (contract_rates envs) ev)
     \<and> saved_after (set (lv_asked s)) {} (xs_effects (lv_index s))"

lemma announced_evidence_append [simp]:
  "announced_evidence (xs @ ys) = announced_evidence xs @ announced_evidence ys"
  by (induction xs rule: announced_evidence.induct) simp_all

lemma saved_after_append: "saved_after Xs evs (xs @ ys) \<longleftrightarrow>
    saved_after Xs evs xs \<and> saved_after Xs (evs \<union> set (announced_evidence xs)) ys"
  by (induction Xs evs xs rule: saved_after.induct) simp_all

lemma saved_after_saved: "saved_after Xs evs (map Saved rows) \<longleftrightarrow> (\<forall>row \<in> set rows. \<exists>ev \<in> evs. row_of Xs row ev)"
  by (induction rows) simp_all

lemma announced_evidence_saved [simp]: "announced_evidence (map Saved rows) = []"
  by (induction rows) simp_all

lemma sent_summaries_snoc: "sent_summaries ms \<subseteq> sent_summaries (ms @ [m])"
  by (auto simp: sent_summaries_def)

lemma saved_after_mono: "saved_after Xs evs xs \<Longrightarrow> evs \<subseteq> evs' \<Longrightarrow> Xs \<subseteq> Ys \<Longrightarrow> saved_after Ys evs' xs"
proof (induction xs arbitrary: evs evs')
  case (Cons x xs)
  show ?case
  proof (cases x)
    case (Announced event ev groups)
    have "insert ev evs \<subseteq> insert ev evs'" using Cons.prems(2) by blast
    with Announced Cons.prems(1,3) Cons.IH show ?thesis by (simp only: saved_after.simps)
  next
    case (Saved row)
    then obtain ev where "ev \<in> evs'" "row_of Ys row ev" using Cons.prems row_of_mono [OF _ Cons.prems(3)] by auto
    moreover have "saved_after Ys evs' xs" using Saved Cons.prems by (intro Cons.IH [of evs evs']) simp_all
    ultimately show ?thesis by (auto simp: Saved)
  qed
qed simp

lemma sourced_evidence_later: "sourced_evidence ms rates ev \<Longrightarrow> sourced_evidence (ms @ [m]) rates ev"
  using sent_summaries_snoc [of ms m] by (auto simp: sourced_evidence_def)

subsection \<open>Each step\<close>

lemma ingest_sourced_later: "ingest_sourced lib ms t \<Longrightarrow> ingest_sourced lib (ms @ [m]) t"
  using sent_summaries_snoc [of ms m] by (auto simp: ingest_sourced_def)

lemma ingest_sourced_receive: "ingest_sourced lib ms t \<Longrightarrow> ingest_sourced lib (ms @ [m]) (receive (Some lib) m t)"
  using sent_summaries_snoc [of ms m] by (auto simp: ingest_sourced_def receive_def)

context cacher begin

lemma ingest_sourced_store:
  assumes "ingest_sourced C ms t" "store (Some C) t = Inr t'"
  shows "ingest_sourced C ms t'"
  using assms by (auto simp: ingest_sourced_def store_def res_bind_Inr_iff get_set sent_summaries_def
      split: option.splits if_splits)

end

lemma summaries_from_cache:
  assumes "combining combine" "summaries (Some lib) combine k t = Inr vs" "v \<in> set vs"
  shows "\<exists>y. ch_get lib (ig_cache t) y = Inr v"
proof -
  obtain syms rs where r: "promise_all (map (\<lambda>y. from_promise handleError (ch_get lib (ig_cache t) y)) syms) = Inr rs"
    "combine rs = Inr vs"
    using assms(2) by (auto simp: summaries_def fetchOptionSummaries_def res_bind_Inr_iff split: option.splits)
  have "map (\<lambda>y. from_promise handleError (ch_get lib (ig_cache t) y)) syms = map (\<lambda>v. Inr (Inr v)) vs"
    using neverthrow.combine_InrD [OF r(1)] combining.combine_InrD [OF assms(1) r(2)] by simp
  then have "Inr (Inr v) \<in> set (map (\<lambda>y. from_promise handleError (ch_get lib (ig_cache t) y)) syms)"
    using assms(3) by auto
  then show ?thesis by (auto simp: from_promise_def split: sum.splits)
qed

lemma options_sourced:
  assumes "combining combine" "\<forall>t \<in> set seen. ingest_sourced lib ms t" "answered_by lib combine seen X"
    and "optionSummariesLists X asset dates = Inr options"
  shows "set options \<subseteq> sent_summaries ms"
proof
  fix v
  assume "v \<in> set options"
  then have "Some v \<in> set (map Some options)" by simp
  then obtain action expiry where "Some v \<in> set (fulfilled (xe_call X action expiry asset))"
    using assms(4) unfolding optionSummariesLists_iff by auto
  then obtain vs where vs: "xe_call X action expiry asset = Inr vs" "Some v \<in> set vs"
    by (cases "xe_call X action expiry asset") (auto simp: fulfilled_def)
  then obtain t where t: "t \<in> set seen" "summaries (Some lib) combine expiry t = Inr vs" "Some v \<in> set vs"
    using assms(3) unfolding answered_by_def by (metis sum.distinct(1))
  then show "v \<in> sent_summaries ms"
    using assms(2) summaries_from_cache [OF assms(1) t(2,3)] by (auto simp: ingest_sourced_def)
qed

lemma rate_tick_effects:
  "\<exists>new. rs_effects (snd (rate_tick E save s)) = rs_effects s @ new
    \<and> (\<forall>r \<in> set (List.map_filter announced_rate new). provideRateResponse E = Inr r)"
proof (cases "fetched E")
  case None
  then show ?thesis by (simp add: rate_tick_None List.map_filter_simps)
next
  case (Some vr)
  then obtain response where "provideRateResponse E = Inr response" by (cases vr) (auto simp: fetched_Some)
  then show ?thesis
    by (auto simp: rate_tick_def risklessRate_action_def risklessRate_def fetchRate_def from_promise_def rate_persist_def
        Let_def List.map_filter_simps map_filter_append split: sum.splits)
qed

lemma estimate_adds:
  assumes "estimate X requestId params s = (answer, s')"
  shows "\<exists>new. xs_effects s' = xs_effects s @ new \<and> xs_risklessRate s' = xs_risklessRate s
    \<and> (\<forall>ev \<in> set (announced_evidence new). computed_evidence X params s ev) \<and> saved_after {X} {} new"
proof -
  have announced: "xs_effects (announced params ev t) = xs_effects t @ [Announced
      (ep_methodology params @ ''.'' @ ep_timePeriod params @ ''.'' @ ep_asset params @ ''.index.created'') ev [''ws'']]"
    "xs_risklessRate (announced params ev t) = xs_risklessRate t" for ev t
    by (simp_all add: announced_def)
  from estimate_outcomes [OF assms] show ?thesis
  proof (elim disjE exE conjE)
    fix ev x
    assume ev: "computed_evidence X params s ev"
      and x: "xx_near x = mp_nearDate (me_params ev)" "xx_next x = mp_nextDate (me_params ev)"
        "xx_iVal x = (case mr_invdVol (me_result ev) of
            Some v \<Rightarrow> if xe_number_string X v = [] then ''undefined'' else xe_number_string X v
          | None \<Rightarrow> ''undefined'')"
      and s': "s' = (if xs_skipPersist s then announced params ev s else persist X ev x (announced params ev s))"
    have c: "xe_compute X (me_context ev) (me_params ev) = Inr (me_result ev)"
      using ev unfolding computed_evidence_def by blast
    let ?t = "announced params ev s"
    obtain rows where rows: "persist X ev x ?t = ?t\<lparr> xs_effects := xs_effects ?t @ map Saved rows \<rparr>"
      and row: "\<forall>i \<in> set rows. mi_asset i = mc_asset (me_context ev) \<and> mi_exchange i = mc_exchange (me_context ev)
      \<and> mi_timePeriod i = mc_timePeriod (me_context ev) \<and> mi_extra i = x
      \<and> mi_symbolType i = ''option'' \<and> mi_methodology i = mc_methodology (me_context ev)
      \<and> mi_timestamp i = parse_iso (xe_parse X) (mp_at (me_params ev))
      \<and> mi_value i = (case mr_dVol (me_result ev) of Some v \<Rightarrow> xe_number_string X v | None \<Rightarrow> ''undefined'')"
      using persist_saves [of X ev x ?t] by blast
    have "\<forall>i \<in> set rows. row_of {X} i ev" using row x c unfolding row_of_def by simp
    then have "saved_after {X} {ev} (map Saved rows)" by (simp add: saved_after_saved)
    note this rows
    then show ?thesis
      using ev by (cases "xs_skipPersist s") (auto simp: s' announced saved_after_saved)
  qed (auto simp: announced)
qed

lemma estimate_announced:
  assumes "estimate X requestId params s = (Inr (Evidence ev), s')"
  shows "Announced (ep_methodology params @ ''.'' @ ep_timePeriod params @ ''.'' @ ep_asset params @ ''.index.created'')
    ev [''ws''] \<in> set (xs_effects s')"
proof -
  obtain x where "s' = (if xs_skipPersist s then announced params ev s else persist X ev x (announced params ev s))"
    using estimate_outcomes [OF assms] by auto
  moreover obtain rows where "xs_effects (persist X ev x (announced params ev s))
      = xs_effects (announced params ev s) @ map Saved rows"
    using persist_saves [of X ev x "announced params ev s"] by auto
  ultimately show ?thesis by (cases "xs_skipPersist s") (simp_all add: announced_def)
qed

lemma announced_in: "Announced event ev groups \<in> set xs \<Longrightarrow> ev \<in> set (announced_evidence xs)"
  by (induction xs rule: announced_evidence.induct) auto

lemmas estimate_announces = announced_in [OF estimate_announced]

lemma live_inv_tick:
  assumes "live_inv lib envs s" "E \<in> envs"
  shows "live_inv lib envs (live_tick save name E s)"
proof -
  obtain new where new: "rs_effects (snd (rate_tick E save (lv_rate s))) = rs_effects (lv_rate s) @ new"
    "\<forall>r \<in> set (List.map_filter announced_rate new). provideRateResponse E = Inr r"
    using rate_tick_effects by blast
  have "live_tick save name E s =
      s\<lparr> lv_rate := snd (rate_tick E save (lv_rate s)), lv_index := deliver_rates name new (lv_index s) \<rparr>"
    by (simp add: live_tick_def Let_def new(1))
  moreover have "xs_risklessRate (deliver_rates name new (lv_index s)) \<in> insert None (Some ` contract_rates envs)"
  proof -
    have "(\<lambda>r. Some (interest_rate.truncate r)) ` set (List.map_filter announced_rate new)
        \<subseteq> Some ` contract_rates envs"
    proof
      fix x
      assume "x \<in> (\<lambda>r. Some (interest_rate.truncate r)) ` set (List.map_filter announced_rate new)"
      then obtain r where r: "x = Some (interest_rate.truncate r)" "r \<in> set (List.map_filter announced_rate new)"
        by blast
      then have "provideRateResponse E = Inr r" using new(2) by blast
      then show "x \<in> Some ` contract_rates envs" using r(1) assms(2) unfolding contract_rates_def by blast
    qed
    moreover have "xs_risklessRate (lv_index s) \<in> insert None (Some ` contract_rates envs)"
      using assms(1) by (simp add: live_inv_def)
    ultimately have "insert (xs_risklessRate (lv_index s))
        ((\<lambda>r. Some (interest_rate.truncate r)) ` set (List.map_filter announced_rate new))
      \<subseteq> insert None (Some ` contract_rates envs)"
      by (simp only: insert_subset subset_insertI2 simp_thms)
    then show ?thesis by (rule subsetD) (rule deliver_rates_announced)
  qed
  ultimately show ?thesis using assms(1) by (simp add: live_inv_def)
qed

lemma live_inv_estimate:
  assumes "live_inv lib envs s" "combining combine" "answered_by lib combine (lv_seen s) X"
    and "estimate X requestId params (lv_index s) = (answer, x)"
  shows "live_inv lib envs (s\<lparr> lv_index := x, lv_asked := lv_asked s @ [X] \<rparr>)"
proof -
  obtain new where new: "xs_effects x = xs_effects (lv_index s) @ new"
    "xs_risklessRate x = xs_risklessRate (lv_index s)"
    "\<forall>ev \<in> set (announced_evidence new). computed_evidence X params (lv_index s) ev" "saved_after {X} {} new"
    using estimate_adds [OF assms(4)] by blast
  have sourced: "sourced_evidence (lv_received s) (contract_rates envs) ev"
    if ev: "computed_evidence X params (lv_index s) ev" for ev
  proof -
    obtain dates where d: "optionSummariesLists X (ep_asset params) dates = Inr (mp_options (me_params ev))"
      "mp_options (me_params ev) \<noteq> []" "mc_rate (me_context ev) = or_default (xs_risklessRate (lv_index s)) default_rate"
      using ev unfolding computed_evidence_def by blast
    have "\<forall>t \<in> set (lv_seen s). ingest_sourced lib (lv_received s) t"
      and rate: "xs_risklessRate (lv_index s) \<in> insert None (Some ` contract_rates envs)"
      using assms(1) by (simp_all add: live_inv_def)
    from options_sourced [OF assms(2) this(1) assms(3) d(1)] d(2,3) rate show ?thesis
      by (auto simp: sourced_evidence_def)
  qed
  have "saved_after (insert X (set (lv_asked s))) evs new" for evs
    using new(4) by (rule saved_after_mono) simp_all
  moreover have "saved_after (insert X (set (lv_asked s))) {} (xs_effects (lv_index s))"
    using assms(1) by (auto simp: live_inv_def intro: saved_after_mono)
  ultimately show ?thesis
    using assms(1) sourced new(3)
    by (auto simp: live_inv_def new(1,2) saved_after_append)
qed

context cacher begin

lemma live_inv_step:
  assumes "combining combine" "live_inv C envs s" "live_step C combine save name envs s s'"
  shows "live_inv C envs s'"
  using assms(3)
proof (cases rule: live_step.cases)
  case (Message m)
  then show ?thesis
    using assms(2) ingest_sourced_receive [of C "lv_received s" "lv_ingest s" m]
    by (auto simp: live_inv_def live_ingest_def ingest_sourced_later sourced_evidence_later)
next
  case (Stored m t)
  then show ?thesis
    using assms(2) ingest_sourced_store [of "lv_received s" "lv_ingest s" t]
    by (auto simp: live_inv_def live_ingest_def)
next
  case (RateTick E)
  then show ?thesis using live_inv_tick [OF assms(2)] by simp
next
  case (Estimate X requestId params answer x)
  then show ?thesis using live_inv_estimate [OF assms(2,1)] by blast
qed

lemma live_inv_reachable:
  "live_reachable C combine save name envs s0 s \<Longrightarrow> combining combine \<Longrightarrow> live_inv C envs s0 \<Longrightarrow> live_inv C envs s"
  by (induction rule: live_reachable.induct) (auto intro: live_inv_step)

end

text \<open>Effects of the index service are only added.\<close>

lemma live_step_effects:
  assumes "live_step lib combine save name envs l l'"
  shows "\<exists>new. xs_effects (lv_index l') = xs_effects (lv_index l) @ new"
  using assms
proof cases
  case (Estimate X requestId params answer x)
  then show ?thesis using estimate_adds [OF Estimate(3)] by auto
qed (auto simp: live_ingest_def live_tick_def Let_def)

lemma live_reachable_effects:
  "live_reachable lib combine save name envs l0 l \<Longrightarrow> \<exists>new. xs_effects (lv_index l) = xs_effects (lv_index l0) @ new"
  by (induction rule: live_reachable.induct) (fastforce dest: live_step_effects)+

section \<open>Runs\<close>

text \<open>Messages that are processed one after the other are a run.\<close>

lemma live_process_message:
  assumes "live_reachable lib combine save name envs s0 s" "ig_pending (lv_ingest s) = None"
    and "process_message (Some lib) m (lv_ingest s) = Inr t"
  shows "\<exists>s'. live_reachable lib combine save name envs s0 s' \<and> lv_ingest s' = t \<and> ig_pending t = None
    \<and> lv_received s' = lv_received s @ [m] \<and> lv_index s' = lv_index s \<and> t \<in> set (lv_seen s')"
proof -
  let ?t1 = "receive (Some lib) m (lv_ingest s)"
  let ?s1 = "(live_ingest ?t1 s)\<lparr> lv_received := lv_received s @ [m] \<rparr>"
  have st: "store (Some lib) (lv_ingest ?s1) = Inr t" "ig_pending (lv_ingest ?s1) = Some m" "ig_pending t = None"
    using assms(3) by (auto simp: live_ingest_def process_message_def receive_def store_def res_bind_Inr_iff)
  have "live_reachable lib combine save name envs s0 (live_ingest t ?s1)"
    by (rule live_reachable.Step [OF live_reachable.Step [OF assms(1) live_step.Message [OF assms(2)]]
          live_step.Stored [OF st(2,1)]])
  then show ?thesis using st(3) by (intro exI [of _ "live_ingest t ?s1"]) (simp add: live_ingest_def)
qed

lemma live_process:
  "live_reachable lib combine save name envs s0 s \<Longrightarrow> ig_pending (lv_ingest s) = None \<Longrightarrow> lv_ingest s \<in> set (lv_seen s) \<Longrightarrow>
    process (Some lib) ms (lv_ingest s) = Inr t \<Longrightarrow>
    \<exists>s'. live_reachable lib combine save name envs s0 s' \<and> lv_ingest s' = t
      \<and> lv_received s' = lv_received s @ ms \<and> lv_index s' = lv_index s \<and> t \<in> set (lv_seen s')"
proof (induction ms arbitrary: s)
  case (Cons m ms)
  then obtain t1 where t1: "process_message (Some lib) m (lv_ingest s) = Inr t1" "process (Some lib) ms t1 = Inr t"
    by (auto simp: res_bind_Inr_iff)
  obtain s1 where "live_reachable lib combine save name envs s0 s1" "lv_ingest s1 = t1" "ig_pending t1 = None"
    "lv_received s1 = lv_received s @ [m]" "lv_index s1 = lv_index s" "t1 \<in> set (lv_seen s1)"
    using live_process_message [OF Cons.prems(1,2) t1(1)] by blast
  with Cons.IH [of s1] t1(2) show ?case by auto
qed auto

end
