(* ===== verification/Helpers.thy ===== *)
theory Helpers
  imports MarketData
begin

text \<open>
  \<^verbatim>\<open>src/lib/utils/helpers.ts\<close>: the selection of tardis normalizers and data
  types, the filter of messages by data type, the parsing of a list of contract types, and the
  wait for the database at the start of a service.  The state of the database at the ticks of the
  timer is a parameter; the wait may go on forever, which is the value \<open>None\<close>.
\<close>

section \<open>Data types\<close>

datatype normalizer = NormalizeTrades | NormalizeOptionsSummary

definition getNormalizers :: "string list \<Rightarrow> normalizer list" where
  "getNormalizers dataTypes =
     (if ''trade'' \<in> set dataTypes \<or> (\<exists>t \<in> set dataTypes. prefix ''trade_bar_'' t) then [NormalizeTrades] else [])
     @ (if ''option_summary'' \<in> set dataTypes then [NormalizeOptionsSummary] else [])"

record data_type_options =
  dt_exchange :: string
  dt_dataTypes :: "string list"
  dt_withDisconnectMessages :: bool

definition getRequestedDataTypes :: "data_type_options \<Rightarrow> string list" where
  "getRequestedDataTypes options =
     map (\<lambda>dataType.
       if prefix ''trade_bar_'' dataType then ''trade_bar''
       else if prefix ''book_snapshot_'' dataType then ''book_snapshot''
       else if prefix ''quote'' dataType then ''book_snapshot''
       else dataType) (dt_dataTypes options)"

text \<open>The data types asked for, by exchange.\<close>

definition requested_per_exchange :: "data_type_options list \<Rightarrow> (string, string list) jsmap" where
  "requested_per_exchange options =
     fold (\<lambda>current prev.
       map_set (dt_exchange current)
         (case map_get prev (dt_exchange current) of
            Some types \<Rightarrow> types @ getRequestedDataTypes current
          | None \<Rightarrow> getRequestedDataTypes current) prev) options []"

text \<open>The filter looks for the text \<^verbatim>\<open>message.type\<close>; an exchange that was
  not asked for has no list to look in.\<close>

definition constructDataTypeFilter :: "data_type_options list \<Rightarrow> string \<Rightarrow> string \<Rightarrow> bool result" where
  "constructDataTypeFilter options message_type message_exchange =
     (if message_type = ''disconnect'' \<and> list_ex dt_withDisconnectMessages options then Inr True
      else case map_get (requested_per_exchange options) message_exchange of
             None \<Rightarrow> Inl type_error
           | Some types \<Rightarrow> Inr (''message.type'' \<in> set types))"

text \<open>An unset or empty variable selects the default.\<close>

definition parseContractType :: "string option \<Rightarrow> string list \<Rightarrow> string list" where
  "parseContractType contractType defaultContractType =
     (if contractType = None \<or> contractType = Some [] then defaultContractType
      else split_on (CHR '','') (or_default contractType []))"

definition default_contract_types :: "string list" where
  "default_contract_types = [''call_option'', ''put_option'']"

section \<open>Waiting for the database\<close>

text \<open>\<open>ready k\<close> tells whether the database is initialised at the tick \<open>k\<close> of the
  timer, one second apart; the result carries the tick at which the promise settles.\<close>

partial_function (option) wait_ticks :: "(nat \<Rightarrow> bool) \<Rightarrow> nat \<Rightarrow> real \<Rightarrow> (unit result \<times> nat) option" where
  "wait_ticks ready k counter =
     (if ready k then Some (Inr (), k)
      else if counter = 0 then Some (Inl (OtherVal ''AppDataSource.isInitialized never became true''), k)
      else wait_ticks ready (k + 1) (counter - 1))"

definition waitForDatasourceReady :: "(nat \<Rightarrow> bool) \<Rightarrow> real \<Rightarrow> (unit result \<times> nat) option" where
  "waitForDatasourceReady ready timeout = wait_ticks ready 0 (timeout / 1000)"

section \<open>Dates with microseconds, members and timers\<close>

text \<open>\<^verbatim>\<open>toISOString\<close> as the module replaces it: the microseconds, when the
  Date has them, are written in at least three digits before the final letter.\<close>

definition pad_start :: "nat \<Rightarrow> char \<Rightarrow> string \<Rightarrow> string" where
  "pad_start n c s = replicate (n - length s) c @ s"

definition toISOString :: "jsdate \<Rightarrow> int option \<Rightarrow> string result" where
  "toISOString d us =
     (case us of
        Some n \<Rightarrow> res_bind (to_iso_string d) (\<lambda>isoString.
          Inr (take (length isoString - 1) isoString @ pad_start 3 (CHR ''0'') (int_string n) @ ''Z''))
      | None \<Rightarrow> to_iso_string d)"

definition hasOwnProperty :: "(string, 'v) jsmap \<Rightarrow> string \<Rightarrow> bool" where
  "hasOwnProperty obj prop \<longleftrightarrow> map_get obj prop \<noteq> None"

text \<open>The milliseconds after which the promise of \<^verbatim>\<open>wait\<close> resolves: a delay that is
  no number of milliseconds a timer takes is one.\<close>

definition wait_ms :: "jsnum \<Rightarrow> int" where
  "wait_ms delayMS =
     (case delayMS of Num x \<Rightarrow> if 1 \<le> x \<and> x \<le> 2 ^ 31 - 1 then \<lfloor>x\<rfloor> else 1 | _ \<Rightarrow> 1)"

section \<open>Constants\<close>

definition STATUSES :: "(string \<times> int) list" where
  "STATUSES = [(''STATUS_ACTIVE'', 1), (''STATUS_INACTIVE'', 0), (''STATUS_DELETED'', -1)]"

definition ROLES :: "(string \<times> string) list" where
  "ROLES = [(''ROLE_SYSTEM'', ''$system''), (''ROLE_EVERYONE'', ''$everyone''),
     (''ROLE_AUTHENTICATED'', ''$authenticated''), (''ROLE_ADMINISTRATOR'', ''administrator''), (''ROLE_USER'', ''user'')]"

definition VISIBILITIES :: "(string \<times> string) list" where
  "VISIBILITIES = [(''VISIBILITY_PRIVATE'', ''private''), (''VISIBILITY_PROTECTED'', ''protected''),
     (''VISIBILITY_PUBLIC'', ''public''), (''VISIBILITY_PUBLISHED'', ''published'')]"

text \<open>A text with microseconds is no text of the standard's format any more, so what a Date is read
  from it is left to the implementation.\<close>

lemma length_iso_string: "four_digit_year t \<Longrightarrow> length (iso_string t) = 24"
  by (cases "civil_of_day (day_of t)")
    (use four_digit_year_civil [of t] in \<open>auto simp: iso_string_def year_string_def simp del: dec_pad.simps\<close>)

theorem microseconds_not_standard:
  assumes "toISOString (Some t) (Some n) = Inr s" "four_digit_year t" "0 \<le> n" "n \<le> 999"
  shows "parse_iso other s = other s \<and> length s = 27"
proof -
  obtain i where i: "iso_string t = i" "length i = 24" using length_iso_string [OF assms(2)] by blast
  have "length (int_string n) \<le> 3"
  proof -
    have "length (nat_string m) \<le> 3" if "m \<le> 999" for m
      using that by (subst nat_string.simps, subst nat_string.simps, subst nat_string.simps) auto
    then show ?thesis using assms(3,4) by (simp add: int_string_def)
  qed
  then have s: "s = take 23 i @ pad_start 3 (CHR ''0'') (int_string n) @ ''Z''" "length s = 27"
    using assms(1) i by (auto simp: toISOString_def res_bind_def pad_start_def)
  have "drop 19 s \<noteq> ''Z''"
  proof
    assume d: "drop 19 s = ''Z''"
    show False using arg_cong [OF d, of length] s(2) by simp
  qed
  then show ?thesis using s(2) by (simp add: parse_iso_def iso_shape_def Let_def)
qed

section \<open>Lemmas\<close>

text \<open>An exchange is listed with the data types of all its options, in order.\<close>

lemma requested_fold:
  "map_get (fold (\<lambda>current prev. map_set (dt_exchange current)
      (case map_get prev (dt_exchange current) of
         Some types \<Rightarrow> types @ getRequestedDataTypes current
       | None \<Rightarrow> getRequestedDataTypes current) prev) options m) e =
    (let types = concat (map getRequestedDataTypes (filter (\<lambda>o'. dt_exchange o' = e) options)) in
     case map_get m e of
       Some ts \<Rightarrow> Some (ts @ types)
     | None \<Rightarrow> if list_ex (\<lambda>o'. dt_exchange o' = e) options then Some types else None)"
  by (induction options arbitrary: m) (auto simp: Let_def split: option.splits)

lemma constructDataTypeFilter_drops:
  assumes "list_all (\<lambda>o'. ''message.type'' \<notin> set (dt_dataTypes o')) options" "message_type \<noteq> ''disconnect''"
  shows "constructDataTypeFilter options message_type message_exchange =
    (if list_ex (\<lambda>o'. dt_exchange o' = message_exchange) options then Inr False else Inl type_error)"
proof -
  have "''message.type'' \<notin> set (getRequestedDataTypes o')" if "''message.type'' \<notin> set (dt_dataTypes o')" for o'
    using that by (auto simp: getRequestedDataTypes_def split: if_splits)
  then have "''message.type'' \<notin> set (concat (map getRequestedDataTypes (filter (\<lambda>o'. dt_exchange o' = e) options)))" for e
    using assms(1) by (auto simp: list_all_iff)
  then show ?thesis
    using assms(2) requested_fold [of options "[]" message_exchange]
    by (simp add: constructDataTypeFilter_def requested_per_exchange_def Let_def split: if_splits)
qed

lemma wait_ticks_settles:
  "(\<And>i. i < n \<Longrightarrow> \<not> ready (k + i)) \<Longrightarrow> (\<And>i. i < n \<Longrightarrow> counter \<noteq> of_nat i) \<Longrightarrow>
    wait_ticks ready k counter = wait_ticks ready (k + n) (counter - of_nat n)"
proof (induction n arbitrary: k counter)
  case (Suc n)
  have s: "wait_ticks ready k counter = wait_ticks ready (k + 1) (counter - 1)"
    using Suc.prems(1) [of 0] Suc.prems(2) [of 0] by (subst wait_ticks.simps) simp
  have "\<not> ready (k + 1 + i)" "counter - 1 \<noteq> of_nat i" if "i < n" for i
    using Suc.prems(1) [of "Suc i"] Suc.prems(2) [of "Suc i"] that by (auto simp: algebra_simps)
  then have "wait_ticks ready (k + 1) (counter - 1) = wait_ticks ready (k + 1 + n) (counter - 1 - of_nat n)"
    by (rule Suc.IH)
  with s show ?case by (simp add: algebra_simps)
qed simp

definition wait_ends :: "(nat \<Rightarrow> bool) \<Rightarrow> nat \<Rightarrow> real \<Rightarrow> bool" where
  "wait_ends ready k counter \<longleftrightarrow> (\<exists>i. ready (k + i)) \<or> (\<exists>n. counter = of_nat n)"

lemma wait_ends_step: "ready k \<or> counter = 0 \<or> wait_ends ready (k + 1) (counter - 1) \<Longrightarrow> wait_ends ready k counter"
proof (elim disjE)
  show "wait_ends ready k counter" if "ready k" using that unfolding wait_ends_def by (intro disjI1 exI [of _ 0]) simp
  show "wait_ends ready k counter" if "counter = 0" using that unfolding wait_ends_def by (intro disjI2 exI [of _ 0]) simp
  show "wait_ends ready k counter" if e: "wait_ends ready (k + 1) (counter - 1)"
  proof -
    consider (a) i where "ready (k + 1 + i)" | (b) n where "counter - 1 = of_nat n"
      using e unfolding wait_ends_def by blast
    then show ?thesis
    proof cases
      case a
      then show ?thesis unfolding wait_ends_def by (intro disjI1 exI [of _ "1 + i"]) (simp add: add.assoc)
    next
      case b
      then show ?thesis unfolding wait_ends_def by (intro disjI2 exI [of _ "Suc n"]) simp
    qed
  qed
qed

lemma wait_ticks_reasons:
  assumes "wait_ticks ready k counter = Some r"
  shows "wait_ends ready k counter"
  using assms
proof (rule wait_ticks.raw_induct [rotated, where P = "\<lambda>ready k counter _. wait_ends ready k counter"])
  fix f ready k counter r
  assume IH: "\<And>ready k counter r. f ready k counter = Some r \<Longrightarrow> wait_ends ready k counter"
    and s: "(if ready k then Some (Inr (), k)
      else if counter = 0 then Some (Inl (OtherVal ''AppDataSource.isInitialized never became true''), k)
      else f ready (k + 1) (counter - 1)) = Some r"
  show "wait_ends ready k counter"
    by (rule wait_ends_step) (use IH s in \<open>auto split: if_splits\<close>)
qed

lemma whole_seconds: "timeout / 1000 = of_nat n \<longleftrightarrow> timeout = 1000 * (of_nat n :: real)"
  by auto

lemma wait_resolves:
  assumes "ready j" "\<forall>n. timeout = 1000 * of_nat n \<longrightarrow> j \<le> n"
  shows "waitForDatasourceReady ready timeout = Some (Inr (), LEAST k. ready k)"
proof -
  define k where "k = (LEAST k. ready k)"
  have k: "ready k" "k \<le> j" "\<And>i. i < k \<Longrightarrow> \<not> ready i"
    unfolding k_def by (rule LeastI [of ready, OF assms(1)], rule Least_le [of ready, OF assms(1)], rule not_less_Least)
  have "wait_ticks ready 0 (timeout / 1000) = wait_ticks ready (0 + k) (timeout / 1000 - of_nat k)"
    by (rule wait_ticks_settles) (use k assms(2) in \<open>auto simp: whole_seconds dest!: spec\<close>)
  also have "\<dots> = Some (Inr (), k)" by (subst wait_ticks.simps) (simp add: k)
  finally show ?thesis by (simp add: waitForDatasourceReady_def k_def)
qed

lemma wait_expires:
  assumes "timeout = 1000 * of_nat n" "\<forall>j. ready j \<longrightarrow> n < j"
  shows "waitForDatasourceReady ready timeout =
    Some (Inl (OtherVal ''AppDataSource.isInitialized never became true''), n)"
proof -
  have "wait_ticks ready 0 (timeout / 1000) = wait_ticks ready (0 + n) (timeout / 1000 - of_nat n)"
    by (rule wait_ticks_settles) (use assms in \<open>auto dest: spec [of _ "_ :: nat"]\<close>)
  also have "\<dots> = Some (Inl (OtherVal ''AppDataSource.isInitialized never became true''), n)"
    using assms by (subst wait_ticks.simps) auto
  finally show ?thesis by (simp add: waitForDatasourceReady_def)
qed

lemma wait_forever:
  assumes "\<not> (\<exists>j. ready j)" "\<not> (\<exists>n. timeout = 1000 * of_nat n)"
  shows "waitForDatasourceReady ready timeout = None"
proof (cases "wait_ticks ready 0 (timeout / 1000)")
  case (Some r)
  from wait_ticks_reasons [OF this] show ?thesis using assms by (auto simp: wait_ends_def whole_seconds)
qed (simp add: waitForDatasourceReady_def)

section \<open>Properties\<close>

text \<open>C35: when the wait settles.  It resolves at the first tick at which the database is
  initialised, unless the timeout is a whole number of seconds that ends earlier: then it rejects,
  at the tick of that second.  For any other timeout (a negative one or one with a fraction of a
  second) the counter steps over 0, and without a database the wait never settles.\<close>

theorem waitForDatasourceReady_settles:
  "waitForDatasourceReady ready timeout =
     (if \<exists>k. ready k \<and> (\<forall>n. timeout = 1000 * of_nat n \<longrightarrow> k \<le> n)
      then Some (Inr (), LEAST k. ready k)
      else if \<exists>n. timeout = 1000 * of_nat n
      then Some (Inl (OtherVal ''AppDataSource.isInitialized never became true''), THE n. timeout = 1000 * of_nat n)
      else None)"
proof (cases "\<exists>n. timeout = 1000 * of_nat n")
  case False
  then show ?thesis using wait_resolves [of ready _ timeout] wait_forever [of ready timeout]
    by (cases "\<exists>j. ready j") auto
next
  case True
  then obtain n where n: "timeout = 1000 * of_nat n" by blast
  then have same: "timeout = 1000 * of_nat m \<longleftrightarrow> m = n" for m by auto
  show ?thesis
  proof (cases "\<exists>j \<le> n. ready j")
    case True
    then show ?thesis using wait_resolves [of ready _ timeout] by (auto simp: same)
  next
    case False
    then have "\<forall>j. ready j \<longrightarrow> n < j" by (meson not_le)
    then show ?thesis using wait_expires [OF n] False by (auto simp: same)
  qed
qed

section \<open>Witnesses\<close>

lemma waitForDatasourceReady_settles_witness:
  "waitForDatasourceReady (\<lambda>k. k = 3) 15000 = Some (Inr (), 3) \<and> waitForDatasourceReady (\<lambda>_. False) 1500 = None"
proof
  have "(15000 :: real) = 1000 * of_nat n \<longleftrightarrow> n = 15" for n by auto
  moreover have "(LEAST k. k = (3 :: nat)) = 3" by (rule Least_equality) auto
  ultimately show "waitForDatasourceReady (\<lambda>k. k = 3) 15000 = Some (Inr (), 3)"
    using waitForDatasourceReady_settles [of "\<lambda>k. k = 3" 15000] by simp
  have "(1500 :: real) \<noteq> 1000 * of_nat n" for n
  proof
    assume "1500 = 1000 * (of_nat n :: real)"
    then have "real 3 = real (2 * n)" by simp
    then have "3 = 2 * n" by (simp only: of_nat_eq_iff)
    then show False by presburger
  qed
  then show "waitForDatasourceReady (\<lambda>_. False) 1500 = None"
    using waitForDatasourceReady_settles [of "\<lambda>_. False" 1500] by simp
qed

end
