(* ===== verification/Cron.thy ===== *)
theory Cron
  imports Rate
begin

text \<open>
  \<^verbatim>\<open>services/cron.service.ts\<close> with the helper it calls the index service by, and
  \<^verbatim>\<open>services/ipfs.service.ts\<close> with its clients
  \<^verbatim>\<open>src/clients/ipfs_client.ts\<close> and
  \<^verbatim>\<open>src/datasources/fleek.ts\<close>.  The broker, the clock, JSON, the upload and
  the repository are parameters; the calls a tick makes are returned with its outcome.
\<close>

section \<open>The request\<close>

text \<open>What the settings take from the environment; a variable that is not set is undefined.\<close>

record estimate_settings =
  es_exchange :: "string option"
  es_methodology :: "string option"
  es_timePeriod :: "string option"
  es_symbolType :: "string option"
  es_expiryType :: "string option"
  es_contractType :: "string list"

definition cron_settings :: "(string \<Rightarrow> string option) \<Rightarrow> estimate_settings" where
  "cron_settings env =
     \<lparr> es_exchange = env ''CRON_ESTIMATE_EXCHANGE'', es_methodology = env ''CRON_METHODOLOGY'',
       es_timePeriod = env ''CRON_INTERVAL'', es_symbolType = env ''CRON_SYMBOL_TYPE'',
       es_expiryType = env ''CRON_EXPIRY_TYPE'', es_contractType = [''call_option'', ''put_option''] \<rparr>"

definition cron_dependencies :: "(string \<Rightarrow> string option) \<Rightarrow> string list" where
  "cron_dependencies env =
     (if env ''ONLY_SERVICE'' = None \<or> env ''ONLY_SERVICE'' = Some [] then [''index-eth'', ''index-btc''] else [])"

record estimate_request = estimate_settings +
  er_at :: string
  er_asset :: string

text \<open>\<^verbatim>\<open>toUnixTimestamp\<close> of an invalid date is
  \<^verbatim>\<open>NaN\<close>.\<close>

definition fleekKeyBuilder :: "dayjs_lib \<Rightarrow> string option \<Rightarrow> string option \<Rightarrow> string \<Rightarrow> jsdate \<Rightarrow> string" where
  "fleekKeyBuilder D methodology timePeriod asset at_date =
     ''/indices/methodology='' @ text_of methodology @ ''/timePeriod='' @ text_of timePeriod @ ''/asset='' @ asset
       @ ''/at='' @ (case toUnixTimestamp D at_date of Some n \<Rightarrow> int_string n | None \<Rightarrow> ''NaN'')
       @ ''/evidence.json''"

record ipfs_metadata =
  im_fileSize :: nat
  im_mimeType :: string
  im_requestId :: string
  im_priceId :: string

record ipfs_params =
  ip_key :: string
  ip_data :: string
  ip_metadata :: ipfs_metadata

text \<open>The date of the closures is the clock's; the estimate's floors it to the minute, in
  place, when it is called.\<close>

record params_provider =
  pp_estimate_at :: "string result"
  pp_ipfs_params :: "string \<Rightarrow> ipfs_params"

definition paramsProvider :: "dayjs_lib \<Rightarrow> jsdate \<Rightarrow> string \<Rightarrow> jsdate \<Rightarrow> string \<Rightarrow> estimate_settings \<Rightarrow> params_provider" where
  "paramsProvider D clock requestId at_date asset settings =
     \<lparr> pp_estimate_at = to_iso_string (map_option (\<lambda>t. t - t mod 60000) clock),
       pp_ipfs_params = (\<lambda>jsonStr.
         \<lparr> ip_key = fleekKeyBuilder D (es_methodology settings) (es_timePeriod settings) asset at_date,
           ip_data = jsonStr,
           ip_metadata = \<lparr> im_fileSize = length jsonStr, im_mimeType = ''application/json'',
             im_requestId = requestId,
             im_priceId = text_of (es_methodology settings) @ ''.'' @ text_of (es_timePeriod settings) @ ''.'' @ asset \<rparr> \<rparr>) \<rparr>"

section \<open>The jobs\<close>

text \<open>The service is no context, so the date becomes its ISO form and the call goes through the
  broker.  An invalid date throws before the call.\<close>

definition service_estimate ::
  "(string \<Rightarrow> estimate_request \<Rightarrow> 'r result) \<Rightarrow> jsdate \<Rightarrow> string \<Rightarrow> estimate_settings
   \<Rightarrow> 'r result \<times> (string \<times> estimate_request) list" where
  "service_estimate call at_date asset settings =
     (case to_iso_string at_date of
        Inl e \<Rightarrow> (Inl e, [])
      | Inr time \<Rightarrow>
          let action = ''index-'' @ to_lower asset @ ''.estimate'';
              params = \<lparr> es_exchange = es_exchange settings, es_methodology = es_methodology settings,
                es_timePeriod = es_timePeriod settings, es_symbolType = es_symbolType settings,
                es_expiryType = es_expiryType settings, es_contractType = es_contractType settings,
                er_at = time, er_asset = asset \<rparr>
          in (call action params, [(action, params)]))"

text \<open>The parameters are those of the caller, not the provider's.\<close>

definition computeAndStoreEstimate ::
  "(string \<Rightarrow> estimate_request \<Rightarrow> 'r result) \<Rightarrow> ('r \<Rightarrow> string result) \<Rightarrow> jsdate \<Rightarrow> string \<Rightarrow> estimate_settings
   \<Rightarrow> string result result \<times> (string \<times> estimate_request) list" where
  "computeAndStoreEstimate call stringify at_date asset settings =
     (let (answer, calls) = service_estimate call at_date asset settings
      in (async_map stringify (from_promise handleError answer), calls))"

text \<open>\<^verbatim>\<open>mapErr\<close> logs an error; a rejection passes through.\<close>

definition cron_estimate_tick ::
  "(string \<Rightarrow> estimate_request \<Rightarrow> 'r result) \<Rightarrow> ('r \<Rightarrow> string result) \<Rightarrow> jsdate \<Rightarrow> string \<Rightarrow> estimate_settings
   \<Rightarrow> unit result \<times> (string \<times> estimate_request) list" where
  "cron_estimate_tick call stringify clock asset settings =
     (let (outcome, calls) = computeAndStoreEstimate call stringify clock asset settings
      in (case outcome of Inl e \<Rightarrow> Inl e | Inr _ \<Rightarrow> Inr (), calls))"

definition cron_jobs :: "(string \<Rightarrow> string option) \<Rightarrow> (string \<times> string \<times> string) list result" where
  "cron_jobs env =
     res_bind (ensure env ''CRON_MFIV_ETH_UPDATE_CRONTIME'' None) (\<lambda>eth.
     res_bind (ensure env ''CRON_MFIV_BTC_UPDATE_CRONTIME'' None) (\<lambda>btc.
       Inr [(''MFIV.14D.ETH.ESTIMATE'', eth, ''ETH''), (''MFIV.14D.BTC.ESTIMATE'', btc, ''BTC'')]))"

section \<open>The receiver\<close>

text \<open>The defaults of the parameters of the index service's estimate action, which the broker
  puts for those that are undefined.\<close>

definition estimate_with_defaults :: "estimate_request \<Rightarrow> estimate_params" where
  "estimate_with_defaults r =
     \<lparr> ep_at = er_at r, ep_methodology = or_default (es_methodology r) ''MFIV'',
       ep_timePeriod = or_default (es_timePeriod r) ''14D'', ep_asset = er_asset r,
       ep_exchange = or_default (es_exchange r) ''deribit'', ep_symbolType = or_default (es_symbolType r) ''option'',
       ep_contractType = es_contractType r, ep_expiryType = or_default (es_expiryType r) ''FridayT08:00:00Z'' \<rparr>"

section \<open>Storing evidence\<close>

record upload_request =
  up_key :: string
  up_data :: string
  up_bucket :: string
  up_apiKey :: "string option"
  up_apiSecret :: "string option"

record fleek_transaction =
  ft_hash :: string
  ft_key :: string
  ft_metadata :: ipfs_metadata

record store_response =
  sr_hash :: string
  sr_key :: string

datatype ipfs_effect = Uploaded upload_request | TransactionSaved fleek_transaction

text \<open>The upload answers with the hash and the public address.\<close>

record ipfs_env =
  if_isa :: "err_class \<Rightarrow> err_class \<Rightarrow> bool"
  if_env :: "string \<Rightarrow> string option"
  if_upload :: "upload_request \<Rightarrow> (string \<times> string) result"
  if_save :: "fleek_transaction \<Rightarrow> fleek_transaction result"

definition ipfs_bucket :: "(string \<Rightarrow> string option) \<Rightarrow> string" where
  "ipfs_bucket env = or_default (env ''FLEEK_BUCKET'') ''volatilitycom-bucket''"

definition provideFleekUpload :: "string \<Rightarrow> string option \<Rightarrow> string option \<Rightarrow> string \<Rightarrow> string \<Rightarrow> upload_request" where
  "provideFleekUpload bucket apiKey apiSecret key data =
     \<lparr> up_key = key, up_data = data, up_bucket = bucket, up_apiKey = apiKey, up_apiSecret = apiSecret \<rparr>"

definition AsyncDefaultClient :: "(string \<Rightarrow> string option) \<Rightarrow> string \<Rightarrow> (string \<Rightarrow> string \<Rightarrow> upload_request) result" where
  "AsyncDefaultClient env bucket =
     res_bind (requireRead (secrets_DefaultClient env ''API_Keys'') [''FLEEK_ID'', ''FLEEK_SECRET'']) (\<lambda>credentials.
       Inr (provideFleekUpload bucket (read_secret ''FLEEK_ID'' credentials) (read_secret ''FLEEK_SECRET'' credentials)))"

definition buildResource :: "ipfs_params \<Rightarrow> string \<times> string \<Rightarrow> fleek_transaction" where
  "buildResource params output = \<lparr> ft_hash = fst output, ft_key = snd output, ft_metadata = ip_metadata params \<rparr>"

definition ipfs_store :: "ipfs_env \<Rightarrow> ipfs_params \<Rightarrow> fleek_transaction result result \<times> ipfs_effect list" where
  "ipfs_store E params =
     (case from_promise (handleAsMoleculerError (if_isa E)) (AsyncDefaultClient (if_env E) (ipfs_bucket (if_env E))) of
        Inl e \<Rightarrow> (Inl e, [])
      | Inr (Inl e) \<Rightarrow> (Inr (Inl e), [])
      | Inr (Inr upload) \<Rightarrow>
          let req = upload (ip_key params) (ip_data params) in
          (case if_upload E req of
             Inl e \<Rightarrow> (Inl e, [Uploaded req])
           | Inr output \<Rightarrow>
               let resource = buildResource params output in
               (case if_save E resource of
                  Inl e \<Rightarrow> (Inl e, [Uploaded req])
                | Inr row \<Rightarrow> (Inr (Inr row), [Uploaded req, TransactionSaved resource]))))"

text \<open>The setting \<^verbatim>\<open>ipfsEnabled\<close> is an argument of the handler.\<close>

definition ipfs_store_action :: "bool \<Rightarrow> ipfs_env \<Rightarrow> ipfs_params \<Rightarrow> store_response result \<times> ipfs_effect list" where
  "ipfs_store_action ipfsEnabled E params =
     (if \<not> ipfsEnabled then (Inr \<lparr> sr_hash = [], sr_key = [] \<rparr>, [])
      else case ipfs_store E params of
             (Inr (Inr row), effects) \<Rightarrow> (Inr \<lparr> sr_hash = ft_hash row, sr_key = ft_key row \<rparr>, effects)
           | (Inr (Inl e), effects) \<Rightarrow> (Inl e, effects)
           | (Inl e, effects) \<Rightarrow> (Inl e, effects))"

definition ipfsEnabled_setting :: bool where
  "ipfsEnabled_setting = False"

section \<open>Properties\<close>

text \<open>Storing evidence.  Switched off, as the settings have it, the action touches nothing and
  answers with an empty hash and key.  Switched on, it uploads once, always with empty credentials,
  and saves the transaction only after an upload that succeeded; the answer is the saved one.\<close>

theorem ipfs_store_outcomes:
  "ipfs_store_action ipfsEnabled_setting E params = (Inr \<lparr> sr_hash = [], sr_key = [] \<rparr>, [])
   \<and> (let req = \<lparr> up_key = ip_key params, up_data = ip_data params, up_bucket = ipfs_bucket (if_env E),
            up_apiKey = Some [], up_apiSecret = Some [] \<rparr>
      in ipfs_store_action True E params =
        (case if_upload E req of
           Inl e \<Rightarrow> (Inl e, [Uploaded req])
         | Inr output \<Rightarrow>
             (case if_save E (buildResource params output) of
                Inl e \<Rightarrow> (Inl e, [Uploaded req])
              | Inr row \<Rightarrow> (Inr \<lparr> sr_hash = ft_hash row, sr_key = ft_key row \<rparr>,
                  [Uploaded req, TransactionSaved (buildResource params output)]))))"
proof -
  have "AsyncDefaultClient env bucket = Inr (provideFleekUpload bucket (Some []) (Some []))" for env bucket
    by (simp add: AsyncDefaultClient_def requireRead_default secrets_source_def read_secret_def map_get_def)
  then show ?thesis
    by (simp add: ipfs_store_action_def ipfsEnabled_setting_def ipfs_store_def from_promise_def provideFleekUpload_def
        Let_def split: sum.splits)
qed

end
