(* ===== verification/Middleware.thy ===== *)
theory Middleware
  imports Ingest
begin

text \<open>
  The middleware and the mixins of the gateway:
  \<^verbatim>\<open>middlewares/check-permissions.middleware.js\<close>,
  \<^verbatim>\<open>mixins/member-check.mixin.js\<close>,
  \<^verbatim>\<open>mixins/memoize.mixin.js\<close> and
  \<^verbatim>\<open>mixins/config.mixin.js\<close>.  The role names come from a constants file that
  the repository does not contain and are parameters; so are the calls to other services, the cache
  and the key patterns of moleculer.
\<close>

section \<open>The context\<close>

text \<open>A reference to a board or a list is an entity, an id, or absent.\<close>

datatype ref = NoRef | EntityRef string | IdRef string

record entity =
  en_id :: string
  en_owner :: "string option"
  en_members :: "string list option"
  en_board :: ref
  en_list :: ref

text \<open>An empty user id is falsy, as is a missing one.\<close>

record request_context =
  cx_repl :: bool
  cx_roles :: "string list option"
  cx_userID :: "string option"
  cx_entity :: "entity option"
  cx_board :: "string option"
  cx_list :: "string option"

definition user_of :: "request_context \<Rightarrow> string option" where
  "user_of ctx = (if cx_userID ctx = Some [] then None else cx_userID ctx)"

record roles =
  ro_authenticated :: string
  ro_board_owner :: string
  ro_board_member :: string
  ro_administrator :: string

section \<open>Boards\<close>

text \<open>The service: its name and the two actions it calls.  A board or a list that does not exist
  resolves to nothing; of a list its field with the id of the board is read, which may be missing.\<close>

record board_service =
  bo_name :: string
  bo_resolve_board :: "string option \<Rightarrow> entity option result"
  bo_resolve_list :: "string \<Rightarrow> string option option result"

definition board_of_list :: "board_service \<Rightarrow> string \<Rightarrow> entity option result" where
  "board_of_list svc list_id =
     res_bind (bo_resolve_list svc list_id) (\<lambda>l.
       case l of None \<Rightarrow> Inl type_error | Some board \<Rightarrow> bo_resolve_board svc board)"

text \<open>A board that carries its owner and members is taken as it is; reading the id of a missing
  entity throws; an entity without references gives nothing.\<close>

definition getBoardEntity :: "board_service \<Rightarrow> request_context \<Rightarrow> entity option result" where
  "getBoardEntity svc ctx =
     (if bo_name svc = ''boards'' then
        (case cx_entity ctx of
           None \<Rightarrow> Inl type_error
         | Some e \<Rightarrow>
             if en_owner e \<noteq> None \<and> en_owner e \<noteq> Some [] \<and> en_members e \<noteq> None then Inr (Some e)
             else bo_resolve_board svc (Some (en_id e)))
      else
        (case cx_entity ctx of
           Some e \<Rightarrow>
             (case (en_board e, en_list e) of
                (EntityRef i, _) \<Rightarrow> bo_resolve_board svc (Some i)
              | (IdRef i, _) \<Rightarrow> bo_resolve_board svc (Some i)
              | (NoRef, EntityRef l) \<Rightarrow> board_of_list svc l
              | (NoRef, IdRef l) \<Rightarrow> board_of_list svc l
              | (NoRef, NoRef) \<Rightarrow> Inr None)
         | None \<Rightarrow>
             (case (cx_board ctx, cx_list ctx) of
                (Some i, _) \<Rightarrow> bo_resolve_board svc (Some i)
              | (None, Some l) \<Rightarrow> board_of_list svc l
              | (None, None) \<Rightarrow> Inr None)))"

definition isBoardOwner :: "board_service \<Rightarrow> request_context \<Rightarrow> bool result" where
  "isBoardOwner svc ctx =
     (if cx_repl ctx then Inr True
      else case user_of ctx of
             None \<Rightarrow> Inr False
           | Some user \<Rightarrow> res_bind (getBoardEntity svc ctx) (\<lambda>board.
               Inr (case board of None \<Rightarrow> False | Some b \<Rightarrow> en_owner b = Some user)))"

definition isBoardMember :: "board_service \<Rightarrow> request_context \<Rightarrow> bool result" where
  "isBoardMember svc ctx =
     (if cx_repl ctx then Inr True
      else case user_of ctx of
             None \<Rightarrow> Inr False
           | Some user \<Rightarrow> res_bind (getBoardEntity svc ctx) (\<lambda>board.
               case board of
                 None \<Rightarrow> Inr False
               | Some b \<Rightarrow> (case en_members b of None \<Rightarrow> Inl type_error | Some ms \<Rightarrow> Inr (user \<in> set ms))))"

section \<open>Permissions\<close>

text \<open>A permission is a function, a name, or something else, which is ignored.  The service of the
  context may lack the mixin's methods.\<close>

datatype permission = PermFunction "request_context \<Rightarrow> bool result" | PermName string | PermOther

definition permission_functions ::
  "roles \<Rightarrow> board_service option \<Rightarrow> permission list \<Rightarrow> (request_context \<Rightarrow> bool result) list" where
  "permission_functions C svc permissions =
     List.map_filter (\<lambda>p. case p of
         PermFunction f \<Rightarrow> Some f
       | PermName n \<Rightarrow>
           if n = ro_authenticated C then Some (\<lambda>ctx. Inr (user_of ctx \<noteq> None))
           else if n = ro_board_owner C then
             Some (case svc of None \<Rightarrow> (\<lambda>_. Inr False) | Some s \<Rightarrow> isBoardOwner s)
           else if n = ro_board_member C then
             Some (case svc of None \<Rightarrow> (\<lambda>_. Inr False) | Some s \<Rightarrow> isBoardMember s)
           else None
       | PermOther \<Rightarrow> None) permissions"

text \<open>The other names are collected and never looked at.\<close>

definition permission_names :: "roles \<Rightarrow> permission list \<Rightarrow> string list" where
  "permission_names C permissions =
     List.map_filter (\<lambda>p. case p of
         PermName n \<Rightarrow>
           if n \<in> {ro_authenticated C, ro_board_owner C, ro_board_member C} then None else Some n
       | _ \<Rightarrow> None) permissions"

definition no_access :: thrown where
  "no_access = ErrObj MoleculerClientErrorClass ''You have no right for this operation!'' (Some 401)
     (Some ''ERR_HAS_NO_ACCESS'')"

definition CheckPermissionsMiddleware ::
  "roles \<Rightarrow> (request_context \<Rightarrow> bool result) list \<Rightarrow> (request_context \<Rightarrow> 'r result) \<Rightarrow> request_context \<Rightarrow> 'r result" where
  "CheckPermissionsMiddleware C permFuncs handler ctx =
     (let res = cx_repl ctx \<or> (case cx_roles ctx of None \<Rightarrow> False | Some rs \<Rightarrow> ro_administrator C \<in> set rs)
              \<or> permFuncs = []
      in if res then handler ctx
         else res_bind (promise_all (map (\<lambda>f. f ctx) permFuncs)) (\<lambda>results.
                if list_ex (\<lambda>r. r) results then handler ctx else Inl no_access))"

text \<open>An action without permissions keeps its handler.\<close>

definition localAction ::
  "roles \<Rightarrow> board_service option \<Rightarrow> permission list option \<Rightarrow> (request_context \<Rightarrow> 'r result) \<Rightarrow> request_context \<Rightarrow> 'r result" where
  "localAction C svc permissions handler =
     (case permissions of
        None \<Rightarrow> handler
      | Some ps \<Rightarrow> CheckPermissionsMiddleware C (permission_functions C svc ps) handler)"

section \<open>Memoize\<close>

text \<open>The cache maps keys to values; the result is the value and the cache after, with the number
  of times the function ran.  \<open>truthy\<close> is the truth value of a cached entry.\<close>

definition memoize ::
  "(string \<Rightarrow> 'p \<Rightarrow> string) \<Rightarrow> ('v \<Rightarrow> bool) \<Rightarrow> string \<Rightarrow> string \<Rightarrow> 'p \<Rightarrow> ('p \<Rightarrow> 'v result)
   \<Rightarrow> (string, 'v) jsmap option \<Rightarrow> ('v result \<times> nat) \<times> (string, 'v) jsmap option" where
  "memoize keygen truthy service name params fn cache =
     (case cache of
        None \<Rightarrow> ((fn params, 1), None)
      | Some m \<Rightarrow>
          let key = keygen (service @ '':memoize-'' @ name) params in
          (case map_get m key of
             Some res \<Rightarrow> if truthy res then ((Inr res, 0), Some m)
               else (case fn params of
                       Inl e \<Rightarrow> ((Inl e, 1), Some m)
                     | Inr v \<Rightarrow> ((Inr v, 1), Some (map_set key v m)))
           | None \<Rightarrow>
               (case fn params of
                  Inl e \<Rightarrow> ((Inl e, 1), Some m)
                | Inr v \<Rightarrow> ((Inr v, 1), Some (map_set key v m)))))"

section \<open>Configuration\<close>

text \<open>\<open>matches\<close> is the pattern match of moleculer on keys.  The copy of the values in a
  nested object and the callback are left out: the callback's calls are returned.\<close>

definition config_changed ::
  "(string \<Rightarrow> string \<Rightarrow> bool) \<Rightarrow> string list \<Rightarrow> (string \<times> 'v) list \<Rightarrow> (string, 'v) jsmap
   \<Rightarrow> (string, 'v) jsmap \<times> (string \<times> 'v) list" where
  "config_changed matches keys changes config =
     (let hits = filter (\<lambda>(k, _). list_ex (matches k) keys) changes
      in (fold (\<lambda>(k, v). map_set k v) hits config, hits))"

definition config_started ::
  "(string list \<Rightarrow> (string \<times> 'v) list option result) \<Rightarrow> string list \<Rightarrow> (string, 'v) jsmap option
   \<Rightarrow> (string, 'v) jsmap result" where
  "config_started get keys config =
     (let c = or_default config [] in
      if keys = [] then Inr c
      else res_bind (get keys) (\<lambda>items. Inr (case items of
             None \<Rightarrow> c | Some xs \<Rightarrow> fold (\<lambda>(k, v). map_set k v) xs c)))"

section \<open>Lemmas\<close>

lemma promise_all_all: "list_all (\<lambda>f. \<exists>b. f x = Inr b) fs \<Longrightarrow> promise_all (map (\<lambda>f. f x) fs) = Inr (map (\<lambda>f. projr (f x)) fs)"
  by (induction fs) auto

lemma permission_functions_Nil:
  "permission_functions C svc ps = [] \<longleftrightarrow>
    list_all (\<lambda>p. case p of PermFunction _ \<Rightarrow> False
      | PermName n \<Rightarrow> n \<notin> {ro_authenticated C, ro_board_owner C, ro_board_member C} | PermOther \<Rightarrow> True) ps"
  by (induction ps) (auto simp: permission_functions_def List.map_filter_simps split: permission.splits)

text \<open>A second call with the same arguments is answered from the cache.\<close>

lemma memoize_again:
  assumes "memoize keygen truthy service name params fn (Some m) = ((Inr v, n), m')" "truthy v"
  shows "memoize keygen truthy service name params fn' m' = ((Inr v, 0), m')"
  using assms by (auto simp: memoize_def Let_def split: option.splits if_splits sum.splits)

lemma fold_map_set:
  "map_get (fold (\<lambda>(k, v). map_set k v) xs m) k =
    (case map_of (rev xs) k of Some v \<Rightarrow> Some v | None \<Rightarrow> map_get m k)"
  by (induction xs arbitrary: m) (auto split: option.splits simp: map_add_def)

lemma map_of_filter_keys: "map_of (filter (\<lambda>(k, _). P k) xs) k = (if P k then map_of xs k else None)"
  by (induction xs) auto

text \<open>After a change a key has the last value sent for it, if some pattern matches it.\<close>

lemma config_changed_get:
  "map_get (fst (config_changed matches keys changes config)) k =
    (if list_ex (matches k) keys
     then case map_of (rev changes) k of Some v \<Rightarrow> Some v | None \<Rightarrow> map_get config k
     else map_get config k)"
  by (simp add: config_changed_def fold_map_set rev_filter map_of_filter_keys Let_def)

section \<open>Properties\<close>

text \<open>C28: when an action runs.  Behind a list of permissions whose checks all give an answer, the
  handler runs for the console, for administrators, when one check answers yes, and for everybody when
  the list holds nothing but names of roles or permissions, which are never checked; else the request
  is refused with 401.\<close>

theorem action_guard:
  assumes "list_all (\<lambda>f. \<exists>b. f ctx = Inr b) (permission_functions C svc permissions)"
  shows "localAction C svc (Some permissions) handler ctx =
    (if cx_repl ctx \<or> (\<exists>rs. cx_roles ctx = Some rs \<and> ro_administrator C \<in> set rs)
       \<or> list_all (\<lambda>p. case p of PermFunction _ \<Rightarrow> False
           | PermName n \<Rightarrow> n \<notin> {ro_authenticated C, ro_board_owner C, ro_board_member C} | PermOther \<Rightarrow> True) permissions
       \<or> (\<exists>f \<in> set (permission_functions C svc permissions). f ctx = Inr True)
     then handler ctx else Inl no_access)"
proof -
  let ?fs = "permission_functions C svc permissions"
  have "list_ex (\<lambda>r. r) (map (\<lambda>f. projr (f ctx)) ?fs) \<longleftrightarrow> (\<exists>f \<in> set ?fs. f ctx = Inr True)"
    using assms by (force simp: list_ex_iff list_all_iff)
  then show ?thesis
    unfolding permission_functions_Nil [of C svc, symmetric]
    using promise_all_all [OF assms]
    by (auto simp: localAction_def CheckPermissionsMiddleware_def Let_def split: option.splits)
qed

text \<open>The guard of a board.  For a user that is neither at the console nor an administrator, an
  action of another service that asks for the owner of the board runs exactly when the board its entity
  refers to exists and belongs to that user; without a user it is refused, and what fails while the
  board is looked up is passed on.\<close>

theorem board_owner_guard:
  assumes "\<not> cx_repl ctx" "cx_roles ctx = None" "bo_name svc \<noteq> ''boards''"
    and "cx_entity ctx = Some e" "en_board e = IdRef i" "ro_board_owner C \<noteq> ro_authenticated C"
  shows "localAction C (Some svc) (Some [PermName (ro_board_owner C)]) handler ctx =
    (case user_of ctx of
       None \<Rightarrow> Inl no_access
     | Some user \<Rightarrow>
         (case bo_resolve_board svc (Some i) of
            Inl err \<Rightarrow> Inl err
          | Inr (Some board) \<Rightarrow> if en_owner board = Some user then handler ctx else Inl no_access
          | Inr None \<Rightarrow> Inl no_access))"
  using assms
  by (simp add: localAction_def CheckPermissionsMiddleware_def permission_functions_def List.map_filter_simps
      isBoardOwner_def getBoardEntity_def res_bind_def split: option.splits sum.splits)

section \<open>Witnesses\<close>

definition sample_roles :: roles where
  "sample_roles = \<lparr> ro_authenticated = ''$authenticated'', ro_board_owner = ''$owner'',
     ro_board_member = ''$member'', ro_administrator = ''administrator'' \<rparr>"

definition sample_context :: request_context where
  "sample_context = \<lparr> cx_repl = False, cx_roles = None, cx_userID = Some ''u1'',
     cx_entity = Some \<lparr> en_id = ''l1'', en_owner = None, en_members = None, en_board = IdRef ''b1'', en_list = NoRef \<rparr>,
     cx_board = None, cx_list = None \<rparr>"

definition sample_boards :: board_service where
  "sample_boards = \<lparr> bo_name = ''lists'',
     bo_resolve_board = (\<lambda>i. Inr (Some \<lparr> en_id = ''b1'', en_owner = Some ''u1'', en_members = Some [],
       en_board = NoRef, en_list = NoRef \<rparr>)),
     bo_resolve_list = (\<lambda>_. Inr None) \<rparr>"

lemma action_guard_witness:
  "localAction sample_roles None (Some [PermName ''boards.remove'']) (\<lambda>_. Inr ()) sample_context = Inr ()"
proof -
  have "list_all (\<lambda>f. \<exists>b. f sample_context = Inr b) (permission_functions sample_roles None [PermName ''boards.remove''])"
    by (simp add: permission_functions_def List.map_filter_simps sample_roles_def)
  from action_guard [OF this, of "\<lambda>_. Inr ()"] show ?thesis by (simp add: sample_roles_def)
qed

lemma board_owner_guard_witness:
  "localAction sample_roles (Some sample_boards) (Some [PermName ''$owner'']) (\<lambda>_. Inr ()) sample_context = Inr ()"
proof -
  have "ro_board_owner sample_roles = ''$owner''" by (simp add: sample_roles_def)
  then show ?thesis
    using board_owner_guard [of sample_context sample_boards _ "''b1''" sample_roles "\<lambda>_. Inr ()"]
    by (simp add: sample_context_def sample_boards_def sample_roles_def user_of_def)
qed

end
