(* ===== verification/Configuration.thy ===== *)
theory Configuration
  imports TimePeriod Errors Buckets
begin

text \<open>
  \<^verbatim>\<open>src/configuration/\<close>, \<^verbatim>\<open>src/lib/utils/safe_json.ts\<close> and
  \<^verbatim>\<open>src/datasources/tardis_deribit_streams.ts\<close>: the configuration read from the
  environment, the guarded JSON parser, and the requests of the realtime and the historical stream
  of option summaries.  The environment is a function from names to values; a variable that is not
  set is \<open>None\<close>, also where the source casts it to a string.
\<close>

section \<open>Numbers\<close>

definition signed_decimal :: "string \<Rightarrow> jsnum" where
  "signed_decimal s =
     (case s of
        [] \<Rightarrow> NaN
      | c # r \<Rightarrow>
          if c = CHR ''-'' then num_neg (unsigned_decimal r)
          else if c = CHR ''+'' then unsigned_decimal r
          else unsigned_decimal s)"

text \<open>\<^verbatim>\<open>parseFloat\<close>: the longest prefix, after blanks, that is a decimal
  literal; no such prefix is NaN.\<close>

fun longest_decimal :: "nat \<Rightarrow> string \<Rightarrow> jsnum" where
  "longest_decimal 0 s = NaN"
| "longest_decimal (Suc n) s =
     (if signed_decimal (take (Suc n) s) \<noteq> NaN then signed_decimal (take (Suc n) s) else longest_decimal n s)"

definition parse_float :: "string \<Rightarrow> jsnum" where
  "parse_float str = (let s = trim_start str in longest_decimal (length s) s)"

section \<open>The configuration\<close>

type_synonym process_env = "string \<Rightarrow> string option"

record adapter_config =
  ac_type :: string
  ac_name :: string
  ac_host :: "string option"
  ac_username :: "string option"
  ac_password :: "string option"
  ac_database :: "string option"
  ac_port :: jsnum
  ac_entities :: "string list"
  ac_synchronize :: bool

record aws_config =
  aw_region :: string
  aw_smName :: string

record index_settings =
  is_risklessRate :: jsnum
  is_risklessRateAt :: string
  is_risklessRateSource :: string

text \<open>\<^verbatim>\<open>waitWhenDataNotYetAvailable\<close> is a number, a boolean or undefined.\<close>

datatype wait_option = WaitMs jsnum | WaitFlag bool | WaitUnset

record tardis_config =
  tc_exchange :: string
  tc_waitWhenDataNotYetAvailable :: wait_option

record env_config =
  ec_adapter :: adapter_config
  ec_aws :: aws_config
  ec_indexSettings :: index_settings
  ec_tardis :: tardis_config

definition env_or :: "process_env \<Rightarrow> string \<Rightarrow> string \<Rightarrow> string" where
  "env_or env name otherwise = (case env name of Some v \<Rightarrow> v | None \<Rightarrow> otherwise)"

definition base_config :: "process_env \<Rightarrow> env_config" where
  "base_config env = \<lparr>
     ec_adapter = \<lparr>
       ac_type = ''postgres'', ac_name = ''default'',
       ac_host = env ''POSTGRES_HOST'', ac_username = env ''POSTGRES_USER'',
       ac_password = env ''POSTGRES_PASSWORD'', ac_database = env ''POSTGRES_DB'',
       ac_port = parse_int10 (env_or env ''POSTGRES_PORT'' ''5432''),
       ac_entities = [''./src/entities/fleek_transaction.ts'', ''./src/entities/methodology_index.ts'',
         ''./src/entities/rate.ts'', ''./src/entities/auth_token.ts''],
       ac_synchronize = True \<rparr>,
     ec_aws = \<lparr> aw_region = env_or env ''AWS_REGION'' ''us-east-2'', aw_smName = ''API_Keys'' \<rparr>,
     ec_indexSettings = \<lparr>
       is_risklessRate = parse_float (env_or env ''RISKLESS_RATE'' ''0.0055''),
       is_risklessRateAt = env_or env ''RISKLESS_RATE_AT'' ''2021-10-01T07:02:00.000Z'',
       is_risklessRateSource = env_or env ''RISKLESS_RATE_SOURCE'' ''AAVE'' \<rparr>,
     ec_tardis = \<lparr> tc_exchange = env_or env ''EXCHANGE'' ''deribit'',
       tc_waitWhenDataNotYetAvailable = WaitFlag True \<rparr> \<rparr>"

definition development_config :: "process_env \<Rightarrow> env_config" where
  "development_config env = base_config env"

definition production_config :: "process_env \<Rightarrow> env_config" where
  "production_config env = base_config env"

definition test_config :: "process_env \<Rightarrow> env_config" where
  "test_config env = base_config env"

text \<open>Loading the module throws for every other environment.\<close>

definition envConfig :: "process_env \<Rightarrow> env_config result" where
  "envConfig env =
     (if env ''NODE_ENV'' = Some ''test'' then Inr (test_config env)
      else if env ''NODE_ENV'' = Some ''development'' then Inr (development_config env)
      else if env ''NODE_ENV'' = Some ''production'' then Inr (production_config env)
      else Inl (js_error ''NODE_ENV must be set.''))"

section \<open>JSON\<close>

definition safeJsonParse :: "(string \<Rightarrow> 'v result) \<Rightarrow> string \<Rightarrow> 'v result" where
  "safeJsonParse parse jsonString =
     (case parse jsonString of Inr v \<Rightarrow> Inr v | Inl e \<Rightarrow> Inl (parse_error e))"

section \<open>Streams of option summaries\<close>

record realtime_request =
  rq_exchange :: string
  rq_symbols :: "string list"

definition tardis_stream :: "string \<Rightarrow> string list \<Rightarrow> realtime_request" where
  "tardis_stream exchange symbols = \<lparr> rq_exchange = exchange, rq_symbols = symbols \<rparr>"

record replay_request =
  rp_exchange :: string
  rp_symbols :: "string list"
  rp_from :: string
  rp_to :: string
  rp_withDisconnectMessages :: bool
  rp_waitWhenDataNotYetAvailable :: wait_option

text \<open>An option that is not given is read from the configuration.\<close>

definition historical_request :: "env_config \<Rightarrow> string \<Rightarrow> string list \<Rightarrow> string \<Rightarrow> string \<Rightarrow> wait_option \<Rightarrow> replay_request" where
  "historical_request configuration exchange symbols from to' wait = \<lparr>
     rp_exchange = exchange, rp_symbols = symbols, rp_from = from, rp_to = to',
     rp_withDisconnectMessages = False,
     rp_waitWhenDataNotYetAvailable =
       (if wait = WaitUnset then tc_waitWhenDataNotYetAvailable (ec_tardis configuration) else wait) \<rparr>"

text \<open>The summaries of the replay are computed into time buckets of a second.\<close>

definition historical_computable :: option_computable where
  "historical_computable = new_option_computable TimeKind 1000 None"

section \<open>Lemmas\<close>

text \<open>The three environments have one configuration; there is no other.\<close>

lemma envConfig_base: "envConfig env = Inr configuration \<longleftrightarrow>
    env ''NODE_ENV'' \<in> {Some ''test'', Some ''development'', Some ''production''} \<and> configuration = base_config env"
  by (auto simp: envConfig_def test_config_def development_config_def production_config_def)

lemma signed_decimal_digits:
  assumes "list_all is_digit ds" "ds \<noteq> []"
  shows "signed_decimal ds = Num (of_int (dec_val ds))"
proof -
  obtain c r where ds: "ds = c # r" using assms(2) by (cases ds) auto
  then have "c \<noteq> CHR ''-''" "c \<noteq> CHR ''+''" using assms(1) digit_not_special by auto
  moreover have "unsigned_decimal ds = Num (of_int (dec_val ds))"
  proof -
    have t: "takeWhile (\<lambda>c. c \<noteq> CHR ''e'' \<and> c \<noteq> CHR ''E'') ds = ds" "takeWhile (\<lambda>c. c \<noteq> CHR ''.'') ds = ds"
      using assms(1) digit_not_special by (auto simp: takeWhile_eq_all_conv list_all_iff)
    have "ds \<noteq> ''Infinity''" using assms(1) by (auto simp: is_digit_def)
    then show ?thesis unfolding unsigned_decimal_def Let_def t using assms by (simp add: pow10_def)
  qed
  ultimately show ?thesis by (simp add: signed_decimal_def ds)
qed

text \<open>A number in digits is read as it is written.\<close>

lemma parse_float_digits:
  assumes "list_all is_digit ds" "ds \<noteq> []"
  shows "parse_float ds = Num (of_int (dec_val ds))"
proof -
  have "trim_start ds = ds"
    using assms is_digit_not_space by (cases ds) (auto simp: trim_start_def)
  moreover have "longest_decimal (length ds) ds = Num (of_int (dec_val ds))"
    using assms(2) signed_decimal_digits [OF assms] by (cases ds) simp_all
  ultimately show ?thesis by (simp add: parse_float_def)
qed

text \<open>The configured rate of an environment that sets none.\<close>

lemma base_config_defaults:
  "is_risklessRate (ec_indexSettings (base_config (\<lambda>_. None))) = Num (55 / 10 ^ 4)
    \<and> ac_port (ec_adapter (base_config (\<lambda>_. None))) = Num 5432"
proof
  have "trim_start ''0.0055'' = ''0.0055''" by (simp add: trim_start_def is_space_def Let_def)
  moreover have "signed_decimal ''0.0055'' = Num (55 / 10 ^ 4)"
    by (simp add: signed_decimal_def unsigned_decimal_def Let_def is_digit_def dec_val_def digit_val_def pow10_def)
  ultimately show "is_risklessRate (ec_indexSettings (base_config (\<lambda>_. None))) = Num (55 / 10 ^ 4)"
    by (simp add: base_config_def env_or_def parse_float_def Let_def numeral_eq_Suc)
qed (simp add: base_config_def env_or_def parse_int10_def trim_start_def is_space_def Let_def is_digit_def dec_val_def digit_val_def)

end
