(* ===== verification/Scripts.thy ===== *)
theory Scripts
  imports WsSocket
begin

text \<open>
  \<^verbatim>\<open>scripts/daily_mfiv.ts\<close>: a client of the websocket service that replays a
  period day by day and keeps the last index of every day.  A socket is the list of the events its
  handlers get, as the server answers the request of the day; JSON is a parameter.  The loop over
  the days may wait forever, for a socket that neither closes nor fails: the value \<open>None\<close>.
  \<^verbatim>\<open>scripts/download.cjs\<close> lists datasets.
\<close>

section \<open>One day\<close>

datatype socket_event = Opened | Incoming string | Closed | Errored thrown

record 'v daily =
  dy_lastMessage :: "string option"
  dy_dailyValues :: "'v list"
  dy_sent :: "client_message list"

definition daily_url :: "(string \<Rightarrow> string option) \<Rightarrow> string" where
  "daily_url env =
     (if env ''USE_LOCALHOST'' \<notin> {None, Some []} then ''ws://localhost:3000/ws?apiKey=123''
      else ''wss://ws.stage.volatility.com/ws'')"

text \<open>The request by which the socket is opened: no header, and the query of the URL.\<close>

definition daily_upgrade :: "(string \<Rightarrow> string option) \<Rightarrow> http_request" where
  "daily_upgrade env = \<lparr> hr_authorization = None, hr_query = tl (dropWhile (\<lambda>c. c \<noteq> CHR ''?'') (daily_url env)) \<rparr>"

definition daily_request :: "string \<Rightarrow> string \<Rightarrow> client_message" where
  "daily_request from to' = \<lparr> cm_type = ''SUBSCRIBE'', cm_channel = Present ''MFIV/14D/ETH'', cm_body = [],
     cm_replayFrom = Present from, cm_replayTo = Present to', cm_record = True \<rparr>"

text \<open>The handlers; what the promise is settled to, if at all.  An empty last message counts as
  none.  A last message that is no JSON is thrown out of the close handler, and nothing catches it:
  the process ends there.\<close>

fun daily_event ::
  "(string \<Rightarrow> 'v result) \<Rightarrow> client_message \<Rightarrow> socket_event \<Rightarrow> 'v daily \<Rightarrow> unit result option \<times> 'v daily" where
  "daily_event parse request Opened s = (None, s\<lparr> dy_sent := dy_sent s @ [request] \<rparr>)"
| "daily_event parse request (Incoming text) s = (None, s\<lparr> dy_lastMessage := Some text \<rparr>)"
| "daily_event parse request (Errored e) s = (Some (Inl e), s)"
| "daily_event parse request Closed s =
     (if dy_lastMessage s \<in> {None, Some []} then (Some (Inr ()), s\<lparr> dy_lastMessage := None \<rparr>)
      else case parse (the (dy_lastMessage s)) of
             Inl e \<Rightarrow> (Some (Inl e), s)
           | Inr v \<Rightarrow> (Some (Inr ()), s\<lparr> dy_dailyValues := dy_dailyValues s @ [v], dy_lastMessage := None \<rparr>))"

fun daily_session ::
  "(string \<Rightarrow> 'v result) \<Rightarrow> client_message \<Rightarrow> socket_event list \<Rightarrow> 'v daily \<Rightarrow> unit result option \<times> 'v daily" where
  "daily_session parse request [] s = (None, s)"
| "daily_session parse request (e # es) s =
     (case daily_event parse request e s of
        (Some r, s1) \<Rightarrow> (Some r, s1)
      | (None, s1) \<Rightarrow> daily_session parse request es s1)"

text \<open>\<^verbatim>\<open>lastMessage\<close> is local to the call; both dates are printed before the
  handlers are attached.\<close>

definition daily_fetchIndex ::
  "dayjs_lib \<Rightarrow> (string \<Rightarrow> 'v result) \<Rightarrow> (client_message \<Rightarrow> socket_event list) \<Rightarrow> jsdate \<Rightarrow> jsdate \<Rightarrow> 'v daily
   \<Rightarrow> unit result option \<times> 'v daily" where
  "daily_fetchIndex D parse serve replayFrom replayTo s =
     (case dj_to_iso D replayFrom of
        Inl e \<Rightarrow> (Some (Inl e), s)
      | Inr from \<Rightarrow>
          (case dj_to_iso D replayTo of
             Inl e \<Rightarrow> (Some (Inl e), s)
           | Inr to' \<Rightarrow> daily_session parse (daily_request from to') (serve (daily_request from to'))
               (s\<lparr> dy_lastMessage := None \<rparr>)))"

section \<open>The days\<close>

partial_function (option) daily_loop ::
  "dayjs_lib \<Rightarrow> (string \<Rightarrow> 'v result) \<Rightarrow> (client_message \<Rightarrow> socket_event list) \<Rightarrow> jsdate \<Rightarrow> jsdate \<Rightarrow> 'v daily
   \<Rightarrow> (unit result \<times> 'v daily) option" where
  "daily_loop D parse serve replayFrom end' s =
     (if date_lt replayFrom end'
      then (case daily_fetchIndex D parse serve replayFrom (dj_add_int D 1 Day replayFrom) s of
              (None, s1) \<Rightarrow> None
            | (Some (Inl e), s1) \<Rightarrow> Some (Inl e, s1)
            | (Some (Inr _), s1) \<Rightarrow> daily_loop D parse serve (dj_add_int D 1 Day replayFrom) end' s1)
      else Some (Inr (), s))"

definition daily_main ::
  "dayjs_lib \<Rightarrow> (string \<Rightarrow> 'v result) \<Rightarrow> (client_message \<Rightarrow> socket_event list) \<Rightarrow> (unit result \<times> 'v daily) option" where
  "daily_main D parse serve =
     daily_loop D parse serve (dj_utc D ''2022-01-01T00:00:00.000Z'') (dj_utc D ''2022-01-03T00:00:00.000Z'')
       \<lparr> dy_lastMessage = None, dy_dailyValues = [], dy_sent = [] \<rparr>"

section \<open>The datasets\<close>

text \<open>\<^verbatim>\<open>scripts/download.cjs\<close>: the lines it prints for the symbols the exchange
  answers with.  The download itself is commented out.\<close>

record dataset_symbol =
  dl_id :: string
  dl_type :: string
  dl_dataTypes :: "string list"
  dl_availableSince :: string
  dl_availableTo :: "string option"

definition download_selected :: "dataset_symbol \<Rightarrow> bool" where
  "download_selected symbol \<longleftrightarrow>
     \<not> (dl_type symbol \<noteq> ''option'' \<or> take 3 (dl_id symbol) \<noteq> ''ETH'')
     \<and> dl_id symbol \<notin> {''PERPETUALS'', ''SPOT'', ''FUTURES''}"

definition download_line :: "dataset_symbol \<Rightarrow> string" where
  "download_line symbol =
     ''Downloading deribit '' @ join_with '','' (dl_dataTypes symbol) @ '' for '' @ dl_id symbol
       @ '' from '' @ dl_availableSince symbol @ '' to '' @ text_of (dl_availableTo symbol)"

definition download_main :: "dataset_symbol list result \<Rightarrow> string list result" where
  "download_main details = res_bind details (\<lambda>symbols. Inr (map download_line (filter download_selected symbols)))"

text \<open>The test for the groups of symbols never decides anything.\<close>

lemma download_groups: "download_selected symbol \<longleftrightarrow> dl_type symbol = ''option'' \<and> take 3 (dl_id symbol) = ''ETH''"
  by (auto simp: download_selected_def)

section \<open>Lemmas\<close>

text \<open>The request of the day that begins at a time.\<close>

definition day_request :: "int \<Rightarrow> client_message" where
  "day_request t = daily_request (iso_string t) (iso_string (t + msPerDay))"

text \<open>The index of a day from the messages it brought: the last one, unless that is empty.\<close>

definition day_values :: "(string \<Rightarrow> 'v result) \<Rightarrow> string list \<Rightarrow> 'v list" where
  "day_values parse texts = (if texts = [] \<or> last texts = [] then [] else [projr (parse (last texts))])"

definition readable_day :: "(string \<Rightarrow> 'v result) \<Rightarrow> string list \<Rightarrow> bool" where
  "readable_day parse texts \<longleftrightarrow> texts = [] \<or> last texts = [] \<or> (\<exists>v. parse (last texts) = Inr v)"

lemma daily_session_incoming:
  "daily_session parse request (map Incoming texts @ es) s =
    daily_session parse request es (if texts = [] then s else s\<lparr> dy_lastMessage := Some (last texts) \<rparr>)"
  by (induction texts arbitrary: s) simp_all

lemma daily_session_closes:
  assumes "readable_day parse texts" "dy_lastMessage s = None"
  shows "daily_session parse request (Opened # map Incoming texts @ [Closed]) s =
    (Some (Inr ()), s\<lparr> dy_sent := dy_sent s @ [request],
       dy_dailyValues := dy_dailyValues s @ day_values parse texts \<rparr>)"
proof (cases "texts = [] \<or> last texts = []")
  case True
  then show ?thesis using assms(2) by (cases s) (auto simp: daily_session_incoming day_values_def)
next
  case False
  then obtain v where "parse (last texts) = Inr v" using assms(1) by (auto simp: readable_day_def)
  then show ?thesis using False assms(2) by (cases s) (simp add: daily_session_incoming day_values_def)
qed

lemma daily_loop_end: "end' \<le> t \<Longrightarrow> daily_loop D parse serve (Some t) (Some end') s = Some (Inr (), s)"
  by (subst daily_loop.simps) simp

text \<open>The state after the days from a time on, when every socket closes.\<close>

definition days_done :: "(string \<Rightarrow> 'v result) \<Rightarrow> (nat \<Rightarrow> string list) \<Rightarrow> int \<Rightarrow> nat \<Rightarrow> 'v daily \<Rightarrow> 'v daily" where
  "days_done parse texts t n s =
     s\<lparr> dy_lastMessage := (if n = 0 then dy_lastMessage s else None),
        dy_dailyValues := dy_dailyValues s @ concat (map (\<lambda>k. day_values parse (texts k)) [0..<n]),
        dy_sent := dy_sent s @ map (\<lambda>k. day_request (t + int k * msPerDay)) [0..<n] \<rparr>"

context dayjs_utc begin

lemma daily_fetchIndex_closes:
  assumes "four_digit_year t" "four_digit_year (t + msPerDay)" "readable_day parse texts"
    and "serve (day_request t) = Opened # map Incoming texts @ [Closed]"
  shows "daily_fetchIndex D parse serve (Some t) (Some (t + msPerDay)) s =
    (Some (Inr ()), s\<lparr> dy_lastMessage := None, dy_sent := dy_sent s @ [day_request t],
       dy_dailyValues := dy_dailyValues s @ day_values parse texts \<rparr>)"
  using assms(4) daily_session_closes [OF assms(3), of "s\<lparr> dy_lastMessage := None \<rparr>" "day_request t"]
  by (simp add: daily_fetchIndex_def to_iso assms(1,2) day_request_def)

lemma daily_loop_days:
  assumes "four_digit_year t" "four_digit_year (t + int n * msPerDay)"
    and "\<forall>k < n. t + int k * msPerDay < end' \<and> readable_day parse (texts k)
      \<and> serve (day_request (t + int k * msPerDay)) = Opened # map Incoming (texts k) @ [Closed]"
  shows "daily_loop D parse serve (Some t) (Some end') s =
    daily_loop D parse serve (Some (t + int n * msPerDay)) (Some end') (days_done parse texts t n s)"
  using assms(2,3)
proof (induction n)
  case 0
  show ?case by (simp add: days_done_def)
next
  case (Suc n)
  let ?t = "t + int n * msPerDay"
  have t: "four_digit_year ?t" "four_digit_year (?t + msPerDay)"
    using assms(1) Suc.prems(1) four_digit_between [of t "t + int (Suc n) * msPerDay"]
    by (simp_all add: algebra_simps)
  have next_day: "?t + msPerDay = t + int (Suc n) * msPerDay" by (simp add: algebra_simps)
  have now: "?t < end'" "readable_day parse (texts n)"
    "serve (day_request ?t) = Opened # map Incoming (texts n) @ [Closed]"
    using Suc.prems(2) by auto
  have step: "daily_fetchIndex D parse serve (Some ?t) (Some (?t + msPerDay)) (days_done parse texts t n s)
      = (Some (Inr ()), days_done parse texts t (Suc n) s)"
    unfolding daily_fetchIndex_closes [where serve = serve and texts = "texts n", OF t now(2,3)] by (simp add: days_done_def)
  have add: "dj_add_int D 1 Day (Some ?t) = Some (?t + msPerDay)"
    using add_days [of ?t 1] t by simp
  have "daily_loop D parse serve (Some t) (Some end') s =
      daily_loop D parse serve (Some ?t) (Some end') (days_done parse texts t n s)"
    using Suc.IH t(1) Suc.prems(2) by simp
  also have "\<dots> = daily_loop D parse serve (Some (?t + msPerDay)) (Some end') (days_done parse texts t (Suc n) s)"
    by (subst daily_loop.simps) (simp only: add step now(1) date_lt.simps if_True prod.case option.case sum.case)
  finally show ?case unfolding next_day .
qed

end

section \<open>A day over the websocket service\<close>

text \<open>What the client's socket gets of the effects of the handlers of the service.\<close>

fun client_events :: "(string \<Rightarrow> string) \<Rightarrow> (vix_index \<Rightarrow> string) \<Rightarrow> ws_effect \<Rightarrow> socket_event list" where
  "client_events greeting str (SentConnected uid) = [Incoming (greeting uid)]"
| "client_events greeting str (SentIndex index) = [Incoming (str index)]"
| "client_events greeting str SocketClosed = [Closed]"
| "client_events greeting str e = []"

definition served_session ::
  "(string \<Rightarrow> string) \<Rightarrow> (vix_index \<Rightarrow> string) \<Rightarrow> string \<Rightarrow> ws_effect list \<Rightarrow> socket_event list" where
  "served_session greeting str uid effects =
     Opened # concat (map (client_events greeting str) (ws_open uid @ effects))"

text \<open>The service authorizes the request of a socket before it opens it.  A refused one never opens: the
  client's library reports the failure to its handlers, and then that the socket is closed.\<close>

definition daily_socket ::
  "(string \<Rightarrow> (string, string) jsmap result) \<Rightarrow> (string \<Rightarrow> string \<Rightarrow> 'd \<Rightarrow> (bool \<times> 'd) result) \<Rightarrow> http_request \<Rightarrow> 'd
   \<Rightarrow> thrown \<Rightarrow> socket_event list \<Rightarrow> socket_event list" where
  "daily_socket parseQueryString tokens_check req d refusal served =
     (case handleAuthorize parseQueryString tokens_check req d of
        Inl _ \<Rightarrow> [Errored refusal, Closed]
      | Inr _ \<Rightarrow> served)"

lemma client_events_replay:
  "concat (map (client_events greeting str) (concat (map (\<lambda>(i, index). on_compute D num_str rec (clock i) index)
     (enumerate k xs)))) = map Incoming (map str xs)"
  by (induction xs arbitrary: k) (simp_all add: on_compute_def)

lemma truthy_all [simp]: "truthy x"
  by (cases x) simp_all

lemma replay_calculator_new: "replay_calculator D now m = Inr vix \<Longrightarrow> vx_completed vix = 0"
  by (auto simp: replay_calculator_def new_vix_def Let_def res_bind_Inr_iff split: json_field.splits if_splits)

text \<open>The service can always make the calculator of a day, which stands at its minute and comes back.\<close>

lemma day_calculator:
  assumes "dayjs_utc D" "four_digit_year t" "four_digit_year (t + 16 * msPerDay)"
  shows "\<exists>vix. replay_calculator D now (day_request t) = Inr vix
    \<and> vix_at (t - t mod 60000) (msPerDay + t mod 60000) 14 (t - t mod 60000) vix"
proof -
  have tp: "timePeriodToInteger ''14D'' = Inr (Num (of_int 14))"
    using timePeriodToInteger_digits [of "''14''" "[]"] by (simp add: is_digit_def dec_val_def digit_val_def)
  have t: "four_digit_year (t - t mod 60000)" "four_digit_year (t + msPerDay)"
    using assms(2,3) zdiv_mono1 [of "-62167219200000" t 60000] pos_mod_sign [of 60000 t]
    by (simp_all add: four_digit_year_def minus_mod_eq_div_mult)
  then have later: "four_digit_year (t - t mod 60000 + (msPerDay + t mod 60000) + 14 * msPerDay)"
    "four_digit_year (t - t mod 60000 + 14 * msPerDay)"
    using assms(2,3) pos_mod_sign [of 60000 t] unfolding four_digit_year_def by auto
  have begins: "dj_start_of D Minute (dj_utc D (iso_string t)) = Some (t - t mod 60000)"
    using dayjs_utc.utc_iso [OF assms(1,2)] dayjs_utc.start_of [OF assms(1,2), of Minute] by simp
  have diff: "dj_diff D (dj_utc D (iso_string (t + msPerDay))) (Some (t - t mod 60000)) = Some (msPerDay + t mod 60000)"
    using dayjs_utc.utc_iso [OF assms(1) t(2)] dayjs_utc.diff [OF assms(1) t(2,1)] by simp
  show ?thesis
    using t(1) later
    by (simp add: replay_calculator_def day_request_def daily_request_def new_vix_def tp begins diff Let_def vix_at_def num_of_date_def)
qed

lemma day_returns:
  assumes "good_env E" "four_digit_year t" "four_digit_year (t + 16 * msPerDay)" "86460000 \<le> fuel"
    and "wparse message = Inr (day_request t)"
  obtains vix vix' answer effects where "replay_calculator (ve_dayjs E) now (day_request t) = Inr vix"
    "fetchIndex E fuel vix = Some (vix', answer)"
    "ws_message E num_str clock fuel check' now wparse message topic = Some (effects, Inr ())"
proof -
  obtain vix where vix: "replay_calculator (ve_dayjs E) now (day_request t) = Inr vix"
    "vix_at (t - t mod 60000) (msPerDay + t mod 60000) 14 (t - t mod 60000) vix"
    using day_calculator [OF _ assms(2,3)] assms(1) unfolding good_env_def by blast
  have "nat (msPerDay + t mod 60000) < fuel" using assms(4) pos_mod_bound [of 60000 t] by simp
  from fetchIndex_settles [OF assms(1) vix(2) this] obtain vix' answer where
    f: "fetchIndex E fuel vix = Some (vix', answer)" by auto
  then have "\<exists>effects. ws_message E num_str clock fuel check' now wparse message topic = Some (effects, Inr ())"
    using assms(5) vix(1) by (simp add: ws_message_def day_request_def daily_request_def truthy_all replay_effects_def)
  then show thesis using that vix(1) f by blast
qed

text \<open>The service greets the socket before it replays, so the value of a day is its last index, or the
  greeting when the day has none.\<close>

lemma served_day:
  assumes "ws_message E num_str clock fuel check' now wparse message topic = Some (effects, r)"
    and "wparse message = Inr (daily_request from to')" "dy_lastMessage s = None"
    and "\<And>text. text \<in> insert (greeting uid) (range str) \<Longrightarrow> text \<noteq> [] \<and> parse text = Inr (v text)"
    and "session = daily_session parse (daily_request from to') (served_session greeting str uid effects) s"
  shows "case replay_calculator (ve_dayjs E) now (daily_request from to') of
      Inl e \<Rightarrow> fst session = None
    | Inr vix \<Rightarrow> \<exists>vix' answer. fetchIndex E fuel vix = Some (vix', answer)
        \<and> dy_sent (snd session) = dy_sent s @ [daily_request from to']
        \<and> (if vx_completed vix' = 0 then fst session = None \<and> (\<exists>e. answer = Inl e)
           else fst session = Some (Inr ())
             \<and> dy_dailyValues (snd session) = dy_dailyValues s @ [v (last (greeting uid # map str (vx_computed vix')))])"
proof (cases "replay_calculator (ve_dayjs E) now (daily_request from to')")
  case (Inl e)
  then have "effects = []"
    using assms(1,2) by (simp add: ws_message_def daily_request_def truthy_all)
  then have "fst session = None" unfolding assms(5) by (simp add: served_session_def ws_open_def)
  then show ?thesis using Inl by simp
next
  case (Inr vix)
  have "replay_effects E num_str clock fuel True vix = Some effects"
    using assms(1,2) Inr by (simp add: ws_message_def daily_request_def truthy_all)
  then obtain vix' answer where f: "fetchIndex E fuel vix = Some (vix', answer)"
    and eff: "effects = concat (map (\<lambda>(i, index). on_compute (ve_dayjs E) num_str True (clock i) index)
        (enumerate 0 (vx_computed vix'))) @ replicate (vx_completed vix') SocketClosed"
    by (auto simp: replay_effects_def split: option.splits)
  let ?texts = "greeting uid # map str (vx_computed vix')"
  have served: "served_session greeting str uid effects = Opened # map Incoming ?texts @ replicate (vx_completed vix') Closed"
    unfolding eff by (simp add: served_session_def ws_open_def client_events_replay [simplified])
  have made: "vx_completed vix = 0" using replay_calculator_new [OF Inr] .
  have last: "last ?texts \<in> insert (greeting uid) (range str)"
    by (cases "vx_computed vix'" rule: rev_cases) auto
  show ?thesis
  proof (cases "vx_completed vix'")
    case 0
    then have "session = daily_session parse (daily_request from to') (Opened # map Incoming ?texts @ []) s"
      unfolding assms(5) served by simp
    then have "fst session = None" "dy_sent (snd session) = dy_sent s @ [daily_request from to']"
      using daily_session_incoming [of parse "daily_request from to'" ?texts "[]"] by simp_all
    moreover have "\<exists>e. answer = Inl e" using fetchIndex_completed [OF f] made 0 by (cases answer) auto
    ultimately show ?thesis using Inr f 0 by simp
  next
    case (Suc k)
    then have "vx_completed vix' = 1" using fetchIndex_completed [OF f] made by simp
    then have "session = (Some (Inr ()), s\<lparr> dy_sent := dy_sent s @ [daily_request from to'],
        dy_dailyValues := dy_dailyValues s @ day_values parse ?texts \<rparr>)"
      unfolding assms(5) served using daily_session_closes [OF _ assms(3), of parse ?texts] assms(4) [OF last]
      by (auto simp: readable_day_def)
    then show ?thesis using Inr f Suc assms(4) [OF last] by (simp add: day_values_def)
  qed
qed

section \<open>Properties\<close>

text \<open>C20: a run of the daily script whose sockets all close.  It asks for the days one after the other,
  each request starting where the one before ended, until the end is reached or passed; it keeps the
  last message of every day, in order, and leaves out the days without one; and it comes back.\<close>

theorem daily_run:
  assumes "dayjs_utc D" "four_digit_year t" "four_digit_year (t + int n * msPerDay)" "end' \<le> t + int n * msPerDay"
    and "\<forall>k < n. t + int k * msPerDay < end'"
    and "\<forall>k < n. serve (day_request (t + int k * msPerDay)) = Opened # map Incoming (texts k) @ [Closed]
      \<and> readable_day parse (texts k)"
  shows "\<exists>s'. daily_loop D parse serve (Some t) (Some end') s = Some (Inr (), s')
    \<and> dy_sent s' = dy_sent s @ map (\<lambda>k. day_request (t + int k * msPerDay)) [0..<n]
    \<and> dy_dailyValues s' = dy_dailyValues s @ concat (map (\<lambda>k. day_values parse (texts k)) [0..<n])"
  using dayjs_utc.daily_loop_days [OF assms(1-3), of end' parse texts serve s] assms(5,6)
  by (simp add: daily_loop_end [OF assms(4)] days_done_def)

text \<open>C21: a day of the script over the websocket service.  The socket opens only when the script runs
  with \<^verbatim>\<open>USE_LOCALHOST\<close> and its key \<^verbatim>\<open>123\<close> is in the table of
  tokens; otherwise, with the default URL always, the request is refused, the promise of the day is
  rejected and nothing has been asked for.  Once it is open the day is asked for, the service can make its
  calculator, and the replay comes back.  A replay that completes closes the socket and settles the
  day with its last index, or with the greeting when there is none; a replay that is rejected before
  closes nothing, and the handlers of the service leave the promise of the day open.\<close>

theorem daily_day_over_socket:
  assumes "good_env E" "four_digit_year t" "four_digit_year (t + 16 * msPerDay)" "86460000 \<le> fuel"
    and "wparse message = Inr (day_request t)" "token_store db rows ok" "ok d"
    and "parseQ [] = Inr m0" "map_get m0 ''apiKey'' = None" "parseQ ''apiKey=123'' = Inr m1" "map_get m1 ''apiKey'' = Some ''123''"
    and "\<And>text. text \<in> insert (greeting uid) (range str) \<Longrightarrow> text \<noteq> [] \<and> parse text = Inr (v text)"
  shows "\<exists>effects. ws_message E num_str clock fuel check' now wparse message topic = Some (effects, Inr ())
    \<and> (let session = daily_fetchIndex (ve_dayjs E) parse
            (\<lambda>_. daily_socket parseQ (tokens_service TE db later) (daily_upgrade env) d refusal (served_session greeting str uid effects))
            (Some t) (Some (t + msPerDay)) s
       in if env ''USE_LOCALHOST'' \<notin> {None, Some []} \<and> (\<exists>r \<in> set (rows d). accepted_row TE later ''123'' r)
          then dy_sent (snd session) = dy_sent s @ [day_request t]
            \<and> (\<exists>vix vix' answer. replay_calculator (ve_dayjs E) now (day_request t) = Inr vix
                 \<and> fetchIndex E fuel vix = Some (vix', answer)
                 \<and> (if vx_completed vix' = 0 then fst session = None \<and> (\<exists>e. answer = Inl e)
                    else fst session = Some (Inr ())
                      \<and> dy_dailyValues (snd session) = dy_dailyValues s @ [v (last (greeting uid # map str (vx_computed vix')))]))
          else session = (Some (Inl refusal), s\<lparr> dy_lastMessage := None \<rparr>))"
proof -
  obtain vix vix' answer effects where run: "replay_calculator (ve_dayjs E) now (day_request t) = Inr vix"
    "fetchIndex E fuel vix = Some (vix', answer)"
    "ws_message E num_str clock fuel check' now wparse message topic = Some (effects, Inr ())"
    by (rule day_returns [where wparse = wparse and message = message, OF assms(1-5)])
  let ?req = "daily_upgrade env" and ?s = "s\<lparr> dy_lastMessage := None \<rparr>"
  let ?served = "served_session greeting str uid effects"
  let ?socket = "daily_socket parseQ (tokens_service TE db later) ?req d refusal ?served"
  have key: "(\<exists>key. request_api_key parseQ ?req = Inr key \<and> key \<noteq> [] \<and> (\<exists>r \<in> set (rows d). accepted_row TE later key r)) \<longleftrightarrow>
      env ''USE_LOCALHOST'' \<notin> {None, Some []} \<and> (\<exists>r \<in> set (rows d). accepted_row TE later ''123'' r)"
    using assms(8-11) by (auto simp: request_api_key_def daily_upgrade_def daily_url_def)
  have y: "four_digit_year (t + msPerDay)" using assms(2,3) by (simp add: four_digit_year_def)
  have D: "dayjs_utc (ve_dayjs E)" using assms(1) by (simp add: good_env_def)
  have fetch: "daily_fetchIndex (ve_dayjs E) parse (\<lambda>_. ?socket) (Some t) (Some (t + msPerDay)) s =
      daily_session parse (day_request t) ?socket ?s"
    by (simp add: daily_fetchIndex_def day_request_def dayjs_utc.to_iso [OF D assms(2)] dayjs_utc.to_iso [OF D y])
  show ?thesis
  proof (cases "env ''USE_LOCALHOST'' \<notin> {None, Some []} \<and> (\<exists>r \<in> set (rows d). accepted_row TE later ''123'' r)")
    case True
    then obtain d' where "handleAuthorize parseQ (tokens_service TE db later) ?req d = Inr (True, d')"
      using handleAuthorize_admits [OF assms(6,7), of parseQ ?req TE later] key by auto
    then have "?socket = ?served" by (simp add: daily_socket_def)
    note day = served_day [where wparse = wparse and message = message and s = ?s and greeting = greeting and uid = uid and str = str
        and parse = parse and v = v, OF run(3) assms(5) [unfolded day_request_def] _ assms(12) refl]
    show ?thesis using True day run by (simp add: Let_def fetch [unfolded \<open>?socket = ?served\<close>] \<open>?socket = ?served\<close> day_request_def)
  next
    case False
    then have "\<exists>e. handleAuthorize parseQ (tokens_service TE db later) ?req d = Inl e"
      using handleAuthorize_admits [OF assms(6,7), of parseQ ?req TE later] key by auto
    then have socket: "?socket = [Errored refusal, Closed]" by (auto simp: daily_socket_def)
    have "daily_fetchIndex (ve_dayjs E) parse (\<lambda>_. ?socket) (Some t) (Some (t + msPerDay)) s = (Some (Inl refusal), ?s)"
      unfolding fetch unfolding socket by simp
    then show ?thesis unfolding Let_def if_not_P [OF False] using run(3) by blast
  qed
qed

section \<open>Witnesses\<close>

definition sample_serve :: "client_message \<Rightarrow> socket_event list" where
  "sample_serve m =
     (if cm_replayFrom m = Present (iso_string 1640995200000) then [Opened, Incoming ''a'', Incoming ''b'', Closed]
      else [Opened, Closed])"

lemma daily_run_witness:
  "\<exists>s'. daily_main utc_dayjs Inr sample_serve = Some (Inr (), s')
    \<and> dy_dailyValues s' = [''b''] \<and> length (dy_sent s') = 2"
proof -
  let ?texts = "\<lambda>k. if k = 0 then [''a'', ''b''] else []"
  have start: "iso_string 1640995200000 = ''2022-01-01T00:00:00.000Z''" "iso_string 1641168000000 = ''2022-01-03T00:00:00.000Z''"
    by code_simp+
  have y: "four_digit_year 1640995200000" "four_digit_year (1640995200000 + int 2 * msPerDay)" "four_digit_year 1641168000000"
    "four_digit_year 1641081600000"
    by (simp_all add: four_digit_year_def)
  have main: "daily_main utc_dayjs Inr sample_serve = daily_loop utc_dayjs Inr sample_serve (Some 1640995200000)
      (Some 1641168000000) \<lparr> dy_lastMessage = None, dy_dailyValues = [], dy_sent = [] \<rparr>"
    using utc.utc_iso [OF y(1)] utc.utc_iso [OF y(3)] by (simp add: daily_main_def start)
  have "sample_serve (day_request (1640995200000 + int k * msPerDay)) = Opened # map Incoming (?texts k) @ [Closed]
      \<and> readable_day Inr (?texts k)" if "k < 2" for k
    using that iso_string_eq_iff [OF y(4,1)]
    by (cases k) (simp_all add: sample_serve_def day_request_def daily_request_def readable_day_def)
  then obtain s' where s': "daily_loop utc_dayjs Inr sample_serve (Some 1640995200000) (Some 1641168000000)
      \<lparr> dy_lastMessage = None, dy_dailyValues = [], dy_sent = [] \<rparr> = Some (Inr (), s')"
    "dy_sent s' = map (\<lambda>k. day_request (1640995200000 + int k * msPerDay)) [0..<2]"
    "dy_dailyValues s' = concat (map (\<lambda>k. day_values Inr (?texts k)) [0..<2])"
    using daily_run [OF utc.dayjs_utc_axioms y(1,2), of 1641168000000 sample_serve ?texts Inr
        "\<lparr> dy_lastMessage = None, dy_dailyValues = [], dy_sent = [] \<rparr>"] by auto
  then show ?thesis by (simp add: main day_values_def numeral_2_eq_2)
qed

definition script_query :: "string \<Rightarrow> (string, string) jsmap result" where
  "script_query q = Inr (if q = ''apiKey=123'' then [(''apiKey'', ''123'')] else [])"

definition script_table :: token_table where
  "script_table = (1, [sample_row\<lparr> at_token := ''salt123'' \<rparr>])"

text \<open>One replay, asked for over the default URL and over the local one with the key 123.\<close>

lemma daily_day_over_socket_witness:
  "\<exists>effects. ws_message sample_env (\<lambda>_. []) (\<lambda>_. None) 86460000 (\<lambda>_. ValidTrue) [] (\<lambda>_. Inr (day_request 1651363200000)) [] []
      = Some (effects, Inr ())
    \<and> (let run = (\<lambda>env. daily_fetchIndex utc_dayjs (Inr :: string \<Rightarrow> string result)
          (\<lambda>_. daily_socket script_query (tokens_service sample_token_env table_db 5) (daily_upgrade env) script_table type_error
            (served_session (\<lambda>_. ''hello'') (\<lambda>_. ''index'') ''u'' effects)) (Some 1651363200000) (Some (1651363200000 + msPerDay))
          \<lparr> dy_lastMessage = None, dy_dailyValues = [], dy_sent = [] \<rparr>)
       in fst (run (\<lambda>_. None)) = Some (Inl type_error)
          \<and> dy_sent (snd (run [''USE_LOCALHOST'' \<mapsto> ''true''])) = [day_request 1651363200000])"
proof -
  have D: "ve_dayjs sample_env = utc_dayjs" by (simp add: sample_env_def)
  have y: "four_digit_year 1651363200000" "four_digit_year (1651363200000 + 16 * msPerDay)"
    by (simp_all add: four_digit_year_def)
  have ok: "table_ok script_table" by (simp add: table_ok_def sample_row_def script_table_def)
  have row: "\<exists>r \<in> set (snd script_table). accepted_row sample_token_env 5 ''123'' r"
    by (simp add: script_table_def accepted_row_def secureToken_def sample_token_env_def sample_row_def)
  have q: "script_query [] = Inr []" "map_get [] ''apiKey'' = None"
    "script_query ''apiKey=123'' = Inr [(''apiKey'', ''123'')]" "map_get [(''apiKey'', ''123'')] ''apiKey'' = Some ''123''"
    by (simp_all add: script_query_def map_get_def)
  have parse: "t \<in> insert ''hello'' (range (\<lambda>_ :: vix_index. ''index'')) \<Longrightarrow> t \<noteq> [] \<and> Inr t = (Inr t :: string result)" for t
    by auto
  note day = daily_day_over_socket [where greeting = "\<lambda>_. ''hello''" and str = "\<lambda>_. ''index''" and uid = "''u''" and v = "\<lambda>x. x"
      and num_str = "\<lambda>_. []" and clock = "\<lambda>_. None" and check' = "\<lambda>_. ValidTrue" and now = "[]" and topic = "[]" and message = "[]"
      and wparse = "\<lambda>_. Inr (day_request 1651363200000)" and fuel = 86460000 and later = 5 and TE = sample_token_env
      and refusal = type_error and s = "\<lparr> dy_lastMessage = None, dy_dailyValues = [], dy_sent = [] \<rparr>",
      OF sample_good y order_refl refl table.token_store_axioms ok q parse, unfolded D Let_def]
  from day [of "\<lambda>_. None"] day [of "[''USE_LOCALHOST'' \<mapsto> ''true'']"] row show ?thesis by (auto simp: Let_def)
qed

end
