(* ===== verification/Startup.thy ===== *)
theory Startup
  imports Configuration Cron Helpers Instruments Ingest TradeServices
begin

text \<open>
  The schemas of the services under \<^verbatim>\<open>services/\<close> (name, dependencies, settings)
  and their start.  A process loads the files it is given into one broker and one environment; a
  service that is loaded comes up when all services it depends on are up and the promise of its
  \<^verbatim>\<open>started\<close> is fulfilled, which is what moleculer documents of
  \<^verbatim>\<open>dependencies\<close>.  The world a process sees (database, exchange, other
  services) is a record of parameters.
\<close>

section \<open>Schemas\<close>

datatype service_kind =
    BackfillSvc | CronSvc | IndexSvc | IngestSvc | InfoSvc | IpfsSvc | RateSvc | TestSvc | TokensSvc
  | OptionSvc | PairSvc | WsSvc

text \<open>Defaults of the requests for instruments; the ingest service has its asset from the
  environment, the ws service has none.\<close>

record instrument_defaults =
  id_exchange :: string
  id_asset :: "string option"
  id_type :: string
  id_timePeriod :: string
  id_contractType :: "string list"
  id_active :: "bool option"

text \<open>The options of the sockets that are values; its handlers are modelled with the sockets.\<close>

record ws_options =
  wp_path :: string
  wp_maxPayloadLength :: nat
  wp_idleTimeout :: nat
  wp_maxBackpressure :: nat
  wp_closeOnBackpressureLimit :: bool
  wp_authorize :: bool

datatype service_settings =
    BackfillSettings string bool
  | CronSettings estimate_settings
  | IndexSettings bool
  | IngestSettings string instrument_defaults
  | InfoSettings info_params
  | IpfsSettings "string list" "string list" bool string
  | RateSettings bool string
  | NoSettings
  | TokensSettings bool
  | OptionSettings bool string
  | PairSettings bool string
  | WsSettings string instrument_defaults nat ws_options

record service_schema =
  sc_name :: string
  sc_dependencies :: "string list"
  sc_dependencyTimeout :: "int option"
  sc_settings :: service_settings

text \<open>\<^verbatim>\<open>process.env.X || d\<close>: an empty variable selects the default, too.\<close>

definition env_truthy_or :: "process_env \<Rightarrow> string \<Rightarrow> string \<Rightarrow> string" where
  "env_truthy_or env name otherwise =
     (case env name of Some v \<Rightarrow> if v = [] then otherwise else v | None \<Rightarrow> otherwise)"

definition env_is_true :: "process_env \<Rightarrow> string \<Rightarrow> bool" where
  "env_is_true env name \<longleftrightarrow> env name = Some ''true''"

definition backfill_schema :: "process_env \<Rightarrow> service_schema result" where
  "backfill_schema env =
     res_bind (ensure env ''TARDIS_API_KEY'' None) (\<lambda>apiKey.
       Inr \<lparr> sc_name = ''backfill'', sc_dependencies = [], sc_dependencyTimeout = None,
         sc_settings = BackfillSettings apiKey False \<rparr>)"

text \<open>The times of both jobs are read while the schema is built, and a missing one throws.\<close>

definition cron_schema :: "process_env \<Rightarrow> service_schema result" where
  "cron_schema env =
     res_bind (cron_jobs env) (\<lambda>jobs.
       Inr \<lparr> sc_name = ''cron'', sc_dependencies = cron_dependencies env, sc_dependencyTimeout = None,
         sc_settings = CronSettings (cron_settings env) \<rparr>)"

definition index_schema :: "process_env \<Rightarrow> service_schema result" where
  "index_schema env =
     res_bind (ensure env ''SERVICE_NAME'' (Some ''index'')) (\<lambda>name.
       Inr \<lparr> sc_name = name, sc_dependencies = [''ingest-eth'', ''ingest-btc''],
         sc_dependencyTimeout = Some 60000,
         sc_settings = IndexSettings (env_is_true env ''INDEX_SKIP_PERSIST'') \<rparr>)"

definition ingest_schema :: "process_env \<Rightarrow> service_schema result" where
  "ingest_schema env =
     res_bind (ensure env ''SERVICE_NAME'' (Some ''ingest'')) (\<lambda>name.
       Inr \<lparr> sc_name = name, sc_dependencies = [''instrument_info-eth'', ''instrument_info-btc''],
         sc_dependencyTimeout = Some (60000 * 5),
         sc_settings = IngestSettings FridayT08
           \<lparr> id_exchange = env_truthy_or env ''INGEST_EXCHANGE'' ''deribit'',
             id_asset = env ''INGEST_BASE_CURRENCY'',
             id_type = env_truthy_or env ''INGEST_TYPE'' ''option'',
             id_timePeriod = env_truthy_or env ''INGEST_TIME_PERIOD'' ''14D'',
             id_contractType = parseContractType (env ''INGEST_CONTRACT_TYPE'') default_contract_types,
             id_active = None \<rparr> \<rparr>)"

text \<open>The name of the variable for the type ends in a blank.\<close>

definition info_schema :: "process_env \<Rightarrow> service_schema result" where
  "info_schema env =
     res_bind (ensure env ''SERVICE_NAME'' (Some ''instrument_info'')) (\<lambda>name.
     res_bind (ensure env ''INSTRUMENT_INFO_REFRESH_EXCHANGE'' (Some ''deribit'')) (\<lambda>exchange.
     res_bind (ensure env ''INSTRUMENT_INFO_REFRESH_BASE_CURRENCY'' None) (\<lambda>asset.
     res_bind (ensure env ''INSTRUMENT_INFO_REFRESH_TYPE '' (Some ''option'')) (\<lambda>type.
       Inr \<lparr> sc_name = name, sc_dependencies = [], sc_dependencyTimeout = None,
         sc_settings = InfoSettings (info_refresh_defaults exchange asset type
           (parseContractType (env ''INSTRUMENT_INFO_REFRESH_CONTRACT_TYPE'') [''call_option'', ''put_option''])) \<rparr>))))"

definition ipfs_schema :: "process_env \<Rightarrow> service_schema result" where
  "ipfs_schema env =
     Inr \<lparr> sc_name = ''ipfs'', sc_dependencies = [], sc_dependencyTimeout = None,
       sc_settings = IpfsSettings [''hash'', ''key'', ''metadata'', ''createdAt'', ''updatedAt''] [''hash'']
         ipfsEnabled_setting (ipfs_bucket env) \<rparr>"

definition rate_schema :: "process_env \<Rightarrow> service_schema result" where
  "rate_schema env =
     Inr \<lparr> sc_name = ''rate'', sc_dependencies = [], sc_dependencyTimeout = Some 30000,
       sc_settings = RateSettings (env_is_true env ''RATE_SKIP_PERSIST'')
         (env_or env ''RATE_RISKLESS_RATE_SOURCE'' ''AAVE'') \<rparr>"

definition test_schema :: "process_env \<Rightarrow> service_schema result" where
  "test_schema env =
     Inr \<lparr> sc_name = ''test'', sc_dependencies = [], sc_dependencyTimeout = None, sc_settings = NoSettings \<rparr>"

definition tokens_schema :: "process_env \<Rightarrow> service_schema result" where
  "tokens_schema env =
     Inr \<lparr> sc_name = ''tokens'', sc_dependencies = [], sc_dependencyTimeout = Some 60000,
       sc_settings = TokensSettings (env_is_true env ''TOKENS_SKIP_PERSIST'') \<rparr>"

definition option_schema :: "process_env \<Rightarrow> service_schema result" where
  "option_schema env =
     res_bind (ensure env ''SERVICE_NAME'' (Some ''tradeoption'')) (\<lambda>name.
     res_bind (ensure env ''TRADE_OPTION_ASSET'' None) (\<lambda>asset.
       Inr \<lparr> sc_name = name, sc_dependencies = [], sc_dependencyTimeout = Some 60000,
         sc_settings = OptionSettings (env_is_true env ''OPTION_SKIP_PERSIST'') asset \<rparr>))"

definition pair_schema :: "process_env \<Rightarrow> service_schema result" where
  "pair_schema env =
     res_bind (ensure env ''SERVICE_NAME'' (Some ''tradepair'')) (\<lambda>name.
     res_bind (ensure env ''TRADE_PAIRS_ASSETS'' None) (\<lambda>assets.
       Inr \<lparr> sc_name = name, sc_dependencies = [], sc_dependencyTimeout = Some 60000,
         sc_settings = PairSettings (env_is_true env ''TRADE_PAIRS_SKIP_PERSIST'') assets \<rparr>))"

definition ws_schema :: "process_env \<Rightarrow> service_schema result" where
  "ws_schema env =
     res_bind (ensure env ''TARDIS_API_KEY'' None) (\<lambda>apiKey.
       Inr \<lparr> sc_name = ''ws'', sc_dependencies = [], sc_dependencyTimeout = None,
         sc_settings = WsSettings apiKey
           \<lparr> id_exchange = env_truthy_or env ''INGEST_EXCHANGE'' ''deribit'', id_asset = None,
             id_type = env_truthy_or env ''INGEST_TYPE'' ''option'',
             id_timePeriod = env_truthy_or env ''INGEST_TIME_PERIOD'' ''14D'',
             id_contractType = [''call_option'', ''put_option''], id_active = Some False \<rparr>
           3000
           \<lparr> wp_path = ''/ws'', wp_maxPayloadLength = 16 * 1024, wp_idleTimeout = 60,
             wp_maxBackpressure = 5 * 1024 * 1024, wp_closeOnBackpressureLimit = True, wp_authorize = True \<rparr> \<rparr>)"

fun schema_of :: "service_kind \<Rightarrow> process_env \<Rightarrow> service_schema result" where
  "schema_of BackfillSvc = backfill_schema"
| "schema_of CronSvc = cron_schema"
| "schema_of IndexSvc = index_schema"
| "schema_of IngestSvc = ingest_schema"
| "schema_of InfoSvc = info_schema"
| "schema_of IpfsSvc = ipfs_schema"
| "schema_of RateSvc = rate_schema"
| "schema_of TestSvc = test_schema"
| "schema_of TokensSvc = tokens_schema"
| "schema_of OptionSvc = option_schema"
| "schema_of PairSvc = pair_schema"
| "schema_of WsSvc = ws_schema"

section \<open>Starting\<close>

text \<open>The last two fields bound the times of the world: how long a broker takes at most to notice a
  service that is up (its registry is polled), and how long the promise of
  \<^verbatim>\<open>started\<close> of a service takes to be fulfilled.\<close>

record world =
  wo_database :: "nat \<Rightarrow> bool"
  wo_source :: instrument_source
  wo_now :: jsdate
  wo_call :: "string \<Rightarrow> info_params \<Rightarrow> string list result"
  wo_listing :: "instrument_info list result"
  wo_lag :: nat
  wo_takes :: "service_kind \<Rightarrow> nat"

record broker_process =
  pr_env :: process_env
  pr_services :: "service_kind list"
  pr_world :: world
  pr_start :: nat

definition ready_wait :: "world \<Rightarrow> unit result option" where
  "ready_wait W = map_option fst (waitForDatasourceReady (wo_database W) 15000)"

definition request_defaults :: "instrument_defaults \<Rightarrow> info_params" where
  "request_defaults d =
     \<lparr> ip_exchange = id_exchange d, ip_asset = or_default (id_asset d) [], ip_timePeriod = Some (id_timePeriod d),
       ip_type = id_type d, ip_contractType = id_contractType d, ip_timestamp = None,
       ip_expirationDates = [], ip_active = id_active d \<rparr>"

text \<open>What the promise of \<^verbatim>\<open>started\<close> settles to, if it settles; a service without
  one starts at once.  The asset of the ingest service may be undefined, and reading its letters
  throws in the promise.\<close>

fun started_with :: "world \<Rightarrow> service_settings \<Rightarrow> unit result option" where
  "started_with W (IndexSettings skip) = ready_wait W"
| "started_with W (RateSettings skip source) = ready_wait W"
| "started_with W (InfoSettings defaults) =
     Some (fst (info_started (wo_source W) (wo_now W) (Some defaults) new_info_service))"
| "started_with W (IngestSettings expiryType d) =
     Some (case id_asset d of
         None \<Rightarrow>
           res_bind (mfivDates (wo_now W) (id_timePeriod d) FridayT08 None) (\<lambda>_.
           res_bind (from_promise handleError (Inl type_error :: string list result)) (\<lambda>r.
           res_bind r (\<lambda>_. Inr ())))
       | Some asset \<Rightarrow>
           res_bind (ingest (wo_call W) (request_defaults d) (id_timePeriod d) (id_exchange d) asset (wo_now W))
             (\<lambda>_. Inr ()))"
| "started_with W (OptionSettings skip asset) =
     map_option (\<lambda>ready. fst (option_started ready (wo_listing W) new_trade_option_service)) (ready_wait W)"
| "started_with W (PairSettings skip asset) =
     map_option (\<lambda>ready. fst (pair_started ready asset new_trade_pair_service)) (ready_wait W)"
| "started_with W settings = Some (Inr ())"

text \<open>A file whose service cannot be constructed keeps the whole process from loading.\<close>

definition loads :: "broker_process \<Rightarrow> bool" where
  "loads p \<longleftrightarrow> (\<forall>k \<in> set (pr_services p). \<exists>sc. schema_of k (pr_env p) = Inr sc)"

inductive up :: "broker_process set \<Rightarrow> broker_process \<Rightarrow> service_kind \<Rightarrow> bool" for D where
  Up: "p \<in> D \<Longrightarrow> loads p \<Longrightarrow> k \<in> set (pr_services p) \<Longrightarrow> schema_of k (pr_env p) = Inr sc \<Longrightarrow>
    (\<forall>d \<in> set (sc_dependencies sc). \<exists>q j sc'. up D q j \<and> schema_of j (pr_env q) = Inr sc' \<and> sc_name sc' = d) \<Longrightarrow>
    started_with (pr_world p) (sc_settings sc) = Some (Inr ()) \<Longrightarrow> up D p k"

inductive_cases upE: "up D p k"

text \<open>The same with times, in milliseconds.  A service with dependencies waits for them from the start
  of its process on, for as long as its \<^verbatim>\<open>$dependencyTimeout\<close> says, or forever
  without one; a wait that runs out is the end of the service.  Dependencies that are noticed before
  the wait runs out let the service start.\<close>

definition in_time :: "service_schema \<Rightarrow> broker_process \<Rightarrow> nat \<Rightarrow> bool" where
  "in_time sc p t \<longleftrightarrow> sc_dependencies sc = [] \<or>
     (case sc_dependencyTimeout sc of
        None \<Rightarrow> True
      | Some wait \<Rightarrow> wait = 0 \<or> t + wo_lag (pr_world p) \<le> pr_start p + nat wait)"

inductive up_by :: "broker_process set \<Rightarrow> broker_process \<Rightarrow> service_kind \<Rightarrow> nat \<Rightarrow> bool" for D where
  UpBy: "p \<in> D \<Longrightarrow> loads p \<Longrightarrow> k \<in> set (pr_services p) \<Longrightarrow> schema_of k (pr_env p) = Inr sc \<Longrightarrow>
    (\<forall>d \<in> set (sc_dependencies sc). \<exists>q j sc'. up_by D q j t \<and> schema_of j (pr_env q) = Inr sc' \<and> sc_name sc' = d) \<Longrightarrow>
    in_time sc p t \<Longrightarrow> started_with (pr_world p) (sc_settings sc) = Some (Inr ()) \<Longrightarrow>
    max (pr_start p) (t + wo_lag (pr_world p)) + wo_takes (pr_world p) k \<le> t' \<Longrightarrow> up_by D p k t'"

lemma up_by_up: "up_by D p k t \<Longrightarrow> up D p k"
  by (induction rule: up_by.induct) (rule up.Up; blast)

section \<open>Lemmas\<close>

lemma service_name: "ensure env ''SERVICE_NAME'' (Some d) = Inr (env_or env ''SERVICE_NAME'' d)"
proof -
  have "to_upper ''SERVICE_NAME'' = ''SERVICE_NAME''"
    by (simp add: to_upper_def upper_char_def char_of_def bit_0)
  then show ?thesis by (simp add: ensure_def env_or_def Let_def split: option.splits)
qed

definition pipeline_names :: "string set" where
  "pipeline_names = {''instrument_info-eth'', ''instrument_info-btc'', ''ingest-eth'', ''ingest-btc'',
     ''index-eth'', ''index-btc''}"

lemmas schema_defs = backfill_schema_def cron_schema_def index_schema_def ingest_schema_def info_schema_def
  ipfs_schema_def rate_schema_def test_schema_def tokens_schema_def option_schema_def pair_schema_def ws_schema_def

text \<open>No service has one of the names of the pipeline unless the environment gives it.\<close>

lemma name_of:
  assumes "schema_of k env = Inr sc"
  shows "sc_name sc =
    (case k of BackfillSvc \<Rightarrow> ''backfill'' | CronSvc \<Rightarrow> ''cron'' | IndexSvc \<Rightarrow> env_or env ''SERVICE_NAME'' ''index''
     | IngestSvc \<Rightarrow> env_or env ''SERVICE_NAME'' ''ingest'' | InfoSvc \<Rightarrow> env_or env ''SERVICE_NAME'' ''instrument_info''
     | IpfsSvc \<Rightarrow> ''ipfs'' | RateSvc \<Rightarrow> ''rate'' | TestSvc \<Rightarrow> ''test'' | TokensSvc \<Rightarrow> ''tokens''
     | OptionSvc \<Rightarrow> env_or env ''SERVICE_NAME'' ''tradeoption'' | PairSvc \<Rightarrow> env_or env ''SERVICE_NAME'' ''tradepair''
     | WsSvc \<Rightarrow> ''ws'')"
  using assms by (cases k; clarsimp simp: schema_defs service_name res_bind_Inr_iff)

lemma dependencies_of:
  assumes "schema_of k env = Inr sc"
  shows "sc_dependencies sc =
    (case k of CronSvc \<Rightarrow> cron_dependencies env | IndexSvc \<Rightarrow> [''ingest-eth'', ''ingest-btc'']
       | IngestSvc \<Rightarrow> [''instrument_info-eth'', ''instrument_info-btc''] | _ \<Rightarrow> [])"
  using assms by (cases k; clarsimp simp: schema_defs res_bind_Inr_iff)

lemma pipeline_name_given:
  assumes "schema_of k env = Inr sc" "sc_name sc \<in> pipeline_names"
  shows "env ''SERVICE_NAME'' = Some (sc_name sc)"
  using assms(2) unfolding name_of [OF assms(1)]
  by (cases k; cases "env ''SERVICE_NAME''"; simp add: env_or_def pipeline_names_def)

lemma dependency_names: "schema_of k env = Inr sc \<Longrightarrow> set (sc_dependencies sc) \<subseteq> pipeline_names"
  using dependencies_of [of k env sc] by (cases k) (auto simp: cron_dependencies_def pipeline_names_def simp del: schema_of.simps)

lemma upD: "up D p k \<Longrightarrow> p \<in> D \<and> (\<exists>sc. schema_of k (pr_env p) = Inr sc
    \<and> (\<forall>d \<in> set (sc_dependencies sc). \<exists>q j sc'. up D q j \<and> schema_of j (pr_env q) = Inr sc' \<and> sc_name sc' = d))"
  by (erule upE) blast

lemma up_dependency:
  assumes "up D p k" "schema_of k (pr_env p) = Inr sc" "d \<in> set (sc_dependencies sc)"
  shows "\<exists>q \<in> D. pr_env q ''SERVICE_NAME'' = Some d"
proof -
  obtain q j sc' where q: "up D q j" "schema_of j (pr_env q) = Inr sc'" "sc_name sc' = d"
    using upD [OF assms(1)] assms(2,3) by auto
  have "d \<in> pipeline_names" using dependency_names [OF assms(2)] assms(3) by blast
  then have "pr_env q ''SERVICE_NAME'' = Some d" using pipeline_name_given [OF q(2)] q(3) by simp
  then show ?thesis using upD [OF q(1)] by blast
qed

section \<open>Properties\<close>

text \<open>The services the pipeline is made of: what the dependencies of a service begin with.\<close>

fun depends_on :: "service_kind \<Rightarrow> process_env \<Rightarrow> string option" where
  "depends_on CronSvc env = (if cron_dependencies env = [] then None else Some ''index'')"
| "depends_on IndexSvc env = Some ''ingest''"
| "depends_on IngestSvc env = Some ''instrument_info''"
| "depends_on k env = None"

text \<open>C22: the pipeline needs several processes.  A service that depends on others comes up only when
  one process has the name of its provider for ETH in its environment and another one that for BTC:
  one process gives the same name to all its services, so no process can run the pipeline alone.\<close>

theorem pipeline_needs_processes:
  assumes "up D p k" "depends_on k (pr_env p) = Some provider"
  shows "\<exists>q \<in> D. \<exists>r \<in> D. q \<noteq> r \<and> pr_env q ''SERVICE_NAME'' = Some (provider @ ''-eth'')
    \<and> pr_env r ''SERVICE_NAME'' = Some (provider @ ''-btc'')"
proof -
  obtain sc where sc: "schema_of k (pr_env p) = Inr sc" using upD [OF assms(1)] by blast
  have "{provider @ ''-eth'', provider @ ''-btc''} \<subseteq> set (sc_dependencies sc)"
    using assms(2) unfolding dependencies_of [OF sc] by (cases k) (auto simp: cron_dependencies_def split: if_splits)
  then obtain q r where "q \<in> D" "r \<in> D" "pr_env q ''SERVICE_NAME'' = Some (provider @ ''-eth'')"
    "pr_env r ''SERVICE_NAME'' = Some (provider @ ''-btc'')"
    using up_dependency [OF assms(1) sc] by (metis insert_subset)
  moreover from this have "q \<noteq> r" by auto
  ultimately show ?thesis by blast
qed

text \<open>A deployment in which every name of the pipeline is given to a process that loads its
  service, and in which every promise of \<^verbatim>\<open>started\<close> is fulfilled.\<close>

definition deployed :: "broker_process set \<Rightarrow> service_kind \<Rightarrow> string \<Rightarrow> bool" where
  "deployed D k name \<longleftrightarrow> (\<exists>q \<in> D. k \<in> set (pr_services q) \<and> pr_env q ''SERVICE_NAME'' = Some name)"

definition complete_deployment :: "broker_process set \<Rightarrow> bool" where
  "complete_deployment D \<longleftrightarrow>
     (\<forall>p \<in> D. \<forall>k \<in> set (pr_services p). \<exists>sc. schema_of k (pr_env p) = Inr sc
        \<and> started_with (pr_world p) (sc_settings sc) = Some (Inr ()))
     \<and> deployed D InfoSvc ''instrument_info-eth'' \<and> deployed D InfoSvc ''instrument_info-btc''
     \<and> deployed D IngestSvc ''ingest-eth'' \<and> deployed D IngestSvc ''ingest-btc''
     \<and> deployed D IndexSvc ''index-eth'' \<and> deployed D IndexSvc ''index-btc''"

text \<open>The times of a deployment: every process starts before \<open>starts\<close>, notices a service within
  \<open>lag\<close>, and the promises take no longer than \<open>takes\<close> of their kind.\<close>

definition timed_deployment :: "broker_process set \<Rightarrow> nat \<Rightarrow> nat \<Rightarrow> (service_kind \<Rightarrow> nat) \<Rightarrow> bool" where
  "timed_deployment D starts lag takes \<longleftrightarrow>
     (\<forall>p \<in> D. pr_start p \<le> starts \<and> wo_lag (pr_world p) \<le> lag \<and> (\<forall>k. wo_takes (pr_world p) k \<le> takes k))"

text \<open>When the services of a kind are up at the latest.\<close>

definition info_by :: "nat \<Rightarrow> nat \<Rightarrow> (service_kind \<Rightarrow> nat) \<Rightarrow> nat" where
  "info_by starts lag takes = starts + lag + takes InfoSvc"

definition ingest_by :: "nat \<Rightarrow> nat \<Rightarrow> (service_kind \<Rightarrow> nat) \<Rightarrow> nat" where
  "ingest_by starts lag takes = info_by starts lag takes + lag + takes IngestSvc"

definition index_by :: "nat \<Rightarrow> nat \<Rightarrow> (service_kind \<Rightarrow> nat) \<Rightarrow> nat" where
  "index_by starts lag takes = ingest_by starts lag takes + lag + takes IndexSvc"

lemmas by_defs = info_by_def ingest_by_def index_by_def

lemma in_time_of:
  assumes "schema_of k (pr_env p) = Inr sc"
  shows "in_time sc p t \<longleftrightarrow>
    (k = IngestSvc \<longrightarrow> t + wo_lag (pr_world p) \<le> pr_start p + 300000)
    \<and> (k = IndexSvc \<longrightarrow> t + wo_lag (pr_world p) \<le> pr_start p + 60000)"
  using assms by (cases k; clarsimp simp: schema_defs res_bind_Inr_iff in_time_def)

abbreviation provided_by :: "broker_process set \<Rightarrow> nat \<Rightarrow> string \<Rightarrow> bool" where
  "provided_by D t d \<equiv> \<exists>q j sc'. up_by D q j t \<and> schema_of j (pr_env q) = Inr sc' \<and> sc_name sc' = d"

lemma deployed_up:
  assumes "complete_deployment D" "timed_deployment D starts lag takes" "p \<in> D" "k \<in> set (pr_services p)"
    and provided: "\<And>sc d. schema_of k (pr_env p) = Inr sc \<Longrightarrow> d \<in> set (sc_dependencies sc) \<Longrightarrow> provided_by D t d"
    and times: "k = IngestSvc \<Longrightarrow> t + lag \<le> pr_start p + 300000" "k = IndexSvc \<Longrightarrow> t + lag \<le> pr_start p + 60000"
    and t': "starts \<le> t + lag" "t + lag + takes k \<le> t'"
  shows "up_by D p k t'"
proof -
  have "loads p" using assms(1,3) unfolding complete_deployment_def loads_def by blast
  moreover obtain sc where sc: "schema_of k (pr_env p) = Inr sc"
    "started_with (pr_world p) (sc_settings sc) = Some (Inr ())"
    using assms(1,3,4) unfolding complete_deployment_def by blast
  have w: "pr_start p \<le> starts" "wo_lag (pr_world p) \<le> lag" "wo_takes (pr_world p) k \<le> takes k"
    using assms(2,3) by (auto simp: timed_deployment_def)
  have "in_time sc p t" using times w(2) by (auto simp: in_time_of [OF sc(1)])
  moreover have "max (pr_start p) (t + wo_lag (pr_world p)) + wo_takes (pr_world p) k \<le> t'" using w t' by simp
  ultimately show ?thesis using up_by.UpBy [OF assms(3) _ assms(4) sc(1) _ _ sc(2)] provided [OF sc(1)] by blast
qed

lemma deployed_name:
  assumes "complete_deployment D" "deployed D k name" "k \<in> {InfoSvc, IngestSvc, IndexSvc}"
    and "\<And>q. q \<in> D \<Longrightarrow> k \<in> set (pr_services q) \<Longrightarrow> up_by D q k t"
  shows "provided_by D t name"
proof -
  obtain q where q: "q \<in> D" "k \<in> set (pr_services q)" "pr_env q ''SERVICE_NAME'' = Some name"
    using assms(2) by (auto simp: deployed_def)
  obtain sc where sc: "schema_of k (pr_env q) = Inr sc"
    using assms(1) q unfolding complete_deployment_def by blast
  have "sc_name sc = name"
    using sc q(3) assms(3) by (auto simp: schema_defs service_name env_or_def res_bind_Inr_iff)
  then show ?thesis using assms(4) [OF q(1,2)] sc by blast
qed

text \<open>No wait of an ingest or an index service runs out.\<close>

definition waits_suffice :: "broker_process set \<Rightarrow> nat \<Rightarrow> nat \<Rightarrow> (service_kind \<Rightarrow> nat) \<Rightarrow> bool" where
  "waits_suffice D starts lag takes \<longleftrightarrow>
     (\<forall>p \<in> D. (IngestSvc \<in> set (pr_services p) \<longrightarrow> info_by starts lag takes + lag \<le> pr_start p + 300000)
        \<and> (IndexSvc \<in> set (pr_services p) \<longrightarrow> ingest_by starts lag takes + lag \<le> pr_start p + 60000))"

lemma complete_names:
  assumes "complete_deployment D" "timed_deployment D starts lag takes" "waits_suffice D starts lag takes"
  shows "provided_by D (info_by starts lag takes) ''instrument_info-eth''"
    "provided_by D (info_by starts lag takes) ''instrument_info-btc''"
    "provided_by D (ingest_by starts lag takes) ''ingest-eth''" "provided_by D (ingest_by starts lag takes) ''ingest-btc''"
    "provided_by D (index_by starts lag takes) ''index-eth''" "provided_by D (index_by starts lag takes) ''index-btc''"
proof -
  note up = deployed_up [OF assms(1,2)] and name = deployed_name [OF assms(1)]
  note names = assms(1) [unfolded complete_deployment_def] 
  have waits: "IngestSvc \<in> set (pr_services q) \<Longrightarrow> info_by starts lag takes + lag \<le> pr_start q + 300000"
    "IndexSvc \<in> set (pr_services q) \<Longrightarrow> ingest_by starts lag takes + lag \<le> pr_start q + 60000" if "q \<in> D" for q
    using assms(3) that by (simp_all add: waits_suffice_def)
  have info: "up_by D q InfoSvc (info_by starts lag takes)" if "q \<in> D" "InfoSvc \<in> set (pr_services q)" for q
    by (rule up [OF that, of starts]) (use dependencies_of [of InfoSvc "pr_env q"] in \<open>auto simp: by_defs\<close>)
  show 1: "provided_by D (info_by starts lag takes) ''instrument_info-eth''"
    "provided_by D (info_by starts lag takes) ''instrument_info-btc''"
    using name [OF _ _ info] names by simp_all
  have ingest: "up_by D q IngestSvc (ingest_by starts lag takes)" if "q \<in> D" "IngestSvc \<in> set (pr_services q)" for q
    by (rule up [OF that, of "info_by starts lag takes"])
      (use dependencies_of [of IngestSvc "pr_env q"] 1 waits(1) [OF that] in \<open>force simp: by_defs\<close>)+
  show 2: "provided_by D (ingest_by starts lag takes) ''ingest-eth''" "provided_by D (ingest_by starts lag takes) ''ingest-btc''"
    using name [OF _ _ ingest] names by simp_all
  have index: "up_by D q IndexSvc (index_by starts lag takes)" if "q \<in> D" "IndexSvc \<in> set (pr_services q)" for q
    by (rule up [OF that, of "ingest_by starts lag takes"])
      (use dependencies_of [of IndexSvc "pr_env q"] 2 waits(2) [OF that] in \<open>force simp: by_defs\<close>)+
  show "provided_by D (index_by starts lag takes) ''index-eth''" "provided_by D (index_by starts lag takes) ''index-btc''"
    using name [OF _ _ index] names by simp_all
qed

lemma needs_cases:
  assumes "schema_of k env = Inr sc" "d \<in> set (sc_dependencies sc)"
  shows "k = IngestSvc \<and> d \<in> {''instrument_info-eth'', ''instrument_info-btc''}
    \<or> k = IndexSvc \<and> d \<in> {''ingest-eth'', ''ingest-btc''} \<or> k = CronSvc \<and> d \<in> {''index-eth'', ''index-btc''}"
  using assms(2) unfolding dependencies_of [OF assms(1)]
  by (cases k) (auto simp: cron_dependencies_def split: if_splits)

lemma complete_up_by:
  assumes "complete_deployment D" "timed_deployment D starts lag takes" "waits_suffice D starts lag takes"
    and "p \<in> D" "k \<in> set (pr_services p)"
  shows "up_by D p k
    ((case k of IngestSvc \<Rightarrow> info_by starts lag takes | IndexSvc \<Rightarrow> ingest_by starts lag takes
       | CronSvc \<Rightarrow> index_by starts lag takes | _ \<Rightarrow> starts) + lag + takes k)"
proof (rule deployed_up [OF assms(1,2,4,5)])
  note waits = assms(3) [unfolded waits_suffice_def, rule_format, OF assms(4)]
  let ?t = "case k of IngestSvc \<Rightarrow> info_by starts lag takes | IndexSvc \<Rightarrow> ingest_by starts lag takes
       | CronSvc \<Rightarrow> index_by starts lag takes | _ \<Rightarrow> starts"
  fix sc d
  assume "schema_of k (pr_env p) = Inr sc" "d \<in> set (sc_dependencies sc)"
  from needs_cases [OF this] show "provided_by D ?t d"
    using complete_names [OF assms(1-3)] by (elim disjE conjE insertE emptyE) (simp_all only: service_kind.case)
next
  note waits = assms(3) [unfolded waits_suffice_def, rule_format, OF assms(4)]
  let ?t = "case k of IngestSvc \<Rightarrow> info_by starts lag takes | IndexSvc \<Rightarrow> ingest_by starts lag takes
       | CronSvc \<Rightarrow> index_by starts lag takes | _ \<Rightarrow> starts"
  show "k = IngestSvc \<Longrightarrow> ?t + lag \<le> pr_start p + 300000" "k = IndexSvc \<Longrightarrow> ?t + lag \<le> pr_start p + 60000"
    using waits assms(5) by auto
  show "starts \<le> ?t + lag" by (cases k) (simp_all add: by_defs)
qed simp


section \<open>Witnesses\<close>

definition sample_world :: world where
  "sample_world = \<lparr> wo_database = (\<lambda>_. True), wo_source = (\<lambda>_ _. Inr []), wo_now = Some 1651363200000,
     wo_call = (\<lambda>_ _. Inr []), wo_listing = Inr [], wo_lag = 1500, wo_takes = (\<lambda>_. 2000) \<rparr>"

definition sample_process :: "string \<Rightarrow> string \<Rightarrow> service_kind list \<Rightarrow> broker_process" where
  "sample_process name asset kinds = \<lparr>
     pr_env = (\<lambda>n. if n = ''SERVICE_NAME'' then Some name
       else if n \<in> {''INGEST_BASE_CURRENCY'', ''INSTRUMENT_INFO_REFRESH_BASE_CURRENCY''} then Some asset
       else if n \<in> {''CRON_MFIV_ETH_UPDATE_CRONTIME'', ''CRON_MFIV_BTC_UPDATE_CRONTIME''} then Some ''0 */5 * * * *''
       else None),
     pr_services = kinds, pr_world = sample_world, pr_start = 0 \<rparr>"

definition deployed_names :: "(string \<times> string \<times> service_kind list) list" where
  "deployed_names = [(''instrument_info-eth'', ''ETH'', [InfoSvc]), (''instrument_info-btc'', ''BTC'', [InfoSvc]),
     (''ingest-eth'', ''ETH'', [IngestSvc]), (''ingest-btc'', ''BTC'', [IngestSvc]),
     (''index-eth'', ''ETH'', [IndexSvc]), (''index-btc'', ''BTC'', [IndexSvc, CronSvc])]"

definition sample_deployment :: "broker_process set" where
  "sample_deployment = (\<lambda>(name, asset, kinds). sample_process name asset kinds) ` set deployed_names"

lemma sample_process_fields [simp]: "pr_services (sample_process name asset kinds) = kinds"
  "pr_world (sample_process name asset kinds) = sample_world" "pr_start (sample_process name asset kinds) = 0"
  by (simp_all add: sample_process_def)

lemma sample_ready: "ready_wait sample_world = Some (Inr ())"
  by (simp add: ready_wait_def sample_world_def waitForDatasourceReady_def wait_ticks.simps)

lemma ensure_default: "\<exists>x. ensure env v (Some d) = Inr x"
  by (simp add: ensure_def Let_def split: option.splits)

lemma sample_started:
  "started_with sample_world (InfoSettings defaults) = Some (Inr ())"
  "started_with sample_world (CronSettings estimates) = Some (Inr ())"
  "started_with sample_world (IndexSettings skip) = Some (Inr ())"
proof -
  show "started_with sample_world (InfoSettings defaults) = Some (Inr ())"
    by (simp add: info_started_def refresh_def fetchInstruments_def sample_world_def
        tardisOptionInstrumentDataSource_def)
qed (simp_all add: sample_ready)

lemma sample_ingest_started:
  "id_timePeriod d = ''14D'' \<Longrightarrow> id_asset d = Some asset \<Longrightarrow>
    started_with sample_world (IngestSettings expiryType d) = Some (Inr ())"
proof -
  have "timePeriodToInteger ''14D'' = Inr (Num (of_int (7 * 2)))"
    using timePeriodToInteger_digits [of "''14''" "[]"] by (simp add: is_digit_def dec_val_def digit_val_def)
  then have "\<exists>dates. mfivDates (Some 1651363200000) ''14D'' FridayT08 None = Inr dates"
    using mfivDates_weeks [of "''14D''" 2 1651363200000 None] by (simp add: max_time_def four_digit_year_def)
  moreover assume "id_timePeriod d = ''14D''" "id_asset d = Some asset"
  ultimately show ?thesis
    by (auto simp: sample_world_def ingest_def fetch_ids_def to_iso_string_def from_promise_def)
qed

lemma sample_loads:
  assumes "k \<in> {InfoSvc, IngestSvc, IndexSvc, CronSvc}"
  shows "\<exists>sc. schema_of k (pr_env (sample_process name asset kinds)) = Inr sc
    \<and> started_with sample_world (sc_settings sc) = Some (Inr ())"
proof -
  let ?env = "pr_env (sample_process name asset kinds)"
  have "to_upper ''INSTRUMENT_INFO_REFRESH_BASE_CURRENCY'' = ''INSTRUMENT_INFO_REFRESH_BASE_CURRENCY''"
    by (simp add: to_upper_def upper_char_def char_of_def bit_0)
  then have asset: "ensure ?env ''INSTRUMENT_INFO_REFRESH_BASE_CURRENCY'' None = Inr asset"
    "?env ''INGEST_BASE_CURRENCY'' = Some asset" "?env ''INGEST_TIME_PERIOD'' = None"
    by (simp_all add: ensure_def sample_process_def)
  obtain x y where "ensure ?env ''INSTRUMENT_INFO_REFRESH_EXCHANGE'' (Some ''deribit'') = Inr x"
    "ensure ?env ''INSTRUMENT_INFO_REFRESH_TYPE '' (Some ''option'') = Inr y"
    using ensure_default by blast
  then have "\<exists>sc. info_schema ?env = Inr sc \<and> started_with sample_world (sc_settings sc) = Some (Inr ())"
    using asset(1) sample_started(1) by (simp add: info_schema_def service_name del: started_with.simps)
  moreover have "\<exists>sc. ingest_schema ?env = Inr sc \<and> started_with sample_world (sc_settings sc) = Some (Inr ())"
    using asset(2,3)
    by (simp add: ingest_schema_def service_name sample_ingest_started env_truthy_or_def del: started_with.simps)
  moreover have "\<exists>jobs. cron_jobs ?env = Inr jobs"
    by (simp add: cron_jobs_def ensure_def to_upper_def upper_char_def char_of_def bit_0 sample_process_def)
  ultimately show ?thesis
    using assms sample_started(2,3)
    by (auto simp: index_schema_def cron_schema_def service_name simp del: started_with.simps)
qed

lemma sample_complete: "complete_deployment sample_deployment"
proof -
  have "\<exists>sc. schema_of k (pr_env p) = Inr sc \<and> started_with (pr_world p) (sc_settings sc) = Some (Inr ())"
    if mem: "p \<in> sample_deployment" "k \<in> set (pr_services p)" for p k
  proof -
    obtain name asset kinds where p: "p = sample_process name asset kinds" "(name, asset, kinds) \<in> set deployed_names"
      using mem(1) unfolding sample_deployment_def by auto
    have known: "list_all (\<lambda>(name, asset, kinds). set kinds \<subseteq> {InfoSvc, IngestSvc, IndexSvc, CronSvc}) deployed_names"
      by (simp add: deployed_names_def)
    have "set kinds \<subseteq> {InfoSvc, IngestSvc, IndexSvc, CronSvc}"
      using p(2) known unfolding list_all_iff by fastforce
    have "k \<in> set kinds" using mem(2) unfolding p(1) sample_process_fields .
    then have "k \<in> {InfoSvc, IngestSvc, IndexSvc, CronSvc}" using \<open>set kinds \<subseteq> {InfoSvc, IngestSvc, IndexSvc, CronSvc}\<close> by (rule rev_subsetD)
    from sample_loads [OF this, of name asset kinds] show ?thesis
      unfolding p(1) sample_process_fields .
  qed
  then show ?thesis
    unfolding complete_deployment_def deployed_def
    by (simp add: sample_deployment_def deployed_names_def) (simp add: sample_process_def)
qed

lemma sample_timed: "timed_deployment sample_deployment 0 1500 (\<lambda>_. 2000)"
  by (auto simp: timed_deployment_def sample_deployment_def) (simp_all add: sample_world_def)


lemma pipeline_needs_processes_witness:
  "\<exists>q \<in> sample_deployment. \<exists>r \<in> sample_deployment. q \<noteq> r \<and> pr_env q ''SERVICE_NAME'' = Some ''index-eth''
    \<and> pr_env r ''SERVICE_NAME'' = Some ''index-btc''"
proof -
  have mem: "sample_process ''index-btc'' ''BTC'' [IndexSvc, CronSvc] \<in> sample_deployment"
    by (simp add: sample_deployment_def deployed_names_def)
  have "waits_suffice sample_deployment 0 1500 (\<lambda>_. 2000)"
    by (simp add: waits_suffice_def by_defs)
  from up_by_up [OF complete_up_by [OF sample_complete sample_timed this mem, of CronSvc]]
  have "up sample_deployment (sample_process ''index-btc'' ''BTC'' [IndexSvc, CronSvc]) CronSvc" by simp
  from pipeline_needs_processes [OF this, of "''index''"] show ?thesis
    by (simp add: cron_dependencies_def sample_process_def)
qed

end
