(* ===== verification/Tables.thy ===== *)
theory Tables
  imports Configuration Cron Tokens Backfill TradeServices
begin

text \<open>
  The tables of \<^verbatim>\<open>src/entities/\<close> as their column declarations (type, enum,
  nullable, part of the primary key), what it takes for a row to conform to them, and the rows the
  services write as cells of their table.  The lists of the exchanges and of the assets come from
  packages and are parameters, as is the text of a number.
\<close>

section \<open>Enumerations\<close>

definition BaseCurrencyEnum :: "string list" where
  "BaseCurrencyEnum = [''ETH'', ''BTC'', ''SOL'']"

definition MethodologyExchangeEnum :: "string list" where
  "MethodologyExchangeEnum = [''deribit'']"

definition SymbolTypeEnum :: "string list" where
  "SymbolTypeEnum = [''option'']"

definition MethodologyEnum :: "string list" where
  "MethodologyEnum = [''MFIV'']"

definition RateSourceEnum :: "string list" where
  "RateSourceEnum = [''AAVE'']"

definition OptionTypeEnum :: "string list" where
  "OptionTypeEnum = [''call'', ''put'']"

definition ETH_SYMBOLS :: "string list" where
  "ETH_SYMBOLS = [''ETHUSDT'', ''ETHUSD'', ''ETH/USD'', ''ETH/USDC'', ''ETH/USDT'', ''ETH-USD'']"

definition BTC_SYMBOLS :: "string list" where
  "BTC_SYMBOLS = [''BTCUSDT'', ''BTCUSD'', ''BTC/USD'', ''BTC/USDC'', ''BTC/USDT'', ''BTC-USD'']"

definition SOL_SYMBOLS :: "string list" where
  "SOL_SYMBOLS = [''SOLUSDT'', ''SOLUSD'', ''SOL/USD'', ''SOL/USDC'', ''SOL/USDT'', ''SOL-USD'']"

definition SYMBOLS :: "string list" where
  "SYMBOLS = ETH_SYMBOLS @ BTC_SYMBOLS @ SOL_SYMBOLS"

section \<open>Columns\<close>

datatype column_type =
    VarcharCol | TimestampCol | DecimalCol | IntegerCol | JsonCol | EnumCol "string list" | GeneratedId

record column =
  co_name :: string
  co_type :: column_type
  co_nullable :: bool
  co_primary :: bool

abbreviation col :: "string \<Rightarrow> column_type \<Rightarrow> column" where
  "col name type \<equiv> \<lparr> co_name = name, co_type = type, co_nullable = False, co_primary = False \<rparr>"

abbreviation nullable :: "column \<Rightarrow> column" where
  "nullable c \<equiv> c\<lparr> co_nullable := True \<rparr>"

abbreviation primary :: "column \<Rightarrow> column" where
  "primary c \<equiv> c\<lparr> co_primary := True \<rparr>"

record table =
  ta_name :: string
  ta_columns :: "column list"
  ta_unique :: "string list"

text \<open>A column that is declared twice (as a plain and as a primary column) is taken with its
  primary declaration and the type of the plain one; an enumeration without the type enum is a
  text.  Dates that the database fills in (\<^verbatim>\<open>CreateDateColumn\<close>,
  \<^verbatim>\<open>UpdateDateColumn\<close>) are columns that a row may leave out.\<close>

definition auth_tokens :: table where
  "auth_tokens = \<lparr> ta_name = ''auth_tokens'',
     ta_columns = [primary (col ''id'' GeneratedId), col ''type'' VarcharCol, col ''owner'' VarcharCol,
       nullable (col ''name'' VarcharCol), col ''token'' VarcharCol, nullable (col ''expiry'' TimestampCol),
       nullable (col ''createdAt'' TimestampCol), nullable (col ''lastUsedAt'' TimestampCol),
       nullable (col ''revokedAt'' TimestampCol)],
     ta_unique = [''token''] \<rparr>"

definition fleek_transactions :: table where
  "fleek_transactions = \<lparr> ta_name = ''fleek_transactions'',
     ta_columns = [primary (col ''hash'' VarcharCol), col ''key'' VarcharCol, col ''metadata'' JsonCol,
       nullable (col ''createdAt'' TimestampCol), nullable (col ''updatedAt'' TimestampCol)],
     ta_unique = [] \<rparr>"

definition methodology_indices :: table where
  "methodology_indices = \<lparr> ta_name = ''methodology_indices'',
     ta_columns = [primary (col ''timestamp'' TimestampCol), col ''value'' DecimalCol,
       primary (col ''methodology'' (EnumCol MethodologyEnum)), primary (col ''timePeriod'' VarcharCol),
       primary (col ''asset'' (EnumCol BaseCurrencyEnum)), col ''exchange'' (EnumCol MethodologyExchangeEnum),
       col ''symbolType'' (EnumCol SymbolTypeEnum), nullable (col ''extra'' JsonCol),
       nullable (col ''createdAt'' TimestampCol)],
     ta_unique = [''timestamp'', ''methodology'', ''timePeriod'', ''asset'', ''symbolType''] \<rparr>"

definition mfiv_indices :: table where
  "mfiv_indices = \<lparr> ta_name = ''mfiv_indices'',
     ta_columns = [primary (col ''timestamp'' TimestampCol), primary (col ''exchange'' (EnumCol MethodologyExchangeEnum)),
       primary (col ''timePeriod'' VarcharCol), primary (col ''asset'' (EnumCol BaseCurrencyEnum)),
       col ''value'' DecimalCol, col ''invValue'' DecimalCol, col ''underlyingPrice'' DecimalCol,
       col ''nearExpiry'' TimestampCol, col ''nextExpiry'' TimestampCol, nullable (col ''extra'' JsonCol),
       nullable (col ''createdAt'' TimestampCol)],
     ta_unique = [''timestamp'', ''exchange'', ''timePeriod'', ''asset''] \<rparr>"

definition rates :: table where
  "rates = \<lparr> ta_name = ''rates'',
     ta_columns = [primary (col ''id'' GeneratedId), col ''value'' DecimalCol, col ''sourceValue'' DecimalCol,
       col ''source'' (EnumCol RateSourceEnum), col ''rateAt'' TimestampCol,
       nullable (col ''createdAt'' TimestampCol), nullable (col ''updatedAt'' TimestampCol)],
     ta_unique = [] \<rparr>"

definition trade_options :: "string list \<Rightarrow> table" where
  "trade_options exchanges = \<lparr> ta_name = ''trade_options'',
     ta_columns = [primary (col ''timestamp'' TimestampCol), primary (col ''exchange'' (EnumCol exchanges)),
       primary (col ''asset'' (EnumCol BaseCurrencyEnum)), primary (col ''symbol'' VarcharCol),
       col ''underlyingPrice'' DecimalCol, col ''strikePrice'' IntegerCol, col ''price'' DecimalCol,
       col ''optionType'' VarcharCol, nullable (col ''markIV'' DecimalCol),
       nullable (col ''delta'' DecimalCol), col ''expirationDate'' TimestampCol,
       nullable (col ''localTimestamp'' TimestampCol)],
     ta_unique = [] \<rparr>"

definition trade_pairs :: "string list \<Rightarrow> table" where
  "trade_pairs exchanges = \<lparr> ta_name = ''trade_pairs'',
     ta_columns = [primary (col ''timestamp'' TimestampCol), primary (col ''exchange'' (EnumCol exchanges)),
       primary (col ''symbol'' (EnumCol SYMBOLS)), col ''price'' DecimalCol,
       nullable (col ''transactionId'' VarcharCol), nullable (col ''localTimestamp'' TimestampCol)],
     ta_unique = [] \<rparr>"

section \<open>Conforming rows\<close>

datatype cell = NullCell | TextCell string | DateCell jsdate | NumberCell jsnum | JsonCell

text \<open>A decimal column takes the text of a decimal literal or of NaN.  An invalid Date is no value of
  a timestamp.\<close>

definition decimal_text :: "string \<Rightarrow> bool" where
  "decimal_text s \<longleftrightarrow> s = ''NaN'' \<or> (case signed_decimal s of Num r \<Rightarrow> True | _ \<Rightarrow> False)"

fun cell_conforms :: "column_type \<Rightarrow> cell \<Rightarrow> bool" where
  "cell_conforms VarcharCol (TextCell s) = True"
| "cell_conforms TimestampCol (DateCell d) = (d \<noteq> None)"
| "cell_conforms DecimalCol (TextCell s) = decimal_text s"
| "cell_conforms DecimalCol (NumberCell x) = (x \<notin> {PosInf, NegInf})"
| "cell_conforms IntegerCol (NumberCell x) = (case x of Num r \<Rightarrow> of_int \<lfloor>r\<rfloor> = r | _ \<Rightarrow> False)"
| "cell_conforms JsonCol JsonCell = True"
| "cell_conforms (EnumCol vs) (TextCell s) = (s \<in> set vs)"
| "cell_conforms GeneratedId (NumberCell x) = True"
| "cell_conforms type c = False"

definition column_conforms :: "column \<Rightarrow> cell \<Rightarrow> bool" where
  "column_conforms c v \<longleftrightarrow> (if v = NullCell then co_nullable c \<or> co_type c = GeneratedId else cell_conforms (co_type c) v)"

definition row_conforms :: "table \<Rightarrow> (string \<Rightarrow> cell) \<Rightarrow> bool" where
  "row_conforms t row \<longleftrightarrow> list_all (\<lambda>c. column_conforms c (row (co_name c))) (ta_columns t)"

fun cells :: "(string \<times> cell) list \<Rightarrow> string \<Rightarrow> cell" where
  "cells [] name = NullCell"
| "cells ((n, v) # xs) name = (if n = name then v else cells xs name)"

section \<open>The rows of the services\<close>

definition opt_cell :: "('a \<Rightarrow> cell) \<Rightarrow> 'a option \<Rightarrow> cell" where
  "opt_cell f x = (case x of Some v \<Rightarrow> f v | None \<Rightarrow> NullCell)"

definition index_cells :: "methodology_index \<Rightarrow> string \<Rightarrow> cell" where
  "index_cells i = cells [(''timestamp'', DateCell (mi_timestamp i)), (''value'', TextCell (mi_value i)),
     (''methodology'', TextCell (mi_methodology i)), (''timePeriod'', TextCell (mi_timePeriod i)),
     (''asset'', TextCell (mi_asset i)), (''exchange'', TextCell (mi_exchange i)),
     (''symbolType'', TextCell (mi_symbolType i)), (''extra'', JsonCell)]"

definition rate_cells :: "rate_row \<Rightarrow> string \<Rightarrow> cell" where
  "rate_cells r = cells [(''value'', TextCell (rt_value r)), (''sourceValue'', opt_cell NumberCell (rt_sourceValue r)),
     (''source'', TextCell (rt_source r)), (''rateAt'', DateCell (rt_rateAt r))]"

definition option_cells :: "trade_option \<Rightarrow> string \<Rightarrow> cell" where
  "option_cells r = cells [(''timestamp'', DateCell (to_timestamp r)), (''exchange'', TextCell (to_exchange r)),
     (''asset'', TextCell (to_asset r)), (''symbol'', TextCell (to_symbol r)),
     (''underlyingPrice'', TextCell (to_underlyingPrice r)), (''strikePrice'', NumberCell (to_strikePrice r)),
     (''price'', TextCell (to_price r)),
     (''optionType'', opt_cell (\<lambda>t. TextCell (case t of CallOption \<Rightarrow> ''call'' | PutOption \<Rightarrow> ''put'')) (to_optionType r)),
     (''markIV'', TextCell (to_markIV r)), (''delta'', TextCell (to_delta r)),
     (''expirationDate'', DateCell (Some (to_expirationDate r))),
     (''localTimestamp'', DateCell (Some (to_localTimestamp r)))]"

definition pair_cells :: "trade_pair \<Rightarrow> string \<Rightarrow> cell" where
  "pair_cells r = cells [(''timestamp'', DateCell (Some (tp_timestamp r))), (''exchange'', TextCell (tp_exchange r)),
     (''symbol'', TextCell (tp_symbol r)), (''price'', TextCell (tp_price r)),
     (''transactionId'', opt_cell TextCell (tp_id r)), (''localTimestamp'', DateCell (Some (tp_localTimestamp r)))]"

definition token_cells :: "auth_token \<Rightarrow> string \<Rightarrow> cell" where
  "token_cells r = cells [(''id'', opt_cell (\<lambda>i. NumberCell (Num (of_int i))) (at_id r)), (''type'', TextCell (at_type r)),
     (''owner'', TextCell (at_owner r)), (''name'', opt_cell TextCell (at_name r)), (''token'', TextCell (at_token r)),
     (''expiry'', opt_cell (\<lambda>d. DateCell (Some d)) (at_expiry r)),
     (''lastUsedAt'', opt_cell (\<lambda>d. DateCell (Some d)) (at_lastUsedAt r)),
     (''revokedAt'', opt_cell (\<lambda>d. DateCell (Some d)) (at_revokedAt r))]"

definition mfiv_cells :: "mfiv_row \<Rightarrow> string \<Rightarrow> cell" where
  "mfiv_cells r = cells [(''timestamp'', DateCell (rw_timestamp r)), (''exchange'', TextCell (rw_exchange r)),
     (''timePeriod'', TextCell (rw_timePeriod r)), (''asset'', TextCell (rw_asset r)), (''value'', TextCell (rw_dVol r)),
     (''invValue'', TextCell (rw_invdVol r)), (''underlyingPrice'', TextCell (rw_underlyingPrice r)),
     (''nearExpiry'', DateCell (rw_nearExpiry r)), (''nextExpiry'', DateCell (rw_nextExpiry r)), (''extra'', JsonCell)]"

definition fleek_cells :: "fleek_transaction \<Rightarrow> string \<Rightarrow> cell" where
  "fleek_cells r = cells [(''hash'', TextCell (ft_hash r)), (''key'', TextCell (ft_key r)), (''metadata'', JsonCell)]"

section \<open>The validation of an estimate\<close>

text \<open>The pattern of a time period: digits and one letter D of either case.\<close>

definition period_pattern :: "string \<Rightarrow> bool" where
  "period_pattern s \<longleftrightarrow> 2 \<le> length s \<and> list_all is_digit (butlast s) \<and> last s \<in> {CHR ''D'', CHR ''d''}"

definition valid_estimate :: "string list \<Rightarrow> estimate_params \<Rightarrow> bool" where
  "valid_estimate assets p \<longleftrightarrow> ep_exchange p \<in> {''deribit''} \<and> ep_methodology p \<in> {''MFIV''} \<and> ep_asset p \<in> set assets
     \<and> period_pattern (ep_timePeriod p) \<and> ep_symbolType p \<in> {''option''}
     \<and> list_all (\<lambda>t. t \<in> {''call_option'', ''put_option''}) (ep_contractType p)"

section \<open>Lemmas\<close>

lemma cells_here [simp]: "cells ((n, v) # xs) n = v"
  and cells_other [simp]: "n \<noteq> m \<Longrightarrow> cells ((n, v) # xs) m = cells xs m"
  by simp_all

lemmas row_simps = row_conforms_def column_conforms_def list.pred_inject

lemma not_decimal_undefined: "\<not> decimal_text ''undefined''"
  by (simp add: decimal_text_def signed_decimal_def unsigned_decimal_def Let_def is_digit_def split: option.split)

lemma index_row_conforms:
  "row_conforms methodology_indices (index_cells i) \<longleftrightarrow>
    mi_timestamp i \<noteq> None \<and> decimal_text (mi_value i) \<and> mi_methodology i \<in> set MethodologyEnum
    \<and> mi_asset i \<in> set BaseCurrencyEnum \<and> mi_exchange i \<in> set MethodologyExchangeEnum
    \<and> mi_symbolType i \<in> set SymbolTypeEnum"
  by (simp add: row_simps methodology_indices_def index_cells_def)

lemma persist_row:
  "persist E ev x t = t \<or> (\<exists>i. persist E ev x t = t\<lparr> xs_effects := xs_effects t @ [Saved i] \<rparr>
    \<and> mi_symbolType i = ''option'' \<and> mi_timestamp i = parse_iso (xe_parse E) (mp_at (me_params ev))
    \<and> mi_asset i = mc_asset (me_context ev) \<and> mi_exchange i = mc_exchange (me_context ev)
    \<and> mi_methodology i = mc_methodology (me_context ev)
    \<and> mi_value i = (case mr_dVol (me_result ev) of Some v \<Rightarrow> xe_number_string E v | None \<Rightarrow> ''undefined''))"
proof -
  define i where "i = \<lparr> mi_symbolType = ''option'',
    mi_timestamp = parse_iso (xe_parse E) (mp_at (me_params ev)),
    mi_asset = mc_asset (me_context ev), mi_exchange = mc_exchange (me_context ev),
    mi_methodology = mc_methodology (me_context ev), mi_timePeriod = mc_timePeriod (me_context ev),
    mi_value = (case mr_dVol (me_result ev) of Some v \<Rightarrow> xe_number_string E v | None \<Rightarrow> ''undefined''),
    mi_extra = x \<rparr>"
  have "persist E ev x t = (case xe_save E i of Inr _ \<Rightarrow> t\<lparr> xs_effects := xs_effects t @ [Saved i] \<rparr> | Inl _ \<Rightarrow> t)"
    by (simp only: persist_def i_def Let_def)
  then have "persist E ev x t = t \<or> persist E ev x t = t\<lparr> xs_effects := xs_effects t @ [Saved i] \<rparr>"
    by (simp split: sum.splits)
  then show ?thesis
    by (rule disj_forward [OF _ _ exI [of _ i]]) (simp_all add: i_def)
qed

text \<open>The row that an answered estimate saves, by its parameters and its evidence.\<close>

lemma estimate_saved_row:
  assumes "estimate E requestId params s = (Inr (Evidence ev), s')"
    and "Saved i \<in> set (drop (length (xs_effects s)) (xs_effects s'))"
  shows "mi_symbolType i = ''option'' \<and> mi_timestamp i = parse_iso (xe_parse E) (mp_at (me_params ev))
    \<and> mi_asset i = ep_asset params \<and> mi_exchange i = ep_exchange params \<and> mi_methodology i = ep_methodology params
    \<and> mi_value i = (case mr_dVol (me_result ev) of Some v \<Rightarrow> xe_number_string E v | None \<Rightarrow> ''undefined'')"
proof -
  have cx: "mc_asset (me_context ev) = ep_asset params" "mc_exchange (me_context ev) = ep_exchange params"
    "mc_methodology (me_context ev) = ep_methodology params"
    using estimate_Evidence [OF assms(1)] by auto
  obtain x where s': "s' = announced params ev s \<or> s' = persist E ev x (announced params ev s)"
    using estimate_outcomes [OF assms(1)] by (auto split: if_splits)
  have "Saved i \<notin> set (drop (length (xs_effects s)) (xs_effects (announced params ev s)))"
    by (simp add: announced_def)
  then show ?thesis using s' persist_row [of E ev x "announced params ev s"] assms(2) cx
    by (auto simp: announced_def)
qed

section \<open>Properties\<close>

text \<open>C23: the row that a validated estimate saves has the types of its table exactly when the
  computation gave a value whose text is a decimal: the value of a result without one is saved as
  the text undefined, which the decimal column does not take.  The validation of the action makes
  every other column conform.\<close>

theorem saved_index_conforms:
  assumes "valid_estimate assets params" "set assets \<subseteq> set BaseCurrencyEnum"
    and "parse_iso (xe_parse E) (ep_at params) = Some t" "four_digit_year t"
    and "estimate E requestId params s = (Inr (Evidence ev), s')"
    and "Saved i \<in> set (drop (length (xs_effects s)) (xs_effects s'))"
  shows "row_conforms methodology_indices (index_cells i) \<longleftrightarrow>
    (\<exists>v. mr_dVol (me_result ev) = Some v \<and> decimal_text (xe_number_string E v))"
proof -
  have at': "mp_at (me_params ev) = iso_string t" using estimate_at [OF assms(5)] assms(3) by simp
  have v: "ep_methodology params \<in> set MethodologyEnum" "ep_asset params \<in> set BaseCurrencyEnum"
    "ep_exchange params \<in> set MethodologyExchangeEnum" "''option'' \<in> set SymbolTypeEnum"
    using assms(1,2) by (auto simp: valid_estimate_def MethodologyEnum_def MethodologyExchangeEnum_def SymbolTypeEnum_def)
  show ?thesis
    using estimate_saved_row [OF assms(5,6)] v not_decimal_undefined
    unfolding index_row_conforms at' parse_iso_string [OF assms(4)] by (auto split: option.splits)
qed

text \<open>The rows of the trade services.  The pairs of every asset are symbols of the enumeration, so
  only the price can be wrong; an option row also needs an option type (a bucket without a
  summary has none) and a strike that is an integer.\<close>

lemma selected_pairs_known:
  "selectTradePairs asset = Some ps \<Longrightarrow> (exchange, symbol) \<in> set ps \<Longrightarrow>
    symbol \<in> set SYMBOLS \<and> exchange \<in> {''binance'', ''bitstamp'', ''coinbase'', ''ftx'', ''gemini'', ''kraken''}"
  by (auto simp: selectTradePairs_def tradePairAssets_def map_get_def SYMBOLS_def ETH_SYMBOLS_def BTC_SYMBOLS_def
      SOL_SYMBOLS_def split: if_splits)

theorem selected_pair_conforms:
  assumes "selectTradePairs asset = Some ps" "(tb_exchange b, tb_symbol b) \<in> set ps"
    and "{''binance'', ''bitstamp'', ''coinbase'', ''ftx'', ''gemini'', ''kraken''} \<subseteq> set exchanges"
  shows "row_conforms (trade_pairs exchanges) (pair_cells (pair_row num_str (TradeBucketMessage b)))
    \<longleftrightarrow> decimal_text (num_str (tb_price b))"
proof -
  have "tb_symbol b \<in> set SYMBOLS" "tb_exchange b \<in> set exchanges"
    using selected_pairs_known [OF assms(1,2)] assms(3) by auto
  then show ?thesis
    by (simp add: row_simps trade_pairs_def pair_cells_def pair_row_def opt_cell_def split: option.split)
qed

theorem bucket_row_conforms:
  assumes "ob_timestamp b \<noteq> None" "ob_exchange b \<in> set exchanges" "asset \<in> set BaseCurrencyEnum"
    and "\<And>x. decimal_text (num_str x)"
  shows "row_conforms (trade_options exchanges) (option_cells (bucket_row num_str asset b)) \<longleftrightarrow>
    ob_optionType b \<noteq> None \<and> (\<exists>n. ob_strikePrice b = Num (of_int n))"
proof -
  have "cell_conforms IntegerCol (NumberCell (ob_strikePrice b)) \<longleftrightarrow> (\<exists>n. ob_strikePrice b = Num (of_int n))"
    by (auto split: jsnum.splits)
  then show ?thesis using assms
    by (auto simp: row_simps trade_options_def option_cells_def bucket_row_def opt_cell_def string_or_zero_def
        split: option.splits)
qed

section \<open>Witnesses\<close>

lemma sample_estimate_valid: "valid_estimate [''ETH''] sample_estimate"
  by (simp add: valid_estimate_def sample_estimate_def period_pattern_def is_digit_def)

lemma saved_index_conforms_witness:
  "\<exists>ev s' i. estimate (index_env0 (\<lambda>_ _ _. Inr [Some sample_option])) ''r'' sample_estimate sample_service = (Inr (Evidence ev), s')
    \<and> Saved i \<in> set (xs_effects s') \<and> row_conforms methodology_indices (index_cells i)"
proof -
  let ?E = "index_env0 (\<lambda>_ _ _. Inr [Some sample_option])"
  obtain ev s' where e: "estimate ?E ''r'' sample_estimate sample_service = (Inr (Evidence ev), s')"
    using sample_estimated by blast
  have r: "mr_dVol (me_result ev) = Some (Num 80)"
    using estimate_Evidence [OF e] by (elim exE conjE) (drule sym [of "xe_compute _ _ _"], simp add: index_env0_def)
  obtain x where "s' = persist ?E ev x (announced sample_estimate ev sample_service)"
    using estimate_outcomes [OF e] by (auto simp: sample_service_def)
  then obtain i where i: "Saved i \<in> set (xs_effects s')"
    by (auto simp: persist_def Let_def index_env0_def)
  have d: "decimal_text (xe_number_string ?E (Num 80))"
    using signed_decimal_digits [of "''80''"] by (simp add: decimal_text_def index_env0_def is_digit_def)
  have p: "parse_iso (xe_parse ?E) (ep_at sample_estimate) = Some 1651363200000" "four_digit_year 1651363200000"
    by (simp_all add: sample_estimate_def parse_iso_string four_digit_year_def)
  from saved_index_conforms [OF sample_estimate_valid _ p e, of i] i r d e show ?thesis
    by (auto simp: BaseCurrencyEnum_def sample_service_def)
qed

end
