(* ===== verification/Dashboard.thy ===== *)
theory Dashboard
  imports WsSocket JsMath
begin

text \<open>
  The clients of the websocket service that come with the repository:
  \<^verbatim>\<open>src/graph.ts\<close> (a terminal dashboard: two charts, a table and a log),
  \<^verbatim>\<open>src/feedtest.ts\<close> and the prompt command of
  \<^verbatim>\<open>repl-commands/websockets.js\<close>; the script
  \<^verbatim>\<open>scripts/historical_replay.ts\<close> and the test service
  (\<^verbatim>\<open>services/test.service.ts\<close>), which publishes a constant index.  JSON, the
  text of a number and the terminal are parameters; what is drawn is a component of the state.
\<close>

section \<open>Received messages\<close>

text \<open>A member of a parsed object, which may be missing or null.\<close>

datatype 'a json_member = Missing | NullMember | Member 'a

fun member_text :: "('a \<Rightarrow> string) \<Rightarrow> 'a json_member \<Rightarrow> string" where
  "member_text f Missing = ''undefined''"
| "member_text f NullMember = ''null''"
| "member_text f (Member x) = f x"

text \<open>Calling a method of a member throws when there is none.\<close>

fun member_call :: "('a \<Rightarrow> 'b) \<Rightarrow> 'a json_member \<Rightarrow> 'b result" where
  "member_call f (Member x) = Inr (f x)"
| "member_call f m = Inl type_error"

fun member_number :: "jsnum json_member \<Rightarrow> jsnum" where
  "member_number Missing = NaN"
| "member_number NullMember = Num 0"
| "member_number (Member x) = x"

text \<open>The members that the dashboard reads of the data of a message.\<close>

record payload =
  pl_at :: "string json_member"
  pl_dVol :: "jsnum json_member"
  pl_invdVol :: "jsnum json_member"
  pl_expirationDate :: "string json_member"
  pl_timestamp :: "string json_member"
  pl_symbol :: "string json_member"
  pl_underlyingPrice :: "jsnum json_member"

record topic_message =
  tm_topic :: "string json_member"
  tm_data :: "payload option"

section \<open>The dashboard\<close>

record chart =
  ch_title :: string
  ch_line :: string
  ch_x :: "string list"
  ch_y :: "jsnum json_member list"

definition chart_hours :: "string list" where
  "chart_hours = [
     ''00:00'', ''00:05'', ''00:10'', ''00:15'', ''00:20'', ''00:30'', ''00:40'', ''00:50'',
     ''01:00'', ''01:10'', ''01:20'', ''01:30'', ''01:40'', ''01:50'', ''02:00'', ''02:10'',
     ''02:20'', ''02:30'', ''02:40'', ''02:50'', ''03:00'', ''03:10'', ''03:20'', ''03:30'',
     ''03:40'', ''03:50'', ''04:00'', ''04:10'', ''04:20'', ''04:30'']"

definition plotted :: "real list \<Rightarrow> jsnum json_member list" where
  "plotted ys = map (\<lambda>y. Member (Num y)) ys"

definition transactionsData :: chart where
  "transactionsData = \<lparr> ch_title = ''Near Options'', ch_line = ''yellow'', ch_x = chart_hours,
     ch_y = plotted [
     0, 20, 40, 45, 45, 50, 55, 70, 65, 58, 50, 55, 60, 65, 70, 80, 70, 50, 40, 50, 60, 70, 82, 88,
     89, 89, 89, 80, 72, 70, 0, 20, 40, 45, 45, 50, 55, 70, 65, 58, 50, 55, 60, 65, 70, 80, 70, 50,
     40, 50, 60, 70, 82, 88, 89, 89, 89, 80, 72, 70, 0, 20, 40, 45, 45, 50, 55, 70, 65, 58, 50, 55,
     60, 65, 70, 80, 70, 50, 40, 50, 60, 70, 82, 88, 89, 89, 89, 80, 72, 70] \<rparr>"

definition transactionsData1 :: chart where
  "transactionsData1 = \<lparr> ch_title = ''Next Options'', ch_line = ''red'', ch_x = chart_hours,
     ch_y = plotted [
     0, 5, 5, 10, 10, 15, 20, 30, 25, 30, 30, 20, 20, 30, 30, 20, 15, 15, 19, 25, 30, 25, 25, 20,
     25, 30, 35, 35, 30, 30, 0, 5, 5, 10, 10, 15, 20, 30, 25, 30, 30, 20, 20, 30, 30, 20, 15, 15,
     19, 25, 30, 25, 25, 20, 25, 30, 35, 35, 30, 30, 0, 5, 5, 10, 10, 15, 20, 30, 25, 30, 30, 20,
     20, 30, 30, 20, 15, 15, 19, 25, 30, 25, 25, 20, 25, 30, 35, 35, 30, 30] \<rparr>"

record dashboard =
  da_near :: chart
  da_next :: chart
  da_table :: "string json_member list list"
  da_log :: "string list"
  da_minY :: jsnum
  da_maxY :: jsnum
  da_drawn :: "chart list"
  da_rows :: "string json_member list list"

definition new_dashboard :: dashboard where
  "new_dashboard = \<lparr> da_near = transactionsData, da_next = transactionsData1, da_table = [], da_log = [],
     da_minY = Num 2925, da_maxY = Num 2955, da_drawn = [], da_rows = [] \<rparr>"

text \<open>\<^verbatim>\<open>shift\<close> and \<^verbatim>\<open>push\<close> on the points of a chart.\<close>

definition slide :: "jsnum json_member \<Rightarrow> chart \<Rightarrow> chart" where
  "slide price c = c\<lparr> ch_y := drop 1 (ch_y c) @ [price] \<rparr>"

definition near_expiry :: string where "near_expiry = ''2022-03-04T08:00:00.000Z''"
definition next_expiry :: string where "next_expiry = ''2022-03-11T08:00:00.000Z''"

definition log_line :: "(jsnum \<Rightarrow> string) \<Rightarrow> payload \<Rightarrow> string" where
  "log_line num_str p = member_text id (pl_timestamp p) @ '' : '' @ member_text id (pl_symbol p)
     @ '' : '' @ member_text num_str (pl_underlyingPrice p)"

text \<open>The listener of messages: what it throws is not caught.\<close>

definition dashboard_message ::
  "(jsnum \<Rightarrow> string) \<Rightarrow> topic_message \<Rightarrow> dashboard \<Rightarrow> dashboard result" where
  "dashboard_message num_str index s =
     (if tm_topic index = Member ''MFIV/14D/ETH'' then
        (case tm_data index of
           None \<Rightarrow> Inl type_error
         | Some payload \<Rightarrow>
             res_bind (member_call num_str (pl_dVol payload)) (\<lambda>dVol.
             res_bind (member_call num_str (pl_invdVol payload)) (\<lambda>invdVol.
               Inr (s\<lparr> da_table := da_table s @ [[pl_at payload, Member dVol, Member invdVol]] \<rparr>))))
      else if tm_topic index = Member ''mfiv/expiry'' then
        (case tm_data index of
           None \<Rightarrow> Inl type_error
         | Some payload \<Rightarrow>
             let s1 = s\<lparr> da_log := da_log s @ [log_line num_str payload] \<rparr> in
             if pl_expirationDate payload = Member near_expiry
             then Inr (s1\<lparr> da_near := slide (pl_underlyingPrice payload) (da_near s1) \<rparr>)
             else if pl_expirationDate payload = Member next_expiry
             then Inr (s1\<lparr> da_next := slide (pl_underlyingPrice payload) (da_next s1) \<rparr>)
             else Inr s1)
      else Inr s)"

text \<open>Every half second: the range of the axis and what is on the screen.\<close>

definition dashboard_tick :: "dashboard \<Rightarrow> dashboard" where
  "dashboard_tick s =
     (let points = map member_number (ch_y (da_near s) @ ch_y (da_next s))
      in s\<lparr> da_maxY := math_max points, da_minY := math_min points,
            da_drawn := [da_near s, da_next s], da_rows := da_table s \<rparr>)"

datatype dashboard_event = Received string | Tick

fun dashboard_run ::
  "(jsnum \<Rightarrow> string) \<Rightarrow> (string \<Rightarrow> topic_message result) \<Rightarrow> dashboard_event list \<Rightarrow> dashboard \<Rightarrow> dashboard result" where
  "dashboard_run num_str parse [] s = Inr s"
| "dashboard_run num_str parse (Received buffer # es) s =
     res_bind (parse buffer) (\<lambda>index. res_bind (dashboard_message num_str index s) (dashboard_run num_str parse es))"
| "dashboard_run num_str parse (Tick # es) s = dashboard_run num_str parse es (dashboard_tick s)"

section \<open>The test client and the prompt command\<close>

datatype client_effect = SentText string | Pong | PrintedData "payload option" | PrintedIndex topic_message

definition feedtest_open :: "(string \<Rightarrow> string) \<Rightarrow> client_effect list" where
  "feedtest_open draw = [SentText (draw ''test/draw'')]"

definition feedtest_ping :: "client_effect list" where
  "feedtest_ping = [Pong]"

text \<open>The members of an index are read and not used.\<close>

definition feedtest_message :: "(string \<Rightarrow> topic_message result) \<Rightarrow> string \<Rightarrow> client_effect list \<times> unit result" where
  "feedtest_message parse buffer =
     (case parse buffer of
        Inl e \<Rightarrow> ([], Inl e)
      | Inr index \<Rightarrow>
          if tm_topic index = Member ''MFIV/14D/ETH''
          then ([PrintedData (tm_data index)], if tm_data index = None then Inl type_error else Inr ())
          else if tm_topic index = Member ''MFIV/expiry''
          then ([PrintedData (tm_data index), PrintedIndex index], Inr ())
          else ([PrintedData (tm_data index)], Inr ()))"

section \<open>The script of a historical replay\<close>

definition nearExpiries :: "string list" where
  "nearExpiries = [
     ''ETH-1APR22-1500-P'', ''ETH-1APR22-2600-P'', ''ETH-1APR22-2400-P'', ''ETH-1APR22-3000-C'',
     ''ETH-1APR22-4000-C'', ''ETH-1APR22-2700-C'', ''ETH-1APR22-2200-P'', ''ETH-1APR22-2800-C'',
     ''ETH-1APR22-2300-P'', ''ETH-1APR22-2500-C'', ''ETH-1APR22-3500-C'', ''ETH-1APR22-2500-P'',
     ''ETH-1APR22-1000-P'', ''ETH-1APR22-3200-C'', ''ETH-1APR22-2600-C'', ''ETH-1APR22-1800-P'',
     ''ETH-1APR22-2800-P'', ''ETH-1APR22-2700-P'', ''ETH-1APR22-2000-P'', ''ETH-1APR22-3000-P'',
     ''ETH-1APR22-3400-C'', ''ETH-1APR22-3200-P'', ''ETH-1APR22-3400-P'', ''ETH-1APR22-2900-C'',
     ''ETH-1APR22-2900-P'', ''ETH-1APR22-3500-P'', ''ETH-1APR22-3600-C'', ''ETH-1APR22-3100-C'',
     ''ETH-1APR22-3100-P'', ''ETH-1APR22-3300-C'', ''ETH-1APR22-3300-P'', ''ETH-1APR22-3800-C'',
     ''ETH-1APR22-3350-C'', ''ETH-1APR22-3350-P'', ''ETH-1APR22-3450-C'', ''ETH-1APR22-3250-P'',
     ''ETH-1APR22-3250-C'', ''ETH-1APR22-2200-C'', ''ETH-1APR22-2400-C'', ''ETH-1APR22-2300-C'',
     ''ETH-1APR22-1800-C'', ''ETH-1APR22-1000-C'', ''ETH-1APR22-1500-C'', ''ETH-1APR22-2000-C'',
     ''ETH-1APR22-4000-P'', ''ETH-1APR22-3600-P'', ''ETH-1APR22-3800-P'', ''ETH-1APR22-3450-P'']"

definition nextExpiries :: "string list" where
  "nextExpiries = [
     ''ETH-1APR22-1500-P'', ''ETH-1APR22-2600-P'', ''ETH-1APR22-2400-P'', ''ETH-1APR22-3000-C'',
     ''ETH-1APR22-4000-C'', ''ETH-1APR22-2700-C'', ''ETH-1APR22-2200-P'', ''ETH-1APR22-2800-C'',
     ''ETH-1APR22-2300-P'', ''ETH-1APR22-2500-C'', ''ETH-1APR22-3500-C'', ''ETH-1APR22-2500-P'',
     ''ETH-1APR22-1000-P'', ''ETH-1APR22-3200-C'', ''ETH-1APR22-2600-C'', ''ETH-1APR22-1800-P'',
     ''ETH-1APR22-2800-P'', ''ETH-1APR22-2700-P'', ''ETH-1APR22-2000-P'', ''ETH-1APR22-3000-P'',
     ''ETH-1APR22-3400-C'', ''ETH-1APR22-3200-P'', ''ETH-1APR22-3400-P'', ''ETH-1APR22-2900-C'',
     ''ETH-1APR22-2900-P'', ''ETH-1APR22-3500-P'', ''ETH-1APR22-3600-C'', ''ETH-1APR22-3100-C'',
     ''ETH-1APR22-3100-P'', ''ETH-1APR22-3300-C'', ''ETH-1APR22-3300-P'', ''ETH-1APR22-3800-C'',
     ''ETH-1APR22-3350-C'', ''ETH-1APR22-3350-P'', ''ETH-1APR22-3450-C'', ''ETH-1APR22-3250-P'',
     ''ETH-1APR22-3250-C'', ''ETH-1APR22-2200-C'', ''ETH-1APR22-2400-C'', ''ETH-1APR22-2300-C'',
     ''ETH-1APR22-1800-C'', ''ETH-1APR22-1000-C'', ''ETH-1APR22-1500-C'', ''ETH-1APR22-2000-C'',
     ''ETH-1APR22-4000-P'', ''ETH-1APR22-3600-P'', ''ETH-1APR22-3800-P'', ''ETH-1APR22-3450-P'']"

definition replay_script_request :: stream_request where
  "replay_script_request = ReplayRequest ''deribit'' (nearExpiries @ nextExpiries)
     ''2022-03-31T00:00:00.000Z'' ''2022-04-02T08:00:00.000Z''"

text \<open>The messages that are printed.\<close>

fun replay_script :: "option_summary list \<Rightarrow> option_summary list" where
  "replay_script [] = []"
| "replay_script (m # ms) = (if os_lastPrice m = None then replay_script ms else m # replay_script ms)"

section \<open>The test service\<close>

record test_index =
  ti_topic :: string
  ti_id :: string
  ti_type :: string
  ti_dVol :: jsnum
  ti_invdVol :: jsnum
  ti_methodology :: string
  ti_timePeriod :: string
  ti_asset :: string
  ti_underlying :: jsnum
  ti_timestamp :: int

definition mfiv14dEth :: "int \<Rightarrow> test_index" where
  "mfiv14dEth now = \<lparr> ti_topic = ''MFIV.14D.ETH'', ti_id = ''MFIV.14D.ETH'', ti_type = ''index:mfiv'',
     ti_dVol = Num 42, ti_invdVol = Num 77, ti_methodology = ''MFIV'', ti_timePeriod = ''14D'', ti_asset = ''ETH'',
     ti_underlying = Num (222242 / 100), ti_timestamp = now \<rparr>"

section \<open>Lemmas\<close>

text \<open>The messages of a run, and the prices of those of an expiry.\<close>

fun received :: "(string \<Rightarrow> topic_message result) \<Rightarrow> dashboard_event list \<Rightarrow> topic_message list" where
  "received parse [] = []"
| "received parse (Tick # es) = received parse es"
| "received parse (Received b # es) = (case parse b of Inr m \<Rightarrow> [m] | Inl e \<Rightarrow> []) @ received parse es"

definition expiry_payload :: "topic_message \<Rightarrow> payload option" where
  "expiry_payload m = (if tm_topic m = Member ''mfiv/expiry'' then tm_data m else None)"

definition expiry_payloads :: "topic_message list \<Rightarrow> payload list" where
  "expiry_payloads ms = List.map_filter expiry_payload ms"

definition expiry_prices :: "string \<Rightarrow> topic_message list \<Rightarrow> jsnum json_member list" where
  "expiry_prices date ms =
     map pl_underlyingPrice (filter (\<lambda>p. pl_expirationDate p = Member date) (expiry_payloads ms))"

definition index_row :: "(jsnum \<Rightarrow> string) \<Rightarrow> topic_message \<Rightarrow> string json_member list option" where
  "index_row num_str m =
     (case (tm_topic m = Member ''MFIV/14D/ETH'', tm_data m) of
        (True, Some p) \<Rightarrow>
          (case (pl_dVol p, pl_invdVol p) of
             (Member d, Member i) \<Rightarrow> Some [pl_at p, Member (num_str d), Member (num_str i)]
           | _ \<Rightarrow> None)
      | _ \<Rightarrow> None)"

lemma expiries_differ: "near_expiry \<noteq> next_expiry"
  by (simp add: near_expiry_def next_expiry_def)

lemma member_call_Inr: "member_call f m = Inr y \<longleftrightarrow> (\<exists>x. m = Member x \<and> y = f x)"
  by (cases m) auto

lemma dashboard_message_eq:
  assumes "dashboard_message num_str m s = Inr s'"
  shows "da_table s' = da_table s @ List.map_filter (index_row num_str) [m]
    \<and> da_log s' = da_log s @ map (log_line num_str) (expiry_payloads [m])
    \<and> da_near s' = fold slide (expiry_prices near_expiry [m]) (da_near s)
    \<and> da_next s' = fold slide (expiry_prices next_expiry [m]) (da_next s)"
  using assms expiries_differ
  by (auto simp: dashboard_message_def index_row_def expiry_payloads_def expiry_payload_def expiry_prices_def
      List.map_filter_simps res_bind_Inr_iff member_call_Inr Let_def split: if_splits option.splits)

lemma map_filter_Cons: "List.map_filter f (x # xs) = List.map_filter f [x] @ List.map_filter f xs"
  by (simp add: List.map_filter_simps split: option.split)

lemma expiry_prices_Cons: "expiry_prices d (m # ms) = expiry_prices d [m] @ expiry_prices d ms"
  unfolding expiry_prices_def expiry_payloads_def by (subst map_filter_Cons) simp

lemma dashboard_run_eq:
  assumes "dashboard_run num_str parse es s = Inr s'"
  shows "da_table s' = da_table s @ List.map_filter (index_row num_str) (received parse es)
    \<and> da_log s' = da_log s @ map (log_line num_str) (expiry_payloads (received parse es))
    \<and> da_near s' = fold slide (expiry_prices near_expiry (received parse es)) (da_near s)
    \<and> da_next s' = fold slide (expiry_prices next_expiry (received parse es)) (da_next s)"
  using assms
proof (induction num_str parse es s rule: dashboard_run.induct)
  case (2 num_str parse b es s)
  then obtain m s1 where m: "parse b = Inr m" "dashboard_message num_str m s = Inr s1"
    "dashboard_run num_str parse es s1 = Inr s'"
    by (auto simp: res_bind_Inr_iff)
  show ?case
    using "2.IH" [OF m(3)] dashboard_message_eq [OF m(2)]
      map_filter_Cons [of "index_row num_str" m "received parse es"]
      map_filter_Cons [of expiry_payload m "received parse es"]
      expiry_prices_Cons [of near_expiry m "received parse es"] expiry_prices_Cons [of next_expiry m "received parse es"]
    by (simp only: received.simps m(1) sum.case append_Cons append_Nil expiry_payloads_def map_append fold_append o_def append_assoc)
qed (auto simp: expiry_payloads_def expiry_prices_def List.map_filter_simps dashboard_tick_def Let_def)

lemma fold_slide:
  assumes "ch_y c \<noteq> []"
  shows "ch_y (fold slide ps c) = drop (length ps) (ch_y c @ ps)"
  using assms
proof (induction ps arbitrary: c)
  case (Cons p ps)
  obtain y ys where y: "ch_y c = y # ys" using Cons.prems by (cases "ch_y c") auto
  show ?case using Cons.IH [of "slide p c"] by (simp add: slide_def y)
qed simp

lemma plotted_lengths: "length (ch_y transactionsData) = 90" "length (ch_y transactionsData1) = 90"
  by (simp_all add: transactionsData_def transactionsData1_def plotted_def)

section \<open>Properties\<close>

text \<open>Whatever the dashboard has received, each chart shows the last ninety points of its
  initial ones followed by the prices of its expiry, and the table the rows of the indices in the
  order they came; the next tick draws them with an axis that holds every point, unless a price was
  missing, which makes both ends of the axis not a number until it has left the chart.\<close>

theorem dashboard_shows_last_points:
  assumes "dashboard_run num_str parse es new_dashboard = Inr s"
  shows "let ms = received parse es; near = expiry_prices near_expiry ms; next' = expiry_prices next_expiry ms;
      s' = dashboard_tick s; points = map member_number (concat (map ch_y (da_drawn s')))
    in map ch_y (da_drawn s') =
         [drop (length near) (ch_y transactionsData @ near), drop (length next') (ch_y transactionsData1 @ next')]
       \<and> map (length \<circ> ch_y) (da_drawn s') = [90, 90]
       \<and> da_rows s' = List.map_filter (index_row num_str) ms
       \<and> (if NaN \<in> set points then da_maxY s' = NaN \<and> da_minY s' = NaN
          else \<forall>y \<in> set points. num_le y (da_maxY s') \<and> num_le (da_minY s') y)"
proof -
  note r = dashboard_run_eq [OF assms]
  have y: "ch_y transactionsData \<noteq> []" "ch_y transactionsData1 \<noteq> []" using plotted_lengths by auto
  have windows: "ch_y (da_near s) = drop (length (expiry_prices near_expiry (received parse es)))
      (ch_y transactionsData @ expiry_prices near_expiry (received parse es))"
    "ch_y (da_next s) = drop (length (expiry_prices next_expiry (received parse es)))
      (ch_y transactionsData1 @ expiry_prices next_expiry (received parse es))"
    using r fold_slide [OF y(1)] fold_slide [OF y(2)] by (simp_all add: new_dashboard_def)
  have lengths: "length (ch_y (da_near s)) = 90" "length (ch_y (da_next s)) = 90"
    unfolding windows by (simp_all add: plotted_lengths)
  have axis: "if NaN \<in> set ps then math_max ps = NaN \<and> math_min ps = NaN
      else \<forall>y \<in> set ps. num_le y (math_max ps) \<and> num_le (math_min ps) y" for ps
    by (auto simp: math_max_NaN math_min_NaN math_max_greatest math_min_least)
  have t: "da_drawn (dashboard_tick s) = [da_near s, da_next s]" "da_rows (dashboard_tick s) = da_table s"
    "da_maxY (dashboard_tick s) = math_max (map member_number (ch_y (da_near s) @ ch_y (da_next s)))"
    "da_minY (dashboard_tick s) = math_min (map member_number (ch_y (da_near s) @ ch_y (da_next s)))"
    by (simp_all add: dashboard_tick_def Let_def)
  have rows: "da_table s = List.map_filter (index_row num_str) (received parse es)"
    using r by (simp add: new_dashboard_def)
  have points: "map member_number (concat (map ch_y [da_near s, da_next s])) = map member_number (ch_y (da_near s) @ ch_y (da_next s))"
    by simp
  have "map ch_y [da_near s, da_next s] = [ch_y (da_near s), ch_y (da_next s)]"
    "map (length \<circ> ch_y) [da_near s, da_next s] = [90, 90]" using lengths by simp_all
  then show ?thesis unfolding Let_def t rows points windows [symmetric] using axis by blast
qed

text \<open>What the service publishes names its channel and not a topic.\<close>

definition published_message :: "string \<times> index_data \<Rightarrow> topic_message" where
  "published_message x = (case x of (channel, d) \<Rightarrow>
     \<lparr> tm_topic = Missing, tm_data = Some \<lparr> pl_at = Missing,
         pl_dVol = (case xd_dVol d of Some v \<Rightarrow> Member v | None \<Rightarrow> Missing),
         pl_invdVol = (case xd_invdVol d of Some v \<Rightarrow> Member v | None \<Rightarrow> Missing),
         pl_expirationDate = Missing, pl_timestamp = Member (xd_timestamp d), pl_symbol = Missing,
         pl_underlyingPrice = Missing \<rparr> \<rparr>)"

text \<open>No index that the websocket service publishes ever appears on the dashboard.  The service
  writes the channel of an index, the dashboard reads its topic: on any feed of published
  indices the charts and the table stay as they were drawn at first.\<close>

theorem published_index_not_shown:
  assumes "\<And>ev. ev \<in> set evs \<Longrightarrow> parse (encode (index_created ev)) = Inr (published_message (index_created ev))"
  shows "\<exists>s. dashboard_run num_str parse (map (\<lambda>ev. Received (encode (index_created ev))) evs) new_dashboard = Inr s
    \<and> da_table s = [] \<and> da_near s = transactionsData \<and> da_next s = transactionsData1"
proof -
  have "dashboard_message num_str (published_message x) s = Inr s" for x s
    by (simp add: dashboard_message_def published_message_def split: prod.split)
  then have "dashboard_run num_str parse (map (\<lambda>ev. Received (encode (index_created ev))) evs) s = Inr s" for s
    using assms by (induction evs) (simp_all add: res_bind_def)
  then show ?thesis by (simp add: new_dashboard_def)
qed

text \<open>The script asks for every symbol twice, since the two lists are the same, and prints the
  messages with a last price.\<close>

theorem replay_script_prints:
  "nextExpiries = nearExpiries \<and> replay_script ms = filter (\<lambda>m. os_lastPrice m \<noteq> None) ms"
proof
  show "nextExpiries = nearExpiries" by (simp only: nextExpiries_def nearExpiries_def)
  show "replay_script ms = filter (\<lambda>m. os_lastPrice m \<noteq> None) ms" by (induction ms) auto
qed

section \<open>Witnesses\<close>

definition sample_payload :: payload where
  "sample_payload = \<lparr> pl_at = Member ''now'', pl_dVol = Member (Num 80), pl_invdVol = Member (Num 81),
     pl_expirationDate = Member near_expiry, pl_timestamp = Missing, pl_symbol = Missing, pl_underlyingPrice = Missing \<rparr>"

fun sample_parse :: "string \<Rightarrow> topic_message result" where
  "sample_parse buffer = Inr \<lparr> tm_topic = Member buffer, tm_data = Some sample_payload \<rparr>"

lemma dashboard_shows_last_points_witness:
  "\<exists>s. dashboard_run (\<lambda>_. ''80'') sample_parse [Received ''MFIV/14D/ETH'', Received ''mfiv/expiry''] new_dashboard = Inr s
    \<and> da_rows (dashboard_tick s) = [[Member ''now'', Member ''80'', Member ''80'']]
    \<and> da_maxY (dashboard_tick s) = NaN \<and> da_minY (dashboard_tick s) = NaN"
proof -
  let ?es = "[Received ''MFIV/14D/ETH'', Received ''mfiv/expiry'']"
  obtain s where s: "dashboard_run (\<lambda>_. ''80'') sample_parse ?es new_dashboard = Inr s"
    by (simp add: dashboard_message_def sample_payload_def res_bind_def Let_def near_expiry_def)
  have ms: "received sample_parse ?es =
      [\<lparr> tm_topic = Member ''MFIV/14D/ETH'', tm_data = Some sample_payload \<rparr>,
       \<lparr> tm_topic = Member ''mfiv/expiry'', tm_data = Some sample_payload \<rparr>]" by simp
  have near: "expiry_prices near_expiry (received sample_parse ?es) = [Missing]"
    by (simp add: ms expiry_prices_def expiry_payloads_def expiry_payload_def List.map_filter_simps sample_payload_def)
  have rows: "List.map_filter (index_row (\<lambda>_. ''80'')) (received sample_parse ?es) = [[Member ''now'', Member ''80'', Member ''80'']]"
    by (simp add: ms index_row_def List.map_filter_simps sample_payload_def)
  note d = dashboard_shows_last_points [OF s, unfolded Let_def near rows]
  have "Missing \<in> set (concat (map ch_y (da_drawn (dashboard_tick s))))"
    unfolding d [THEN conjunct1] by (simp add: plotted_lengths)
  then have n: "NaN \<in> set (map member_number (concat (map ch_y (da_drawn (dashboard_tick s)))))"
    unfolding set_map by (metis imageI member_number.simps(1))
  show ?thesis using s d [unfolded if_P [OF n]] by blast
qed

definition sample_evidence :: mfiv_evidence where
  "sample_evidence = \<lparr> me_version = ''2022-05-10'', me_type = ''MFIV.ESTIMATE.EVIDENCE'',
     me_context = \<lparr> mc_rate = default_rate, mc_timePeriod = ''14D'', mc_exchange = ''deribit'',
       mc_methodology = ''MFIV'', mc_asset = ''ETH'' \<rparr>,
     me_params = \<lparr> mp_at = ''now'', mp_nearDate = ''near'', mp_nextDate = ''next'', mp_options = [],
       mp_underlyingPrice = Num 2900 \<rparr>,
     me_result = \<lparr> mr_asset = ''ETH'', mr_dVol = Some (Num 80), mr_invdVol = None, mr_value = None,
       mr_methodology = ''MFIV'', mr_estimatedFor = ''now'' \<rparr> \<rparr>"

lemma published_index_not_shown_witness:
  "\<exists>s. dashboard_run (\<lambda>_. ''80'') (\<lambda>b. Inr (published_message (index_created sample_evidence)))
      (map (\<lambda>ev. Received (fst (index_created ev))) [sample_evidence]) new_dashboard = Inr s \<and> da_table s = []"
  using published_index_not_shown [of "[sample_evidence]" "\<lambda>b. Inr (published_message (index_created sample_evidence))" fst]
  by (metis empty_iff empty_set set_ConsD)

end
