(* ===== verification/CronMixin.thy ===== *)
theory CronMixin
  imports Cron
begin

text \<open>
  \<^verbatim>\<open>mixins/cron.mixin.js\<close>: a service's crons become jobs of the package
  \<^verbatim>\<open>cron\<close> when it is created, are started with it and stopped with it.
  The constructor of a job, the draws of \<^verbatim>\<open>Math.random\<close> and the calls of the
  broker are parameters; what the jobs do to the broker is recorded in order.  A function of the
  schema acts on a state of its own, which the services choose.
\<close>

section \<open>Schemas and jobs\<close>

record tick_object =
  tk_action :: "string option"
  tk_event :: "string option"
  tk_broadcast :: bool

text \<open>\<^verbatim>\<open>onTick\<close> is a function, an object or null; a hook is a function,
  absent (or falsy), or some other value.\<close>

datatype 's tick = TickFunction "'s \<Rightarrow> unit result \<times> 's" | TickObject tick_object | TickNull

datatype 's hook = NoHook | HookFunction "'s \<Rightarrow> unit result \<times> 's" | HookValue

record 's cron_entry =
  cs_name :: "string option"
  cs_cronTime :: string
  cs_onTick :: "'s tick"
  cs_runOnInit :: "'s hook"
  cs_manualStart :: "bool option"

record 's cron_job =
  cj_name :: string
  cj_cronTime :: string
  cj_onTick :: "'s tick"
  cj_runOnStarted :: "'s hook"
  cj_manualStart :: bool
  cj_running :: bool

text \<open>The broker: what a call, a broadcast and an event do.\<close>

record 's cron_broker =
  cb_call :: "string \<Rightarrow> 's \<Rightarrow> unit result \<times> 's"
  cb_broadcast :: "string \<Rightarrow> 's \<Rightarrow> unit result \<times> 's"
  cb_emit :: "string \<Rightarrow> 's \<Rightarrow> unit result \<times> 's"

section \<open>Methods\<close>

definition getJob :: "string \<Rightarrow> 's cron_job list \<Rightarrow> 's cron_job option" where
  "getJob name jobs = find (\<lambda>job. cj_name job = name) jobs"

definition id_alphabet :: string where
  "id_alphabet = ''ABCDEFGHIJKLMNOPQRSTUVWXYZabcdefghijklmnopqrstuvwxyz0123456789''"

text \<open>The n-th draw of the program; an index past the end would add nothing.\<close>

fun makeid :: "(nat \<Rightarrow> real) \<Rightarrow> nat \<Rightarrow> nat \<Rightarrow> string" where
  "makeid random n 0 = []"
| "makeid random n (Suc size') =
     (let i = nat \<lfloor>random n * real (length id_alphabet)\<rfloor>
      in (if i < length id_alphabet then [id_alphabet ! i] else []) @ makeid random (Suc n) size')"

definition named :: "string option \<Rightarrow> string option" where
  "named s = (if s = Some [] then None else s)"

section \<open>Created, started and stopped\<close>

text \<open>One job, with the number of draws so far.  The hook is taken out of the job that is handed to
  the constructor, so that the constructor does not run the tick.\<close>

definition cron_job_of ::
  "(nat \<Rightarrow> real) \<Rightarrow> (string \<Rightarrow> unit result) \<Rightarrow> nat \<Rightarrow> 's cron_entry \<Rightarrow> 's cron_job result \<times> nat" where
  "cron_job_of random new_job n job' =
     (let (name, n1) = (case named (cs_name job') of Some name \<Rightarrow> (name, n) | None \<Rightarrow> (makeid random n 20, n + 20))
      in (case new_job (cs_cronTime job') of
            Inl e \<Rightarrow> Inl e
          | Inr _ \<Rightarrow> Inr \<lparr> cj_name = name, cj_cronTime = cs_cronTime job', cj_onTick = cs_onTick job',
              cj_runOnStarted = cs_runOnInit job', cj_manualStart = (cs_manualStart job' = Some True),
              cj_running = False \<rparr>,
          n1))"

fun cron_jobs_of ::
  "(nat \<Rightarrow> real) \<Rightarrow> (string \<Rightarrow> unit result) \<Rightarrow> nat \<Rightarrow> 's cron_entry list \<Rightarrow> 's cron_job list result" where
  "cron_jobs_of random new_job n [] = Inr []"
| "cron_jobs_of random new_job n (c # cs) =
     (case cron_job_of random new_job n c of (r, n1) \<Rightarrow>
        res_bind r (\<lambda>job. res_bind (cron_jobs_of random new_job n1 cs) (\<lambda>jobs. Inr (job # jobs))))"

definition cron_created ::
  "(nat \<Rightarrow> real) \<Rightarrow> (string \<Rightarrow> unit result) \<Rightarrow> 's cron_entry list option \<Rightarrow> 's cron_job list result" where
  "cron_created random new_job crons =
     (case crons of None \<Rightarrow> Inr [] | Some cs \<Rightarrow> cron_jobs_of random new_job 0 cs)"

text \<open>A tick.  That of an object calls the action and then sends the event; what goes wrong is
  logged.\<close>

definition object_tick :: "'s cron_broker \<Rightarrow> tick_object \<Rightarrow> 's \<Rightarrow> unit result \<times> 's" where
  "object_tick B def s =
     (case (case named (tk_action def) of Some action \<Rightarrow> cb_call B action s | None \<Rightarrow> (Inr (), s)) of
        (Inl e, s1) \<Rightarrow> (Inl e, s1)
      | (Inr _, s1) \<Rightarrow>
          (case named (tk_event def) of
             Some event \<Rightarrow> if tk_broadcast def then cb_broadcast B event s1 else cb_emit B event s1
           | None \<Rightarrow> (Inr (), s1)))"

fun run_tick :: "'s cron_broker \<Rightarrow> 's tick \<Rightarrow> 's \<Rightarrow> unit result \<times> 's" where
  "run_tick B (TickFunction f) s = f s"
| "run_tick B (TickObject def) s = (Inr (), snd (object_tick B def s))"
| "run_tick B TickNull s = (Inr (), s)"

text \<open>The jobs are started one after the other; a hook that is no function, or that throws, ends the
  start of the service, and the jobs behind it are not started.\<close>

fun cron_started :: "'s cron_job list \<Rightarrow> 's \<Rightarrow> unit result \<times> 's cron_job list \<times> 's" where
  "cron_started [] s = (Inr (), [], s)"
| "cron_started (job # jobs) s =
     (let job' = (if cj_manualStart job then job else job\<lparr> cj_running := True \<rparr>)
      in case (case cj_runOnStarted job' of
                 NoHook \<Rightarrow> (Inr (), s) | HookFunction f \<Rightarrow> f s | HookValue \<Rightarrow> (Inl type_error, s)) of
           (Inl e, s1) \<Rightarrow> (Inl e, job' # jobs, s1)
         | (Inr _, s1) \<Rightarrow> (case cron_started jobs s1 of (r, js, s2) \<Rightarrow> (r, job' # js, s2)))"

definition cron_stopped :: "'s cron_job list \<Rightarrow> 's cron_job list" where
  "cron_stopped jobs = map (\<lambda>job. job\<lparr> cj_running := False \<rparr>) jobs"

section \<open>Lemmas\<close>

lemma makeid_length:
  assumes "\<And>k. 0 \<le> random k \<and> random k < 1"
  shows "length (makeid random n size') = size' \<and> set (makeid random n size') \<subseteq> set id_alphabet"
proof (induction size' arbitrary: n)
  case (Suc k)
  have "length id_alphabet = 62" by (simp add: id_alphabet_def)
  moreover have "nat \<lfloor>random n * 62\<rfloor> < 62" using assms [of n] by (simp add: nat_less_iff floor_less_iff)
  ultimately show ?case using Suc [of "Suc n"] by (simp add: Let_def)
qed simp

lemma cron_jobs_of_fields:
  "cron_jobs_of random new_job n cs = Inr jobs \<Longrightarrow>
    map cj_cronTime jobs = map cs_cronTime cs \<and> map cj_onTick jobs = map cs_onTick cs
    \<and> map cj_runOnStarted jobs = map cs_runOnInit cs
    \<and> map cj_manualStart jobs = map (\<lambda>c. cs_manualStart c = Some True) cs
    \<and> list_all (\<lambda>j. \<not> cj_running j) jobs"
  by (induction cs arbitrary: n jobs)
    (auto simp: cron_job_of_def res_bind_Inr_iff Let_def split: prod.splits option.splits sum.splits)

text \<open>A job whose hook is absent, or a function that does not throw.\<close>

definition quiet_hook :: "'s hook \<Rightarrow> bool" where
  "quiet_hook h \<longleftrightarrow> (case h of NoHook \<Rightarrow> True | HookFunction f \<Rightarrow> (\<forall>s. fst (f s) = Inr ()) | HookValue \<Rightarrow> False)"

fun run_hook :: "'s hook \<Rightarrow> 's \<Rightarrow> 's" where
  "run_hook (HookFunction f) s = snd (f s)"
| "run_hook h s = s"

definition start_job :: "'s cron_job \<Rightarrow> 's cron_job" where
  "start_job job = (if cj_manualStart job then job else job\<lparr> cj_running := True \<rparr>)"

lemma cron_started_quiet:
  "list_all (\<lambda>j. quiet_hook (cj_runOnStarted j)) jobs \<Longrightarrow>
    cron_started jobs s = (Inr (), map start_job jobs, fold run_hook (map cj_runOnStarted jobs) s)"
proof (induction jobs arbitrary: s)
  case (Cons j js)
  have h: "cj_runOnStarted (start_job j) = cj_runOnStarted j" by (simp add: start_job_def)
  show ?case
  proof (cases "cj_runOnStarted j")
    case (HookFunction f)
    then have "fst (f s) = Inr ()" using Cons.prems by (simp add: quiet_hook_def)
    then obtain s1 where "f s = (Inr (), s1)" by (cases "f s") auto
    then show ?thesis using Cons h HookFunction by (simp add: Let_def flip: start_job_def)
  qed (use Cons h in \<open>simp_all add: Let_def quiet_hook_def flip: start_job_def\<close>)
qed simp

lemma cron_started_value:
  assumes "list_all (\<lambda>j. quiet_hook (cj_runOnStarted j)) xs" "cj_runOnStarted j = HookValue"
  shows "cron_started (xs @ j # ys) s =
    (Inl type_error, map start_job xs @ start_job j # ys, fold run_hook (map cj_runOnStarted xs) s)"
  using assms(1)
proof (induction xs arbitrary: s)
  case Nil
  have "cj_runOnStarted (start_job j) = HookValue" using assms(2) by (simp add: start_job_def)
  then show ?case by (simp add: Let_def flip: start_job_def)
next
  case (Cons x xs)
  have h: "cj_runOnStarted (start_job x) = cj_runOnStarted x" by (simp add: start_job_def)
  show ?case
  proof (cases "cj_runOnStarted x")
    case (HookFunction f)
    then have "fst (f s) = Inr ()" using Cons.prems by (simp add: quiet_hook_def)
    then obtain s1 where "f s = (Inr (), s1)" by (cases "f s") auto
    then show ?thesis using Cons h HookFunction by (simp add: Let_def flip: start_job_def)
  qed (use Cons h in \<open>simp_all add: Let_def quiet_hook_def flip: start_job_def\<close>)
qed

section \<open>Properties\<close>

text \<open>When a service with crons is created and started, every job that is not to be started by
  hand runs, with the time and the tick of its schema; the hooks are run once each and in order,
  those of the manual jobs too, and stopping the service stops them all.\<close>

theorem cron_service_runs:
  assumes "cron_created random new_job (Some cs) = Inr jobs" "list_all (\<lambda>c. quiet_hook (cs_runOnInit c)) cs"
  shows "\<exists>started. cron_started jobs s = (Inr (), started, fold run_hook (map cs_runOnInit cs) s)
    \<and> map (\<lambda>j. (cj_cronTime j, cj_onTick j, cj_running j)) started =
        map (\<lambda>c. (cs_cronTime c, cs_onTick c, cs_manualStart c \<noteq> Some True)) cs
    \<and> list_all (\<lambda>j. \<not> cj_running j) (cron_stopped started)"
proof -
  have f: "map cj_cronTime jobs = map cs_cronTime cs" "map cj_onTick jobs = map cs_onTick cs"
    "map cj_runOnStarted jobs = map cs_runOnInit cs"
    "map cj_manualStart jobs = map (\<lambda>c. cs_manualStart c = Some True) cs" "list_all (\<lambda>j. \<not> cj_running j) jobs"
    using cron_jobs_of_fields [of random new_job 0 cs jobs] assms(1) by (auto simp: cron_created_def)
  have "list_all quiet_hook (map cj_runOnStarted jobs)"
    unfolding f(3) using assms(2) by (simp add: list_all_length)
  then have "list_all (\<lambda>j. quiet_hook (cj_runOnStarted j)) jobs" by (simp add: list_all_length)
  note st = cron_started_quiet [OF this, of s, unfolded f(3)]
  have n: "length jobs = length cs" using f(1) by (rule map_eq_imp_length_eq)
  have "map (\<lambda>j. (cj_cronTime j, cj_onTick j, cj_running j)) (map start_job jobs) =
      map (\<lambda>c. (cs_cronTime c, cs_onTick c, cs_manualStart c \<noteq> Some True)) cs"
  proof (rule nth_equalityI)
    fix i assume "i < length (map (\<lambda>j. (cj_cronTime j, cj_onTick j, cj_running j)) (map start_job jobs))"
    then have i: "i < length jobs" "i < length cs" by (simp_all add: n)
    then show "map (\<lambda>j. (cj_cronTime j, cj_onTick j, cj_running j)) (map start_job jobs) ! i =
        map (\<lambda>c. (cs_cronTime c, cs_onTick c, cs_manualStart c \<noteq> Some True)) cs ! i"
      using arg_cong [OF f(1), of "\<lambda>xs. xs ! i"] arg_cong [OF f(2), of "\<lambda>xs. xs ! i"]
        arg_cong [OF f(4), of "\<lambda>xs. xs ! i"] f(5)
      by (auto simp: start_job_def list_all_length)
  qed (simp add: n)
  then show ?thesis using st by (auto simp: cron_stopped_def list_all_length)
qed

text \<open>A job with a true \<^verbatim>\<open>runOnInit\<close>, the value the package
  \<^verbatim>\<open>cron\<close> documents for it, is no function: the service fails to start, and
  the jobs behind it never run.\<close>

theorem cron_runOnInit_value:
  assumes "list_all (\<lambda>j. quiet_hook (cj_runOnStarted j)) xs" "cj_runOnStarted j = HookValue"
    and "list_all (\<lambda>j. \<not> cj_running j) ys"
  shows "\<exists>s'. cron_started (xs @ j # ys) s = (Inl type_error, map start_job (xs @ [j]) @ ys, s')
    \<and> list_all (\<lambda>j. \<not> cj_running j) ys"
  using cron_started_value [OF assms(1,2), of ys s] assms(3) by simp

text \<open>A job without a name gets one of twenty letters and digits, and the tick of an object never
  rejects.\<close>

theorem cron_generated_name:
  assumes "\<And>k. 0 \<le> random k \<and> random k < 1" "named (cs_name c) = None"
    and "cron_job_of random new_job n c = (Inr job, n')"
  shows "length (cj_name job) = 20 \<and> set (cj_name job) \<subseteq> set id_alphabet \<and> n' = n + 20
    \<and> fst (run_tick B (TickObject def) s) = Inr ()"
  using assms(2,3) makeid_length [of random n 20, OF assms(1)]
  by (auto simp: cron_job_of_def Let_def split: sum.splits)

section \<open>Witnesses\<close>

definition sample_cron :: "nat cron_entry" where
  "sample_cron = \<lparr> cs_name = None, cs_cronTime = ''* * * * *'',
     cs_onTick = TickObject \<lparr> tk_action = Some ''index.estimate'', tk_event = None, tk_broadcast = False \<rparr>,
     cs_runOnInit = HookFunction (\<lambda>n. (Inr (), Suc n)), cs_manualStart = None \<rparr>"

lemma cron_service_runs_witness:
  "\<exists>jobs started. cron_created (\<lambda>_. 0) (\<lambda>_. Inr ()) (Some [sample_cron, sample_cron]) = Inr jobs
    \<and> cron_started jobs 0 = (Inr (), started, 2) \<and> map cj_running started = [True, True]"
proof -
  obtain jobs where j: "cron_created (\<lambda>_. 0) (\<lambda>_. Inr ()) (Some [sample_cron, sample_cron]) = Inr jobs"
    by (simp add: cron_created_def cron_job_of_def Let_def res_bind_def sample_cron_def named_def)
  from cron_service_runs [OF j, of 0] obtain started where
    "cron_started jobs 0 = (Inr (), started, 2)"
    "map (\<lambda>j. (cj_cronTime j, cj_onTick j, cj_running j)) started =
      map (\<lambda>c. (cs_cronTime c, cs_onTick c, cs_manualStart c \<noteq> Some True)) [sample_cron, sample_cron]"
    by (auto simp: quiet_hook_def sample_cron_def)
  then show ?thesis using j by (auto simp: sample_cron_def map_eq_Cons_conv)
qed

end
