(* ===== verification/SocialAuth.thy ===== *)
theory SocialAuth
  imports Middleware Configuration
begin

text \<open>
  Signing in over social providers: \<^verbatim>\<open>mixins/passport.mixin.js\<close> and the four
  strategies of \<^verbatim>\<open>mixins/strategies/\<close>.  Passport, the strategies of its
  packages, the serialisation of a cookie and the file system are parameters: which strategy files
  and packages exist, and what an authentication hands to the callback.
\<close>

section \<open>Settings\<close>

datatype scope_setting = ScopeText string | ScopeList "string list" | NoScope

text \<open>The settings of a provider that the code reads; other members are handed on.\<close>

record provider_setting =
  se_scope :: "scope_setting option"
  se_clientID :: "string option"
  se_clientSecret :: "string option"
  se_callbackURL :: "string option"

text \<open>The value of a provider in the options: falsy, an object, or some other truthy value.\<close>

datatype provider_value = Disabled | Settings provider_setting | Enabled

record cookie_options =
  ck_httpOnly :: bool
  ck_path :: string
  ck_maxAge :: int

record auth_options =
  ao_providers :: "(string \<times> provider_value) list option"
  ao_cookieName :: "string option option"
  ao_cookieOptions :: "cookie_options \<Rightarrow> cookie_options"
  ao_successRedirect :: "string option"
  ao_routePath :: "string option"
  ao_localAuthAlias :: "string option"

definition no_setting :: provider_setting where
  "no_setting = \<lparr> se_scope = None, se_clientID = None, se_clientSecret = None, se_callbackURL = None \<rparr>"

text \<open>The providers whose strategy file exists, in the order of the options.\<close>

fun enabled_providers ::
  "(string \<Rightarrow> bool) \<Rightarrow> (string \<times> provider_value) list \<Rightarrow> (string \<times> provider_setting) list" where
  "enabled_providers file_exists [] = []"
| "enabled_providers file_exists ((name, v) # ps) =
     (case v of
        Disabled \<Rightarrow> []
      | Settings x \<Rightarrow> if file_exists name then [(name, x)] else []
      | Enabled \<Rightarrow> if file_exists name then [(name, no_setting)] else [])
     @ enabled_providers file_exists ps"

definition passport_providers ::
  "(string \<Rightarrow> bool) \<Rightarrow> auth_options \<Rightarrow> (string \<times> provider_setting) list result" where
  "passport_providers file_exists opts =
     (case ao_providers opts of
        None \<Rightarrow> Inl (js_error (''Missing '' @ [CHR 0x27] @ ''providers'' @ [CHR 0x27] @ '' property in service mixin options''))
      | Some ps \<Rightarrow> Inr (enabled_providers file_exists ps))"

definition supportedSocialAuthProviders :: "(string \<times> provider_setting) list \<Rightarrow> string list" where
  "supportedSocialAuthProviders ps = map fst ps"

section \<open>Profiles\<close>

text \<open>A profile as the strategies of the packages deliver it.  The name and the raw answer may be
  missing; reading a member of a missing one throws.\<close>

record profile =
  pr_provider :: string
  pr_id :: string
  pr_username :: "string option"
  pr_displayName :: "string option"
  pr_name :: "(string option \<times> string option) option"
  pr_emails :: "(string \<times> bool) list option"
  pr_photos :: "string list option"
  pr_json :: "(string \<Rightarrow> string option) option"

record social_profile =
  so_provider :: string
  so_socialID :: string
  so_username :: "string option"
  so_fullName :: "string option"
  so_email :: "string option"
  so_avatar :: "string option"

definition written :: "string option \<Rightarrow> string" where
  "written x = (case x of Some s \<Rightarrow> s | None \<Rightarrow> ''undefined'')"

definition full_name :: "profile \<Rightarrow> string result" where
  "full_name p = (case pr_name p of
     None \<Rightarrow> Inl type_error | Some (given, family) \<Rightarrow> Inr (written given @ '' '' @ written family))"

definition raw_member :: "profile \<Rightarrow> string \<Rightarrow> string option result" where
  "raw_member p m = (case pr_json p of None \<Rightarrow> Inl type_error | Some j \<Rightarrow> Inr (j m))"

definition processFacebookProfile :: "profile \<Rightarrow> social_profile result" where
  "processFacebookProfile p =
     res_bind (full_name p) (\<lambda>name.
     res_bind (raw_member p ''email'') (\<lambda>email.
       Inr \<lparr> so_provider = pr_provider p, so_socialID = pr_id p, so_username = None, so_fullName = Some name,
         so_email = email,
         so_avatar = Some (''https://graph.facebook.com/'' @ pr_id p @ ''/picture?type=large'') \<rparr>))"

definition processGithubProfile :: "profile \<Rightarrow> social_profile result" where
  "processGithubProfile p =
     res_bind (raw_member p ''avatar_url'') (\<lambda>avatar.
       Inr \<lparr> so_provider = pr_provider p, so_socialID = pr_id p, so_username = pr_username p,
         so_fullName = (if pr_displayName p \<in> {None, Some []} then pr_username p else pr_displayName p),
         so_email = (case pr_emails p of
           None \<Rightarrow> None
         | Some [] \<Rightarrow> None
         | Some (e # es) \<Rightarrow> (case find snd (e # es) of Some (v, _) \<Rightarrow> Some v | None \<Rightarrow> Some (fst e))),
         so_avatar = avatar \<rparr>)"

text \<open>\<^verbatim>\<open>replace\<close> of a text replaces its first occurrence.\<close>

fun replace_first :: "string \<Rightarrow> string \<Rightarrow> string \<Rightarrow> string" where
  "replace_first old new [] = (if old = [] then new else [])"
| "replace_first old new (c # s) =
     (if take (length old) (c # s) = old then new @ drop (length old) (c # s) else c # replace_first old new s)"

definition processGoogleProfile :: "profile \<Rightarrow> social_profile result" where
  "processGoogleProfile p =
     res_bind (full_name p) (\<lambda>name.
       Inr \<lparr> so_provider = pr_provider p, so_socialID = pr_id p, so_username = None, so_fullName = Some name,
         so_email = (case pr_emails p of Some (e # es) \<Rightarrow> Some (fst e) | _ \<Rightarrow> None),
         so_avatar = (case pr_photos p of Some (v # vs) \<Rightarrow> Some (replace_first ''sz=50'' ''sz=200'' v) | _ \<Rightarrow> None) \<rparr>)"

definition processTwitterProfile :: "profile \<Rightarrow> social_profile result" where
  "processTwitterProfile p =
     res_bind (raw_member p ''profile_image_url_https'') (\<lambda>avatar.
       Inr \<lparr> so_provider = pr_provider p, so_socialID = pr_id p, so_username = pr_username p,
         so_fullName = pr_displayName p, so_email = Some (written (pr_username p) @ ''@twitter.com''),
         so_avatar = avatar \<rparr>)"

section \<open>Strategies\<close>

record strategy =
  sy_name :: string
  sy_clientID :: "string option"
  sy_clientSecret :: "string option"
  sy_callbackURL :: string
  sy_profileFields :: "string list"
  sy_includeEmail :: bool
  sy_profile :: "profile \<Rightarrow> social_profile result"

text \<open>What an alias of a route does: authenticate with a strategy, with options, or call an
  action.\<close>

datatype alias_target =
    Authenticate string scope_setting bool
  | CallAction string

record auth_state =
  as_strategies :: "strategy list"
  as_aliases :: "(string, alias_target) jsmap"

text \<open>The steps that the four strategies share: the strategy is registered and its two aliases are
  added.  The flag of an alias tells whether sessions are switched off.\<close>

definition register_strategy ::
  "strategy \<Rightarrow> scope_setting \<Rightarrow> bool \<Rightarrow> auth_state \<Rightarrow> auth_state" where
  "register_strategy y scope callback_off s =
     s\<lparr> as_strategies := as_strategies s @ [y],
        as_aliases := map_set (''GET /'' @ sy_name y @ ''/callback'') (Authenticate (sy_name y) NoScope callback_off)
          (map_set (''GET /'' @ sy_name y) (Authenticate (sy_name y) scope False) (as_aliases s)) \<rparr>"

definition strategy_of ::
  "process_env \<Rightarrow> string \<Rightarrow> string \<Rightarrow> string \<Rightarrow> provider_setting \<Rightarrow> (profile \<Rightarrow> social_profile result) \<Rightarrow> strategy" where
  "strategy_of env name id_var secret_var x read_profile =
     \<lparr> sy_name = name,
       sy_clientID = (case se_clientID x of Some v \<Rightarrow> Some v | None \<Rightarrow> env id_var),
       sy_clientSecret = (case se_clientSecret x of Some v \<Rightarrow> Some v | None \<Rightarrow> env secret_var),
       sy_callbackURL = or_default (se_callbackURL x) (''/auth/'' @ name @ ''/callback''),
       sy_profileFields = [], sy_includeEmail = False,
       sy_profile = read_profile \<rparr>"

text \<open>A strategy whose package is missing is logged and not registered.\<close>

definition registerFacebookStrategy ::
  "process_env \<Rightarrow> (string \<Rightarrow> bool) \<Rightarrow> provider_setting \<Rightarrow> auth_state \<Rightarrow> auth_state" where
  "registerFacebookStrategy env installed x s =
     (if installed ''passport-facebook''
      then register_strategy
        ((strategy_of env ''facebook'' ''FACEBOOK_CLIENT_ID'' ''FACEBOOK_CLIENT_SECRET'' x processFacebookProfile)
           \<lparr> sy_profileFields := [''first_name'', ''last_name'', ''email'', ''link'', ''locale'', ''timezone''] \<rparr>)
        (or_default (se_scope x) (ScopeList [''email'', ''user_location''])) True s
      else s)"

definition registerGithubStrategy ::
  "process_env \<Rightarrow> (string \<Rightarrow> bool) \<Rightarrow> provider_setting \<Rightarrow> auth_state \<Rightarrow> auth_state" where
  "registerGithubStrategy env installed x s =
     (if installed ''passport-github2''
      then register_strategy
        (strategy_of env ''github'' ''GITHUB_CLIENT_ID'' ''GITHUB_CLIENT_SECRET'' x processGithubProfile)
        (or_default (se_scope x) (ScopeText ''user:email'')) True s
      else s)"

definition registerGoogleStrategy ::
  "process_env \<Rightarrow> (string \<Rightarrow> bool) \<Rightarrow> provider_setting \<Rightarrow> auth_state \<Rightarrow> auth_state" where
  "registerGoogleStrategy env installed x s =
     (if installed ''passport-google-oauth20''
      then register_strategy
        (strategy_of env ''google'' ''GOOGLE_CLIENT_ID'' ''GOOGLE_CLIENT_SECRET'' x processGoogleProfile)
        (or_default (se_scope x) (ScopeText ''profile email'')) True s
      else s)"

text \<open>The old protocol of twitter has no scope and needs its sessions; its id and secret are those of
  a consumer.\<close>

definition registerTwitterStrategy ::
  "process_env \<Rightarrow> (string \<Rightarrow> bool) \<Rightarrow> provider_setting \<Rightarrow> auth_state \<Rightarrow> auth_state" where
  "registerTwitterStrategy env installed x s =
     (if installed ''passport-twitter''
      then register_strategy
        ((strategy_of env ''twitter'' ''TWITTER_CLIENT_ID'' ''TWITTER_CLIENT_SECRET'' x processTwitterProfile)
           \<lparr> sy_includeEmail := True \<rparr>)
        NoScope False s
      else s)"

text \<open>The registration of a provider, by its capitalised name, in which case does not matter; one that no strategy mixin has is an
  error of the service's creation.\<close>

definition registration ::
  "process_env \<Rightarrow> (string \<Rightarrow> bool) \<Rightarrow> string \<Rightarrow> (provider_setting \<Rightarrow> auth_state \<Rightarrow> auth_state) option" where
  "registration env installed name =
     map_get [(''facebook'', registerFacebookStrategy env installed), (''github'', registerGithubStrategy env installed),
       (''google'', registerGoogleStrategy env installed), (''twitter'', registerTwitterStrategy env installed)] (to_lower name)"

fun register_providers ::
  "process_env \<Rightarrow> (string \<Rightarrow> bool) \<Rightarrow> (string \<times> provider_setting) list \<Rightarrow> auth_state \<Rightarrow> auth_state result" where
  "register_providers env installed [] s = Inr s"
| "register_providers env installed ((name, x) # ps) s =
     (case registration env installed name of
        None \<Rightarrow> Inl (js_error (''Missing Passport strategy mixin for '' @ [CHR 0x27] @ name @ [CHR 0x27]))
      | Some register \<Rightarrow> register_providers env installed ps (register x s))"

record auth_route =
  ar_path :: string
  ar_strategies :: "strategy list"
  ar_aliases :: "(string, alias_target) jsmap"

definition truthy_text :: "string option \<Rightarrow> string option" where
  "truthy_text x = (if x = Some [] then None else x)"

definition passport_created ::
  "process_env \<Rightarrow> (string \<Rightarrow> bool) \<Rightarrow> string \<Rightarrow> auth_options \<Rightarrow> (string \<times> provider_setting) list \<Rightarrow> auth_route result" where
  "passport_created env installed fullName opts ps =
     (let aliases = (case truthy_text (ao_localAuthAlias opts) of
            Some a \<Rightarrow> [(''POST /local'', CallAction a)] | None \<Rightarrow> [])
      in res_bind (register_providers env installed ps \<lparr> as_strategies = [], as_aliases = aliases \<rparr>) (\<lambda>s.
           Inr \<lparr> ar_path = or_default (truthy_text (ao_routePath opts)) ''/auth'', ar_strategies = as_strategies s,
             ar_aliases = map_set ''GET /supported-social-auth-providers''
               (CallAction (fullName @ ''.supportedSocialAuthProviders'')) (as_aliases s) \<rparr>))"

section \<open>The callback\<close>

datatype auth_reply = SentError thrown | SetCookie string string cookie_options | Redirected string

definition signInSocialUser :: "string \<Rightarrow> 'u result" where
  "signInSocialUser service =
     Inl (js_error (''Missing '' @ [CHR 0x27] @ ''signInSocialUser'' @ [CHR 0x27] @ '' method implementation in the ''
       @ [CHR 0x27] @ service @ [CHR 0x27] @ '' service.''))"

definition default_cookie :: cookie_options where
  "default_cookie = \<lparr> ck_httpOnly = False, ck_path = ''/'', ck_maxAge = 60 * 60 * 24 * 90 \<rparr>"

text \<open>The name of the cookie is a text, absent, or false: \<^verbatim>\<open>Some None\<close> stands for
  false.  The token of the user is that of the authentication.\<close>

definition socialAuthCallback :: "auth_options \<Rightarrow> thrown option \<Rightarrow> string \<Rightarrow> auth_reply list" where
  "socialAuthCallback opts err user_token =
     (case err of
        Some e \<Rightarrow> [SentError e]
      | None \<Rightarrow>
          (if ao_cookieName opts = Some None then []
           else [SetCookie (case ao_cookieName opts of
                   Some (Some name) \<Rightarrow> if name = [] then ''jwt-token'' else name | _ \<Rightarrow> ''jwt-token'')
                 user_token (ao_cookieOptions opts default_cookie)])
          @ [Redirected (or_default (truthy_text (ao_successRedirect opts)) ''/'')])"

text \<open>What a strategy hands to the service when a user comes back from the provider: the user that is
  signed in for the profile.  A profile that cannot be read throws inside the strategy.\<close>

record sign_in_params =
  sn_provider :: string
  sn_accessToken :: string
  sn_refreshToken :: "string option"
  sn_profile :: social_profile

definition verify_profile ::
  "strategy \<Rightarrow> (sign_in_params \<Rightarrow> 'u result) \<Rightarrow> string \<Rightarrow> string option \<Rightarrow> profile \<Rightarrow> 'u result" where
  "verify_profile y sign_in accessToken refreshToken p =
     res_bind (sy_profile y p) (\<lambda>r. sign_in \<lparr> sn_provider = sy_name y, sn_accessToken = accessToken,
       sn_refreshToken = refreshToken, sn_profile = r \<rparr>)"

section \<open>Lemmas\<close>

definition known_providers :: "string list" where
  "known_providers = [''facebook'', ''github'', ''google'', ''twitter'']"

definition package_of :: "string \<Rightarrow> string" where
  "package_of name = (if name = ''github'' then ''passport-github2''
     else if name = ''google'' then ''passport-google-oauth20'' else ''passport-'' @ name)"

lemma registration_cases:
  assumes "registration env installed name = Some register"
  shows "to_lower name \<in> set known_providers \<and> (\<exists>y sc off. sy_name y = to_lower name \<and>
    register x s = (if installed (package_of (to_lower name)) then register_strategy y sc off s else s))"
proof -
  have e: "sy_name y' = n \<Longrightarrow> \<exists>y. sy_name y = n \<and> (b \<longrightarrow> (\<exists>sc off. register_strategy y' sc' off' s
      = register_strategy y sc off s))" for n y' sc' off' b
    by (rule exI [of _ y'], rule conjI, assumption, blast)
  show ?thesis
    using assms unfolding registration_def map_get_def
    by (auto simp: known_providers_def package_of_def registerFacebookStrategy_def registerGithubStrategy_def
        registerGoogleStrategy_def registerTwitterStrategy_def strategy_of_def split: if_splits intro!: e)
qed

text \<open>A provider has a route.\<close>

definition has_route :: "string \<Rightarrow> (string, alias_target) jsmap \<Rightarrow> bool" where
  "has_route n aliases \<longleftrightarrow> (\<exists>sc. map_get aliases (''GET /'' @ n) = Some (Authenticate n sc False))"

lemma known_not_callback: "n \<in> set known_providers \<Longrightarrow> m \<in> set known_providers \<Longrightarrow> n \<noteq> m @ ''/callback''"
  by (auto simp: known_providers_def)

lemma register_strategy_route:
  assumes "n \<in> set known_providers" "sy_name y \<in> set known_providers"
  shows "has_route n (as_aliases (register_strategy y sc off s)) \<longleftrightarrow> n = sy_name y \<or> has_route n (as_aliases s)"
  using known_not_callback [OF assms] by (auto simp: has_route_def register_strategy_def)

lemma register_providers_routes:
  assumes "register_providers env installed ps s = Inr s'" "n \<in> set known_providers"
  shows "map sy_name (as_strategies s') = map sy_name (as_strategies s) @
      filter (\<lambda>m. installed (package_of m)) (map (to_lower \<circ> fst) ps)
    \<and> (has_route n (as_aliases s') \<longleftrightarrow>
        has_route n (as_aliases s) \<or> (n \<in> set (map (to_lower \<circ> fst) ps) \<and> installed (package_of n)))"
  using assms(1)
proof (induction ps arbitrary: s)
  case (Cons p ps)
  obtain name x where p: "p = (name, x)" by (cases p)
  obtain register where r: "registration env installed name = Some register"
    "register_providers env installed ps (register x s) = Inr s'"
    using Cons.prems by (auto simp: p split: option.splits)
  obtain y sc off where y: "to_lower name \<in> set known_providers" "sy_name y = to_lower name"
    "register x s = (if installed (package_of (to_lower name)) then register_strategy y sc off s else s)"
    using registration_cases [OF r(1)] by blast
  note step = register_strategy_route [OF assms(2), of y sc off s]
  show ?case using Cons.IH [OF r(2)] y step by (auto simp: p register_strategy_def)
qed simp

section \<open>Properties\<close>

text \<open>The route of the social providers.  The strategies are registered for the providers whose
  package is installed, in the order of the options, and exactly those have an alias that
  authenticates with them; the list of supported providers names the others too.\<close>

theorem social_routes:
  assumes "passport_created env installed fullName opts ps = Inr route" "n \<in> set known_providers"
  shows "map sy_name (ar_strategies route) =
      filter (\<lambda>m. installed (package_of m)) (map to_lower (supportedSocialAuthProviders ps))
    \<and> (has_route n (ar_aliases route) \<longleftrightarrow>
        n \<in> set (map to_lower (supportedSocialAuthProviders ps)) \<and> installed (package_of n))"
proof -
  define s0 where "s0 = \<lparr> as_strategies = [], as_aliases = (case truthy_text (ao_localAuthAlias opts) of
    Some a \<Rightarrow> [(''POST /local'', CallAction a)] | None \<Rightarrow> []) \<rparr>"
  obtain s' where s': "register_providers env installed ps s0 = Inr s'"
    "ar_strategies route = as_strategies s'" "ar_aliases route = map_set ''GET /supported-social-auth-providers''
      (CallAction (fullName @ ''.supportedSocialAuthProviders'')) (as_aliases s')"
    using assms(1) unfolding passport_created_def Let_def by (auto simp: res_bind_Inr_iff s0_def)
  have none: "\<not> has_route n (as_aliases s0)"
    by (auto simp: has_route_def s0_def map_get_def split: option.splits)
  have n: "''GET /'' @ n \<noteq> ''GET /supported-social-auth-providers''"
    using assms(2) by (auto simp: known_providers_def)
  have "has_route n (ar_aliases route) \<longleftrightarrow> has_route n (as_aliases s')"
    using n by (auto simp: has_route_def s'(3))
  then show ?thesis using register_providers_routes [OF s'(1) assms(2)] none
    by (simp add: s'(2) supportedSocialAuthProviders_def s0_def)
qed

text \<open>A successful authentication sets a cookie that scripts can read, unless the options say
  otherwise, and redirects; a failed one does neither.\<close>

theorem social_callback:
  "socialAuthCallback opts err user_token =
    (case err of Some e \<Rightarrow> [SentError e]
     | None \<Rightarrow> (if ao_cookieName opts = Some None then [] else
         [SetCookie (case ao_cookieName opts of Some (Some (c # cs)) \<Rightarrow> c # cs | _ \<Rightarrow> ''jwt-token'') user_token
            (ao_cookieOptions opts \<lparr> ck_httpOnly = False, ck_path = ''/'', ck_maxAge = 7776000 \<rparr>)])
       @ [Redirected (or_default (truthy_text (ao_successRedirect opts)) ''/'')])"
  by (simp add: socialAuthCallback_def default_cookie_def split: option.split list.split)

text \<open>The address of a github user is the first primary one, or else the first.\<close>

theorem github_email:
  assumes "processGithubProfile p = Inr r" "pr_emails p = Some es"
  shows "so_email r = (case filter snd es of e # _ \<Rightarrow> Some (fst e)
    | [] \<Rightarrow> (case es of [] \<Rightarrow> None | e # _ \<Rightarrow> Some (fst e)))"
proof -
  have f: "find P xs = (case filter P xs of [] \<Rightarrow> None | x # _ \<Rightarrow> Some x)" for P and xs :: "'a list"
    by (induction xs) auto
  show ?thesis using assms unfolding processGithubProfile_def f
    by (auto simp: res_bind_Inr_iff split: list.splits)
qed

section \<open>Witnesses\<close>

definition sample_auth :: auth_options where
  "sample_auth = \<lparr> ao_providers = Some [(''google'', Enabled), (''github'', Enabled), (''twitter'', Disabled)],
     ao_cookieName = None, ao_cookieOptions = (\<lambda>c. c), ao_successRedirect = None, ao_routePath = None,
     ao_localAuthAlias = None \<rparr>"

lemma to_lower_providers: "to_lower ''google'' = ''google''" "to_lower ''github'' = ''github''"
  by (simp_all add: to_lower_def lower_char_def char_of_def bit_0)

lemma social_routes_witness:
  "\<exists>ps route. passport_providers (\<lambda>_. True) sample_auth = Inr ps
    \<and> passport_created (\<lambda>_. None) (\<lambda>p. p = ''passport-github2'') ''api'' sample_auth ps = Inr route
    \<and> supportedSocialAuthProviders ps = [''google'', ''github''] \<and> \<not> has_route ''google'' (ar_aliases route)
    \<and> has_route ''github'' (ar_aliases route)"
proof -
  let ?ps = "[(''google'', no_setting), (''github'', no_setting)]"
  have ps: "passport_providers (\<lambda>_. True) sample_auth = Inr ?ps"
    by (simp add: passport_providers_def sample_auth_def)
  obtain route where r: "passport_created (\<lambda>_. None) (\<lambda>p. p = ''passport-github2'') ''api'' sample_auth ?ps = Inr route"
    by (simp add: passport_created_def registration_def map_get_def to_lower_providers Let_def res_bind_def)
  have "\<not> has_route ''google'' (ar_aliases route)"
    using social_routes [OF r, of "''google''"] by (simp add: known_providers_def package_of_def)
  moreover have "has_route ''github'' (ar_aliases route)"
    using social_routes [OF r, of "''github''"]
    by (simp add: known_providers_def package_of_def supportedSocialAuthProviders_def to_lower_providers)
  ultimately show ?thesis using ps r by (auto simp: supportedSocialAuthProviders_def)
qed

end
