(* ===== verification/OpenApi.thy ===== *)
theory OpenApi
  imports Errors
begin

text \<open>
  \<^verbatim>\<open>mixins/openapi.mixin.js\<close>, the documentation of the gateway, and the two
  middlewares that generate definitions
  (\<^verbatim>\<open>middlewares/openapi-generator.middleware.js\<close>,
  \<^verbatim>\<open>graphql-generator.middleware.js\<close>).  The functions of lodash on JSON values,
  the list of the services and the writing of the file are parameters.
\<close>

section \<open>JSON values\<close>

datatype json = JNull | JBool bool | JNum jsnum | JStr string | JArr "json list" | JObj "(string \<times> json) list"

fun json_get :: "json \<Rightarrow> string \<Rightarrow> json option" where
  "json_get (JObj ms) k = map_get ms k"
| "json_get j k = None"

fun json_remove :: "string \<Rightarrow> json \<Rightarrow> json" where
  "json_remove k (JObj ms) = JObj (map_remove k ms)"
| "json_remove k j = j"

fun json_truthy :: "json option \<Rightarrow> bool" where
  "json_truthy None = False"
| "json_truthy (Some JNull) = False"
| "json_truthy (Some (JBool b)) = b"
| "json_truthy (Some (JNum x)) = (x \<noteq> NaN \<and> x \<noteq> Num 0)"
| "json_truthy (Some (JStr s)) = (s \<noteq> [])"
| "json_truthy (Some j) = True"

fun is_object :: "json option \<Rightarrow> bool" where
  "is_object (Some (JObj ms)) = True"
| "is_object (Some (JArr xs)) = True"
| "is_object j = False"

text \<open>The functions of lodash: \<^verbatim>\<open>defaultsDeep\<close>,
  \<^verbatim>\<open>merge\<close>, and \<^verbatim>\<open>set\<close> at a path of two keys below
  the member \<^verbatim>\<open>paths\<close>.\<close>

record lodash =
  lo_defaultsDeep :: "json option \<Rightarrow> json \<Rightarrow> json"
  lo_merge :: "json \<Rightarrow> json \<Rightarrow> json"
  lo_set_path :: "json \<Rightarrow> json option \<Rightarrow> string \<Rightarrow> json \<Rightarrow> json"

record service_entry =
  sv_openapi :: "json option"
  sv_actions :: "json option list"

section \<open>The document\<close>

definition default_document :: "string \<Rightarrow> string \<Rightarrow> json" where
  "default_document name version = JObj [(''openapi'', JStr ''3.0.3''),
     (''info'', JObj [(''title'', JStr (name @ '' API Documentation'')), (''version'', JStr version)]),
     (''servers'', JArr []), (''components'', JObj []), (''paths'', JObj []),
     (''security'', JArr [JObj [(''BearerAuth'', JArr [])]]), (''tags'', JArr [])]"

text \<open>An action whose definition has a path is put under it; a path without a method is an error of
  the generation.\<close>

definition add_action :: "lodash \<Rightarrow> json option \<Rightarrow> json \<Rightarrow> json result" where
  "add_action L action res =
     (if is_object action \<and> json_truthy (json_get (the action) ''$path'') then
        let path_of = the (json_get (the action) ''$path'') in
        case json_get path_of ''method'' of
          Some (JStr method) \<Rightarrow> Inr (lo_set_path L res (json_get path_of ''path'') (to_lower method)
            (json_remove ''$path'' (the action)))
        | _ \<Rightarrow> Inl type_error
      else Inr res)"

text \<open>The document as far as it was built, and the error that ended it.\<close>

fun add_actions :: "lodash \<Rightarrow> json option list \<Rightarrow> json \<Rightarrow> json \<times> thrown option" where
  "add_actions L [] res = (res, None)"
| "add_actions L (a # as) res =
     (case add_action L a res of Inl e \<Rightarrow> (res, Some e) | Inr res' \<Rightarrow> add_actions L as res')"

fun add_services :: "lodash \<Rightarrow> service_entry list \<Rightarrow> json \<Rightarrow> json \<times> thrown option" where
  "add_services L [] res = (res, None)"
| "add_services L (s # ss) res =
     (case add_actions L (sv_actions s)
         (if json_truthy (sv_openapi s) then lo_merge L res (the (sv_openapi s)) else res) of
        (res', Some e) \<Rightarrow> (res', Some e)
      | (res', None) \<Rightarrow> add_services L ss res')"

definition unable_to_compile :: thrown where
  "unable_to_compile = ErrObj MoleculerServerErrorClass ''Unable to compile OpenAPI schema'' (Some 500)
     (Some ''UNABLE_COMPILE_OPENAPI_SCHEMA'')"

record openapi_state =
  oa_options_schema :: "json option"
  oa_shouldUpdateSchema :: bool
  oa_schema :: "json option"
  oa_written :: "json list"

definition new_openapi :: "json option \<Rightarrow> openapi_state" where
  "new_openapi options = \<lparr> oa_options_schema = options, oa_shouldUpdateSchema = True, oa_schema = None, oa_written = [] \<rparr>"

text \<open>A schema in the options is the object that is filled: it keeps what was added.\<close>

definition generateOpenAPISchema ::
  "lodash \<Rightarrow> string \<Rightarrow> string \<Rightarrow> service_entry list \<Rightarrow> openapi_state \<Rightarrow> json result \<times> openapi_state" where
  "generateOpenAPISchema L name version services s =
     (case add_services L services (lo_defaultsDeep L (oa_options_schema s) (default_document name version)) of
        (res, err) \<Rightarrow>
          (case err of None \<Rightarrow> Inr res | Some e \<Rightarrow> Inl unable_to_compile,
           s\<lparr> oa_options_schema := (case oa_options_schema s of None \<Rightarrow> None | Some _ \<Rightarrow> Some res) \<rparr>))"

definition invalidateOpenApiSchema :: "openapi_state \<Rightarrow> openapi_state" where
  "invalidateOpenApiSchema s = s\<lparr> oa_shouldUpdateSchema := True \<rparr>"

text \<open>A schema that is up to date is not returned: the function ends without a value.\<close>

definition getOpenAPISchema ::
  "lodash \<Rightarrow> string \<Rightarrow> string \<Rightarrow> bool \<Rightarrow> service_entry list \<Rightarrow> openapi_state \<Rightarrow> json option result \<times> openapi_state" where
  "getOpenAPISchema L name version production services s =
     (if oa_shouldUpdateSchema s \<or> oa_schema s = None then
        (case generateOpenAPISchema L name version services s of
           (Inl e, s1) \<Rightarrow> (Inl e, s1)
         | (Inr schema, s1) \<Rightarrow>
             (Inr (Some schema),
              s1\<lparr> oa_schema := Some schema, oa_shouldUpdateSchema := False,
                  oa_written := oa_written s1 @ (if production then [] else [schema]) \<rparr>))
      else (Inr None, s))"

section \<open>The route\<close>

datatype openapi_reply = Document "json option" | Failed thrown

text \<open>Every request of the route asks for the schema before its alias does; an error there is an
  error of the request.\<close>

definition openapi_use ::
  "lodash \<Rightarrow> string \<Rightarrow> string \<Rightarrow> bool \<Rightarrow> service_entry list \<Rightarrow> openapi_state \<Rightarrow> json option result \<times> openapi_state" where
  "openapi_use L name version production services s = getOpenAPISchema L name version production services s"

definition openapi_json ::
  "lodash \<Rightarrow> string \<Rightarrow> string \<Rightarrow> bool \<Rightarrow> service_entry list \<Rightarrow> openapi_state \<Rightarrow> openapi_reply \<times> openapi_state" where
  "openapi_json L name version production services s =
     (case getOpenAPISchema L name version production services s of
        (Inl e, s1) \<Rightarrow> (Failed e, s1)
      | (Inr schema, s1) \<Rightarrow> (Document schema, s1))"

definition get_openapi_json ::
  "lodash \<Rightarrow> string \<Rightarrow> string \<Rightarrow> bool \<Rightarrow> service_entry list \<Rightarrow> openapi_state \<Rightarrow> openapi_reply \<times> openapi_state" where
  "get_openapi_json L name version production services s =
     (case openapi_use L name version production services s of
        (Inl e, s1) \<Rightarrow> (Failed e, s1)
      | (Inr doc, s1) \<Rightarrow> openapi_json L name version production services s1)"

datatype openapi_event = ServicesChanged | GetDocument "service_entry list"

fun openapi_run ::
  "lodash \<Rightarrow> string \<Rightarrow> string \<Rightarrow> bool \<Rightarrow> openapi_event list \<Rightarrow> openapi_state \<Rightarrow> openapi_reply list \<times> openapi_state" where
  "openapi_run L name version production [] s = ([], s)"
| "openapi_run L name version production (ServicesChanged # es) s =
     openapi_run L name version production es (invalidateOpenApiSchema s)"
| "openapi_run L name version production (GetDocument services # es) s =
     (case get_openapi_json L name version production services s of (r, s1) \<Rightarrow>
        case openapi_run L name version production es s1 of (rs, s2) \<Rightarrow> (r # rs, s2))"

section \<open>Generators\<close>

text \<open>The services for which a generator of definitions is called, with the name of the entity.\<close>

definition openapi_generator :: "(string \<Rightarrow> string) \<Rightarrow> string \<Rightarrow> string option" where
  "openapi_generator singular name =
     (if name \<notin> {''boards'', ''lists'', ''accounts'', ''cards''} then None else Some (singular name))"

text \<open>The settings: none, without the member graphql, or with it and the name of an entity.\<close>

definition graphql_generator :: "(string \<Rightarrow> string) \<Rightarrow> string \<Rightarrow> string option option option \<Rightarrow> string option" where
  "graphql_generator singular name settings =
     (case settings of
        Some (Some entityName) \<Rightarrow>
          if name \<notin> {''accounts'', ''boards'', ''lists'', ''cards''} then None
          else Some (singular (case entityName of Some n \<Rightarrow> if n = [] then name else n | None \<Rightarrow> name))
      | _ \<Rightarrow> None)"

section \<open>Properties\<close>

lemma get_openapi_json_empty:
  "get_openapi_json L name version production services t \<noteq> (Document (Some doc), t')"
  by (auto simp: get_openapi_json_def openapi_use_def openapi_json_def getOpenAPISchema_def
      split: sum.splits prod.splits if_splits)

text \<open>The document of the gateway is never served.  However requests and changes of the services
  follow each other, a request for it is answered without a value or with the error of the
  generation: the middleware of the route takes the new schema, and the alias behind it, for which
  it is then up to date, gets none.\<close>

theorem openapi_never_served:
  "Document (Some doc) \<notin> set (fst (openapi_run L name version production es s))"
  by (induction L name version production es s rule: openapi_run.induct)
    (auto simp: get_openapi_json_empty split: prod.split)

text \<open>What is generated is written, outside production, and describes the services of that moment.\<close>

theorem openapi_generated:
  assumes "oa_shouldUpdateSchema s" "getOpenAPISchema L name version False services s = (Inr doc, s')"
  shows "\<exists>schema. doc = Some schema \<and> oa_written s' = oa_written s @ [schema] \<and> oa_schema s' = Some schema
    \<and> add_services L services (lo_defaultsDeep L (oa_options_schema s) (default_document name version)) = (schema, None)
    \<and> \<not> oa_shouldUpdateSchema s'"
  using assms by (auto simp: getOpenAPISchema_def generateOpenAPISchema_def split: prod.splits option.splits sum.splits)

end
