(* ===== verification/I18n.thy ===== *)
theory I18n
  imports Errors
begin

text \<open>
  \<^verbatim>\<open>mixins/i18next.mixin.js\<close>: the route of the translations.  The answer is an
  object that \<^verbatim>\<open>setPath\<close> fills, key by key, with names the client sends; a
  key is looked up along the prototypes of an object, so the objects of the program are an explicit
  store.  The resource bundles and the connector of i18next are parameters.
\<close>

section \<open>Objects\<close>

text \<open>A value is undefined, a primitive with its truth value, or a reference.  Object 0 of a store is
  the prototype of all objects, which has no prototype.\<close>

datatype jsval = Undefined | Primitive bool | Ref nat

record jsobj =
  jo_own :: "(string, jsval) jsmap"
  jo_proto :: "nat option"

type_synonym heap = "jsobj list"

definition proto_key :: string where "proto_key = ''__proto__''"

text \<open>Looking up a key: an own member, the prototype, or a member of an object further up.  The
  first argument bounds the length of the chain; the number of objects suffices.\<close>

fun lookup :: "nat \<Rightarrow> heap \<Rightarrow> nat \<Rightarrow> string \<Rightarrow> jsval" where
  "lookup 0 h a k = Undefined"
| "lookup (Suc n) h a k =
     (if length h \<le> a then Undefined
      else case map_get (jo_own (h ! a)) k of
        Some v \<Rightarrow> v
      | None \<Rightarrow> (case jo_proto (h ! a) of None \<Rightarrow> Undefined | Some p \<Rightarrow> lookup n h p k))"

definition get_member :: "heap \<Rightarrow> nat \<Rightarrow> string \<Rightarrow> jsval" where
  "get_member h a k =
     (if k = proto_key \<and> map_get (jo_own (h ! a)) k = None
      then case jo_proto (h ! a) of None \<Rightarrow> Undefined | Some p \<Rightarrow> Ref p
      else lookup (length h) h a k)"

text \<open>Writing the prototype key replaces the prototype by an object and ignores anything else.\<close>

definition set_member :: "heap \<Rightarrow> nat \<Rightarrow> string \<Rightarrow> jsval \<Rightarrow> heap" where
  "set_member h a k v =
     (if k = proto_key then (case v of Ref p \<Rightarrow> h[a := (h ! a)\<lparr> jo_proto := Some p \<rparr>] | _ \<Rightarrow> h)
      else h[a := (h ! a)\<lparr> jo_own := map_set k v (jo_own (h ! a)) \<rparr>])"

definition new_object :: jsobj where
  "new_object = \<lparr> jo_own = [], jo_proto = Some 0 \<rparr>"

section \<open>The path\<close>

text \<open>Every \<^verbatim>\<open>###\<close> of a key stands for a dot.\<close>

fun unhash :: "string \<Rightarrow> string" where
  "unhash (a # b # c # s) =
     (if a = CHR ''#'' \<and> b = CHR ''#'' \<and> c = CHR ''#'' then CHR ''.'' # unhash s else a # unhash (b # c # s))"
| "unhash s = s"

text \<open>An empty path has no last key to read.  A truthy primitive on the way cannot be written to; it
  does not occur on a path of two keys, the only one the program uses.\<close>

fun setPath :: "heap \<Rightarrow> nat \<Rightarrow> string list \<Rightarrow> jsval \<Rightarrow> heap result" where
  "setPath h a [] v = Inl type_error"
| "setPath h a [k] v = Inr (set_member h a (unhash k) v)"
| "setPath h a (k # ks) v =
     (case get_member h a (unhash k) of
        Ref b \<Rightarrow> setPath h b ks v
      | Primitive True \<Rightarrow> Inl type_error
      | _ \<Rightarrow> setPath (set_member h a (unhash k) (Ref (length h)) @ [new_object]) (length h) ks v)"

section \<open>The route\<close>

definition query_list :: "string option \<Rightarrow> string list" where
  "query_list q = (case q of None \<Rightarrow> [] | Some s \<Rightarrow> if s = [] then [] else split_on (CHR '' '') s)"

text \<open>The namespaces of the options of i18next, an array of the program if they are set, are extended
  by those a request names.\<close>

definition extend_namespaces :: "string list \<Rightarrow> string list option \<Rightarrow> string list option" where
  "extend_namespaces namespaces known =
     map_option (fold (\<lambda>ns known. if ns \<in> set known then known else known @ [ns]) namespaces) known"

fun fill_resources ::
  "(string \<Rightarrow> string \<Rightarrow> jsval) \<Rightarrow> nat \<Rightarrow> (string \<times> string) list \<Rightarrow> heap \<Rightarrow> heap result" where
  "fill_resources bundle answer [] h = Inr h"
| "fill_resources bundle answer ((lng, ns) # ps) h =
     res_bind (setPath h answer [lng, ns] (bundle lng ns)) (fill_resources bundle answer ps)"

text \<open>GET: the namespaces of the options afterwards, and the store of the other objects with the address
  of the one that is sent.\<close>

definition get_locales ::
  "(string \<Rightarrow> string \<Rightarrow> jsval) \<Rightarrow> string option \<Rightarrow> string option \<Rightarrow> string list option \<Rightarrow> heap
   \<Rightarrow> string list option \<times> (heap \<times> nat) result" where
  "get_locales bundle lng ns known h =
     (let languages = query_list lng; namespaces = query_list ns
      in (extend_namespaces namespaces known,
          res_bind (fill_resources bundle (length h) (List.product languages namespaces) (h @ [new_object]))
            (\<lambda>h'. Inr (h', length h))))"

record missing_key =
  mk_lng :: "string option list"
  mk_ns :: "string option"
  mk_key :: string
  mk_value :: string

text \<open>POST: the keys that are saved as missing.\<close>

definition post_locales :: "string option \<Rightarrow> string option \<Rightarrow> (string \<times> string) list \<Rightarrow> missing_key list" where
  "post_locales lng ns body =
     map (\<lambda>(m, v). \<lparr> mk_lng = [lng], mk_ns = ns, mk_key = m, mk_value = v \<rparr>) (filter (\<lambda>(m, _). m \<noteq> ''_t'') body)"

section \<open>Lemmas\<close>

text \<open>A store as the program has it before a request, and a key no object inherits.\<close>

definition store_ok :: "heap \<Rightarrow> bool" where
  "store_ok h \<longleftrightarrow> h \<noteq> [] \<and> jo_proto (h ! 0) = None"

definition plain_key :: "heap \<Rightarrow> string \<Rightarrow> bool" where
  "plain_key h k \<longleftrightarrow> k \<noteq> proto_key \<and> map_get (jo_own (h ! 0)) k = None"

text \<open>While an answer is filled: the old objects are as before, and what the answer holds are new
  objects.\<close>

definition filling :: "heap \<Rightarrow> heap \<Rightarrow> bool" where
  "filling h h' \<longleftrightarrow> length h < length h' \<and> take (length h) h' = h \<and> jo_proto (h' ! length h) = Some 0
     \<and> (\<forall>k v. map_get (jo_own (h' ! length h)) k = Some v \<longrightarrow> (\<exists>b. v = Ref b \<and> length h < b \<and> b < length h'))"

lemma filling_new: "filling h (h @ [new_object])"
  by (simp add: filling_def new_object_def)

lemma set_member_length [simp]: "length (set_member h a k v) = length h"
  by (simp add: set_member_def split: jsval.split)

lemma set_member_other: "a \<noteq> b \<Longrightarrow> set_member h a k v ! b = h ! b"
  by (simp add: set_member_def split: jsval.split)

lemma set_member_take: "n \<le> a \<Longrightarrow> take n (set_member h a k v) = take n h"
  by (simp add: set_member_def split: jsval.split)

lemma filling_root:
  assumes "store_ok h" "filling h h'" "plain_key h k"
  shows "get_member h' (length h) k = Undefined \<or> (\<exists>b. get_member h' (length h) k = Ref b \<and> length h < b \<and> b < length h')"
proof -
  have h: "h \<noteq> []" "jo_proto (h ! 0) = None" "length h < length h'" "take (length h) h' = h" "jo_proto (h' ! length h) = Some 0"
    and own: "\<And>k v. map_get (jo_own (h' ! length h)) k = Some v \<Longrightarrow> \<exists>b. v = Ref b \<and> length h < b \<and> b < length h'"
    using assms by (auto simp: store_ok_def filling_def)
  have "h' ! 0 = h ! 0" using h(1,4) by (metis length_greater_0_conv nth_take)
  then have top: "lookup (Suc m) h' 0 k = Undefined" for m
    using assms(3) h(2) by (simp add: plain_key_def)
  obtain m where m: "length h' = Suc (Suc m)"
    using h(1,3) by (metis Suc_less_eq2 length_greater_0_conv less_imp_Suc_add)
  show ?thesis
  proof (cases "map_get (jo_own (h' ! length h)) k")
    case None
    then have "get_member h' (length h) k = Undefined"
      using assms(3) h(3,5) top [of m] by (simp add: get_member_def plain_key_def m)
    then show ?thesis ..
  next
    case (Some v)
    then have "get_member h' (length h) k = v"
      using assms(3) h(3) by (simp add: get_member_def plain_key_def m)
    then show ?thesis using own [OF Some] by auto
  qed
qed

lemma setPath_filling:
  assumes "store_ok h" "filling h h'" "plain_key h (unhash lng)"
  shows "\<exists>h''. setPath h' (length h) [lng, ns] v = Inr h'' \<and> filling h h''"
proof -
  have f: "length h < length h'" "take (length h) h' = h" "jo_proto (h' ! length h) = Some 0"
    "\<forall>k v. map_get (jo_own (h' ! length h)) k = Some v \<longrightarrow> (\<exists>b. v = Ref b \<and> length h < b \<and> b < length h')"
    using assms(2) by (auto simp: filling_def)
  have child: "filling h (set_member g b k w)" if "filling h g" "length h < b" for g b k w
    using that by (simp add: filling_def set_member_take set_member_other)
  from filling_root [OF assms] show ?thesis
  proof
    assume u: "get_member h' (length h) (unhash lng) = Undefined"
    let ?g = "set_member h' (length h) (unhash lng) (Ref (length h')) @ [new_object]"
    have "filling h ?g"
      using f assms(3) unfolding filling_def
      by (auto simp: set_member_take nth_append plain_key_def set_member_def split: if_splits) (meson less_SucI)
    then show ?thesis using u f(1) child [of ?g "length h'" "unhash ns" v] by simp
  next
    assume "\<exists>b. get_member h' (length h) (unhash lng) = Ref b \<and> length h < b \<and> b < length h'"
    then show ?thesis using child [OF assms(2)] by auto
  qed
qed

lemma fill_resources_filling:
  assumes "store_ok h" "filling h h'" "list_all (\<lambda>(lng, ns). plain_key h (unhash lng)) ps"
  shows "\<exists>h''. fill_resources bundle (length h) ps h' = Inr h'' \<and> filling h h''"
  using assms(2,3)
proof (induction ps arbitrary: h')
  case (Cons p ps)
  obtain lng ns where p: "p = (lng, ns)" by (cases p)
  obtain h1 where "setPath h' (length h) [lng, ns] (bundle lng ns) = Inr h1" "filling h h1"
    using setPath_filling [OF assms(1) Cons.prems(1), of lng ns "bundle lng ns"] Cons.prems(2)
    by (auto simp: p simp del: setPath.simps)
  then show ?case using Cons.IH [of h1] Cons.prems(2) by (auto simp: p simp del: setPath.simps)
qed auto

lemma fold_extend: "\<exists>added. fold (\<lambda>ns known. if ns \<in> set known then known else known @ [ns]) namespaces known = known @ added
    \<and> distinct added \<and> set added = set namespaces - set known"
proof (induction namespaces arbitrary: known)
  case (Cons ns namespaces)
  show ?case
  proof (cases "ns \<in> set known")
    case True
    then show ?thesis using Cons.IH [of known] by (auto simp: insert_Diff_if)
  next
    case False
    obtain added where "fold (\<lambda>ns known. if ns \<in> set known then known else known @ [ns]) namespaces (known @ [ns])
        = (known @ [ns]) @ added" "distinct added" "set added = set namespaces - set (known @ [ns])"
      using Cons.IH by blast
    then show ?thesis using False by (intro exI [of _ "ns # added"]) auto
  qed
qed simp

section \<open>Properties\<close>

text \<open>C25: what a request for translations writes.  When its languages are no inherited keys it is answered
  with a new object, every other object of the store is as it was, and the one thing of the program it
  changes is the list of namespaces in the options of i18next: each name the client sent that was not
  there is added, once, whatever it is.  A request for the language
  \<^verbatim>\<open>__proto__\<close> writes the members that the client names into the prototype
  of all objects.\<close>

theorem locales_and_prototypes:
  assumes "store_ok h"
  shows "(list_all (\<lambda>l. plain_key h (unhash l)) (query_list lng) \<longrightarrow>
      (\<exists>h' added. get_locales bundle lng ns (Some known) h = (Some (known @ added), Inr (h', length h)) \<and> take (length h) h' = h
        \<and> distinct added \<and> set added = set (query_list ns) - set known))
    \<and> (split_on (CHR '' '') key = [key] \<and> key \<noteq> [] \<and> unhash key \<noteq> proto_key \<longrightarrow>
      (\<exists>h'. snd (get_locales bundle (Some proto_key) (Some key) (Some known) h) = Inr (h', length h)
        \<and> map_get (jo_own (h' ! 0)) (unhash key) = Some (bundle proto_key key)))"
proof (intro conjI impI)
  assume safe: "list_all (\<lambda>l. plain_key h (unhash l)) (query_list lng)"
  have "list_all (\<lambda>(l, n). plain_key h (unhash l)) (List.product (query_list lng) (query_list ns))"
    using safe by (auto simp: list_all_iff)
  from fill_resources_filling [OF assms filling_new this]
  obtain h' where "fill_resources bundle (length h) (List.product (query_list lng) (query_list ns)) (h @ [new_object]) = Inr h'"
    "filling h h'" by blast
  then show "\<exists>h' added. get_locales bundle lng ns (Some known) h = (Some (known @ added), Inr (h', length h))
      \<and> take (length h) h' = h \<and> distinct added \<and> set added = set (query_list ns) - set known"
    using fold_extend [of "query_list ns" known]
    by (auto simp: get_locales_def Let_def filling_def res_bind_def extend_namespaces_def)
next
  assume key: "split_on (CHR '' '') key = [key] \<and> key \<noteq> [] \<and> unhash key \<noteq> proto_key"
  have p: "unhash proto_key = proto_key" "split_on (CHR '' '') proto_key = [proto_key]" "proto_key \<noteq> []"
    by (simp_all add: proto_key_def)
  have h: "0 < length h" using assms by (simp add: store_ok_def)
  have "get_member (h @ [new_object]) (length h) proto_key = Ref 0"
    by (simp add: get_member_def new_object_def)
  then have "setPath (h @ [new_object]) (length h) [proto_key, key] v =
      Inr (set_member (h @ [new_object]) 0 (unhash key) v)" for v
    by (simp add: p)
  moreover have "map_get (jo_own (set_member (h @ [new_object]) 0 (unhash key) v ! 0)) (unhash key) = Some v" for v
    using key h by (simp add: set_member_def)
  ultimately show "\<exists>h'. snd (get_locales bundle (Some proto_key) (Some key) (Some known) h) = Inr (h', length h)
      \<and> map_get (jo_own (h' ! 0)) (unhash key) = Some (bundle proto_key key)"
    using key by (simp add: get_locales_def Let_def query_list_def p res_bind_def)
qed

section \<open>Witnesses\<close>

definition sample_store :: heap where
  "sample_store = [\<lparr> jo_own = [(''toString'', Ref 1)], jo_proto = None \<rparr>, \<lparr> jo_own = [], jo_proto = Some 0 \<rparr>]"

lemma locales_and_prototypes_witness:
  "(\<exists>h' added. get_locales (\<lambda>_ _. Undefined) (Some ''en hu'') (Some ''common x'') (Some [''common'']) sample_store
        = (Some (''common'' # added), Inr (h', 2))
      \<and> take 2 h' = sample_store \<and> set added = {''x''})
    \<and> (\<exists>h'. snd (get_locales (\<lambda>_ _. Undefined) (Some proto_key) (Some ''toString'') (Some [''common'']) sample_store) = Inr (h', 2)
      \<and> map_get (jo_own (h' ! 0)) ''toString'' = Some Undefined)"
proof -
  have ok: "store_ok sample_store" by (simp add: store_ok_def sample_store_def)
  have l: "length sample_store = 2" by (simp add: sample_store_def)
  have q: "list_all (\<lambda>l. plain_key sample_store (unhash l)) (query_list (Some ''en hu''))"
    by (simp add: query_list_def plain_key_def proto_key_def sample_store_def map_get_def)
  have ns: "set (query_list (Some ''common x'')) - set [''common''] = {''x''}"
    by (auto simp: query_list_def)
  from locales_and_prototypes [OF ok, of "Some ''en hu''" "\<lambda>_ _. Undefined" "Some ''common x''" "[''common'']" "''toString''", unfolded l] q ns
  show ?thesis by (simp add: proto_key_def) blast
qed

end
