(* ===== verification/Gateway.thy ===== *)
theory Gateway
  imports Middleware JsMath JsDate TimePeriod
begin

text \<open>
  The smaller parts of the gateway: \<^verbatim>\<open>middlewares/find-entity.middleware.js\<close>
  and the mixins \<^verbatim>\<open>board-validators\<close>,
  \<^verbatim>\<open>next-position\<close>, \<^verbatim>\<open>cache-cleaner\<close>,
  \<^verbatim>\<open>apollo\<close> and \<^verbatim>\<open>db\<close> of
  \<^verbatim>\<open>mixins/\<close>.  The entities of a service, its cache and the functions of the
  packages are parameters.
\<close>

section \<open>The entity of an action\<close>

text \<open>Scopes and populates are values of the service and stay abstract.\<close>

record ('s, 'p) entity_action =
  ea_needEntity :: bool
  ea_scopes :: "'s option"
  ea_defaultPopulate :: "'p option"

record ('s, 'p) entity_query =
  eq_id :: "string option"
  eq_scope :: "'s option"
  eq_populate :: "'p option"

definition FindEntityMiddleware ::
  "(('s, 'p) entity_query \<Rightarrow> entity result) \<Rightarrow> ('s, 'p) entity_action \<Rightarrow> string option \<Rightarrow> 's option
   \<Rightarrow> (request_context \<Rightarrow> 'r result) \<Rightarrow> request_context \<Rightarrow> 'r result" where
  "FindEntityMiddleware resolveEntities action param_id param_scope handler ctx =
     (if ea_needEntity action then
        res_bind (resolveEntities \<lparr> eq_id = param_id,
            eq_scope = (case ea_scopes action of Some sc \<Rightarrow> Some sc | None \<Rightarrow> param_scope),
            eq_populate = ea_defaultPopulate action \<rparr>)
          (\<lambda>e. handler (ctx\<lparr> cx_entity := Some e \<rparr>))
      else handler ctx)"

section \<open>Validators\<close>

text \<open>A validator resolves to true, or to the message of the error.\<close>

definition validateBoard :: "(string \<Rightarrow> string \<Rightarrow> unit result) \<Rightarrow> string \<Rightarrow> bool + string option" where
  "validateBoard call value' = (case call ''v1.boards.resolve'' value' of Inr _ \<Rightarrow> Inl True | Inl e \<Rightarrow> Inr (message_of e))"

definition validateList :: "(string \<Rightarrow> string \<Rightarrow> unit result) \<Rightarrow> string \<Rightarrow> bool + string option" where
  "validateList call value' = (case call ''v1.lists.resolve'' value' of Inr _ \<Rightarrow> Inl True | Inl e \<Rightarrow> Inr (message_of e))"

section \<open>Positions\<close>

text \<open>The positions of the rows that are found.\<close>

definition getNextPosition :: "jsnum list result \<Rightarrow> jsnum result" where
  "getNextPosition rows =
     res_bind rows (\<lambda>ps. Inr (num_add (foldl (\<lambda>a p. math_max [a, p]) (Num 0) ps) (Num 1)))"

section \<open>Cleaning the cache\<close>

text \<open>The events and what each cleans: a pattern of keys, if there is a cache.\<close>

definition cache_cleaner :: "string \<Rightarrow> bool \<Rightarrow> string list \<Rightarrow> (string, string option) jsmap" where
  "cache_cleaner fullName cacher_set eventNames =
     fold (\<lambda>name. map_set name (if cacher_set then Some (fullName @ ''.**'') else None)) eventNames []"

section \<open>GraphQL\<close>

datatype date_input = NumberInput jsnum | TextInput string

definition date_parseValue :: "(string \<Rightarrow> jsdate) \<Rightarrow> date_input \<Rightarrow> jsdate" where
  "date_parseValue parse value' =
     (case value' of NumberInput x \<Rightarrow> new_date x | TextInput s \<Rightarrow> parse_iso parse s)"

definition date_serialize :: "jsdate \<Rightarrow> jsnum" where
  "date_serialize d = num_of_date d"

text \<open>An integer literal is read as a number, any other literal as null.\<close>

definition date_parseLiteral :: "string \<Rightarrow> string \<Rightarrow> jsnum option" where
  "date_parseLiteral kind value' = (if kind = ''IntValue'' then Some (parse_int10 value') else None)"

text \<open>The parameters and their member input, if it is truthy.\<close>

definition ends_with :: "string \<Rightarrow> string \<Rightarrow> bool" where
  "ends_with s t \<longleftrightarrow> length t \<le> length s \<and> drop (length s - length t) s = t"

definition prepareContextParams :: "('p \<Rightarrow> 'p option) \<Rightarrow> 'p \<Rightarrow> string \<Rightarrow> 'p" where
  "prepareContextParams input params actionName =
     (case input params of
        Some i \<Rightarrow> if list_ex (\<lambda>m. ends_with actionName m) [''.create'', ''.update'', ''.replace''] then i else params
      | None \<Rightarrow> params)"

section \<open>Database services\<close>

type_synonym environment = "string \<Rightarrow> string option"

definition is_set :: "environment \<Rightarrow> string \<Rightarrow> bool" where
  "is_set env name \<longleftrightarrow> env name \<notin> {None, Some []}"

definition testing :: "environment \<Rightarrow> bool" where
  "testing env \<longleftrightarrow> env ''NODE_ENV'' = Some ''test''"

text \<open>The salt of the ids: random in tests, unless the variable of the token salt is set.\<close>

definition db_environment :: "string \<Rightarrow> environment \<Rightarrow> environment" where
  "db_environment random env =
     (if \<not> is_set env ''TOKEN_SALT'' \<and> (testing env \<or> is_set env ''TEST_E2E'')
      then env(''HASHID_SALT'' \<mapsto> random) else env)"

text \<open>The adapter of a service whose options name none; one in the options wins.  The folder of a file is
  made.\<close>

datatype db_adapter = NeDB | NeDBFile string | MongoDB string string

definition default_adapter :: "(string \<Rightarrow> string) \<Rightarrow> (string \<Rightarrow> string \<Rightarrow> string) \<Rightarrow> environment \<Rightarrow> string \<Rightarrow> db_adapter" where
  "default_adapter resolve path_join env collection =
     (if (testing env \<and> \<not> is_set env ''TEST_INT'') \<or> is_set env ''ONLY_GENERATE'' then NeDB
      else if is_set env ''NEDB_FOLDER'' then
        NeDBFile (path_join (resolve (the (env ''NEDB_FOLDER''))) (collection @ ''.db''))
      else MongoDB (if is_set env ''POSTGRES_HOST'' then the (env ''POSTGRES_HOST'') else ''postgresd'') collection)"

text \<open>Creating the service without a salt ends the broker.\<close>

definition db_created :: "environment \<Rightarrow> bool" where
  "db_created env = is_set env ''HASHID_SALT''"

datatype db_step = CreateIndexes | ClearEntities | CountEntities | SeedDB

record db_service =
  ds_createIndexes :: "unit result"
  ds_clearEntities :: "unit result"
  ds_countEntities :: "nat result"
  ds_seedDB :: "unit result option"

text \<open>The steps that are begun, in order, and how the start ends.\<close>

definition db_started :: "environment \<Rightarrow> db_service \<Rightarrow> db_step list \<times> unit result" where
  "db_started env svc =
     (let indexes = (if testing env then [] else [CreateIndexes]);
          clear = is_set env ''TEST_E2E'' \<or> is_set env ''TEST_INT'';
          steps = indexes @ (if clear then [ClearEntities] else [])
      in case (if clear then ds_clearEntities svc else Inr ()) of
           Inl e \<Rightarrow> (steps, Inl e)
         | Inr _ \<Rightarrow>
             (case ds_countEntities svc of
                Inl e \<Rightarrow> (steps @ [CountEntities], Inl e)
              | Inr count \<Rightarrow>
                  (case (count = 0, ds_seedDB svc) of
                     (True, Some seed) \<Rightarrow> (steps @ [CountEntities, SeedDB], seed)
                   | _ \<Rightarrow> (steps @ [CountEntities], Inr ()))))"

section \<open>Properties\<close>

text \<open>The next position is one behind the last one, and the first is one.\<close>

theorem next_position_last:
  "\<exists>q. getNextPosition (Inr (map Num ps)) = Inr (Num q) \<and> 1 \<le> q \<and> (\<forall>p \<in> set ps. p + 1 \<le> q)
    \<and> (q = 1 \<or> q - 1 \<in> set ps)"
proof -
  have "\<exists>m. foldl (\<lambda>a p. math_max [a, p]) (Num a) (map Num ps) = Num m \<and> a \<le> m \<and> (\<forall>p \<in> set ps. p \<le> m)
      \<and> (m = a \<or> m \<in> set ps)" for a
  proof (induction ps arbitrary: a)
    case (Cons p ps)
    have step: "math_max [Num a, Num p] = Num (max a p)" by (simp add: Let_def max_def)
    obtain m where m: "foldl (\<lambda>a p. math_max [a, p]) (Num (max a p)) (map Num ps) = Num m" "max a p \<le> m"
      "\<forall>p \<in> set ps. p \<le> m" "m = max a p \<or> m \<in> set ps" using Cons.IH by blast
    have "m = a \<or> m \<in> set (p # ps)" using m(4) by (auto simp: max_def split: if_splits)
    with m(1-3) show ?case unfolding list.map foldl_Cons step by (intro exI [of _ m]) simp
  qed simp
  from this [of 0] obtain m where m: "foldl (\<lambda>a p. math_max [a, p]) (Num 0) (map Num ps) = Num m" "0 \<le> m"
    "\<forall>p \<in> set ps. p \<le> m" "m = 0 \<or> m \<in> set ps" by blast
  have "getNextPosition (Inr (map Num ps)) = Inr (Num (m + 1))"
    unfolding getNextPosition_def res_bind_def sum.case m(1) by simp
  with m(2-4) show ?thesis by (intro exI [of _ "m + 1"]) auto
qed

text \<open>A date survives its way to a client and back: what is sent for it is read as the same
  date.  A literal in a query is the exception: it is read as a number, which is no Date.\<close>

theorem graphql_date_roundtrip:
  assumes "\<bar>t\<bar> \<le> max_time"
  shows "date_parseValue parse (NumberInput (date_serialize (Some t))) = Some t
    \<and> (list_all is_digit ds \<and> ds \<noteq> [] \<longrightarrow> date_parseLiteral ''IntValue'' ds = Some (Num (of_int (dec_val ds))))"
proof
  show "date_parseValue parse (NumberInput (date_serialize (Some t))) = Some t"
    using assms by (simp add: date_parseValue_def date_serialize_def num_of_date_def time_clip_def)
  have "date_parseLiteral ''IntValue'' ds = Some (Num (of_int (dec_val ds)))" if d: "list_all is_digit ds" "ds \<noteq> []"
  proof -
    obtain c r where ds: "ds = c # r" using d(2) by (cases ds) auto
    have "trim_start ds = ds" "takeWhile is_digit ds = ds" "c \<noteq> CHR ''-''" "c \<noteq> CHR ''+''"
      using d(1) is_digit_not_space digit_not_special
      by (auto simp: ds trim_start_def takeWhile_eq_all_conv list_all_iff)
    then show ?thesis by (simp add: date_parseLiteral_def parse_int10_def Let_def ds)
  qed
  then show "list_all is_digit ds \<and> ds \<noteq> [] \<longrightarrow> date_parseLiteral ''IntValue'' ds = Some (Num (of_int (dec_val ds)))"
    by blast
qed

text \<open>A database service that starts clears its collection before it counts, when the environment
  asks for it, and seeds exactly an empty collection.\<close>

theorem db_starts:
  assumes "ds_clearEntities svc = Inr ()" "ds_countEntities svc = Inr n" "ds_seedDB svc = Some (Inr ())"
  shows "db_started env svc =
    ((if testing env then [] else [CreateIndexes])
      @ (if is_set env ''TEST_E2E'' \<or> is_set env ''TEST_INT'' then [ClearEntities] else [])
      @ [CountEntities] @ (if n = 0 then [SeedDB] else []), Inr ())"
  using assms by (simp add: db_started_def Let_def)

text \<open>In tests a configured salt is replaced unless the salt of the tokens is configured too.\<close>

theorem db_salt_replaced:
  "\<not> is_set env ''TOKEN_SALT'' \<Longrightarrow> testing env \<Longrightarrow> db_environment random env ''HASHID_SALT'' = Some random"
  by (simp add: db_environment_def)

section \<open>Witnesses\<close>

lemma graphql_date_roundtrip_witness:
  "date_parseValue (\<lambda>_. None) (NumberInput (date_serialize (Some 1651363200000))) = Some 1651363200000
    \<and> date_parseLiteral ''IntValue'' ''15'' = Some (Num 15)"
  using graphql_date_roundtrip [of 1651363200000 "\<lambda>_. None" "''15''"]
  by (simp add: max_time_def is_digit_def dec_val_def digit_val_def)

end
