(* ===== verification/Generators.thy ===== *)
theory Generators
  imports OpenApi MarketData
begin

text \<open>
  The middlewares that write files when the broker starts:
  \<^verbatim>\<open>middlewares/prometheus-file-generator.middleware.js\<close> (the list of
  targets to scrape) and \<^verbatim>\<open>docker-compose-generator.middleware.js\<close> (a file
  with a container per service).  The registry, lodash, the paths and the writing itself are
  parameters; what is written is a value.
\<close>

section \<open>Targets\<close>

record registry_node =
  nd_id :: string
  nd_hostname :: string

record prometheus_options =
  po_filename :: string
  po_jobName :: string
  po_port :: string

record prometheus_target =
  pt_job :: string
  pt_nodeID :: string
  pt_targets :: "string list"

definition prometheus_defaults :: prometheus_options where
  "prometheus_defaults = \<lparr> po_filename = ''./monitoring/prometheus/targets.json'', po_jobName = ''kantab'', po_port = ''3030'' \<rparr>"

definition is_cli :: "registry_node \<Rightarrow> bool" where
  "is_cli node \<longleftrightarrow> take 4 (nd_id node) = ''cli-''"

definition regenerateTargets :: "prometheus_options \<Rightarrow> registry_node list \<Rightarrow> prometheus_target list" where
  "regenerateTargets opts nodeList =
     map (\<lambda>node. \<lparr> pt_job = (if po_jobName opts = [] then nd_hostname node else po_jobName opts), pt_nodeID = nd_id node,
            pt_targets = [nd_hostname node @ '':'' @ po_port opts] \<rparr>)
       (filter (\<lambda>node. \<not> is_cli node) nodeList)"

text \<open>The files that are written: one at the start and one after every node that connects or
  disconnects, over the list of nodes the registry gives at that moment.  A file that cannot be
  written is logged.\<close>

fun prometheus_run ::
  "prometheus_options \<Rightarrow> (nat \<Rightarrow> bool) \<Rightarrow> nat \<Rightarrow> registry_node list list \<Rightarrow> prometheus_target list list" where
  "prometheus_run opts writable n [] = []"
| "prometheus_run opts writable n (nodes # changes) =
     (if writable n then [regenerateTargets opts nodes] else []) @ prometheus_run opts writable (Suc n) changes"

section \<open>Containers\<close>

datatype compose_setting = ComposeOff | ComposeUnset | Compose "json option" "string option"

record compose_common =
  cc_root :: "json option"
  cc_serviceBaseDir :: "string option"
  cc_serviceTemplate :: "json option"

record compose_service =
  cv_name :: string
  cv_fullName :: string
  cv_filename :: string
  cv_compose :: compose_setting

text \<open>Functions of paths and of lodash: \<^verbatim>\<open>defaultsDeep\<close> of an empty object,
  a template and the common template.\<close>

record compose_lib =
  cl_resolve :: "string \<Rightarrow> string"
  cl_relative :: "string \<Rightarrow> string \<Rightarrow> string"
  cl_defaults :: "json option \<Rightarrow> json option \<Rightarrow> (string \<times> json) list"

definition absent :: "json option \<Rightarrow> bool" where
  "absent j \<longleftrightarrow> j = None \<or> j = Some JNull"

definition word_char :: "char \<Rightarrow> bool" where
  "word_char c \<longleftrightarrow> is_digit c \<or> c = CHR ''_'' \<or> (65 \<le> (of_char c :: nat) \<and> (of_char c :: nat) \<le> 90)
     \<or> (97 \<le> (of_char c :: nat) \<and> (of_char c :: nat) \<le> 122)"

definition container_name :: "compose_service \<Rightarrow> string" where
  "container_name svc =
     (case cv_compose svc of
        Compose _ (Some (c # cs)) \<Rightarrow> c # cs
      | _ \<Rightarrow> map (\<lambda>c. if word_char c then c else CHR ''_'') (cv_fullName svc))"

definition skipped :: "compose_common \<Rightarrow> compose_service \<Rightarrow> bool" where
  "skipped common svc \<longleftrightarrow> cv_compose svc = ComposeOff
     \<or> (cv_compose svc = ComposeUnset \<and> \<not> json_truthy (cc_serviceTemplate common))
     \<or> (case cv_name svc of c # _ \<Rightarrow> c = CHR ''$'' | [] \<Rightarrow> False)"

text \<open>The container of a service: its template, with the file of the service in the environment
  unless the template names one.\<close>

definition container ::
  "compose_lib \<Rightarrow> string \<Rightarrow> compose_common \<Rightarrow> compose_service \<Rightarrow> (string \<times> json) list" where
  "container L baseDir common svc =
     (let schema = cl_defaults L (case cv_compose svc of Compose template _ \<Rightarrow> template | _ \<Rightarrow> None) (cc_serviceTemplate common);
          schema1 = (if absent (map_get schema ''environment'') then map_set ''environment'' (JObj []) schema else schema);
          env = the (map_get schema1 ''environment'')
      in if absent (json_get env ''SERVICES'') then
           let relPath = cl_relative L baseDir (cv_filename svc);
               path = map (\<lambda>c. if c = CHR 0x5C then CHR ''/'' else c) relPath
           in (case env of
                 JObj ms \<Rightarrow> map_set ''environment'' (JObj (map_set ''SERVICES'' (JStr path) ms)) schema1
               | _ \<Rightarrow> schema1)
         else schema1)"

text \<open>What is written: nothing without a root.\<close>

definition docker_compose ::
  "compose_lib \<Rightarrow> compose_common option \<Rightarrow> compose_service list \<Rightarrow> ((string \<times> json) list \<times> (string, json) jsmap) option" where
  "docker_compose L common services =
     (case common of
        None \<Rightarrow> None
      | Some c \<Rightarrow>
          (case cc_root c of
             Some (JObj res) \<Rightarrow>
               let old = (case map_get res ''services'' of Some (JObj ms) \<Rightarrow> ms | _ \<Rightarrow> []);
                   baseDir = (case cc_serviceBaseDir c of
                     Some (d # ds) \<Rightarrow> cl_resolve L (d # ds) | _ \<Rightarrow> cl_resolve L ''services'');
                   containers = fold (\<lambda>svc. map_set (container_name svc) (JObj (container L baseDir c svc)))
                     (filter (\<lambda>svc. \<not> skipped c svc) services) old
               in Some (map_set ''services'' (JObj containers) res, containers)
           | _ \<Rightarrow> None))"

section \<open>Properties\<close>

text \<open>The last file that could be written lists exactly the nodes of its moment that are no command line
  clients, each with its own port.\<close>

theorem prometheus_targets:
  assumes "writable (n + length before)" "\<And>k. n + length before < k \<Longrightarrow> \<not> writable k"
  shows "last (prometheus_run opts writable n (before @ nodes # after)) =
    map (\<lambda>node. \<lparr> pt_job = (if po_jobName opts = [] then nd_hostname node else po_jobName opts), pt_nodeID = nd_id node,
        pt_targets = [nd_hostname node @ '':'' @ po_port opts] \<rparr>)
      (filter (\<lambda>node. \<not> is_cli node) nodes)"
proof -
  have none: "prometheus_run opts writable k cs = []" if "\<And>j. k \<le> j \<Longrightarrow> \<not> writable j" for k cs
    using that by (induction cs arbitrary: k) auto
  have "\<exists>xs. prometheus_run opts writable n (before @ nodes # after) = xs @ [regenerateTargets opts nodes]"
    using assms
  proof (induction before arbitrary: n)
    case Nil
    then show ?case using none [of "Suc n" after] by simp
  next
    case (Cons b bs)
    then obtain xs where "prometheus_run opts writable (Suc n) (bs @ nodes # after) = xs @ [regenerateTargets opts nodes]"
      by fastforce
    then show ?case by simp
  qed
  then show ?thesis by (auto simp: regenerateTargets_def)
qed

text \<open>The containers are those of the root and one for every service that is not skipped; of two
  services with the same container name the last one is written.\<close>

theorem docker_compose_containers:
  assumes "docker_compose L (Some c) services = Some (file, containers)" "cc_root c = Some (JObj res)"
  shows "map_get containers n =
    (let same = filter (\<lambda>svc. container_name svc = n) (filter (\<lambda>svc. \<not> skipped c svc) services)
     in if same = [] then (case map_get res ''services'' of Some (JObj ms) \<Rightarrow> map_get ms n | _ \<Rightarrow> None)
        else Some (JObj (container L (case cc_serviceBaseDir c of
            Some (d # ds) \<Rightarrow> cl_resolve L (d # ds) | _ \<Rightarrow> cl_resolve L ''services'') c (last same))))"
proof -
  have f: "map_get (fold (\<lambda>b. map_set (f b) (g b)) bs m) y =
      (if filter (\<lambda>b. f b = y) bs = [] then map_get m y else Some (g (last (filter (\<lambda>b. f b = y) bs))))"
    for f :: "compose_service \<Rightarrow> string" and g :: "compose_service \<Rightarrow> json" and bs m y
    by (induction bs arbitrary: m) auto
  show ?thesis
    using assms unfolding docker_compose_def Let_def option.case json.case
    by (auto simp: f split: option.splits json.splits)
qed

end
