(* ===== verification/Broker.thy ===== *)
theory Broker
  imports Configuration Tables
begin

text \<open>
  \<^verbatim>\<open>moleculer.config.ts\<close>: the options of the broker and what it does when it is
  created; the data source of \<^verbatim>\<open>src/datasources/datasource.ts\<close>, the options
  of \<^verbatim>\<open>ormconfig.js\<close>, and
  \<^verbatim>\<open>src/datasources/secret_manager.ts\<close>.  The broker's retries are those of
  moleculer, an interface; the environment, the database and the secrets manager are parameters.
\<close>

section \<open>The options of the broker\<close>

record retry_policy =
  rp_enabled :: bool
  rp_retries :: nat
  rp_delay :: nat
  rp_maxDelay :: nat
  rp_factor :: nat

record breaker_options =
  cb_enabled :: bool
  cb_threshold :: real
  cb_minRequestCount :: nat
  cb_windowTime :: nat
  cb_halfOpenTime :: nat

record bulkhead_options =
  bh_enabled :: bool
  bh_concurrency :: nat
  bh_maxQueueSize :: nat

record trace_exporter =
  te_type :: string
  te_baseURL :: string
  te_insertKey :: string
  te_interval :: nat
  te_debug :: bool
  te_shared :: bool

record broker_options =
  bk_namespace :: string
  bk_nodeID :: "string option"
  bk_loggerType :: string
  bk_colors :: bool
  bk_moduleColors :: bool
  bk_formatter :: string
  bk_autoPadding :: bool
  bk_logLevel :: string
  bk_transporter :: "string option"
  bk_cacher :: string
  bk_serializer :: string
  bk_requestTimeout :: nat
  bk_retryPolicy :: retry_policy
  bk_maxCallLevel :: nat
  bk_heartbeatInterval :: nat
  bk_heartbeatTimeout :: nat
  bk_contextParamsCloning :: bool
  bk_tracking :: bool
  bk_shutdownTimeout :: nat
  bk_disableBalancer :: bool
  bk_strategy :: string
  bk_preferLocal :: bool
  bk_circuitBreaker :: breaker_options
  bk_bulkhead :: bulkhead_options
  bk_validator :: bool
  bk_metrics :: bool
  bk_tracing :: bool
  bk_exporter :: trace_exporter
  bk_internalServices :: bool
  bk_internalMiddlewares :: bool
  bk_middlewares :: "string list"
  bk_replCommands :: "string list option"

definition broker_config :: "process_env \<Rightarrow> broker_options" where
  "broker_config env =
     (let colors = (env ''LOG_COLORS'' = Some ''true'') in
      \<lparr> bk_namespace = ''volatility-services'', bk_nodeID = None,
        bk_loggerType = ''Console'', bk_colors = colors, bk_moduleColors = colors, bk_formatter = ''full'',
        bk_autoPadding = (env ''NODE_ENV'' \<noteq> Some ''production''),
        bk_logLevel = env_or env ''LOGLEVEL'' ''info'',
        bk_transporter = None, bk_cacher = ''Memory'', bk_serializer = ''JSON'',
        bk_requestTimeout = 10 * 1000,
        bk_retryPolicy = \<lparr> rp_enabled = True, rp_retries = 3, rp_delay = 100, rp_maxDelay = 1000, rp_factor = 2 \<rparr>,
        bk_maxCallLevel = 100, bk_heartbeatInterval = 10, bk_heartbeatTimeout = 120,
        bk_contextParamsCloning = False, bk_tracking = True, bk_shutdownTimeout = 10000,
        bk_disableBalancer = False, bk_strategy = ''RoundRobin'', bk_preferLocal = False,
        bk_circuitBreaker = \<lparr> cb_enabled = False, cb_threshold = 1 / 2, cb_minRequestCount = 20, cb_windowTime = 60,
          cb_halfOpenTime = 10 * 1000 \<rparr>,
        bk_bulkhead = \<lparr> bh_enabled = False, bh_concurrency = 10, bh_maxQueueSize = 100 \<rparr>,
        bk_validator = True, bk_metrics = False, bk_tracing = (env ''NODE_ENV'' = Some ''production''),
        bk_exporter = \<lparr> te_type = ''NewRelic'', te_baseURL = ''https://trace-api.newrelic.com'',
          te_insertKey = ''ba2e72fd105fd15c4f15fa19c8c86370FFFFNRAL'', te_interval = 5, te_debug = False, te_shared = False \<rparr>,
        bk_internalServices = True, bk_internalMiddlewares = True, bk_middlewares = [], bk_replCommands = None \<rparr>)"

text \<open>The flag of an error is a field moleculer gives it.\<close>

definition retry_check :: "(err_class \<Rightarrow> err_class \<Rightarrow> bool) \<Rightarrow> (thrown \<Rightarrow> bool) \<Rightarrow> thrown \<Rightarrow> bool" where
  "retry_check isa retryable err \<longleftrightarrow> instance_of isa err MoleculerRetryableErrorClass \<and> retryable err"

text \<open>The process is started by \<^verbatim>\<open>moleculer-runner\<close>, which lets variables of the
  environment overwrite the options of the file, as its header says:
  \<^verbatim>\<open>RETRYPOLICY_RETRIES=10\<close> is ten retries.  The runner is an interface, of which the
  number of retries and the switch of the policy are used.\<close>

locale runner =
  fixes overwrite :: "process_env \<Rightarrow> broker_options \<Rightarrow> broker_options"
  assumes retries_kept: "env ''RETRYPOLICY_RETRIES'' = None \<Longrightarrow>
      rp_retries (bk_retryPolicy (overwrite env options)) = rp_retries (bk_retryPolicy options)"
    and retries_overwritten: "env ''RETRYPOLICY_RETRIES'' = Some digits \<Longrightarrow> digits \<noteq> [] \<Longrightarrow> list_all is_digit digits \<Longrightarrow>
      rp_retries (bk_retryPolicy (overwrite env options)) = nat (dec_val digits)"
    and enabled_kept: "env ''RETRYPOLICY_ENABLED'' = None \<Longrightarrow>
      rp_enabled (bk_retryPolicy (overwrite env options)) = rp_enabled (bk_retryPolicy options)"
    and enabled_overwritten: "env ''RETRYPOLICY_ENABLED'' = Some v \<Longrightarrow> v \<in> {''true'', ''false''} \<Longrightarrow>
      rp_enabled (bk_retryPolicy (overwrite env options)) = (v = ''true'')"

definition overwrite_policy :: "process_env \<Rightarrow> broker_options \<Rightarrow> broker_options" where
  "overwrite_policy env options =
     options\<lparr> bk_retryPolicy := (bk_retryPolicy options)
       \<lparr> rp_retries := (case env ''RETRYPOLICY_RETRIES'' of
             Some v \<Rightarrow> (if v \<noteq> [] \<and> list_all is_digit v then nat (dec_val v) else rp_retries (bk_retryPolicy options))
           | None \<Rightarrow> rp_retries (bk_retryPolicy options)),
         rp_enabled := (case env ''RETRYPOLICY_ENABLED'' of
             Some v \<Rightarrow> v = ''true'' | None \<Rightarrow> rp_enabled (bk_retryPolicy options)) \<rparr> \<rparr>"

interpretation moleculer_runner: runner overwrite_policy
  by unfold_locales (auto simp: overwrite_policy_def)

text \<open>Creating the broker: the two variables are read first, then the data source is initialized in
  the background; a data source that cannot be ends the process.\<close>

datatype broker_start = NotCreated thrown | DatabaseFatal thrown | DatabaseInitialized

definition broker_created :: "process_env \<Rightarrow> unit result \<Rightarrow> broker_start" where
  "broker_created env initialize =
     (case res_bind (ensure env ''stage'' None) (\<lambda>_. ensure env ''environment'' None) of
        Inl e \<Rightarrow> NotCreated e
      | Inr _ \<Rightarrow> (case initialize of Inl e \<Rightarrow> DatabaseFatal e | Inr _ \<Rightarrow> DatabaseInitialized))"

definition broker_stopped :: "unit result \<Rightarrow> unit result" where
  "broker_stopped destroy = (case destroy of Inl _ \<Rightarrow> Inr () | Inr _ \<Rightarrow> Inr ())"

section \<open>Retries\<close>

text \<open>What moleculer documents of the retries of a call: the n-th attempt answers with
  \<open>f n\<close>; a failure for which the check holds is tried again until the retries are used up.  The
  answer comes with the number of attempts.  A policy that is switched off never tries again.\<close>

locale retrying =
  fixes run :: "nat \<Rightarrow> (thrown \<Rightarrow> bool) \<Rightarrow> (nat \<Rightarrow> 'a result) \<Rightarrow> 'a result \<times> nat"
  assumes stops: "k \<le> retries \<Longrightarrow> (\<And>j. j < k \<Longrightarrow> \<exists>e. f j = Inl e \<and> again e)
      \<Longrightarrow> k = retries \<or> (\<forall>e. f k = Inl e \<longrightarrow> \<not> again e) \<Longrightarrow> run retries again f = (f k, Suc k)"
begin

lemma always_failing:
  assumes "\<And>k. k \<le> retries \<Longrightarrow> f k = Inl e"
  shows "run retries again f = (Inl e, if again e then Suc retries else 1)"
  using stops [of retries retries f again] stops [of 0 retries f again] assms by auto

lemma succeeding: "f 0 = Inr v \<Longrightarrow> run retries again f = (Inr v, 1)"
  using stops [of 0 retries f again] by auto

end

fun attempts :: "nat \<Rightarrow> (thrown \<Rightarrow> bool) \<Rightarrow> (nat \<Rightarrow> 'a result) \<Rightarrow> 'a result \<times> nat" where
  "attempts 0 again f = (f 0, 1)"
| "attempts (Suc n) again f =
     (case f 0 of
        Inl e \<Rightarrow> if again e then (case attempts n again (\<lambda>k. f (Suc k)) of (r, m) \<Rightarrow> (r, Suc m)) else (Inl e, 1)
      | Inr v \<Rightarrow> (Inr v, 1))"

lemma attempts_stops:
  "k \<le> retries \<Longrightarrow> (\<And>j. j < k \<Longrightarrow> \<exists>e. f j = Inl e \<and> again e)
    \<Longrightarrow> k = retries \<or> (\<forall>e. f k = Inl e \<longrightarrow> \<not> again e) \<Longrightarrow> attempts retries again f = (f k, Suc k)"
proof (induction retries again f arbitrary: k rule: attempts.induct)
  case (2 n again f)
  show ?case
  proof (cases k)
    case 0
    then show ?thesis using "2.prems"(3) by (auto split: sum.split)
  next
    case (Suc j)
    obtain e where e: "f 0 = Inl e" "again e" using "2.prems"(2) [of 0] Suc by auto
    have "attempts n again (\<lambda>k. f (Suc k)) = (f (Suc j), Suc j)"
      using "2.IH" [OF e, of j] "2.prems" Suc by auto
    then show ?thesis using e Suc by simp
  qed
qed auto

interpretation moleculer_retry: retrying attempts
  by unfold_locales (rule attempts_stops)

definition retried :: "(nat \<Rightarrow> (thrown \<Rightarrow> bool) \<Rightarrow> (nat \<Rightarrow> 'a result) \<Rightarrow> 'a result \<times> nat) \<Rightarrow> retry_policy
    \<Rightarrow> (thrown \<Rightarrow> bool) \<Rightarrow> (nat \<Rightarrow> 'a result) \<Rightarrow> 'a result \<times> nat" where
  "retried run policy again f = (if rp_enabled policy then run (rp_retries policy) again f else (f 0, 1))"

section \<open>Data sources\<close>

record data_source =
  dt_type :: string
  dt_host :: string
  dt_port :: jsnum
  dt_username :: string
  dt_password :: string
  dt_logging :: "string option"
  dt_database :: string
  dt_synchronize :: bool
  dt_entities :: "string list"

text \<open>The first variable that is set to more than the empty text.\<close>

fun first_set :: "process_env \<Rightarrow> string list \<Rightarrow> string \<Rightarrow> string" where
  "first_set env [] otherwise = otherwise"
| "first_set env (v # vs) otherwise =
     (case env v of Some (c # cs) \<Rightarrow> c # cs | _ \<Rightarrow> first_set env vs otherwise)"

definition logging_of :: "process_env \<Rightarrow> string option" where
  "logging_of env = (case env ''TYPEORM_LOGGING'' of Some (c # cs) \<Rightarrow> Some (c # cs) | _ \<Rightarrow> None)"

definition AppDataSource :: "process_env \<Rightarrow> data_source" where
  "AppDataSource env =
     \<lparr> dt_type = ''postgres'',
       dt_host = first_set env [''POSTGRESQL_HOST'', ''POSTGRES_HOST'', ''PG_HOST''] ''localhost'',
       dt_port = string_to_number (first_set env [''POSTGRESQL_PORT''] ''5432''),
       dt_username = first_set env [''POSTGRESQL_USERNAME''] ''volatility'',
       dt_password = first_set env [''POSTGRESQL_PASSWORD''] ''supersecretpassword'',
       dt_logging = logging_of env,
       dt_database = first_set env [''POSTGRESQL_DATABASE''] (''volatility_'' @ env_or env ''NODE_ENV'' ''test''),
       dt_synchronize = (\<not> (env ''NODE_ENV'' = Some ''production'' \<or> env ''TYPEORM_SYNCRONIZE'' = Some ''false'')),
       dt_entities = [''trade_options'', ''trade_pairs'', ''rates'', ''methodology_indices'', ''auth_tokens'',
         ''fleek_transactions'', ''mfiv_indices''] \<rparr>"

text \<open>The options of the command line tool.  The port is not converted; the entities are files, which
  stand here for their tables, unless the environment names one.\<close>

definition ormconfig :: "process_env \<Rightarrow> data_source" where
  "ormconfig env =
     \<lparr> dt_type = first_set env [''DATASOURCE_TYPE''] ''postgres'',
       dt_host = first_set env [''POSTGRESQL_HOST'', ''POSTGRES_HOST'', ''PG_HOST''] ''localhost'',
       dt_port = string_to_number (first_set env [''POSTGRESQL_PORT''] ''5432''),
       dt_username = first_set env [''POSTGRESQL_USERNAME''] ''volatility'',
       dt_password = first_set env [''POSTGRESQL_PASSWORD''] ''supersecretpassword'',
       dt_logging = logging_of env,
       dt_database = first_set env [''POSTGRESQL_DATABASE''] (''volatility_'' @ env_or env ''NODE_ENV'' ''test''),
       dt_synchronize = True,
       dt_entities = (case env ''TYPEORM_ENTITIES'' of
           Some (c # cs) \<Rightarrow> [c # cs]
         | _ \<Rightarrow> [''fleek_transactions'', ''methodology_indices'', ''rates'', ''trade_pairs'']) \<rparr>"

section \<open>Secrets\<close>

text \<open>The answer of the secrets manager: an error with its code, or a response whose secret may be
  missing.  What the callback throws leaves the promise without an answer.\<close>

datatype 'v promise = Resolved 'v | Rejected thrown | NeverSettled thrown

definition FetchSecret :: "(string \<Rightarrow> 'v result) \<Rightarrow> thrown + string option \<Rightarrow> 'v promise" where
  "FetchSecret parse answer =
     (case answer of
        Inl err \<Rightarrow> Rejected err
      | Inr None \<Rightarrow> NeverSettled (js_error ''The secrets manager returned an undefined string instead of a json string. Check that configuration settings are correct.'')
      | Inr (Some secret) \<Rightarrow> (case parse secret of Inl e \<Rightarrow> NeverSettled e | Inr v \<Rightarrow> Resolved v))"

section \<open>Properties\<close>

lemma handled_retry:
  assumes "handleAsMoleculerError class_isa err = Inr e"
  shows "retry_check class_isa retryable e \<longleftrightarrow> instance_of class_isa err MoleculerRetryableErrorClass \<and> retryable err"
proof (cases "e = err")
  case False
  then have e: "e = ErrObj MoleculerErrorClass (super_message (message_of err)) (Some 500) (Some ''UNCATEGORIZED_ERROR'')"
    and n: "\<not> instance_of class_isa err MoleculerRetryableErrorClass"
    using assms by (auto simp: handleAsMoleculerError_def split: if_splits)
  have "\<not> class_isa MoleculerErrorClass MoleculerRetryableErrorClass" by (simp add: class_isa_def Let_def)
  then show ?thesis using n by (simp add: e retry_check_def instance_of_def)
qed (simp add: retry_check_def)

text \<open>The number of retries in an environment: that of \<^verbatim>\<open>RETRYPOLICY_RETRIES\<close>, else
  the three of the file.\<close>

definition retries_in :: "process_env \<Rightarrow> nat" where
  "retries_in env = (case env ''RETRYPOLICY_RETRIES'' of Some digits \<Rightarrow> nat (dec_val digits) | None \<Rightarrow> 3)"

text \<open>C26: how often an action runs that keeps failing, in every environment whose variables for the
  policy are a number and a truth value.  A call whose error, as the handlers of the services pass it
  on, was retryable for moleculer is made once and then as often as the environment says, three times
  if it does not; every other one is a single attempt, an error of the repository's own server class
  and any plain error among them, and so is every call where the policy is switched off.\<close>

theorem call_attempts:
  assumes "retrying run" "runner overwrite" "handleAsMoleculerError class_isa err = Inr e"
    and digits: "\<And>v. env ''RETRYPOLICY_RETRIES'' = Some v \<Longrightarrow> v \<noteq> [] \<and> list_all is_digit v"
    and switch: "env ''RETRYPOLICY_ENABLED'' \<in> {None, Some ''true'', Some ''false''}"
    and failing: "\<And>k. k \<le> retries_in env \<Longrightarrow> f k = Inl e"
  shows "retried run (bk_retryPolicy (overwrite env (broker_config env))) (retry_check class_isa retryable) f =
    (Inl e, if env ''RETRYPOLICY_ENABLED'' \<noteq> Some ''false'' \<and> instance_of class_isa err MoleculerRetryableErrorClass
        \<and> retryable err then Suc (retries_in env) else 1)"
proof -
  note laws = runner.retries_kept [OF assms(2)] runner.retries_overwritten [OF assms(2)]
    and switches = runner.enabled_kept [OF assms(2)] runner.enabled_overwritten [OF assms(2)]
  let ?p = "bk_retryPolicy (overwrite env (broker_config env))"
  have r: "rp_retries ?p = retries_in env"
    using digits laws
    by (cases "env ''RETRYPOLICY_RETRIES''") (auto simp: retries_in_def broker_config_def Let_def)
  have on: "rp_enabled ?p \<longleftrightarrow> env ''RETRYPOLICY_ENABLED'' \<noteq> Some ''false''"
    using switch switches(1) [of env "broker_config env"] switches(2) [of env _ "broker_config env"]
    by (auto simp: broker_config_def Let_def)
  have "f 0 = Inl e" using failing by simp
  then show ?thesis
    using retrying.always_failing [OF assms(1), of "retries_in env" f e "retry_check class_isa retryable"] failing
      handled_retry [OF assms(3)] by (simp add: retried_def r on)
qed

text \<open>The broker is created exactly when both variables are set, under their names in capitals.\<close>

theorem broker_creation:
  "(\<exists>e. broker_created env initialize = NotCreated e) \<longleftrightarrow> env ''STAGE'' = None \<or> env ''ENVIRONMENT'' = None"
proof -
  have u: "to_upper ''stage'' = ''STAGE''" "to_upper ''environment'' = ''ENVIRONMENT''"
    by (simp_all add: to_upper_def upper_char_def char_of_def bit_0)
  show ?thesis by (auto simp: broker_created_def ensure_def u res_bind_def Let_def split: option.splits sum.splits)
qed

text \<open>Every table the services write is an entity of the data source; the options of the command line
  tool miss the tokens, the options and the recorded indices, and always synchronize.\<close>

theorem data_source_tables:
  "set (dt_entities (AppDataSource env)) =
      set (map ta_name [auth_tokens, fleek_transactions, methodology_indices, mfiv_indices, rates, trade_options xs, trade_pairs xs])
    \<and> (env ''TYPEORM_ENTITIES'' = None \<longrightarrow>
        set (dt_entities (AppDataSource env)) - set (dt_entities (ormconfig env)) =
          set (map ta_name [auth_tokens, mfiv_indices, trade_options xs]))
    \<and> (dt_synchronize (AppDataSource env) \<longrightarrow> dt_synchronize (ormconfig env))"
proof (intro conjI impI)
  show "set (dt_entities (AppDataSource env)) =
      set (map ta_name [auth_tokens, fleek_transactions, methodology_indices, mfiv_indices, rates, trade_options xs, trade_pairs xs])"
    by (simp add: AppDataSource_def auth_tokens_def fleek_transactions_def methodology_indices_def mfiv_indices_def
        rates_def trade_options_def trade_pairs_def insert_commute)
  show "dt_synchronize (ormconfig env)" by (simp add: ormconfig_def)
  assume e: "env ''TYPEORM_ENTITIES'' = None"
  show "set (dt_entities (AppDataSource env)) - set (dt_entities (ormconfig env)) =
      set (map ta_name [auth_tokens, mfiv_indices, trade_options xs])"
    by (simp add: AppDataSource_def ormconfig_def e auth_tokens_def mfiv_indices_def trade_options_def) auto
qed

section \<open>Witnesses\<close>

lemma call_attempts_witness:
  "retried attempts (bk_retryPolicy (overwrite_policy [''RETRYPOLICY_RETRIES'' \<mapsto> ''10'']
      (broker_config [''RETRYPOLICY_RETRIES'' \<mapsto> ''10'']))) (retry_check class_isa (\<lambda>_. True))
      (\<lambda>_. Inl (ErrObj RequestTimeoutErrorClass [] None None) :: unit result) =
    (Inl (ErrObj RequestTimeoutErrorClass [] None None), 11)"
proof -
  let ?e = "ErrObj RequestTimeoutErrorClass [] None None"
  let ?env = "[''RETRYPOLICY_RETRIES'' \<mapsto> ''10'']"
  have r: "instance_of class_isa ?e MoleculerRetryableErrorClass"
    by (simp add: instance_of_def class_isa_def Let_def)
  then have h: "handleAsMoleculerError class_isa ?e = Inr ?e" by (simp add: handleAsMoleculerError_def)
  have n: "retries_in ?env = 10" by (simp add: retries_in_def dec_val_def digit_val_def)
  from call_attempts [OF moleculer_retry.retrying_axioms moleculer_runner.runner_axioms h, of ?env "\<lambda>_. Inl ?e" "\<lambda>_. True"] r n
  show ?thesis by (simp add: is_digit_def)
qed

end
