(* ===== verification/Channels.thy ===== *)
theory Channels
  imports Live WsSocket
begin

text \<open>
  The sockets of \<^verbatim>\<open>services/ws.service.ts\<close> in the running system of
  \<open>Live\<close>: clients connect with a key, send messages and leave, handlers do what they have to do
  one effect at a time, announced indices are published, and all of this interleaves with the
  messages of the exchange, the ticks of the rate service and the estimates.  The publish and
  subscribe of the server (uWebSockets) is a parameter with the interface \<open>pubsub\<close>.
\<close>

section \<open>Publish and subscribe\<close>

record ('m, 'a) hub_lib =
  hl_new :: 'a
  hl_publish :: "string \<Rightarrow> 'm \<Rightarrow> 'a \<Rightarrow> 'a"
  hl_subscribe :: "nat \<Rightarrow> string \<Rightarrow> 'a \<Rightarrow> 'a"
  hl_leave :: "nat \<Rightarrow> 'a \<Rightarrow> 'a"
  hl_subscribed :: "'a \<Rightarrow> nat \<Rightarrow> string \<Rightarrow> bool"
  hl_delivered :: "'a \<Rightarrow> nat \<Rightarrow> (string \<times> 'm) list"

text \<open>What is published: an index on its channel, or the body of a client's message.\<close>

datatype channel_message = IndexMessage index_data | ClientMessage string

text \<open>A message goes to the subscribers of its topic; slow receivers are skipped, as the library
  documents.  A closed socket has no subscriptions.\<close>

locale pubsub =
  fixes H :: "(channel_message, 'a) hub_lib"
  assumes fresh: "\<not> hl_subscribed H (hl_new H) i t" "hl_delivered H (hl_new H) i = []"
    and published: "hl_delivered H (hl_publish H t m a) i = hl_delivered H a i
      \<or> hl_subscribed H a i t \<and> hl_delivered H (hl_publish H t m a) i = hl_delivered H a i @ [(t, m)]"
    and publish_keeps: "hl_subscribed H (hl_publish H t m a) = hl_subscribed H a"
    and subscribe_keeps: "hl_delivered H (hl_subscribe H i t a) = hl_delivered H a"
    and subscribe_adds: "hl_subscribed H (hl_subscribe H i t a) j u \<longleftrightarrow> hl_subscribed H a j u \<or> j = i \<and> u = t"
    and leave_keeps: "hl_delivered H (hl_leave H i a) = hl_delivered H a"
    and leave_removes: "hl_subscribed H (hl_leave H i a) j u \<longleftrightarrow> hl_subscribed H a j u \<and> j \<noteq> i"
begin

lemma in_published: "x \<in> set (hl_delivered H (hl_publish H t m a) i) \<Longrightarrow>
    x \<in> set (hl_delivered H a i) \<or> x = (t, m) \<and> hl_subscribed H a i t"
  using published [of t m a i] by auto

end

text \<open>A server that keeps subscriptions and messages in lists; the sockets of \<open>slow\<close> are
  skipped.\<close>

record 'm hub =
  hb_topics :: "(nat \<times> string) list"
  hb_sent :: "(nat \<times> string \<times> 'm) list"

definition hub_publish :: "nat list \<Rightarrow> string \<Rightarrow> 'm \<Rightarrow> 'm hub \<Rightarrow> 'm hub" where
  "hub_publish slow t m a =
     a\<lparr> hb_sent := hb_sent a @ map (\<lambda>i. (i, t, m))
       (remdups (map fst (filter (\<lambda>(i, u). u = t \<and> i \<notin> set slow) (hb_topics a)))) \<rparr>"

definition list_hub :: "nat list \<Rightarrow> ('m, 'm hub) hub_lib" where
  "list_hub slow =
     \<lparr> hl_new = \<lparr> hb_topics = [], hb_sent = [] \<rparr>, hl_publish = hub_publish slow,
       hl_subscribe = (\<lambda>i t a. a\<lparr> hb_topics := (i, t) # hb_topics a \<rparr>),
       hl_leave = (\<lambda>i a. a\<lparr> hb_topics := filter (\<lambda>x. fst x \<noteq> i) (hb_topics a) \<rparr>),
       hl_subscribed = (\<lambda>a i t. (i, t) \<in> set (hb_topics a)),
       hl_delivered = (\<lambda>a i. map snd (filter (\<lambda>x. fst x = i) (hb_sent a))) \<rparr>"

lemma filter_one: "distinct xs \<Longrightarrow>
    map snd (filter (\<lambda>x. fst x = i) (map (\<lambda>j. (j, y)) xs)) = (if i \<in> set xs then [y] else [])"
  by (induction xs) auto

interpretation uws: pubsub "list_hub slow" for slow
proof unfold_locales
  fix t :: string and m and a :: "channel_message hub" and i
  let ?xs = "remdups (map fst (filter (\<lambda>(i, u). u = t \<and> i \<notin> set slow) (hb_topics a)))"
  show "hl_delivered (list_hub slow) (hl_publish (list_hub slow) t m a) i = hl_delivered (list_hub slow) a i
      \<or> hl_subscribed (list_hub slow) a i t
        \<and> hl_delivered (list_hub slow) (hl_publish (list_hub slow) t m a) i = hl_delivered (list_hub slow) a i @ [(t, m)]"
    using filter_one [of ?xs i "(t, m)"] by (auto simp: list_hub_def hub_publish_def split: if_splits)
qed (auto simp: list_hub_def hub_publish_def)

section \<open>The sockets\<close>

text \<open>\<^verbatim>\<open>rm_admitted\<close> and \<^verbatim>\<open>rm_heard\<close> are history: the requests
  of the sockets and the messages they have sent.\<close>

record ('a, 'c) rooms =
  rm_live :: "'c live"
  rm_app :: 'a
  rm_open :: "nat list"
  rm_jobs :: "(nat \<times> ws_effect list) list"
  rm_admitted :: "(nat \<times> http_request) list"
  rm_heard :: "(nat \<times> client_message) list"

definition new_rooms :: "(channel_message, 'a) hub_lib \<Rightarrow> 'c live \<Rightarrow> ('a, 'c) rooms" where
  "new_rooms H l = \<lparr> rm_live = l, rm_app = hl_new H, rm_open = [], rm_jobs = [], rm_admitted = [], rm_heard = [] \<rparr>"

text \<open>What an effect does to the server.  A channel that is no string is refused by
  \<^verbatim>\<open>subscribe\<close>, which throws; so is a closed socket; \<^verbatim>\<open>disconnect\<close>
  is no method of a socket.\<close>

fun act :: "(channel_message, 'a) hub_lib \<Rightarrow> nat \<Rightarrow> ws_effect \<Rightarrow> ('a, 'c) rooms \<Rightarrow> ('a, 'c) rooms" where
  "act H i (Published topic body) s = s\<lparr> rm_app := hl_publish H topic (ClientMessage body) (rm_app s) \<rparr>"
| "act H i (SubscribedTo (Present channel)) s =
     (if i \<in> set (rm_open s) then s\<lparr> rm_app := hl_subscribe H i channel (rm_app s) \<rparr> else s)"
| "act H i SocketClosed s = s\<lparr> rm_open := removeAll i (rm_open s), rm_app := hl_leave H i (rm_app s) \<rparr>"
| "act H i e s = s"

text \<open>The name of the event handler, \<^verbatim>\<open>MFIV.*.*.index.created\<close>: a star stands for
  one part.\<close>

definition listens :: "string \<Rightarrow> bool" where
  "listens event \<longleftrightarrow> (case split_on (CHR ''.'') event of
     [a, b, c, d, e] \<Rightarrow> a = ''MFIV'' \<and> d = ''index'' \<and> e = ''created''
   | _ \<Rightarrow> False)"

definition publish_index :: "(channel_message, 'a) hub_lib \<Rightarrow> mfiv_evidence \<Rightarrow> 'a \<Rightarrow> 'a" where
  "publish_index H ev a = (let (channel, msg) = index_created ev in hl_publish H channel (IndexMessage msg) a)"

section \<open>The steps\<close>

record ('c, 'abi, 'd) surroundings =
  wl_lib :: "'c cacher_lib"
  wl_combine :: "option_summary option result list \<Rightarrow> option_summary option list result"
  wl_save :: "rate_row \<Rightarrow> rate_row result"
  wl_name :: string
  wl_envs :: "'abi rate_env set"
  wl_query :: "string \<Rightarrow> (string, string) jsmap result"
  wl_tokens :: token_env
  wl_token_db :: "'d token_db"
  wl_token_states :: "('d \<times> int) set"
  wl_parse :: "string \<Rightarrow> client_message result"

text \<open>The server opens a socket when the authorization of its request succeeds, against the table of
  tokens as it is at that time.\<close>

definition let_in :: "('c, 'abi, 'd) surroundings \<Rightarrow> http_request \<Rightarrow> bool" where
  "let_in W req \<longleftrightarrow> (\<exists>(d, now) \<in> wl_token_states W. \<exists>d'.
     handleAuthorize (wl_query W) (tokens_service (wl_tokens W) (wl_token_db W) now) req d = Inr (True, d'))"

inductive rooms_step :: "('c, 'abi, 'd) surroundings \<Rightarrow> (channel_message, 'a) hub_lib \<Rightarrow> ('a, 'c) rooms \<Rightarrow> ('a, 'c) rooms \<Rightarrow> bool"
  for W H where
  Background: "live_step (wl_lib W) (wl_combine W) (wl_save W) (wl_name W) (wl_envs W) (rm_live s) l \<Longrightarrow>
    rooms_step W H s (s\<lparr> rm_live := l \<rparr>)"
| Connect: "let_in W req \<Longrightarrow> i \<notin> fst ` set (rm_admitted s) \<Longrightarrow>
    rooms_step W H s (s\<lparr> rm_open := i # rm_open s, rm_admitted := rm_admitted s @ [(i, req)],
      rm_jobs := rm_jobs s @ [(i, ws_open uid)] \<rparr>)"
| Hear: "i \<in> set (rm_open s) \<Longrightarrow> wl_parse W text = Inr q \<Longrightarrow>
    ws_message E num_str clock fuel validate now (wl_parse W) text topic = Some (effects, r) \<Longrightarrow>
    rooms_step W H s (s\<lparr> rm_heard := rm_heard s @ [(i, q)], rm_jobs := rm_jobs s @ [(i, effects)] \<rparr>)"
| Perform: "rm_jobs s = js @ (i, e # es) # ks \<Longrightarrow>
    rooms_step W H s (act H i e (s\<lparr> rm_jobs := js @ (i, es) # ks \<rparr>))"
| Leave: "i \<in> set (rm_open s) \<Longrightarrow> rooms_step W H s (act H i SocketClosed s)"
| Publish: "Announced event ev groups \<in> set (xs_effects (lv_index (rm_live s))) \<Longrightarrow> ''ws'' \<in> set groups \<Longrightarrow>
    listens event \<Longrightarrow> rooms_step W H s (s\<lparr> rm_app := publish_index H ev (rm_app s) \<rparr>)"

inductive rooms_reachable ::
  "('c, 'abi, 'd) surroundings \<Rightarrow> (channel_message, 'a) hub_lib \<Rightarrow> ('a, 'c) rooms \<Rightarrow> ('a, 'c) rooms \<Rightarrow> bool"
  for W H s0 where
  Start: "rooms_reachable W H s0 s0"
| Step: "rooms_reachable W H s0 s \<Longrightarrow> rooms_step W H s s' \<Longrightarrow> rooms_reachable W H s0 s'"

section \<open>The invariant\<close>

definition asked :: "('a, 'c) rooms \<Rightarrow> nat \<Rightarrow> string \<Rightarrow> bool" where
  "asked s i t \<longleftrightarrow> (\<exists>q. (i, q) \<in> set (rm_heard s) \<and> cm_type q = ''SUBSCRIBE'' \<and> cm_channel q = Present t)"

definition said :: "('a, 'c) rooms \<Rightarrow> string \<Rightarrow> bool" where
  "said s body \<longleftrightarrow> (\<exists>j q. (j, q) \<in> set (rm_heard s) \<and> cm_type q = ''CLIENT_MESSAGE'' \<and> cm_body q = body)"

definition genuine :: "('a, 'c) rooms \<Rightarrow> string \<Rightarrow> channel_message \<Rightarrow> bool" where
  "genuine s t m \<longleftrightarrow> (case m of
     IndexMessage x \<Rightarrow> \<exists>ev \<in> set (announced_evidence (xs_effects (lv_index (rm_live s)))). index_created ev = (t, x)
   | ClientMessage body \<Rightarrow> t = ''CLIENT_MESSAGE'' \<and> said s body)"

definition effect_ok :: "('a, 'c) rooms \<Rightarrow> nat \<Rightarrow> ws_effect \<Rightarrow> bool" where
  "effect_ok s i e \<longleftrightarrow> (\<forall>t. e = SubscribedTo (Present t) \<longrightarrow> asked s i t)
     \<and> (\<forall>t body. e = Published t body \<longrightarrow> t = ''CLIENT_MESSAGE'' \<and> said s body)"

definition jobs_ok :: "('a, 'c) rooms \<Rightarrow> (nat \<times> ws_effect list) list \<Rightarrow> bool" where
  "jobs_ok s jobs \<longleftrightarrow> (\<forall>(i, es) \<in> set jobs. \<forall>e \<in> set es. effect_ok s i e)"

definition hub_ok :: "(channel_message, 'a) hub_lib \<Rightarrow> ('a, 'c) rooms \<Rightarrow> 'a \<Rightarrow> bool" where
  "hub_ok H s a \<longleftrightarrow> (\<forall>i t. hl_subscribed H a i t \<longrightarrow> asked s i t)
     \<and> (\<forall>i. \<forall>(t, m) \<in> set (hl_delivered H a i). asked s i t \<and> genuine s t m)"

definition clients_ok :: "('c, 'abi, 'd) surroundings \<Rightarrow> ('a, 'c) rooms \<Rightarrow> bool" where
  "clients_ok W s \<longleftrightarrow> set (rm_open s) \<subseteq> fst ` set (rm_admitted s) \<and> fst ` set (rm_heard s) \<subseteq> fst ` set (rm_admitted s)
     \<and> (\<forall>(i, req) \<in> set (rm_admitted s). let_in W req)"

definition rooms_inv :: "('c, 'abi, 'd) surroundings \<Rightarrow> (channel_message, 'a) hub_lib \<Rightarrow> ('a, 'c) rooms \<Rightarrow> bool" where
  "rooms_inv W H s \<longleftrightarrow> hub_ok H s (rm_app s) \<and> jobs_ok s (rm_jobs s) \<and> clients_ok W s"

text \<open>What has been heard and announced only grows, and with it what is in order.\<close>

definition later :: "('a, 'c) rooms \<Rightarrow> ('a, 'c) rooms \<Rightarrow> bool" where
  "later s s' \<longleftrightarrow> set (rm_heard s) \<subseteq> set (rm_heard s')
     \<and> set (announced_evidence (xs_effects (lv_index (rm_live s))))
       \<subseteq> set (announced_evidence (xs_effects (lv_index (rm_live s'))))"

lemma asked_later: "later s s' \<Longrightarrow> asked s i t \<Longrightarrow> asked s' i t"
  unfolding later_def asked_def by blast

lemma said_later: "later s s' \<Longrightarrow> said s body \<Longrightarrow> said s' body"
  unfolding later_def said_def by blast

lemma genuine_later: "later s s' \<Longrightarrow> genuine s t m \<Longrightarrow> genuine s' t m"
  using said_later [of s s'] by (auto simp: genuine_def later_def split: channel_message.splits)

lemma hub_ok_later: "later s s' \<Longrightarrow> hub_ok H s a \<Longrightarrow> hub_ok H s' a"
  unfolding hub_ok_def by (fast intro: asked_later genuine_later)

lemma effect_ok_later: "later s s' \<Longrightarrow> effect_ok s i e \<Longrightarrow> effect_ok s' i e"
  unfolding effect_ok_def by (fast intro: asked_later said_later)

lemma jobs_ok_later: "later s s' \<Longrightarrow> jobs_ok s jobs \<Longrightarrow> jobs_ok s' jobs"
  unfolding jobs_ok_def by (fast intro: effect_ok_later)

lemmas in_order_later = hub_ok_later jobs_ok_later effect_ok_later

section \<open>Each step\<close>

lemma live_step_announces:
  "live_step lib combine save name envs l l' \<Longrightarrow>
    set (announced_evidence (xs_effects (lv_index l))) \<subseteq> set (announced_evidence (xs_effects (lv_index l')))"
  by (drule live_step_effects) auto

text \<open>A handler subscribes its socket only to the channel of the message, and publishes only its
  body, only to the channel of the clients.\<close>

lemma replay_effects_quiet:
  "replay_effects E num_str clock fuel record s = Some effects \<Longrightarrow>
    SubscribedTo c \<notin> set effects \<and> Published t body \<notin> set effects"
  by (auto simp: replay_effects_def on_compute_def split: option.splits prod.splits if_splits)

lemma ws_message_effects:
  assumes "ws_message E num_str clock fuel validate now parse text topic = Some (effects, r)" "parse text = Inr q"
  shows "SubscribedTo c \<in> set effects \<longrightarrow> cm_type q = ''SUBSCRIBE'' \<and> c = cm_channel q"
    and "Published t body \<in> set effects \<longrightarrow> cm_type q = ''CLIENT_MESSAGE'' \<and> t = ''CLIENT_MESSAGE'' \<and> body = cm_body q"
  using assms by (auto simp: ws_message_def dest!: replay_effects_quiet split: if_splits sum.splits)

lemma effects_ok:
  assumes "ws_message E num_str clock fuel validate now parse text topic = Some (effects, r)" "parse text = Inr q"
    and "(i, q) \<in> set (rm_heard s)" "e \<in> set effects"
  shows "effect_ok s i e"
  using ws_message_effects [OF assms(1,2)] assms(3,4) unfolding effect_ok_def asked_def said_def by metis

context pubsub begin

lemma hub_ok_publish:
  assumes "hub_ok H s a" "genuine s t m"
  shows "hub_ok H s (hl_publish H t m a)"
proof -
  have "asked s i u \<and> genuine s u x" if "(u, x) \<in> set (hl_delivered H (hl_publish H t m a) i)" for i u x
    using in_published [OF that] assms unfolding hub_ok_def by auto
  then show ?thesis using assms(1) by (auto simp: hub_ok_def publish_keeps)
qed

lemma hub_ok_subscribe: "hub_ok H s a \<Longrightarrow> asked s i t \<Longrightarrow> hub_ok H s (hl_subscribe H i t a)"
  by (auto simp: hub_ok_def subscribe_keeps subscribe_adds)

lemma hub_ok_leave: "hub_ok H s a \<Longrightarrow> hub_ok H s (hl_leave H i a)"
  by (auto simp: hub_ok_def leave_keeps leave_removes)

lemma act_keeps:
  assumes "rooms_inv W H s" "effect_ok s i e"
  shows "rooms_inv W H (act H i e s)"
proof -
  have inv: "hub_ok H s (rm_app s)" "jobs_ok s (rm_jobs s)" "clients_ok W s" using assms(1) by (simp_all add: rooms_inv_def)
  have app: "rooms_inv W H (s\<lparr> rm_app := a \<rparr>)" if "hub_ok H s a" for a
  proof -
    have l: "later s (s\<lparr> rm_app := a \<rparr>)" by (simp add: later_def)
    show ?thesis using inv that in_order_later [OF l] by (simp add: rooms_inv_def clients_ok_def)
  qed
  show ?thesis
  proof (cases "(H, i, e, s)" rule: act.cases)
    case (1 H' i' t body s')
    then have "genuine s t (ClientMessage body)" using assms(2) by (simp add: effect_ok_def genuine_def)
    then show ?thesis using 1 app hub_ok_publish [OF inv(1)] by simp
  next
    case (2 H' i' t s')
    then show ?thesis using app hub_ok_subscribe [OF inv(1)] assms by (simp add: effect_ok_def)
  next
    case (3 H' i' s')
    let ?s = "s\<lparr> rm_open := removeAll i (rm_open s), rm_app := hl_leave H i (rm_app s) \<rparr>"
    have l: "later s ?s" by (simp add: later_def)
    have "rooms_inv W H ?s"
      using inv hub_ok_leave [OF inv(1)] in_order_later [OF l] by (auto simp: rooms_inv_def clients_ok_def)
    then show ?thesis using 3 by simp
  qed (use assms(1) in auto)
qed

lemma rooms_inv_step:
  assumes "rooms_inv W H s" "rooms_step W H s s'"
  shows "rooms_inv W H s'"
proof -
  have inv: "hub_ok H s (rm_app s)" "jobs_ok s (rm_jobs s)" "clients_ok W s" using assms(1) by (simp_all add: rooms_inv_def)
  show ?thesis
    using assms(2)
  proof cases
    case (Background l)
    then have l: "later s s'" using live_step_announces by (fastforce simp: later_def)
    show ?thesis using inv in_order_later [OF l] by (simp add: Background(1) rooms_inv_def clients_ok_def)
  next
    case (Connect req i uid)
    then have l: "later s s'" by (simp add: later_def)
    have "jobs_ok s' [(i, ws_open uid)]" by (simp add: jobs_ok_def effect_ok_def ws_open_def)
    then show ?thesis
      using inv in_order_later [OF l] Connect(2) by (auto simp: Connect(1) rooms_inv_def clients_ok_def jobs_ok_def)
  next
    case (Hear i raw q E num_str clock fuel validate now topic effects r)
    then have l: "later s s'" by (auto simp: later_def)
    have "jobs_ok s' [(i, effects)]"
      using effects_ok [OF Hear(4,3), of i s'] by (simp add: jobs_ok_def Hear(1))
    then show ?thesis
      using inv in_order_later [OF l] Hear(2) by (auto simp: Hear(1) rooms_inv_def clients_ok_def jobs_ok_def)
  next
    case (Perform js i e es ks)
    let ?s = "s\<lparr> rm_jobs := js @ (i, es) # ks \<rparr>"
    have l: "later s ?s" by (simp add: later_def)
    have "jobs_ok s (js @ (i, es) # ks)" "effect_ok s i e" using inv(2) by (auto simp: Perform(2) jobs_ok_def)
    then have "rooms_inv W H ?s" "effect_ok ?s i e"
      using inv in_order_later [OF l] by (simp_all add: rooms_inv_def clients_ok_def)
    then show ?thesis unfolding Perform(1) by (rule act_keeps)
  next
    case (Leave i)
    show ?thesis unfolding Leave(1) by (rule act_keeps [OF assms(1)]) (simp add: effect_ok_def)
  next
    case (Publish event ev groups)
    have l: "later s s'" by (simp add: later_def Publish(1))
    obtain t x where c: "index_created ev = (t, x)" by force
    have "genuine s t (IndexMessage x)" using announced_in [OF Publish(2)] c by (auto simp: genuine_def)
    then have "hub_ok H s (publish_index H ev (rm_app s))"
      using hub_ok_publish [OF inv(1)] c by (simp add: publish_index_def)
    then show ?thesis using inv in_order_later [OF l] by (simp add: Publish(1) rooms_inv_def clients_ok_def)
  qed
qed

lemma rooms_inv_reachable: "rooms_reachable W H (new_rooms H l) s \<Longrightarrow> rooms_inv W H s"
proof (induction rule: rooms_reachable.induct)
  case Start
  show ?case by (simp add: rooms_inv_def new_rooms_def hub_ok_def jobs_ok_def clients_ok_def fresh)
qed (rule rooms_inv_step)

end

text \<open>A slash separates the parts of the channel of an index.\<close>

lemma index_channel:
  assumes "index_created ev = (channel, x)"
  shows "channel \<noteq> ''CLIENT_MESSAGE''"
proof -
  have "channel = to_upper (mc_methodology (me_context ev)) @ ''/'' @ to_upper (mc_timePeriod (me_context ev)) @ ''/'' @ mr_asset (me_result ev)"
    using assms by (simp add: index_created_def Let_def)
  then have "CHR ''/'' \<in> set channel" by (simp only: set_append) simp
  then show ?thesis by auto
qed

text \<open>The background of a run is a run of the system without sockets.\<close>

lemma act_live [simp]: "rm_live (act H i e s) = rm_live s"
  by (cases "(H, i, e, s)" rule: act.cases) auto

lemma rooms_live:
  "rooms_reachable W H s0 s \<Longrightarrow>
    live_reachable (wl_lib W) (wl_combine W) (wl_save W) (wl_name W) (wl_envs W) (rm_live s0) (rm_live s)"
proof (induction rule: rooms_reachable.induct)
  case (Step s s')
  from Step.hyps(2) show ?case
    by cases (use Step.IH in \<open>auto intro: live_reachable.Step\<close>)
qed (rule live_reachable.Start)

lemma rooms_background:
  assumes "rooms_reachable W H s0 s"
    and "live_reachable (wl_lib W) (wl_combine W) (wl_save W) (wl_name W) (wl_envs W) (rm_live s) l"
  shows "rooms_reachable W H s0 (s\<lparr> rm_live := l \<rparr>)"
  using assms(2)
proof (induction rule: live_reachable.induct)
  case Start
  show ?case using assms(1) by simp
next
  case (Step l l')
  from rooms_reachable.Step [OF Step.IH rooms_step.Background] Step.hyps(2) show ?case by fastforce
qed

end
