(* ===== verification/Freshness.thy ===== *)
theory Freshness
  imports Live
begin

text \<open>
  The cache of the broker in front of the summaries action of
  \<^verbatim>\<open>services/ingest.service.ts\<close>, in the running system of \<open>Live\<close> with a
  clock.  The action declares \<^verbatim>\<open>cache: { ttl: 120 }\<close>, so an estimate may be
  computed over summaries that are two minutes old; the theorem bounds how old they can be.  The
  cacher of the broker is a parameter with the interface \<open>expiring\<close>.
\<close>

section \<open>The cache of an action\<close>

record ('v, 'a) action_cache =
  ac_new :: 'a
  ac_get :: "'a \<Rightarrow> int \<Rightarrow> string \<Rightarrow> 'v option"
  ac_set :: "string \<Rightarrow> 'v \<Rightarrow> int \<Rightarrow> int \<Rightarrow> 'a \<Rightarrow> 'a"

text \<open>\<^verbatim>\<open>ac_set k v ttl t\<close> keeps the answer \<open>v\<close> from the time
  \<open>t\<close> on.  Nothing is given out that was not kept for the key, and nothing after its time to
  live and a lag, since expired entries are only cleared away from time to time.\<close>

locale expiring =
  fixes A :: "('v, 'a) action_cache" and lag :: int
  assumes lag: "0 \<le> lag"
    and nothing_new: "ac_get A (ac_new A) now k = None"
    and kept: "ac_get A (ac_set A k v ttl t c) now j = Some w \<Longrightarrow>
      j = k \<and> w = v \<and> now \<le> t + ttl + lag \<or> ac_get A c now j = Some w"

text \<open>A cache that keeps its entries in a list and looks at their age.\<close>

definition entry_list :: "('v, (string \<times> 'v \<times> int) list) action_cache" where
  "entry_list =
     \<lparr> ac_new = [],
       ac_get = (\<lambda>c now k. map_option (\<lambda>x. fst (snd x)) (find (\<lambda>x. fst x = k \<and> now \<le> snd (snd x)) c)),
       ac_set = (\<lambda>k v ttl t c. (k, v, t + ttl) # filter (\<lambda>x. fst x \<noteq> k) c) \<rparr>"

lemma entry_list_new [simp]: "ac_new entry_list = []"
  by (simp add: entry_list_def)

lemma find_filtered: "(\<And>x. P x \<Longrightarrow> Q x) \<Longrightarrow> find P (filter Q xs) = find P xs"
  by (induction xs) auto

interpretation memory_entries: expiring entry_list 0
proof unfold_locales
  fix k j :: string and v w :: 'v and ttl t now :: int and c :: "(string \<times> 'v \<times> int) list"
  assume "ac_get entry_list (ac_set entry_list k v ttl t c) now j = Some w"
  then show "j = k \<and> w = v \<and> now \<le> t + ttl + 0 \<or> ac_get entry_list c now j = Some w"
    using find_filtered [of "\<lambda>x. fst x = j \<and> now \<le> snd (snd x)" "\<lambda>x. fst x \<noteq> k" c]
      find_None_iff [of "\<lambda>x. fst x = j \<and> now \<le> snd (snd x)" "filter (\<lambda>x. fst x \<noteq> k) c"]
    by (cases "j = k") (auto simp: entry_list_def split: if_splits)
qed (simp_all add: entry_list_def)

text \<open>The time to live of the summaries, in milliseconds.\<close>

definition summaries_ttl :: int where
  "summaries_ttl = 120 * 1000"

text \<open>The action behind the cache: an answer in the cache is given out, an answer of the handler is
  kept, an error is not.  The expiry is the only parameter the action declares, and the asset a request
  names besides is that of the service it goes to, so the expiry is the key.\<close>

definition cached_summaries ::
  "(option_summary option list, 'a) action_cache \<Rightarrow> 'c cacher_lib
   \<Rightarrow> (option_summary option result list \<Rightarrow> option_summary option list result)
   \<Rightarrow> string \<Rightarrow> int \<Rightarrow> 'c ingest_service \<Rightarrow> 'a \<Rightarrow> option_summary option list result \<times> 'a" where
  "cached_summaries A lib combine expiry now s c =
     (case ac_get A c now expiry of
        Some vs \<Rightarrow> (Inr vs, c)
      | None \<Rightarrow> (case summaries (Some lib) combine expiry s of
          Inl e \<Rightarrow> (Inl e, c)
        | Inr vs \<Rightarrow> (Inr vs, ac_set A expiry vs summaries_ttl now c)))"

section \<open>A service and its requests\<close>

text \<open>What happens to an ingest service behind its cache, with the times: a message is processed, or
  the action is called.\<close>

datatype feed_event = Fed option_summary | Called string

fun serve ::
  "(option_summary option list, 'a) action_cache \<Rightarrow> 'c cacher_lib
   \<Rightarrow> (option_summary option result list \<Rightarrow> option_summary option list result)
   \<Rightarrow> (int \<times> feed_event) list \<Rightarrow> 'c ingest_service \<times> 'a \<Rightarrow> ('c ingest_service \<times> 'a) result" where
  "serve A lib combine [] (t, c) = Inr (t, c)"
| "serve A lib combine ((now, Fed m) # es) (t, c) =
     res_bind (process_message (Some lib) m t) (\<lambda>t'. serve A lib combine es (t', c))"
| "serve A lib combine ((now, Called expiry) # es) (t, c) =
     serve A lib combine es (t, snd (cached_summaries A lib combine expiry now t c))"

fun fed :: "(int \<times> feed_event) list \<Rightarrow> option_summary list" where
  "fed [] = []"
| "fed ((now, Fed m) # es) = m # fed es"
| "fed ((now, Called expiry) # es) = fed es"

lemma serve_append: "serve A lib combine (es @ fs) x = res_bind (serve A lib combine es x) (serve A lib combine fs)"
  by (induction A lib combine es x rule: serve.induct) (auto simp: res_bind_def split: sum.splits)

lemma fed_append [simp]: "fed (es @ fs) = fed es @ fed fs"
  by (induction es rule: fed.induct) auto

lemma process_append: "process C (ms @ ns) s = res_bind (process C ms s) (process C ns)"
  by (induction ms arbitrary: s) (auto simp: res_bind_def split: sum.splits)

text \<open>What the cache holds is an answer of the handler after some of the events; those that came later
  are no older than the time to live and the lag.\<close>

definition held_answer :: "'c cacher_lib \<Rightarrow> (option_summary option result list \<Rightarrow> option_summary option list result)
    \<Rightarrow> 'c ingest_service \<Rightarrow> (int \<times> feed_event) list \<Rightarrow> string \<Rightarrow> option_summary option list \<Rightarrow> int \<Rightarrow> bool" where
  "held_answer lib combine s0 es e vs bound \<longleftrightarrow> (\<exists>k t u. k \<le> length es \<and> process (Some lib) (fed (take k es)) s0 = Inr t
     \<and> summaries (Some lib) combine e t = Inr vs \<and> u \<in> fst ` set es \<and> bound \<le> u
     \<and> (\<forall>(v, x) \<in> set (drop k es). u \<le> v))"

lemma held_answer_snoc:
  assumes "held_answer lib combine s0 es e vs bound" "\<forall>(v, x) \<in> set es. v \<le> fst y"
  shows "held_answer lib combine s0 (es @ [y]) e vs bound"
proof -
  obtain k t u where k: "k \<le> length es" "process (Some lib) (fed (take k es)) s0 = Inr t"
    "summaries (Some lib) combine e t = Inr vs" "u \<in> fst ` set es" "bound \<le> u" "\<forall>(v, x) \<in> set (drop k es). u \<le> v"
    using assms(1) unfolding held_answer_def by blast
  moreover have "u \<le> fst y" using k(4) assms(2) by auto
  ultimately show ?thesis unfolding held_answer_def by (intro exI [of _ k] exI [of _ t] exI [of _ u]) auto
qed

lemma serve_sound:
  assumes "expiring A lag" "sorted (map fst es)" "serve A lib combine es (s0, ac_new A) = Inr (t, c)"
  shows "process (Some lib) (fed es) s0 = Inr t
    \<and> (\<forall>now e vs. ac_get A c now e = Some vs \<longrightarrow> held_answer lib combine s0 es e vs (now - (summaries_ttl + lag)))"
  using assms(2,3)
proof (induction es arbitrary: t c rule: rev_induct)
  case Nil
  then show ?case using expiring.nothing_new [OF assms(1)] by simp
next
  case (snoc y es)
  obtain t1 c1 where r: "serve A lib combine es (s0, ac_new A) = Inr (t1, c1)" "serve A lib combine [y] (t1, c1) = Inr (t, c)"
    using snoc.prems(2) by (auto simp: serve_append res_bind_Inr_iff)
  have before: "\<forall>(v, x) \<in> set es. v \<le> fst y" and s: "sorted (map fst es)"
    using snoc.prems(1) by (auto simp: sorted_append)
  note IH = snoc.IH [OF s r(1)]
  note old = held_answer_snoc [OF _ before, of lib combine s0]
  obtain now x where y: "y = (now, x)" by (cases y)
  show ?case
  proof (cases x)
    case (Fed m)
    then have m: "process_message (Some lib) m t1 = Inr t" "c = c1" using r(2) by (auto simp: y res_bind_Inr_iff)
    then show ?thesis using IH old by (auto simp: y Fed process_append)
  next
    case (Called expiry)
    then have c: "t = t1" "c = snd (cached_summaries A lib combine expiry now t1 c1)" using r(2) by (auto simp: y)
    have "held_answer lib combine s0 (es @ [y]) e vs (w - (summaries_ttl + lag))" if got: "ac_get A c w e = Some vs" for w e vs
    proof (cases "\<exists>ws. ac_get A c1 now expiry = None \<and> summaries (Some lib) combine expiry t1 = Inr ws")
      case True
      then obtain ws where ws: "summaries (Some lib) combine expiry t1 = Inr ws" "c = ac_set A expiry ws summaries_ttl now c1"
        by (auto simp: c(2) cached_summaries_def)
      from expiring.kept [OF assms(1) got [unfolded ws(2)]] show ?thesis
      proof
        assume new: "e = expiry \<and> vs = ws \<and> w \<le> now + summaries_ttl + lag"
        then show ?thesis using ws(1) IH unfolding held_answer_def
          by (intro exI [of _ "length es"] exI [of _ t1] exI [of _ now]) (auto simp: y)
      qed (use IH old in blast)
    next
      case False
      then have "c = c1" by (auto simp: c(2) cached_summaries_def split: option.splits sum.splits)
      then show ?thesis using got IH old by blast
    qed
    then show ?thesis using IH by (simp add: y Called c(1))
  qed
qed

text \<open>The calls of an estimate at the time \<open>w\<close> are calls of the action in the course of the
  events, no earlier than \<open>patience\<close> before.\<close>

definition answered_in_course ::
  "(option_summary option list, 'a) action_cache \<Rightarrow> 'c cacher_lib
   \<Rightarrow> (option_summary option result list \<Rightarrow> option_summary option list result)
   \<Rightarrow> 'c ingest_service \<Rightarrow> (int \<times> feed_event) list \<Rightarrow> int \<Rightarrow> int \<Rightarrow> index_env \<Rightarrow> bool" where
  "answered_in_course A lib combine s0 events patience w E \<longleftrightarrow> (\<forall>action expiry asset. \<exists>es rest u t c.
     events = es @ rest \<and> (\<forall>(v, x) \<in> set es. v \<le> u) \<and> (\<forall>(v, x) \<in> set rest. u \<le> v) \<and> w - patience \<le> u \<and> u \<le> w
     \<and> serve A lib combine es (s0, ac_new A) = Inr (t, c)
     \<and> xe_call E action expiry asset = fst (cached_summaries A lib combine expiry u t c))"

text \<open>Each of them is answered with what the handler says after some of the events, and those it leaves
  out came within the patience, the time to live and the lag.\<close>

lemma answered_recently:
  assumes "expiring A lag" "sorted (map fst events)" "answered_in_course A lib combine s0 events patience w E"
  shows "\<exists>k t. k \<le> length events \<and> process (Some lib) (fed (take k events)) s0 = Inr t
    \<and> xe_call E action expiry asset = summaries (Some lib) combine expiry t
    \<and> (\<forall>(v, x) \<in> set (drop k events). w - (patience + summaries_ttl + lag) \<le> v)"
proof -
  obtain es rest u t c where a: "events = es @ rest" "\<forall>(v, x) \<in> set rest. u \<le> v" "w - patience \<le> u"
    "serve A lib combine es (s0, ac_new A) = Inr (t, c)"
    "xe_call E action expiry asset = fst (cached_summaries A lib combine expiry u t c)"
    using assms(3) [unfolded answered_in_course_def, THEN spec [of _ action], THEN spec [of _ expiry], THEN spec [of _ asset]]
    by (elim exE conjE) rule
  have s: "sorted (map fst es)" and later: "\<forall>v \<in> fst ` set es. \<forall>(v', x) \<in> set rest. v \<le> v'"
    using assms(2) by (simp_all add: a(1) sorted_append) fastforce
  note sound = serve_sound [OF assms(1) s a(4)]
  have ttl: "0 \<le> summaries_ttl + lag" using expiring.lag [OF assms(1)] by (simp add: summaries_ttl_def)
  show ?thesis
  proof (cases "ac_get A c u expiry")
    case None
    have "xe_call E action expiry asset = summaries (Some lib) combine expiry t"
      by (simp add: a(5) cached_summaries_def None split: sum.splits)
    moreover have "\<forall>(v, x) \<in> set rest. w - (patience + summaries_ttl + lag) \<le> v" using a(2,3) ttl by fastforce
    ultimately show ?thesis using sound by (intro exI [of _ "length es"] exI [of _ t]) (simp add: a(1))
  next
    case (Some vs)
    then obtain k t' u' where k: "k \<le> length es" "process (Some lib) (fed (take k es)) s0 = Inr t'"
      "summaries (Some lib) combine expiry t' = Inr vs" "u' \<in> fst ` set es" "u - (summaries_ttl + lag) \<le> u'"
      "\<forall>(v, x) \<in> set (drop k es). u' \<le> v"
      using sound unfolding held_answer_def by blast
    have bound: "w - (patience + summaries_ttl + lag) \<le> u'" using k(5) a(3) by simp
    have "\<forall>(v, x) \<in> set rest. u' \<le> v" using later k(4) by blast
    with k(6) have "\<forall>(v, x) \<in> set (drop k es) \<union> set rest. u' \<le> v" by blast
    then have "\<forall>(v, x) \<in> set (drop k es) \<union> set rest. w - (patience + summaries_ttl + lag) \<le> v"
      using order_trans [OF bound] by blast
    moreover have "xe_call E action expiry asset = summaries (Some lib) combine expiry t'"
      by (simp add: a(5) cached_summaries_def Some k(3))
    ultimately show ?thesis using k(1,2) by (intro exI [of _ k] exI [of _ t']) (simp add: a(1))
  qed
qed

section \<open>The system with a clock\<close>

text \<open>\<^verbatim>\<open>fr_stored\<close>, \<^verbatim>\<open>fr_answers\<close> and
  \<^verbatim>\<open>fr_announced\<close> are history: the messages that had been stored at a time, the
  answers of the action with their times, the evidence with the time it was announced.\<close>

record ('a, 'c) fresh =
  fr_live :: "'c live"
  fr_now :: int
  fr_cache :: 'a
  fr_stored :: "(int \<times> option_summary list) list"
  fr_answers :: "(int \<times> string \<times> option_summary option list) list"
  fr_announced :: "(int \<times> mfiv_evidence) list"

text \<open>The messages that have been stored: all that were received, but for one that is pending.\<close>

definition stored :: "'c live \<Rightarrow> option_summary list" where
  "stored l = (if ig_pending (lv_ingest l) = None then lv_received l else butlast (lv_received l))"

definition new_fresh :: "(option_summary option list, 'a) action_cache \<Rightarrow> int \<Rightarrow> 'c live \<Rightarrow> ('a, 'c) fresh" where
  "new_fresh A t l = \<lparr> fr_live = l, fr_now = t, fr_cache = ac_new A, fr_stored = [], fr_answers = [], fr_announced = [] \<rparr>"

text \<open>The requests of an estimate are answered by the cached action, no earlier than
  \<open>patience\<close> before its end, or they fail.\<close>

definition answered_in_time :: "int \<Rightarrow> ('a, 'c) fresh \<Rightarrow> index_env \<Rightarrow> bool" where
  "answered_in_time patience s X \<longleftrightarrow>
     (\<forall>action expiry asset. (\<exists>e. xe_call X action expiry asset = Inl e)
       \<or> (\<exists>(u, k, vs) \<in> set (fr_answers s). k = expiry \<and> fr_now s - patience \<le> u \<and> xe_call X action expiry asset = Inr vs))"

definition new_announced :: "index_service \<Rightarrow> index_service \<Rightarrow> mfiv_evidence list" where
  "new_announced x x' = announced_evidence (drop (length (xs_effects x)) (xs_effects x'))"

inductive fresh_step ::
  "'c cacher_lib \<Rightarrow> (option_summary option result list \<Rightarrow> option_summary option list result)
   \<Rightarrow> (rate_row \<Rightarrow> rate_row result) \<Rightarrow> string \<Rightarrow> 'abi rate_env set
   \<Rightarrow> (option_summary option list, 'a) action_cache \<Rightarrow> int \<Rightarrow> ('a, 'c) fresh \<Rightarrow> ('a, 'c) fresh \<Rightarrow> bool"
  for lib combine save name envs A patience where
  Clock: "fr_now s \<le> t \<Longrightarrow> fresh_step lib combine save name envs A patience s (s\<lparr> fr_now := t \<rparr>)"
| Quiet: "live_step lib combine save name envs (fr_live s) l \<Longrightarrow> xs_effects (lv_index l) = xs_effects (lv_index (fr_live s)) \<Longrightarrow>
    fresh_step lib combine save name envs A patience s (s\<lparr> fr_live := l \<rparr>)"
| Answer: "cached_summaries A lib combine expiry (fr_now s) (lv_ingest (fr_live s)) (fr_cache s) = (Inr vs, c) \<Longrightarrow>
    fresh_step lib combine save name envs A patience s
      (s\<lparr> fr_cache := c, fr_stored := fr_stored s @ [(fr_now s, stored (fr_live s))],
         fr_answers := fr_answers s @ [(fr_now s, expiry, vs)] \<rparr>)"
| Asked: "answered_in_time patience s X \<Longrightarrow> estimate X requestId params (lv_index (fr_live s)) = (answer, x) \<Longrightarrow>
    fresh_step lib combine save name envs A patience s
      (s\<lparr> fr_live := (fr_live s)\<lparr> lv_index := x, lv_asked := lv_asked (fr_live s) @ [X] \<rparr>,
         fr_announced := fr_announced s @ map (Pair (fr_now s)) (new_announced (lv_index (fr_live s)) x) \<rparr>)"

inductive fresh_reachable ::
  "'c cacher_lib \<Rightarrow> (option_summary option result list \<Rightarrow> option_summary option list result)
   \<Rightarrow> (rate_row \<Rightarrow> rate_row result) \<Rightarrow> string \<Rightarrow> 'abi rate_env set
   \<Rightarrow> (option_summary option list, 'a) action_cache \<Rightarrow> int \<Rightarrow> ('a, 'c) fresh \<Rightarrow> ('a, 'c) fresh \<Rightarrow> bool"
  for lib combine save name envs A patience s0 where
  Start: "fresh_reachable lib combine save name envs A patience s0 s0"
| Step: "fresh_reachable lib combine save name envs A patience s0 s \<Longrightarrow>
    fresh_step lib combine save name envs A patience s s' \<Longrightarrow>
    fresh_reachable lib combine save name envs A patience s0 s'"

section \<open>What is newest\<close>

text \<open>The last of the messages with its symbol, with absent prices as 0.\<close>

definition newest :: "option_summary list \<Rightarrow> option_summary \<Rightarrow> bool" where
  "newest ms v \<longleftrightarrow> (let ns = filter (\<lambda>m. os_symbol m = os_symbol v) ms
     in ns \<noteq> [] \<and> v = summaryWithDefaults (last ns) (Num 0) (Num 0) (Num 0))"

lemma newest_snoc: "newest (ms @ [m]) v \<longleftrightarrow>
    (if os_symbol m = os_symbol v then v = summaryWithDefaults m (Num 0) (Num 0) (Num 0) else newest ms v)"
  by (simp add: newest_def Let_def)

definition cache_newest :: "'c cacher_lib \<Rightarrow> 'c live \<Rightarrow> bool" where
  "cache_newest lib l \<longleftrightarrow> lv_ingest l \<in> set (lv_seen l)
     \<and> (\<forall>y v. ch_get lib (ig_cache (lv_ingest l)) y = Inr (Some v) \<longrightarrow> y = os_symbol v \<and> newest (stored l) v)
     \<and> (\<forall>m. ig_pending (lv_ingest l) = Some m \<longrightarrow> (\<exists>ms. lv_received l = ms @ [m]))"

lemma os_symbol_defaults [simp]: "os_symbol (summaryWithDefaults m a b c) = os_symbol m"
  by (simp add: summaryWithDefaults_def)

context cacher begin

lemma cache_newest_step:
  assumes "cache_newest C l" "live_step C combine save name envs l l'"
  shows "cache_newest C l'"
  using assms(2)
proof cases
  case (Message m)
  then show ?thesis using assms(1) by (auto simp: cache_newest_def live_ingest_def receive_def stored_def)
next
  case (Stored m t)
  obtain ms where ms: "lv_received l = ms @ [m]" using assms(1) Stored(2) by (auto simp: cache_newest_def)
  obtain c where c: "ch_set C (os_symbol m) (summaryWithDefaults m (Num 0) (Num 0) (Num 0)) (ig_cache (lv_ingest l)) = Inr c"
    "t = (lv_ingest l)\<lparr> ig_cache := c, ig_pending := None \<rparr>"
    using Stored(2,3) by (auto simp: store_def res_bind_Inr_iff)
  have "stored l = ms" "stored l' = ms @ [m]" by (simp_all add: stored_def ms Stored(1,2) live_ingest_def c(2))
  then show ?thesis
    using assms(1) get_set [OF c(1)] by (auto simp: cache_newest_def live_ingest_def Stored(1) c(2) newest_snoc split: if_splits)
next
  case (RateTick E)
  then show ?thesis using assms(1) by (auto simp: cache_newest_def live_tick_def Let_def stored_def)
next
  case (Estimate X requestId params answer x)
  then show ?thesis using assms(1) by (auto simp: cache_newest_def stored_def)
qed

end

section \<open>The invariant\<close>

text \<open>An answer computed at a time: it is an answer of the handler in some state, and its summaries
  were the newest then.\<close>

definition sound_at ::
  "'c cacher_lib \<Rightarrow> (option_summary option result list \<Rightarrow> option_summary option list result)
   \<Rightarrow> ('a, 'c) fresh \<Rightarrow> int \<Rightarrow> string \<Rightarrow> option_summary option list \<Rightarrow> bool" where
  "sound_at lib combine s u e vs \<longleftrightarrow> u \<le> fr_now s
     \<and> (\<exists>t \<in> set (lv_seen (fr_live s)). summaries (Some lib) combine e t = Inr vs)
     \<and> (\<forall>v. Some v \<in> set vs \<longrightarrow> (\<exists>ms. (u, ms) \<in> set (fr_stored s) \<and> newest ms v))"

definition cache_sound ::
  "'c cacher_lib \<Rightarrow> (option_summary option result list \<Rightarrow> option_summary option list result)
   \<Rightarrow> (option_summary option list, 'a) action_cache \<Rightarrow> int \<Rightarrow> ('a, 'c) fresh \<Rightarrow> 'a \<Rightarrow> bool" where
  "cache_sound lib combine A lag s c \<longleftrightarrow> (\<forall>now e vs. ac_get A c now e = Some vs \<longrightarrow>
     (\<exists>u. now \<le> u + summaries_ttl + lag \<and> sound_at lib combine s u e vs))"

definition answers_sound ::
  "'c cacher_lib \<Rightarrow> (option_summary option result list \<Rightarrow> option_summary option list result)
   \<Rightarrow> int \<Rightarrow> ('a, 'c) fresh \<Rightarrow> (int \<times> string \<times> option_summary option list) list \<Rightarrow> bool" where
  "answers_sound lib combine lag s answers \<longleftrightarrow> (\<forall>(w, e, vs) \<in> set answers. w \<le> fr_now s
     \<and> (\<exists>u \<le> w. w \<le> u + summaries_ttl + lag \<and> sound_at lib combine s u e vs))"

definition announced_fresh :: "int \<Rightarrow> ('a, 'c) fresh \<Rightarrow> (int \<times> mfiv_evidence) list \<Rightarrow> bool" where
  "announced_fresh window s evs \<longleftrightarrow> (\<forall>(w, ev) \<in> set evs. \<forall>v \<in> set (mp_options (me_params ev)).
     \<exists>(u, ms) \<in> set (fr_stored s). w - window \<le> u \<and> u \<le> w \<and> newest ms v)"

definition fresh_inv ::
  "'c cacher_lib \<Rightarrow> (option_summary option result list \<Rightarrow> option_summary option list result)
   \<Rightarrow> (option_summary option list, 'a) action_cache \<Rightarrow> int \<Rightarrow> int \<Rightarrow> ('a, 'c) fresh \<Rightarrow> bool" where
  "fresh_inv lib combine A lag patience s \<longleftrightarrow> cache_newest lib (fr_live s)
     \<and> cache_sound lib combine A lag s (fr_cache s) \<and> answers_sound lib combine lag s (fr_answers s)
     \<and> announced_fresh (patience + summaries_ttl + lag) s (fr_announced s)"

text \<open>Time passes, states and stored messages are added: what was in order stays so.\<close>

definition fresh_later :: "('a, 'c) fresh \<Rightarrow> ('a, 'c) fresh \<Rightarrow> bool" where
  "fresh_later s s' \<longleftrightarrow> fr_now s \<le> fr_now s' \<and> set (lv_seen (fr_live s)) \<subseteq> set (lv_seen (fr_live s'))
     \<and> set (fr_stored s) \<subseteq> set (fr_stored s')"

lemma sound_at_later: "fresh_later s s' \<Longrightarrow> sound_at lib combine s u e vs \<Longrightarrow> sound_at lib combine s' u e vs"
  unfolding sound_at_def fresh_later_def by (meson order_trans subsetD)

lemma cache_sound_later: "fresh_later s s' \<Longrightarrow> cache_sound lib combine A lag s c \<Longrightarrow> cache_sound lib combine A lag s' c"
  unfolding cache_sound_def by (meson sound_at_later)

lemma answers_sound_later:
  "fresh_later s s' \<Longrightarrow> answers_sound lib combine lag s as \<Longrightarrow> answers_sound lib combine lag s' as"
  unfolding answers_sound_def using sound_at_later [of s s' lib combine] by (fastforce simp: fresh_later_def)

lemma announced_fresh_later:
  "fresh_later s s' \<Longrightarrow> announced_fresh window s xs \<Longrightarrow> announced_fresh window s' xs"
  unfolding announced_fresh_def fresh_later_def by fastforce

lemmas fresh_parts_later = cache_sound_later answers_sound_later announced_fresh_later

lemma live_step_seen: "live_step lib combine save name envs l l' \<Longrightarrow> set (lv_seen l) \<subseteq> set (lv_seen l')"
  by (cases rule: live_step.cases) (auto simp: live_ingest_def live_tick_def Let_def)

text \<open>An answer of the handler is sound at once.\<close>

lemma summaries_sound:
  assumes "combining combine" "cache_newest lib (fr_live s)" "summaries (Some lib) combine e (lv_ingest (fr_live s)) = Inr vs"
    and "(fr_now s, stored (fr_live s)) \<in> set (fr_stored s)"
  shows "sound_at lib combine s (fr_now s) e vs"
proof -
  have "newest (stored (fr_live s)) v" if "Some v \<in> set vs" for v
    using summaries_from_cache [OF assms(1,3) that] assms(2) by (auto simp: cache_newest_def)
  then show ?thesis using assms(2-4) by (auto simp: sound_at_def cache_newest_def)
qed

text \<open>What is announced was computed from two answers in time.\<close>

lemma options_in_time:
  assumes "answered_in_time patience s X" "optionSummariesLists X asset dates = Inr options" "v \<in> set options"
  obtains u e vs where "(u, e, vs) \<in> set (fr_answers s)" "fr_now s - patience \<le> u" "Some v \<in> set vs"
proof -
  have "Some v \<in> set (map Some options)" using assms(3) by simp
  then obtain action e where "Some v \<in> set (fulfilled (xe_call X action e asset))"
    using assms(2) unfolding optionSummariesLists_iff by auto
  then obtain vs where vs: "xe_call X action e asset = Inr vs" "Some v \<in> set vs"
    by (cases "xe_call X action e asset") (auto simp: fulfilled_def)
  have "(\<exists>e'. xe_call X action e asset = Inl e') \<or> (\<exists>(u, k, ws) \<in> set (fr_answers s). k = e
      \<and> fr_now s - patience \<le> u \<and> xe_call X action e asset = Inr ws)"
    using assms(1) unfolding answered_in_time_def by blast
  then obtain u where "(u, e, vs) \<in> set (fr_answers s)" "fr_now s - patience \<le> u"
    using vs(1) by auto
  with vs(2) that show thesis by blast
qed

lemma new_announced_computed:
  assumes "estimate X requestId params x = (answer, x')" "ev \<in> set (new_announced x x')"
  shows "computed_evidence X params x ev"
  using estimate_adds [OF assms(1)] assms(2) by (auto simp: new_announced_def)

context cacher begin

lemma fresh_inv_step:
  assumes "expiring A lag" "combining combine" "fresh_inv C combine A lag patience s"
    and "fresh_step C combine save name envs A patience s s'"
  shows "fresh_inv C combine A lag patience s'"
proof -
  note ex = assms(1)
  have inv: "cache_newest C (fr_live s)" "cache_sound C combine A lag s (fr_cache s)"
    "answers_sound C combine lag s (fr_answers s)" "announced_fresh (patience + summaries_ttl + lag) s (fr_announced s)"
    using assms(3) by (simp_all add: fresh_inv_def)
  show ?thesis
    using assms(4)
  proof cases
    case (Clock t)
    then have later: "fresh_later s s'" by (simp add: fresh_later_def)
    show ?thesis using inv fresh_parts_later [OF later] by (simp add: fresh_inv_def Clock(1))
  next
    case (Quiet l)
    have later: "fresh_later s s'" by (simp add: fresh_later_def Quiet(1) live_step_seen [OF Quiet(2)])
    show ?thesis using inv fresh_parts_later [OF later] cache_newest_step [OF inv(1) Quiet(2)]
      by (simp add: fresh_inv_def Quiet(1))
  next
    case (Answer e vs c)
    have later: "fresh_later s s'" by (auto simp: fresh_later_def Answer(1))
    have now: "fr_now s' = fr_now s" "fr_live s' = fr_live s" "(fr_now s, stored (fr_live s)) \<in> set (fr_stored s')"
      by (simp_all add: Answer(1))
    obtain u where u: "fr_now s \<le> u + summaries_ttl + lag" "sound_at C combine s' u e vs" "cache_sound C combine A lag s' c"
    proof (cases "ac_get A (fr_cache s) (fr_now s) e")
      case (Some ws)
      then have "ws = vs" "c = fr_cache s" using Answer(2) by (simp_all add: cached_summaries_def)
      then show thesis
        using that fresh_parts_later(1) [OF later inv(2)] Some unfolding cache_sound_def by metis
    next
      case None
      then have h: "summaries (Some C) combine e (lv_ingest (fr_live s)) = Inr vs"
        and c: "c = ac_set A e vs summaries_ttl (fr_now s) (fr_cache s)"
        using Answer(2) by (auto simp: cached_summaries_def split: sum.splits)
      have sound: "sound_at C combine s' (fr_now s) e vs"
        using summaries_sound [OF assms(2), of C s' e vs] inv(1) h now by simp
      have "cache_sound C combine A lag s' c"
        unfolding cache_sound_def
      proof (intro allI impI)
        fix w k ws
        assume "ac_get A c w k = Some ws"
        from expiring.kept [OF ex this [unfolded c]] sound fresh_parts_later(1) [OF later inv(2)]
        show "\<exists>u. w \<le> u + summaries_ttl + lag \<and> sound_at C combine s' u k ws"
          unfolding cache_sound_def by blast
      qed
      moreover have "fr_now s \<le> fr_now s + summaries_ttl + lag"
        using expiring.lag [OF ex] by (simp add: summaries_ttl_def)
      ultimately show thesis using that sound by blast
    qed
    have "u \<le> fr_now s" using u(2) by (simp add: sound_at_def now(1))
    then have "answers_sound C combine lag s' (fr_answers s')"
      using fresh_parts_later(2) [OF later inv(3)] u(1,2) by (auto simp: answers_sound_def Answer(1))
    then show ?thesis
      using inv(1) u(3) fresh_parts_later(3) [OF later inv(4)] by (simp add: fresh_inv_def Answer(1))
  next
    case (Asked X requestId params answer x)
    have later: "fresh_later s s'" by (simp add: fresh_later_def Asked(1))
    let ?window = "patience + summaries_ttl + lag"
    have "announced_fresh ?window s' (map (Pair (fr_now s)) (new_announced (lv_index (fr_live s)) x))"
      unfolding announced_fresh_def
    proof safe
      fix w ev v
      assume "(w, ev) \<in> set (map (Pair (fr_now s)) (new_announced (lv_index (fr_live s)) x))"
        and v: "v \<in> set (mp_options (me_params ev))"
      then have w: "w = fr_now s" and "ev \<in> set (new_announced (lv_index (fr_live s)) x)" by auto
      then obtain dates where "optionSummariesLists X (ep_asset params) dates = Inr (mp_options (me_params ev))"
        using new_announced_computed [OF Asked(3)] unfolding computed_evidence_def by blast
      then obtain a e vs where a: "(a, e, vs) \<in> set (fr_answers s)" "fr_now s - patience \<le> a" "Some v \<in> set vs"
        by (rule options_in_time [OF Asked(2) _ v])
      then obtain u where u: "u \<le> a" "a \<le> u + summaries_ttl + lag" "sound_at C combine s' u e vs" "a \<le> fr_now s"
        using fresh_parts_later(2) [OF later inv(3)] unfolding answers_sound_def by (fastforce simp: Asked(1))
      then obtain ms where "(u, ms) \<in> set (fr_stored s')" "newest ms v" using a(3) by (auto simp: sound_at_def)
      moreover have "w - ?window \<le> u" "u \<le> w" using a(2) u by (simp_all add: w)
      ultimately show "\<exists>(u, ms) \<in> set (fr_stored s'). w - ?window \<le> u \<and> u \<le> w \<and> newest ms v" by blast
    qed
    then have "announced_fresh ?window s' (fr_announced s')"
      using fresh_parts_later(3) [OF later inv(4)] by (auto simp: announced_fresh_def Asked(1))
    moreover have "cache_newest C (fr_live s')" using inv(1) by (auto simp: cache_newest_def stored_def Asked(1))
    ultimately show ?thesis using inv fresh_parts_later [OF later] by (simp add: fresh_inv_def Asked(1))
  qed
qed

text \<open>A run with the clock is a run of the system, and its history is complete.\<close>

lemma fresh_simulates:
  assumes "fresh_inv C combine A lag patience s" "fresh_step C combine save name envs A patience s s'"
  shows "live_reachable C combine save name envs (fr_live s) (fr_live s')"
  using assms(2)
proof cases
  case (Quiet l)
  then show ?thesis using live_reachable.Step [OF live_reachable.Start Quiet(2)] by simp
next
  case (Asked X requestId params answer x)
  have "answered_by C combine (lv_seen (fr_live s)) X"
    unfolding answered_by_def
  proof (intro allI)
    fix action e asset
    consider err where "xe_call X action e asset = Inl err"
      | u vs where "(u, e, vs) \<in> set (fr_answers s)" "xe_call X action e asset = Inr vs"
      using Asked(2) unfolding answered_in_time_def by fastforce
    then show "(\<exists>err. xe_call X action e asset = Inl err)
        \<or> (\<exists>t \<in> set (lv_seen (fr_live s)). xe_call X action e asset = summaries (Some C) combine e t)"
    proof cases
      case 2
      then have "\<exists>u. sound_at C combine s u e vs"
        using assms(1) by (fastforce simp: fresh_inv_def answers_sound_def)
      then show ?thesis using 2(2) unfolding sound_at_def by metis
    qed blast
  qed
  then show ?thesis
    using live_reachable.Step [OF live_reachable.Start live_step.Estimate [OF _ Asked(3)]] by (simp add: Asked(1))
qed (auto intro: live_reachable.Start)

lemma fresh_reachable_inv:
  assumes "fresh_reachable C combine save name envs A patience s0 s" "expiring A lag" "combining combine"
    and "fresh_inv C combine A lag patience s0"
  shows "fresh_inv C combine A lag patience s \<and> live_reachable C combine save name envs (fr_live s0) (fr_live s)"
  using assms(1)
proof (induction rule: fresh_reachable.induct)
  case (Step s s')
  then show ?case
    using fresh_inv_step [OF assms(2,3) _ Step.hyps(2)] live_reachable_trans fresh_simulates [OF _ Step.hyps(2)] by blast
qed (simp add: assms(4) live_reachable.Start)

end

lemma fresh_history:
  assumes "fresh_step lib combine save name envs A patience s s'"
    and "map snd (fr_announced s) = announced_evidence (xs_effects (lv_index (fr_live s)))"
  shows "map snd (fr_announced s') = announced_evidence (xs_effects (lv_index (fr_live s')))"
  using assms(1)
proof cases
  case (Asked X requestId params answer x)
  obtain new where "xs_effects x = xs_effects (lv_index (fr_live s)) @ new" using estimate_adds [OF Asked(3)] by blast
  then show ?thesis using assms(2) by (simp add: Asked(1) new_announced_def comp_def)
qed (use assms(2) in auto)

lemma fresh_reachable_history:
  "fresh_reachable lib combine save name envs A patience s0 s \<Longrightarrow>
    map snd (fr_announced s0) = announced_evidence (xs_effects (lv_index (fr_live s0))) \<Longrightarrow>
    map snd (fr_announced s) = announced_evidence (xs_effects (lv_index (fr_live s)))"
  by (induction rule: fresh_reachable.induct) (blast intro: fresh_history)+

text \<open>A run of the system without estimates is a run with the clock standing still.\<close>

lemma fresh_quiet:
  assumes "live_reachable lib combine save name envs (fr_live s) l" "xs_effects (lv_index l) = xs_effects (lv_index (fr_live s))"
    and "fresh_reachable lib combine save name envs A patience s0 s"
  shows "fresh_reachable lib combine save name envs A patience s0 (s\<lparr> fr_live := l \<rparr>)"
  using assms(1,2)
proof (induction rule: live_reachable.induct)
  case Start
  then show ?case using assms(3) by simp
next
  case (Step l l')
  obtain new where new: "xs_effects (lv_index l') = xs_effects (lv_index l) @ new"
    using live_step_effects [OF Step.hyps(2)] by blast
  obtain old where "xs_effects (lv_index l) = xs_effects (lv_index (fr_live s)) @ old"
    using live_reachable_effects [OF Step.hyps(1)] by blast
  with new Step.prems have e: "xs_effects (lv_index l) = xs_effects (lv_index (fr_live s))" by simp
  from Step.IH [OF e] fresh_step.Quiet [of lib combine save name envs "s\<lparr> fr_live := l \<rparr>" l' A patience] Step.hyps(2)
  show ?case using Step.prems e by (auto intro: fresh_reachable.Step)
qed

lemma fresh_answer:
  assumes "fresh_reachable lib combine save name envs A patience s0 s"
    and "cached_summaries A lib combine e (fr_now s) (lv_ingest (fr_live s)) (fr_cache s) = (Inr vs, c)"
  shows "fresh_reachable lib combine save name envs A patience s0
    (s\<lparr> fr_cache := c, fr_stored := fr_stored s @ [(fr_now s, stored (fr_live s))],
       fr_answers := fr_answers s @ [(fr_now s, e, vs)] \<rparr>)"
  by (rule fresh_reachable.Step [OF assms(1) fresh_step.Answer [OF assms(2)]])

section \<open>Property\<close>

text \<open>C4: how old an estimate can be.  Requests run through the cache of the broker, which keeps the
  answer of the summaries action for two minutes, and time passes between messages, requests and
  estimates in any order.  Every option of every announced evidence was the newest stored summary of
  its symbol at a time not longer ago than those two minutes, the lag of the cache and the time the
  requests of the estimate took; and the run is one of the system without a clock.\<close>

theorem estimates_are_fresh:
  assumes "expiring A lag" "cacher lib" "combining combine" "\<forall>y. ch_get lib c y = Inr None"
    and "fresh_reachable lib combine save name envs A patience (new_fresh A t0 (new_live c env skipPersist)) s"
  shows "map snd (fr_announced s) = announced_evidence (xs_effects (lv_index (fr_live s)))
    \<and> (\<forall>(w, ev) \<in> set (fr_announced s). \<forall>o' \<in> set (mp_options (me_params ev)).
         \<exists>(u, ms) \<in> set (fr_stored s). w - (patience + 120000 + lag) \<le> u \<and> u \<le> w \<and> newest ms o')
    \<and> live_reachable lib combine save name envs (new_live c env skipPersist) (fr_live s)"
proof -
  let ?s0 = "new_fresh A t0 (new_live c env skipPersist)"
  have "fresh_inv lib combine A lag patience ?s0"
    using assms(4) expiring.nothing_new [OF assms(1)]
    by (simp add: fresh_inv_def new_fresh_def new_live_def cache_newest_def cache_sound_def answers_sound_def
        announced_fresh_def new_ingest_def)
  from cacher.fresh_reachable_inv [OF assms(2,5,1,3) this] fresh_reachable_history [OF assms(5)]
  show ?thesis
    by (simp add: fresh_inv_def announced_fresh_def new_fresh_def new_live_def summaries_ttl_def add.assoc)
qed

end
