(* ===== verification/Migrations.thy ===== *)
theory Migrations
  imports Tables
begin

text \<open>
  \<^verbatim>\<open>src/migrations/\<close>: three migrations of the database, each a list of statements
  to go up and one to go down.  The statements are those of the source as data; what a statement
  does to a schema and its rows, and when it is refused, is what PostgreSQL documents for it, with
  every error the one failed query of typeorm.  A migration runs in a transaction, so an error
  leaves the database as it was.
\<close>

section \<open>Databases\<close>

datatype sql_type = NumericType | VarcharType | TimestamptzType | JsonbType | EnumType string

record sql_column =
  sc_name :: string
  sc_type :: sql_type
  sc_notNull :: bool
  sc_now :: bool

datatype sql_key = UniqueKey "string list" | PrimaryKey "string list"

type_synonym sql_row = "(string, string option) jsmap"

record sql_table =
  st_columns :: "sql_column list"
  st_keys :: "(string \<times> sql_key) list"
  st_rows :: "sql_row list"

text \<open>An index has its table and columns.\<close>

record database =
  db_types :: "string \<Rightarrow> string list option"
  db_tables :: "(string, sql_table) jsmap"
  db_indexes :: "(string \<times> string \<times> string list) list"

section \<open>Statements\<close>

datatype statement =
    AddColumn string sql_column
  | DropColumn string string
  | CreateTable string "sql_column list" "(string \<times> sql_key) list"
  | DropTable string
  | CreateIndex string string "string list"
  | DropIndex string
  | RenameType string string
  | CreateEnum string "string list"
  | DropType string
  | AlterType string string string
  | AddKey string string sql_key
  | DropKey string string

definition refused :: "string \<Rightarrow> 'a result" where
  "refused msg = Inl (ErrObj QueryFailedErrorClass msg None None)"

definition on_table :: "string \<Rightarrow> (sql_table \<Rightarrow> sql_table result) \<Rightarrow> database \<Rightarrow> database result" where
  "on_table n f d =
     (case map_get (db_tables d) n of
        None \<Rightarrow> refused ''relation does not exist''
      | Some t \<Rightarrow> res_bind (f t) (\<lambda>t'. Inr (d\<lparr> db_tables := map_set n t' (db_tables d) \<rparr>)))"

text \<open>Tables, indexes and the keys of tables are relations, and share their names.\<close>

definition relation_names :: "database \<Rightarrow> string list" where
  "relation_names d = map_keys (db_tables d) @ map fst (db_indexes d)
     @ concat (map (\<lambda>(n, t). map fst (st_keys t)) (db_tables d))"

text \<open>A unique key over the columns of another key of the same statement is discarded.\<close>

definition kept_keys :: "(string \<times> sql_key) list \<Rightarrow> (string \<times> sql_key) list" where
  "kept_keys keys = filter (\<lambda>(n, k). case k of UniqueKey cs \<Rightarrow> PrimaryKey cs \<notin> set (map snd keys) | _ \<Rightarrow> True) keys"

definition retyped :: "(sql_column \<Rightarrow> bool) \<Rightarrow> sql_type \<Rightarrow> sql_table \<Rightarrow> sql_table" where
  "retyped P y t = t\<lparr> st_columns := map (\<lambda>c. if P c then c\<lparr> sc_type := y \<rparr> else c) (st_columns t) \<rparr>"

text \<open>The type follows its new name in the columns that have it.\<close>

definition type_renamed :: "string \<Rightarrow> string \<Rightarrow> (string, sql_table) jsmap \<Rightarrow> (string, sql_table) jsmap" where
  "type_renamed x y ts = map (\<lambda>(n, t). (n, retyped (\<lambda>c. sc_type c = EnumType x) (EnumType y) t)) ts"

definition type_used :: "string \<Rightarrow> database \<Rightarrow> bool" where
  "type_used x d = list_ex (\<lambda>(n, t). list_ex (\<lambda>c. sc_type c = EnumType x) (st_columns t)) (db_tables d)"

text \<open>Two rows agree on the columns of a key; null agrees with nothing.\<close>

definition key_of :: "string list \<Rightarrow> sql_row \<Rightarrow> string option list" where
  "key_of cs r = map (\<lambda>c. case map_get r c of Some v \<Rightarrow> v | None \<Rightarrow> None) cs"

fun key_columns :: "sql_key \<Rightarrow> string list" where
  "key_columns (UniqueKey cs) = cs"
| "key_columns (PrimaryKey cs) = cs"

definition key_holds :: "sql_key \<Rightarrow> sql_row list \<Rightarrow> bool" where
  "key_holds k rows = distinct (filter (\<lambda>v. None \<notin> set v) (map (key_of (key_columns k)) rows))"

text \<open>The cast through text: null, or one of the labels.\<close>

definition castable :: "string list \<Rightarrow> string \<Rightarrow> sql_row \<Rightarrow> bool" where
  "castable labels c r = (case map_get r c of Some (Some v) \<Rightarrow> v \<in> set labels | _ \<Rightarrow> True)"

text \<open>The columns these statements add have no default; a dropped column takes its keys and indexes
  with it.\<close>

fun execute :: "statement \<Rightarrow> database \<Rightarrow> database result" where
  "execute (AddColumn n c) d = on_table n (\<lambda>t.
     if sc_name c \<in> set (map sc_name (st_columns t)) then refused ''column already exists''
     else if sc_notNull c \<and> st_rows t \<noteq> [] then refused ''column contains null values''
     else Inr (t\<lparr> st_columns := st_columns t @ [c], st_rows := map (\<lambda>r. r @ [(sc_name c, None)]) (st_rows t) \<rparr>)) d"
| "execute (DropColumn n c) d = res_bind (on_table n (\<lambda>t.
     if c \<notin> set (map sc_name (st_columns t)) then refused ''column does not exist''
     else Inr (t\<lparr> st_columns := filter (\<lambda>k. sc_name k \<noteq> c) (st_columns t),
       st_keys := filter (\<lambda>(m, k). c \<notin> set (key_columns k)) (st_keys t),
       st_rows := map (map_remove c) (st_rows t) \<rparr>)) d)
     (\<lambda>d'. Inr (d'\<lparr> db_indexes := filter (\<lambda>(i, m, cs). \<not> (m = n \<and> c \<in> set cs)) (db_indexes d') \<rparr>))"
| "execute (CreateTable n columns keys) d =
     (if n \<in> set (relation_names d) \<or> (\<exists>k \<in> set (kept_keys keys). fst k \<in> set (relation_names d))
      then refused ''relation already exists''
      else Inr (d\<lparr> db_tables := map_set n \<lparr> st_columns = columns, st_keys = kept_keys keys, st_rows = [] \<rparr> (db_tables d) \<rparr>))"
| "execute (DropTable n) d =
     (if map_get (db_tables d) n = None then refused ''table does not exist''
      else Inr (d\<lparr> db_tables := map_remove n (db_tables d),
        db_indexes := filter (\<lambda>i. fst (snd i) \<noteq> n) (db_indexes d) \<rparr>))"
| "execute (CreateIndex i n columns) d =
     (if i \<in> set (relation_names d) then refused ''relation already exists''
      else if map_get (db_tables d) n = None then refused ''relation does not exist''
      else Inr (d\<lparr> db_indexes := db_indexes d @ [(i, n, columns)] \<rparr>))"
| "execute (DropIndex i) d =
     (if i \<notin> set (map fst (db_indexes d)) then refused ''index does not exist''
      else Inr (d\<lparr> db_indexes := filter (\<lambda>x. fst x \<noteq> i) (db_indexes d) \<rparr>))"
| "execute (RenameType x y) d =
     (if db_types d x = None then refused ''type does not exist''
      else if db_types d y \<noteq> None then refused ''type already exists''
      else Inr (d\<lparr> db_types := (db_types d)(x := None, y := db_types d x), db_tables := type_renamed x y (db_tables d) \<rparr>))"
| "execute (CreateEnum x labels) d =
     (if db_types d x \<noteq> None then refused ''type already exists''
      else Inr (d\<lparr> db_types := (db_types d)(x := Some labels) \<rparr>))"
| "execute (DropType x) d =
     (if db_types d x = None then refused ''type does not exist''
      else if type_used x d then refused ''cannot drop type because other objects depend on it''
      else Inr (d\<lparr> db_types := (db_types d)(x := None) \<rparr>))"
| "execute (AlterType n c x) d =
     (case db_types d x of
        None \<Rightarrow> refused ''type does not exist''
      | Some labels \<Rightarrow> on_table n (\<lambda>t.
          if c \<notin> set (map sc_name (st_columns t)) then refused ''column does not exist''
          else if \<not> list_all (castable labels c) (st_rows t) then refused ''invalid input value for enum''
          else Inr (retyped (\<lambda>k. sc_name k = c) (EnumType x) t)) d)"
| "execute (AddKey n k key) d =
     (if k \<in> set (relation_names d) then refused ''relation already exists''
      else on_table n (\<lambda>t.
        if \<not> key_holds key (st_rows t) then refused ''could not create unique index''
        else Inr (t\<lparr> st_keys := st_keys t @ [(k, key)] \<rparr>)) d)"
| "execute (DropKey n k) d = on_table n (\<lambda>t.
     if k \<notin> set (map fst (st_keys t)) then refused ''constraint does not exist''
     else Inr (t\<lparr> st_keys := filter (\<lambda>x. fst x \<noteq> k) (st_keys t) \<rparr>)) d"

fun run_statements :: "statement list \<Rightarrow> database \<Rightarrow> database result" where
  "run_statements [] d = Inr d"
| "run_statements (q # qs) d = res_bind (execute q d) (run_statements qs)"

section \<open>The migrations\<close>

record migration =
  mg_name :: string
  mg_up :: "statement list"
  mg_down :: "statement list"

abbreviation column_of :: "string \<Rightarrow> sql_type \<Rightarrow> sql_column" where
  "column_of n y \<equiv> \<lparr> sc_name = n, sc_type = y, sc_notNull = True, sc_now = False \<rparr>"

definition AddDeltaAndMarkIV :: migration where
  "AddDeltaAndMarkIV =
     \<lparr> mg_name = ''AddDeltaAndMarkIV1652202023001'',
       mg_up = [AddColumn ''trade_options'' ((column_of ''markIV'' NumericType)\<lparr> sc_notNull := False \<rparr>),
         AddColumn ''trade_options'' ((column_of ''delta'' NumericType)\<lparr> sc_notNull := False \<rparr>)],
       mg_down = [DropColumn ''trade_options'' ''delta'', DropColumn ''trade_options'' ''markIV''] \<rparr>"

text \<open>The class of the file AddMfivIndices.\<close>

abbreviation index_key :: "string list" where
  "index_key \<equiv> [''timestamp'', ''exchange'', ''timePeriod'', ''asset'']"

definition AddRisklessRate :: migration where
  "AddRisklessRate =
     \<lparr> mg_name = ''AddRisklessRate1652888585060'',
       mg_up =
        [CreateTable ''mfiv_indices''
          [column_of ''timestamp'' TimestamptzType, column_of ''exchange'' VarcharType,
           column_of ''timePeriod'' VarcharType, column_of ''asset'' VarcharType, column_of ''value'' NumericType,
           column_of ''invValue'' NumericType, column_of ''underlyingPrice'' NumericType,
           column_of ''nearExpiry'' TimestamptzType, column_of ''nextExpiry'' TimestamptzType,
           (column_of ''extra'' JsonbType)\<lparr> sc_notNull := False \<rparr>,
           (column_of ''createdAt'' TimestamptzType)\<lparr> sc_now := True \<rparr>]
          [(''UQ_0eb4a2e6e99a906095e43c32f29'', UniqueKey index_key),
           (''PK_0eb4a2e6e99a906095e43c32f29'', PrimaryKey index_key)],
         CreateIndex ''IDX_0eb4a2e6e99a906095e43c32f2'' ''mfiv_indices'' index_key],
       mg_down = [DropIndex ''IDX_0eb4a2e6e99a906095e43c32f2'', DropTable ''mfiv_indices''] \<rparr>"

definition AddSolAsset :: migration where
  "AddSolAsset =
     \<lparr> mg_name = ''AddSolAsset1653318939508'',
       mg_up =
        [RenameType ''trade_options_asset_enum'' ''trade_options_asset_enum_old'',
         CreateEnum ''trade_options_asset_enum'' [''ETH'', ''BTC'', ''SOL''],
         AlterType ''trade_options'' ''asset'' ''trade_options_asset_enum'',
         DropType ''trade_options_asset_enum_old'',
         RenameType ''trade_pairs_symbol_enum'' ''trade_pairs_symbol_enum_old'',
         CreateEnum ''trade_pairs_symbol_enum''
          [''ETHUSDT'', ''ETHUSD'', ''ETH/USD'', ''ETH/USDC'', ''ETH/USDT'', ''ETH-USD'',
           ''BTCUSDT'', ''BTCUSD'', ''BTC/USD'', ''BTC/USDC'', ''BTC/USDT'', ''BTC-USD'',
           ''SOLUSDT'', ''SOLUSD'', ''SOL/USD'', ''SOL/USDC'', ''SOL/USDT'', ''SOL-USD''],
         AlterType ''trade_pairs'' ''symbol'' ''trade_pairs_symbol_enum'',
         DropType ''trade_pairs_symbol_enum_old'',
         AddKey ''mfiv_indices'' ''UQ_0eb4a2e6e99a906095e43c32f29'' (UniqueKey index_key)],
       mg_down =
        [DropKey ''mfiv_indices'' ''UQ_0eb4a2e6e99a906095e43c32f29'',
         CreateEnum ''trade_pairs_symbol_enum_old''
          [''ETHUSDT'', ''ETHUSD'', ''ETH/USD'', ''ETH/USDC'', ''ETH/USDT'', ''ETH-USD'',
           ''BTCUSDT'', ''BTCUSD'', ''BTC/USD'', ''BTC/USDC'', ''BTC/USDT'', ''BTC-USD''],
         AlterType ''trade_pairs'' ''symbol'' ''trade_pairs_symbol_enum_old'',
         DropType ''trade_pairs_symbol_enum'',
         RenameType ''trade_pairs_symbol_enum_old'' ''trade_pairs_symbol_enum'',
         CreateEnum ''trade_options_asset_enum_old'' [''ETH'', ''BTC''],
         AlterType ''trade_options'' ''asset'' ''trade_options_asset_enum_old'',
         DropType ''trade_options_asset_enum'',
         RenameType ''trade_options_asset_enum_old'' ''trade_options_asset_enum''] \<rparr>"

text \<open>In the order of their times; reverting takes the last one first.\<close>

definition migrations :: "migration list" where
  "migrations = [AddDeltaAndMarkIV, AddRisklessRate, AddSolAsset]"

definition migrate :: "migration list \<Rightarrow> database \<Rightarrow> database result" where
  "migrate ms = run_statements (concat (map mg_up ms))"

definition revert :: "migration list \<Rightarrow> database \<Rightarrow> database result" where
  "revert ms = run_statements (concat (map mg_down (rev ms)))"

section \<open>A type that one column has\<close>

text \<open>No column of another name or table has the type, and every column of that name has it.\<close>

definition enum_column :: "string \<Rightarrow> string \<Rightarrow> string \<Rightarrow> (string, sql_table) jsmap \<Rightarrow> bool" where
  "enum_column x n c ts \<longleftrightarrow>
     (\<forall>(m, t) \<in> set ts. \<forall>k \<in> set (st_columns t). sc_type k = EnumType x \<longleftrightarrow> m = n \<and> sc_name k = c)"

definition unused_type :: "string \<Rightarrow> (string, sql_table) jsmap \<Rightarrow> bool" where
  "unused_type x ts \<longleftrightarrow> (\<forall>(m, t) \<in> set ts. \<forall>k \<in> set (st_columns t). sc_type k \<noteq> EnumType x)"

definition column_exists :: "string \<Rightarrow> string \<Rightarrow> (string, sql_table) jsmap \<Rightarrow> bool" where
  "column_exists n c ts \<longleftrightarrow> (\<exists>t. map_get ts n = Some t \<and> c \<in> set (map sc_name (st_columns t)))"

definition rows_of :: "string \<Rightarrow> (string, sql_table) jsmap \<Rightarrow> sql_row list" where
  "rows_of n ts = (case map_get ts n of Some t \<Rightarrow> st_rows t | None \<Rightarrow> [])"

lemma map_set_same_keys:
  "map_ok ts \<Longrightarrow> n \<in> set (map_keys ts) \<Longrightarrow> map_set n v ts = map (\<lambda>(m, t). (m, if m = n then v else t)) ts"
proof (induction ts)
  case (Cons a ts)
  have "map (\<lambda>(m, t). (m, if m = n then v else t)) ts = ts" if "n \<notin> set (map_keys ts)"
    using that by (intro map_idI) (force simp: map_keys_def)
  with Cons show ?case by (cases a) (auto simp: map_set_def map_ok_def map_keys_def)
qed (simp add: map_keys_def)

lemma retyped_id: "(\<And>k. k \<in> set (st_columns t) \<Longrightarrow> P k \<Longrightarrow> sc_type k = y) \<Longrightarrow> retyped P y t = t"
  by (cases t) (auto simp: retyped_def intro!: map_idI)

lemma retyped_cong:
  "(\<And>k. k \<in> set (st_columns t) \<Longrightarrow> P k \<longleftrightarrow> Q k) \<Longrightarrow> retyped P y t = retyped Q y t"
  by (auto simp: retyped_def)

lemma st_rows_retyped [simp]: "st_rows (retyped P y t) = st_rows t"
  by (simp add: retyped_def)

lemma st_keys_retyped [simp]: "st_keys (retyped P y t) = st_keys t"
  by (simp add: retyped_def)

lemma sc_names_retyped [simp]: "map sc_name (st_columns (retyped P y t)) = map sc_name (st_columns t)"
  by (simp add: retyped_def)

lemma type_renamed_keys [simp]: "map_keys (type_renamed x y ts) = map_keys ts"
  by (auto simp: type_renamed_def map_keys_def)

lemma map_ok_type_renamed [simp]: "map_ok (type_renamed x y ts) = map_ok ts"
  by (simp add: map_ok_def)

lemma map_get_type_renamed:
  "map_get (type_renamed x y ts) n = map_option (retyped (\<lambda>c. sc_type c = EnumType x) (EnumType y)) (map_get ts n)"
  unfolding type_renamed_def by (rule map_get_map)

lemma column_exists_type_renamed [simp]: "column_exists n c (type_renamed x y ts) = column_exists n c ts"
  by (auto simp: column_exists_def map_get_type_renamed simp flip: set_map simp del: set_map)

lemma rows_of_type_renamed [simp]: "rows_of n (type_renamed x y ts) = rows_of n ts"
  by (simp add: rows_of_def map_get_type_renamed split: option.splits)

lemma altered_type_is_renamed:
  assumes "map_ok ts" and "enum_column x n c ts" and "map_get ts n = Some t"
  shows "map_set n (retyped (\<lambda>k. sc_name k = c) (EnumType y) t) ts = type_renamed x y ts"
proof -
  have "n \<in> set (map_keys ts)" using assms(3) by (simp add: map_keys_get)
  then have "map_set n (retyped (\<lambda>k. sc_name k = c) (EnumType y) t) ts
      = map (\<lambda>(m, u). (m, if m = n then retyped (\<lambda>k. sc_name k = c) (EnumType y) t else u)) ts"
    by (rule map_set_same_keys [OF assms(1)])
  also have "\<dots> = type_renamed x y ts"
    unfolding type_renamed_def
  proof (rule map_cong [OF refl], safe)
    fix m u assume mem: "(m, u) \<in> set ts"
    have u: "m = n \<Longrightarrow> u = t"
      using mem assms(1,3) by (auto simp: map_get_def map_ok_def map_keys_def dest: map_of_is_SomeI)
    have only: "sc_type k = EnumType x \<longleftrightarrow> m = n \<and> sc_name k = c" if "k \<in> set (st_columns u)" for k
      using assms(2) mem that by (auto simp: enum_column_def)
    show "(if m = n then retyped (\<lambda>k. sc_name k = c) (EnumType y) t else u)
        = retyped (\<lambda>k. sc_type k = EnumType x) (EnumType y) u"
      using u only by (auto intro!: retyped_cong sym [OF retyped_id])
  qed
  finally show ?thesis .
qed

lemma type_renamed_back:
  assumes "unused_type y ts"
  shows "type_renamed y x (type_renamed x y ts) = ts"
  unfolding type_renamed_def map_map
proof (rule map_idI, safe)
  fix m t assume mem: "(m, t) \<in> set ts"
  have "k\<lparr> sc_type := EnumType x \<rparr> = k" if "sc_type k = EnumType x" for k :: sql_column
    using that by (cases k) simp
  moreover have "sc_type k \<noteq> EnumType y" if "k \<in> set (st_columns t)" for k
    using assms mem that by (auto simp: unused_type_def)
  ultimately show "((\<lambda>(n, t). (n, retyped (\<lambda>c. sc_type c = EnumType y) (EnumType x) t))
      \<circ> (\<lambda>(n, t). (n, retyped (\<lambda>c. sc_type c = EnumType x) (EnumType y) t))) (m, t) = (m, t)"
    by (cases t) (auto simp: retyped_def intro!: map_idI)
qed

lemma unused_after_rename: "x \<noteq> y \<Longrightarrow> unused_type x (type_renamed x y ts)"
  by (auto simp: unused_type_def type_renamed_def retyped_def)

lemma enum_column_renamed:
  assumes "enum_column x n c ts" and "unused_type y ts"
  shows "enum_column y n c (type_renamed x y ts)"
proof -
  have only: "sc_type k' = EnumType y \<longleftrightarrow> m = n \<and> sc_name k' = c"
    if "(m, t') \<in> set (type_renamed x y ts)" and "k' \<in> set (st_columns t')" for m t' k'
  proof -
    from that obtain t k where t: "(m, t) \<in> set ts" "k \<in> set (st_columns t)"
        and k': "k' = (if sc_type k = EnumType x then k\<lparr> sc_type := EnumType y \<rparr> else k)"
      by (auto simp: type_renamed_def retyped_def)
    have "sc_type k = EnumType x \<longleftrightarrow> m = n \<and> sc_name k = c" and "sc_type k \<noteq> EnumType y"
      using assms t by (auto simp: enum_column_def unused_type_def)
    then show ?thesis
      unfolding k' by (cases "m = n \<and> sc_name k = c") auto
  qed
  show ?thesis
    unfolding enum_column_def by (rule ballI, clarify) (rule only)
qed

lemma not_type_used: "unused_type x (db_tables d) \<Longrightarrow> \<not> type_used x d"
  by (auto simp: unused_type_def type_used_def list_ex_iff)

lemma alter_type:
  assumes "map_ok (db_tables d)" and "enum_column x n c (db_tables d)" and "column_exists n c (db_tables d)"
    and "db_types d y = Some labels"
  shows "execute (AlterType n c y) d =
    (if list_all (castable labels c) (rows_of n (db_tables d))
     then Inr (d\<lparr> db_tables := type_renamed x y (db_tables d) \<rparr>) else refused ''invalid input value for enum'')"
proof -
  obtain t where t: "map_get (db_tables d) n = Some t" and c: "c \<in> set (map sc_name (st_columns t))"
    using assms(3) by (auto simp: column_exists_def)
  have rows: "rows_of n (db_tables d) = st_rows t" by (simp add: rows_of_def t)
  show ?thesis
    unfolding execute.simps on_table_def t assms(4) option.case rows
    using c altered_type_is_renamed [OF assms(1,2) t, of y] by (simp add: res_bind_def refused_def)
qed

lemma run_statements_append: "run_statements (qs @ rs) d = res_bind (run_statements qs d) (run_statements rs)"
  by (induction qs arbitrary: d) (auto simp: res_bind_def split: sum.splits)

text \<open>The four statements that give the one column of a type another list of labels, upwards and
  downwards: the tables are left as they are, or the first row that does not fit refuses them.\<close>

lemma switch_up:
  assumes "map_ok (db_tables d)" and "enum_column x n c (db_tables d)" and "column_exists n c (db_tables d)"
    and "unused_type y (db_tables d)" and "db_types d x = Some old" and "db_types d y = None" and "x \<noteq> y"
    and "list_all (castable labels c) (rows_of n (db_tables d))"
  shows "run_statements [RenameType x y, CreateEnum x labels, AlterType n c x, DropType y] d
    = Inr (d\<lparr> db_types := (db_types d)(x := Some labels) \<rparr>)"
proof -
  define d1 where "d1 = d\<lparr> db_types := (db_types d)(x := Some labels, y := Some old),
    db_tables := type_renamed x y (db_tables d) \<rparr>"
  have undone: "type_renamed y x (type_renamed x y (db_tables d)) = db_tables d"
    by (rule type_renamed_back [OF assms(4)])
  have "execute (AlterType n c x) d1 = Inr (d1\<lparr> db_tables := db_tables d \<rparr>)"
    using alter_type [of d1 y n c x labels] assms enum_column_renamed [OF assms(2,4)]
    by (simp add: d1_def undone)
  moreover have "run_statements [RenameType x y, CreateEnum x labels] d = Inr d1"
    using assms(5-7) by (simp add: d1_def fun_upd_twist [of x y])
  moreover have "execute (DropType y) (d1\<lparr> db_tables := db_tables d \<rparr>)
      = Inr (d\<lparr> db_types := (db_types d)(x := Some labels) \<rparr>)"
  proof -
    have types: "(db_types d1)(y := None) = (db_types d)(x := Some labels)"
      using assms(6,7) by (intro ext) (simp add: d1_def)
    have unused: "\<not> type_used y (d1\<lparr> db_tables := db_tables d \<rparr>)"
      by (rule not_type_used) (simp add: assms(4))
    have "execute (DropType y) (d1\<lparr> db_tables := db_tables d \<rparr>)
        = Inr (d1\<lparr> db_tables := db_tables d, db_types := (db_types d1)(y := None) \<rparr>)"
      using unused by (simp add: d1_def)
    also have "d1\<lparr> db_tables := db_tables d, db_types := (db_types d1)(y := None) \<rparr>
        = d\<lparr> db_types := (db_types d)(x := Some labels) \<rparr>"
      unfolding types by (cases d) (simp add: d1_def)
    finally show ?thesis .
  qed
  ultimately show ?thesis
    using run_statements_append [of "[RenameType x y, CreateEnum x labels]" "[AlterType n c x, DropType y]" d]
    by (simp del: execute.simps)
qed

lemma switch_down:
  assumes "map_ok (db_tables d)" and "enum_column x n c (db_tables d)" and "column_exists n c (db_tables d)"
    and "unused_type y (db_tables d)" and "db_types d x = Some old" and "db_types d y = None" and "x \<noteq> y"
  shows "run_statements [CreateEnum y labels, AlterType n c y, DropType x, RenameType y x] d
    = (if list_all (castable labels c) (rows_of n (db_tables d))
       then Inr (d\<lparr> db_types := (db_types d)(x := Some labels) \<rparr>) else refused ''invalid input value for enum'')"
proof -
  define d1 where "d1 = d\<lparr> db_types := (db_types d)(y := Some labels) \<rparr>"
  define d2 where "d2 = d1\<lparr> db_tables := type_renamed x y (db_tables d) \<rparr>"
  have "execute (AlterType n c y) d1 = (if list_all (castable labels c) (rows_of n (db_tables d)) then Inr d2
      else refused ''invalid input value for enum'')"
    using alter_type [of d1 x n c y labels] assms by (simp add: d1_def d2_def)
  moreover have "execute (CreateEnum y labels) d = Inr d1"
    using assms by (simp add: d1_def)
  moreover have "execute (DropType x) d2 = Inr (d2\<lparr> db_types := (db_types d)(y := Some labels, x := None) \<rparr>)"
    using assms not_type_used [of x d2] unused_after_rename [OF assms(7)] by (simp add: d1_def d2_def)
  moreover have "execute (RenameType y x) (d2\<lparr> db_types := (db_types d)(y := Some labels, x := None) \<rparr>)
      = Inr (d\<lparr> db_types := (db_types d)(x := Some labels) \<rparr>)"
  proof -
    have types: "((db_types d)(y := Some labels, x := None))(y := None, x := Some labels)
        = (db_types d)(x := Some labels)"
      using assms(6,7) by (intro ext) simp
    have "execute (RenameType y x) (d2\<lparr> db_types := (db_types d)(y := Some labels, x := None) \<rparr>)
        = Inr (d\<lparr> db_types := ((db_types d)(y := Some labels, x := None))(y := None, x := Some labels) \<rparr>)"
      using type_renamed_back [OF assms(4), of x] assms(7) by (simp add: d1_def d2_def)
    then show ?thesis
      unfolding types .
  qed
  ultimately show ?thesis
    by (simp add: refused_def del: execute.simps)
qed

section \<open>Schemas\<close>

definition enum_in :: "string \<Rightarrow> string \<Rightarrow> string \<Rightarrow> string list \<Rightarrow> database \<Rightarrow> bool" where
  "enum_in x n c labels d \<longleftrightarrow>
     enum_column x n c (db_tables d) \<and> column_exists n c (db_tables d) \<and> db_types d x = Some labels
     \<and> db_types d (x @ ''_old'') = None \<and> unused_type (x @ ''_old'') (db_tables d)
     \<and> list_all (castable labels c) (rows_of n (db_tables d))"

definition lacks_column :: "string \<Rightarrow> sql_table \<Rightarrow> bool" where
  "lacks_column c t \<longleftrightarrow> c \<notin> set (map sc_name (st_columns t)) \<and> list_all (\<lambda>(m, k). c \<notin> set (key_columns k)) (st_keys t)
     \<and> list_all (\<lambda>r. c \<notin> set (map_keys r)) (st_rows t)"

text \<open>The database before the migrations, as far as they touch it, and a database that they reached
  (with the rows it has meanwhile).\<close>

definition initial_schema :: "database \<Rightarrow> bool" where
  "initial_schema d \<longleftrightarrow> map_ok (db_tables d)
     \<and> enum_in ''trade_options_asset_enum'' ''trade_options'' ''asset'' [''ETH'', ''BTC''] d
     \<and> enum_in ''trade_pairs_symbol_enum'' ''trade_pairs'' ''symbol'' (ETH_SYMBOLS @ BTC_SYMBOLS) d
     \<and> (case map_get (db_tables d) ''trade_options'' of None \<Rightarrow> False
         | Some t \<Rightarrow> lacks_column ''markIV'' t \<and> lacks_column ''delta'' t)
     \<and> list_all (\<lambda>n. n \<notin> set (relation_names d))
         [''mfiv_indices'', ''UQ_0eb4a2e6e99a906095e43c32f29'', ''PK_0eb4a2e6e99a906095e43c32f29'',
          ''IDX_0eb4a2e6e99a906095e43c32f2'']
     \<and> list_all (\<lambda>(i, n, cs). n \<noteq> ''mfiv_indices'' \<and>
         (n = ''trade_options'' \<longrightarrow> ''markIV'' \<notin> set cs \<and> ''delta'' \<notin> set cs)) (db_indexes d)"

definition migrated_schema :: "database \<Rightarrow> bool" where
  "migrated_schema d \<longleftrightarrow> map_ok (db_tables d)
     \<and> enum_in ''trade_options_asset_enum'' ''trade_options'' ''asset'' BaseCurrencyEnum d
     \<and> enum_in ''trade_pairs_symbol_enum'' ''trade_pairs'' ''symbol'' SYMBOLS d
     \<and> (case map_get (db_tables d) ''mfiv_indices'' of None \<Rightarrow> False
         | Some t \<Rightarrow> ''UQ_0eb4a2e6e99a906095e43c32f29'' \<in> set (map fst (st_keys t)))"

lemma on_all_tables:
  "map_ok ts \<Longrightarrow> (\<forall>(m, t) \<in> set ts. P m t) \<longleftrightarrow> (\<forall>m t. map_get ts m = Some t \<longrightarrow> P m t)"
  unfolding map_get_def map_ok_def map_keys_def by (auto simp: map_of_eq_Some_iff)

lemma map_set_get: "map_get ts n = Some t \<Longrightarrow> map_set n t ts = ts"
  unfolding map_get_def map_set_def by (induction ts) auto

lemma map_set_again: "map_set n u (map_set n t ts) = map_set n u ts"
  unfolding map_set_def by (induction ts) auto

lemma map_remove_set: "n \<notin> set (map_keys ts) \<Longrightarrow> map_remove n (map_set n t ts) = ts"
  unfolding map_keys_def map_remove_def map_set_def by (induction ts) (auto simp: AList.delete_eq)

text \<open>A table is replaced by one whose columns of enumerations and whose cells in them are the same.\<close>

lemma enum_in_set_table:
  assumes "enum_in x n c labels d" and "map_ok (db_tables d)" and "db_types d' = db_types d"
    and "db_tables d' = map_set m t' (db_tables d)"
    and "\<And>y k. k \<in> set (st_columns t') \<Longrightarrow> sc_type k = EnumType y \<Longrightarrow>
      \<exists>t. map_get (db_tables d) m = Some t \<and> k \<in> set (st_columns t)"
    and "\<And>t k. map_get (db_tables d) m = Some t \<Longrightarrow> k \<in> set (st_columns t) \<Longrightarrow> k \<in> set (st_columns t')"
    and "m = n \<Longrightarrow> \<forall>k \<in> set (st_columns t'). sc_name k = c \<longrightarrow> sc_type k = EnumType x"
    and "m = n \<Longrightarrow> list_all (castable labels c) (st_rows t')"
  shows "enum_in x n c labels d'"
proof -
  have ok: "map_ok (map_set m t' (db_tables d))" using assms(2) by simp
  have "enum_column x n c (map_set m t' (db_tables d))"
    using assms(1) assms(5) [of _ x] assms(7)
    by (fastforce simp: enum_in_def enum_column_def on_all_tables [OF ok] on_all_tables [OF assms(2)])
  moreover have "unused_type (x @ ''_old'') (map_set m t' (db_tables d))"
    using assms(1) assms(5) [of _ "x @ ''_old''"]
    by (fastforce simp: enum_in_def unused_type_def on_all_tables [OF ok] on_all_tables [OF assms(2)])
  moreover have "column_exists n c (map_set m t' (db_tables d))"
    using assms(1,6) by (force simp: enum_in_def column_exists_def)
  moreover have "list_all (castable labels c) (rows_of n (map_set m t' (db_tables d)))"
    using assms(1,8) by (auto simp: enum_in_def rows_of_def)
  ultimately show ?thesis
    using assms(1) by (simp add: enum_in_def assms(3,4))
qed

lemma enum_in_set_type:
  "enum_in x n c labels d \<Longrightarrow> z \<noteq> x \<Longrightarrow> z \<noteq> x @ ''_old'' \<Longrightarrow>
   enum_in x n c labels (d\<lparr> db_types := (db_types d)(z := v) \<rparr>)"
  by (simp add: enum_in_def)

lemma enum_switch_up:
  assumes "enum_in x n c old d" and "map_ok (db_tables d)" and "list_all (castable labels c) (rows_of n (db_tables d))"
  shows "run_statements [RenameType x (x @ ''_old''), CreateEnum x labels, AlterType n c x, DropType (x @ ''_old'')] d
      = Inr (d\<lparr> db_types := (db_types d)(x := Some labels) \<rparr>)"
    and "enum_in x n c labels (d\<lparr> db_types := (db_types d)(x := Some labels) \<rparr>)"
proof -
  show "run_statements [RenameType x (x @ ''_old''), CreateEnum x labels, AlterType n c x, DropType (x @ ''_old'')] d
      = Inr (d\<lparr> db_types := (db_types d)(x := Some labels) \<rparr>)"
    using assms unfolding enum_in_def by (intro switch_up) auto
  show "enum_in x n c labels (d\<lparr> db_types := (db_types d)(x := Some labels) \<rparr>)"
    using assms by (simp add: enum_in_def)
qed

lemma enum_switch_down:
  assumes "enum_in x n c old d" and "map_ok (db_tables d)"
  shows "run_statements [CreateEnum (x @ ''_old'') labels, AlterType n c (x @ ''_old''), DropType x, RenameType (x @ ''_old'') x] d
    = (if list_all (castable labels c) (rows_of n (db_tables d))
       then Inr (d\<lparr> db_types := (db_types d)(x := Some labels) \<rparr>) else refused ''invalid input value for enum'')"
  using assms unfolding enum_in_def by (intro switch_down) auto

lemmas symbol_enums = ETH_SYMBOLS_def BTC_SYMBOLS_def SOL_SYMBOLS_def SYMBOLS_def BaseCurrencyEnum_def

lemma castable_mono: "list_all (castable ls c) rows \<Longrightarrow> set ls \<subseteq> set ls' \<Longrightarrow> list_all (castable ls' c) rows"
  by (auto simp: list_all_iff castable_def split: option.splits)

abbreviation set_types :: "string list \<Rightarrow> string list \<Rightarrow> database \<Rightarrow> database" where
  "set_types assets symbols d \<equiv> d\<lparr> db_types := (db_types d)(''trade_options_asset_enum'' := Some assets,
     ''trade_pairs_symbol_enum'' := Some symbols) \<rparr>"

abbreviation set_table :: "string \<Rightarrow> sql_table \<Rightarrow> database \<Rightarrow> database" where
  "set_table n t d \<equiv> d\<lparr> db_tables := map_set n t (db_tables d) \<rparr>"

lemma relation_names_types [simp]: "relation_names (d\<lparr> db_types := f \<rparr>) = relation_names d"
  by (simp add: relation_names_def)

lemma sol_up:
  assumes "map_ok (db_tables d)"
    and "enum_in ''trade_options_asset_enum'' ''trade_options'' ''asset'' [''ETH'', ''BTC''] d"
    and "enum_in ''trade_pairs_symbol_enum'' ''trade_pairs'' ''symbol'' (ETH_SYMBOLS @ BTC_SYMBOLS) d"
    and "map_get (db_tables d) ''mfiv_indices'' = Some t" and "key_holds (UniqueKey index_key) (st_rows t)"
    and "''UQ_0eb4a2e6e99a906095e43c32f29'' \<notin> set (relation_names d)"
  shows "run_statements (mg_up AddSolAsset) d = Inr (set_types BaseCurrencyEnum SYMBOLS
    (set_table ''mfiv_indices'' (t\<lparr> st_keys := st_keys t @ [(''UQ_0eb4a2e6e99a906095e43c32f29'', UniqueKey index_key)] \<rparr>) d))"
    (is "_ = Inr ?d'")
proof -
  define d1 where "d1 = d\<lparr> db_types := (db_types d)(''trade_options_asset_enum'' := Some BaseCurrencyEnum) \<rparr>"
  define d2 where "d2 = d1\<lparr> db_types := (db_types d1)(''trade_pairs_symbol_enum'' := Some SYMBOLS) \<rparr>"
  define ups where "ups x n c ls = [RenameType x (x @ ''_old''), CreateEnum x ls, AlterType n c x, DropType (x @ ''_old'')]"
    for x n c ls
  have up: "mg_up AddSolAsset = ups ''trade_options_asset_enum'' ''trade_options'' ''asset'' BaseCurrencyEnum
      @ ups ''trade_pairs_symbol_enum'' ''trade_pairs'' ''symbol'' SYMBOLS
      @ [AddKey ''mfiv_indices'' ''UQ_0eb4a2e6e99a906095e43c32f29'' (UniqueKey index_key)]"
    by (simp add: AddSolAsset_def symbol_enums ups_def)
  have one: "run_statements (ups ''trade_options_asset_enum'' ''trade_options'' ''asset'' BaseCurrencyEnum) d = Inr d1"
    unfolding ups_def d1_def
    by (rule enum_switch_up(1) [OF assms(2,1)], rule castable_mono [of "[''ETH'', ''BTC'']"])
      (use assms(2) in \<open>auto simp: enum_in_def BaseCurrencyEnum_def\<close>)
  have symbols: "enum_in ''trade_pairs_symbol_enum'' ''trade_pairs'' ''symbol'' (ETH_SYMBOLS @ BTC_SYMBOLS) d1"
    unfolding d1_def by (rule enum_in_set_type [OF assms(3)]) simp_all
  have ok: "map_ok (db_tables d1)" using assms(1) by (simp add: d1_def)
  have two: "run_statements (ups ''trade_pairs_symbol_enum'' ''trade_pairs'' ''symbol'' SYMBOLS) d1 = Inr d2"
    unfolding ups_def d2_def
    by (rule enum_switch_up(1) [OF symbols ok], rule castable_mono [of "ETH_SYMBOLS @ BTC_SYMBOLS"])
      (use symbols in \<open>auto simp: enum_in_def SYMBOLS_def\<close>)
  have "execute (AddKey ''mfiv_indices'' ''UQ_0eb4a2e6e99a906095e43c32f29'' (UniqueKey index_key)) d2 = Inr ?d'"
    using assms(4-6) by (simp add: on_table_def d1_def d2_def)
  then show ?thesis
    by (simp add: up run_statements_append one two del: execute.simps)
qed

lemma sol_down:
  assumes "map_ok (db_tables d)"
    and "enum_in ''trade_options_asset_enum'' ''trade_options'' ''asset'' assets d"
    and "enum_in ''trade_pairs_symbol_enum'' ''trade_pairs'' ''symbol'' symbols d"
    and "map_get (db_tables d) ''mfiv_indices'' = Some t"
    and "''UQ_0eb4a2e6e99a906095e43c32f29'' \<in> set (map fst (st_keys t))"
  shows "run_statements (mg_down AddSolAsset) d =
    (if list_all (castable (ETH_SYMBOLS @ BTC_SYMBOLS) ''symbol'') (rows_of ''trade_pairs'' (db_tables d))
        \<and> list_all (castable [''ETH'', ''BTC''] ''asset'') (rows_of ''trade_options'' (db_tables d))
     then Inr (set_types [''ETH'', ''BTC''] (ETH_SYMBOLS @ BTC_SYMBOLS) (set_table ''mfiv_indices''
       (t\<lparr> st_keys := filter (\<lambda>x. fst x \<noteq> ''UQ_0eb4a2e6e99a906095e43c32f29'') (st_keys t) \<rparr>) d))
     else refused ''invalid input value for enum'')"
    (is "_ = (if ?s \<and> ?a then Inr ?d' else _)")
proof -
  define u where "u = t\<lparr> st_keys := filter (\<lambda>x. fst x \<noteq> ''UQ_0eb4a2e6e99a906095e43c32f29'') (st_keys t) \<rparr>"
  define d1 where "d1 = set_table ''mfiv_indices'' u d"
  define d2 where "d2 = d1\<lparr> db_types := (db_types d1)(''trade_pairs_symbol_enum'' := Some (ETH_SYMBOLS @ BTC_SYMBOLS)) \<rparr>"
  define downs where "downs x n c ls =
      [CreateEnum (x @ ''_old'') ls, AlterType n c (x @ ''_old''), DropType x, RenameType (x @ ''_old'') x]" for x n c ls
  have down: "mg_down AddSolAsset = [DropKey ''mfiv_indices'' ''UQ_0eb4a2e6e99a906095e43c32f29'']
      @ downs ''trade_pairs_symbol_enum'' ''trade_pairs'' ''symbol'' (ETH_SYMBOLS @ BTC_SYMBOLS)
      @ downs ''trade_options_asset_enum'' ''trade_options'' ''asset'' [''ETH'', ''BTC'']"
    by (simp add: AddSolAsset_def symbol_enums downs_def)
  have zero: "execute (DropKey ''mfiv_indices'' ''UQ_0eb4a2e6e99a906095e43c32f29'') d = Inr d1"
    using assms(4,5) by (simp add: on_table_def d1_def u_def)
  have same: "enum_in x n c ls d1" if "enum_in x n c ls d" "n \<noteq> ''mfiv_indices''" for x n c ls
    using that(2) assms(4) by (intro enum_in_set_table [OF that(1) assms(1)]) (auto simp: d1_def u_def)
  have rows: "rows_of n (db_tables d1) = rows_of n (db_tables d)" if "n \<noteq> ''mfiv_indices''" for n
    using that by (simp add: rows_of_def d1_def)
  have ok: "map_ok (db_tables d1)" "map_ok (db_tables d2)" using assms(1) by (simp_all add: d1_def d2_def)
  have one: "run_statements (downs ''trade_pairs_symbol_enum'' ''trade_pairs'' ''symbol'' (ETH_SYMBOLS @ BTC_SYMBOLS)) d1
      = (if ?s then Inr d2 else refused ''invalid input value for enum'')"
    unfolding downs_def d2_def using enum_switch_down [OF same [OF assms(3)] ok(1)] rows by simp
  have "enum_in ''trade_options_asset_enum'' ''trade_options'' ''asset'' assets d2"
    unfolding d2_def by (rule enum_in_set_type [OF same [OF assms(2)]]) simp_all
  from enum_switch_down [OF this ok(2)] rows [of "''trade_options''"]
  have two: "run_statements (downs ''trade_options_asset_enum'' ''trade_options'' ''asset'' [''ETH'', ''BTC'']) d2
      = (if ?a then Inr ?d' else refused ''invalid input value for enum'')"
    by (simp add: downs_def d2_def d1_def u_def fun_upd_twist)
  show ?thesis
    by (simp add: down run_statements_append zero one two refused_def del: execute.simps)
qed

definition widened :: "sql_table \<Rightarrow> sql_table" where
  "widened t = t\<lparr> st_columns := st_columns t @ [(column_of ''markIV'' NumericType)\<lparr> sc_notNull := False \<rparr>,
       (column_of ''delta'' NumericType)\<lparr> sc_notNull := False \<rparr>],
     st_rows := map (\<lambda>r. r @ [(''markIV'', None), (''delta'', None)]) (st_rows t) \<rparr>"

lemma delta_up:
  assumes "map_get (db_tables d) ''trade_options'' = Some t" and "lacks_column ''markIV'' t" and "lacks_column ''delta'' t"
  shows "run_statements (mg_up AddDeltaAndMarkIV) d = Inr (set_table ''trade_options'' (widened t) d)"
  using assms by (simp add: AddDeltaAndMarkIV_def on_table_def lacks_column_def widened_def map_set_again comp_def)

lemma filter_absent: "c \<notin> f ` set xs \<Longrightarrow> filter (\<lambda>x. f x \<noteq> c) xs = xs"
  by (induction xs) auto

lemma map_remove_absent: "k \<notin> set (map_keys m) \<Longrightarrow> map_remove k m = m"
  unfolding map_keys_def map_remove_def by (induction m) auto

lemma map_remove_append: "map_remove k (m @ m') = map_remove k m @ map_remove k m'"
  unfolding map_remove_def by (induction m) auto

lemma removed_again:
  "lacks_column ''markIV'' t \<Longrightarrow> lacks_column ''delta'' t \<Longrightarrow> r \<in> set (st_rows t) \<Longrightarrow>
   map_remove ''markIV'' (map_remove ''delta'' (r @ [(''markIV'', None), (''delta'', None)])) = r"
  by (simp add: lacks_column_def list_all_iff map_remove_append map_remove_absent) (simp add: map_remove_def)

lemma delta_down:
  assumes "map_get (db_tables d) ''trade_options'' = Some t" and "lacks_column ''markIV'' t" and "lacks_column ''delta'' t"
    and "list_all (\<lambda>(i, n, cs). n = ''trade_options'' \<longrightarrow> ''markIV'' \<notin> set cs \<and> ''delta'' \<notin> set cs) (db_indexes d)"
  shows "run_statements (mg_down AddDeltaAndMarkIV) (set_table ''trade_options'' (widened t) d) = Inr d"
proof -
  have columns: "filter (\<lambda>k. sc_name k \<noteq> ''markIV'') (filter (\<lambda>k. sc_name k \<noteq> ''delta'') (st_columns (widened t))) = st_columns t"
    using assms(2,3) by (simp add: widened_def lacks_column_def filter_absent)
  have keys: "filter (\<lambda>(m, k). c \<notin> set (key_columns k)) (st_keys t) = st_keys t" if "lacks_column c t" for c
    using that by (simp add: lacks_column_def list_all_iff)
  have rows: "map (map_remove ''markIV'' \<circ> map_remove ''delta'') (st_rows (widened t)) = st_rows t"
    using removed_again [OF assms(2,3)] by (auto simp: widened_def intro!: map_idI)
  have indexes: "filter (\<lambda>(i, m, cs). \<not> (m = ''trade_options'' \<and> c \<in> set cs)) (db_indexes d) = db_indexes d"
    if "c = ''markIV'' \<or> c = ''delta''" for c
    using assms(4) that by (auto simp: list_all_iff intro!: filter_True)
  define t1 where "t1 = widened t\<lparr> st_columns := filter (\<lambda>k. sc_name k \<noteq> ''delta'') (st_columns (widened t)),
      st_rows := map (map_remove ''delta'') (st_rows (widened t)) \<rparr>"
  have first: "execute (DropColumn ''trade_options'' ''delta'') (set_table ''trade_options'' (widened t) d)
      = Inr (set_table ''trade_options'' t1 d)"
    using keys [OF assms(3)] indexes [of "''delta''"]
    by (simp add: on_table_def t1_def map_set_again) (simp add: widened_def)
  have "t1\<lparr> st_columns := filter (\<lambda>k. sc_name k \<noteq> ''markIV'') (st_columns t1),
      st_rows := map (map_remove ''markIV'') (st_rows t1) \<rparr> = t"
    using columns rows by (cases t) (simp add: t1_def widened_def comp_assoc)
  then have second: "execute (DropColumn ''trade_options'' ''markIV'') (set_table ''trade_options'' t1 d) = Inr d"
    using keys [OF assms(2)] indexes [of "''markIV''"] assms(1)
    by (simp add: on_table_def map_set_again map_set_get) (simp add: t1_def widened_def map_set_get)
  show ?thesis
    by (simp add: AddDeltaAndMarkIV_def first second del: execute.simps)
qed

text \<open>The table that AddRisklessRate creates; its unique key repeats the primary one.\<close>

definition created_table :: sql_table where
  "created_table = \<lparr> st_columns =
       [column_of ''timestamp'' TimestamptzType, column_of ''exchange'' VarcharType,
        column_of ''timePeriod'' VarcharType, column_of ''asset'' VarcharType, column_of ''value'' NumericType,
        column_of ''invValue'' NumericType, column_of ''underlyingPrice'' NumericType,
        column_of ''nearExpiry'' TimestamptzType, column_of ''nextExpiry'' TimestamptzType,
        (column_of ''extra'' JsonbType)\<lparr> sc_notNull := False \<rparr>,
        (column_of ''createdAt'' TimestamptzType)\<lparr> sc_now := True \<rparr>],
     st_keys = [(''PK_0eb4a2e6e99a906095e43c32f29'', PrimaryKey index_key)], st_rows = [] \<rparr>"

abbreviation add_index :: "string \<times> string \<times> string list \<Rightarrow> database \<Rightarrow> database" where
  "add_index i d \<equiv> d\<lparr> db_indexes := db_indexes d @ [i] \<rparr>"

lemma relation_names_table: "map_get (db_tables d) n = Some t \<Longrightarrow> n \<in> set (relation_names d)"
  by (auto simp: relation_names_def map_keys_get)

lemma set_map_set: "set (map_set n t ts) \<subseteq> insert (n, t) (set ts)"
  unfolding map_set_def by (induction ts) auto

lemma relation_names_set_table:
  "set (relation_names (set_table n t d)) \<subseteq> set (relation_names d) \<union> {n} \<union> fst ` set (st_keys t)"
proof
  fix r assume "r \<in> set (relation_names (set_table n t d))"
  then consider "r = n" | "r \<in> set (map_keys (db_tables d))" | "r \<in> set (map fst (db_indexes d))"
      | m u where "(m, u) \<in> set (map_set n t (db_tables d))" "r \<in> fst ` set (st_keys u)"
    by (auto simp: relation_names_def)
  then show "r \<in> set (relation_names d) \<union> {n} \<union> fst ` set (st_keys t)"
  proof cases
    case (4 m u)
    then have "(m, u) = (n, t) \<or> (m, u) \<in> set (db_tables d)"
      using set_map_set [of n t "db_tables d"] by blast
    then show ?thesis
    proof
      assume "(m, u) \<in> set (db_tables d)"
      with 4(2) have "r \<in> set (relation_names d)"
        by (auto simp: relation_names_def intro!: bexI [of _ "(m, u)"])
      then show ?thesis by simp
    qed (use 4(2) in simp)
  qed (simp_all add: relation_names_def)
qed

lemma indices_up:
  assumes "''mfiv_indices'' \<notin> set (relation_names d)" and "''PK_0eb4a2e6e99a906095e43c32f29'' \<notin> set (relation_names d)"
    and "''IDX_0eb4a2e6e99a906095e43c32f2'' \<notin> set (relation_names d)"
  shows "run_statements (mg_up AddRisklessRate) d = Inr (add_index (''IDX_0eb4a2e6e99a906095e43c32f2'', ''mfiv_indices'', index_key)
    (set_table ''mfiv_indices'' created_table d))"
proof -
  have "''IDX_0eb4a2e6e99a906095e43c32f2'' \<notin> set (relation_names (set_table ''mfiv_indices'' created_table d))"
    using relation_names_set_table [of "''mfiv_indices''" created_table d] assms(3) by (auto simp: created_table_def)
  then show ?thesis
    using assms(1,2) by (simp add: AddRisklessRate_def kept_keys_def created_table_def)
qed

lemma indices_down:
  assumes "map_get (db_tables d) ''mfiv_indices'' = None" and "''IDX_0eb4a2e6e99a906095e43c32f2'' \<notin> fst ` set (db_indexes d)"
    and "list_all (\<lambda>i. fst (snd i) \<noteq> ''mfiv_indices'') (db_indexes d)"
  shows "run_statements (mg_down AddRisklessRate) (add_index (''IDX_0eb4a2e6e99a906095e43c32f2'', ''mfiv_indices'', index_key)
    (set_table ''mfiv_indices'' t d)) = Inr d"
proof -
  have "map_remove ''mfiv_indices'' (map_set ''mfiv_indices'' t (db_tables d)) = db_tables d"
    using assms(1) by (intro map_remove_set) (simp add: map_keys_get)
  moreover have "filter (\<lambda>i. fst (snd i) \<noteq> ''mfiv_indices'') (db_indexes d) = db_indexes d"
    using assms(3) by (simp add: list_all_iff)
  ultimately show ?thesis
    using assms(2) by (simp add: AddRisklessRate_def filter_absent)
qed

section \<open>The schema the migrations reach\<close>

text \<open>A column of the database has the values of the one that the entity declares.  The date of the
  creation is filled in by the database; the entity leaves it out.\<close>

fun type_serves :: "database \<Rightarrow> column_type \<Rightarrow> sql_type \<Rightarrow> bool" where
  "type_serves d VarcharCol VarcharType = True"
| "type_serves d TimestampCol TimestamptzType = True"
| "type_serves d DecimalCol NumericType = True"
| "type_serves d JsonCol JsonbType = True"
| "type_serves d (EnumCol labels) VarcharType = True"
| "type_serves d (EnumCol labels) (EnumType x) = (db_types d x = Some labels)"
| "type_serves d c y = False"

definition column_serves :: "database \<Rightarrow> column \<Rightarrow> sql_column \<Rightarrow> bool" where
  "column_serves d c k \<longleftrightarrow> co_name c = sc_name k \<and> type_serves d (co_type c) (sc_type k)
     \<and> (co_nullable c \<longleftrightarrow> \<not> sc_notNull k \<or> sc_now k)"

text \<open>The columns that the migrations concern: all of mfiv indices, four of the other two tables.\<close>

definition serves_entities :: "string list \<Rightarrow> database \<Rightarrow> bool" where
  "serves_entities exchanges d \<longleftrightarrow>
     (case map_get (db_tables d) (ta_name mfiv_indices) of None \<Rightarrow> False
      | Some t \<Rightarrow> list_all2 (column_serves d) (ta_columns mfiv_indices) (st_columns t)
          \<and> UniqueKey (ta_unique mfiv_indices) \<in> set (map snd (st_keys t))
          \<and> PrimaryKey (map co_name (filter co_primary (ta_columns mfiv_indices))) \<in> set (map snd (st_keys t)))
     \<and> (case map_get (db_tables d) (ta_name (trade_options exchanges)) of None \<Rightarrow> False
      | Some t \<Rightarrow> list_all (\<lambda>c. co_name c \<in> {''asset'', ''markIV'', ''delta''} \<longrightarrow>
          (\<exists>k \<in> set (st_columns t). co_name c = sc_name k \<and> type_serves d (co_type c) (sc_type k)))
          (ta_columns (trade_options exchanges)))
     \<and> (case map_get (db_tables d) (ta_name (trade_pairs exchanges)) of None \<Rightarrow> False
      | Some t \<Rightarrow> list_all (\<lambda>c. co_name c = ''symbol'' \<longrightarrow>
          (\<exists>k \<in> set (st_columns t). co_name c = sc_name k \<and> type_serves d (co_type c) (sc_type k)))
          (ta_columns (trade_pairs exchanges)))"

definition migrated_table :: sql_table where
  "migrated_table = created_table\<lparr> st_keys := st_keys created_table @
     [(''UQ_0eb4a2e6e99a906095e43c32f29'', UniqueKey index_key)] \<rparr>"

abbreviation with_indices :: "sql_table \<Rightarrow> database \<Rightarrow> database" where
  "with_indices t d \<equiv> add_index (''IDX_0eb4a2e6e99a906095e43c32f2'', ''mfiv_indices'', index_key)
     (set_table ''mfiv_indices'' created_table (set_table ''trade_options'' (widened t) d))"

definition reached :: "sql_table \<Rightarrow> database \<Rightarrow> database" where
  "reached t d = set_types BaseCurrencyEnum SYMBOLS (set_table ''mfiv_indices'' migrated_table (with_indices t d))"

lemma initial_schemaE:
  assumes "initial_schema d"
  obtains t where "map_get (db_tables d) ''trade_options'' = Some t" "lacks_column ''markIV'' t" "lacks_column ''delta'' t"
  using assms by (auto simp: initial_schema_def split: option.splits)

lemma castable_widened: "c \<notin> {''markIV'', ''delta''} \<Longrightarrow> list_all (castable ls c) (st_rows t) \<Longrightarrow> list_all (castable ls c) (st_rows (widened t))"
  by (auto simp: widened_def list_all_iff castable_def map_get_def map_add_def split: option.splits)

lemma enum_in_widened:
  assumes "enum_in x n c ls d" and "map_ok (db_tables d)" and "map_get (db_tables d) ''trade_options'' = Some t"
    and "c \<notin> {''markIV'', ''delta''}"
  shows "enum_in x n c ls (set_table ''trade_options'' (widened t) d)"
proof (rule enum_in_set_table [OF assms(1,2)])
  assume "''trade_options'' = n"
  then show "\<forall>k \<in> set (st_columns (widened t)). sc_name k = c \<longrightarrow> sc_type k = EnumType x"
    using assms by (auto simp: enum_in_def enum_column_def on_all_tables widened_def)
  show "list_all (castable ls c) (st_rows (widened t))"
    using assms \<open>''trade_options'' = n\<close> by (intro castable_widened) (auto simp: enum_in_def rows_of_def)
qed (use assms(3) in \<open>auto simp: widened_def\<close>)

lemma enum_in_created:
  assumes "enum_in x n c ls d" and "map_ok (db_tables d)" and "n \<noteq> ''mfiv_indices''" and "map_get (db_tables d) ''mfiv_indices'' = None"
    and "st_columns u = st_columns created_table"
  shows "enum_in x n c ls (set_table ''mfiv_indices'' u d)"
  by (rule enum_in_set_table [OF assms(1,2)]) (use assms(3-5) in \<open>auto simp: created_table_def\<close>)

lemma enum_in_index [simp]: "enum_in x n c ls (d\<lparr> db_indexes := v \<rparr>) = enum_in x n c ls d"
  by (simp add: enum_in_def)

lemma migrate_reaches:
  assumes "initial_schema d" and t: "map_get (db_tables d) ''trade_options'' = Some t"
    "lacks_column ''markIV'' t" "lacks_column ''delta'' t"
  shows "migrate migrations d = Inr (reached t d)" and "map_ok (db_tables (with_indices t d))"
    and "enum_in ''trade_options_asset_enum'' ''trade_options'' ''asset'' [''ETH'', ''BTC''] (with_indices t d)"
    and "enum_in ''trade_pairs_symbol_enum'' ''trade_pairs'' ''symbol'' (ETH_SYMBOLS @ BTC_SYMBOLS) (with_indices t d)"
proof -
  let ?wide = "set_table ''trade_options'' (widened t) d"
  have names: "n \<notin> set (relation_names ?wide)"
    if "n \<notin> set (relation_names d)" "n \<noteq> ''trade_options''" for n
  proof -
    have "fst ` set (st_keys (widened t)) \<subseteq> set (relation_names d)"
      using t(1) by (force simp: relation_names_def widened_def map_get_def dest: map_of_SomeD)
    then show ?thesis using relation_names_set_table [of "''trade_options''" "widened t" d] that by blast
  qed
  have ok: "map_ok (db_tables d)" using assms(1) by (simp add: initial_schema_def)
  have free: "map_get (db_tables ?wide) ''mfiv_indices'' = None"
    using assms(1) relation_names_table [of d "''mfiv_indices''"]
    by (cases "map_get (db_tables d) ''mfiv_indices''") (auto simp: initial_schema_def)
  show ok': "map_ok (db_tables (with_indices t d))" using ok by simp
  have enums: "enum_in x n c ls (with_indices t d)"
    if "enum_in x n c ls d" "n \<noteq> ''mfiv_indices''" "c \<notin> {''markIV'', ''delta''}" for x n c ls
    using enum_in_created [OF enum_in_widened [OF that(1) ok t(1) that(3)] _ that(2) free refl] ok by simp
  show assets: "enum_in ''trade_options_asset_enum'' ''trade_options'' ''asset'' [''ETH'', ''BTC''] (with_indices t d)"
    by (rule enums) (use assms(1) in \<open>simp_all add: initial_schema_def\<close>)
  show symbols: "enum_in ''trade_pairs_symbol_enum'' ''trade_pairs'' ''symbol'' (ETH_SYMBOLS @ BTC_SYMBOLS) (with_indices t d)"
    by (rule enums) (use assms(1) in \<open>simp_all add: initial_schema_def\<close>)
  have "''UQ_0eb4a2e6e99a906095e43c32f29'' \<notin> set (relation_names (set_table ''mfiv_indices'' created_table ?wide))"
    using names [of "''UQ_0eb4a2e6e99a906095e43c32f29''"] assms(1)
      relation_names_set_table [of "''mfiv_indices''" created_table ?wide]
    by (auto simp: initial_schema_def created_table_def)
  then have "''UQ_0eb4a2e6e99a906095e43c32f29'' \<notin> set (relation_names (with_indices t d))"
    by (simp add: relation_names_def)
  then have "run_statements (mg_up AddSolAsset) (with_indices t d) = Inr (reached t d)"
    using sol_up [OF ok' assets symbols, of created_table]
    by (simp add: key_holds_def created_table_def reached_def migrated_table_def)
  moreover have "run_statements (mg_up AddRisklessRate) ?wide = Inr (with_indices t d)"
    using assms(1) names indices_up [of ?wide] by (simp add: initial_schema_def)
  ultimately show "migrate migrations d = Inr (reached t d)"
    unfolding migrate_def migrations_def list.map concat.simps run_statements_append delta_up [OF t] res_bind_simps
    by (simp add: run_statements_append del: execute.simps)
qed

lemma reached_table: "map_get (db_tables (reached t d)) ''mfiv_indices'' = Some migrated_table"
  by (simp add: reached_def)

lemma reached_schema:
  assumes "initial_schema d" and t: "map_get (db_tables d) ''trade_options'' = Some t"
    "lacks_column ''markIV'' t" "lacks_column ''delta'' t"
  shows "migrated_schema (reached t d)"
proof -
  let ?d = "set_table ''mfiv_indices'' migrated_table (with_indices t d)"
  note at_indices = migrate_reaches [OF assms]
  have enums: "enum_in x n c ls ?d" if "enum_in x n c ls (with_indices t d)" "n \<noteq> ''mfiv_indices''" for x n c ls
    using that(2) by (intro enum_in_set_table [OF that(1) at_indices(2)]) (auto simp: migrated_table_def created_table_def)
  have rows: "rows_of n (db_tables ?d) = rows_of n (db_tables (with_indices t d))" if "n \<noteq> ''mfiv_indices''" for n
    using that by (simp add: rows_of_def)
  have "list_all (castable BaseCurrencyEnum ''asset'') (rows_of ''trade_options'' (db_tables ?d))"
    by (rule castable_mono [of "[''ETH'', ''BTC'']"])
      (use enums [OF at_indices(3)] in \<open>simp_all add: enum_in_def BaseCurrencyEnum_def\<close>)
  moreover have "list_all (castable SYMBOLS ''symbol'') (rows_of ''trade_pairs'' (db_tables ?d))"
    by (rule castable_mono [of "ETH_SYMBOLS @ BTC_SYMBOLS"])
      (use enums [OF at_indices(4)] in \<open>auto simp: enum_in_def SYMBOLS_def\<close>)
  ultimately show ?thesis
    using enums [OF at_indices(3)] enums [OF at_indices(4)] assms(1)
    by (simp add: migrated_schema_def initial_schema_def enum_in_def reached_def migrated_table_def)
qed

lemma reached_serves:
  assumes "initial_schema d" and "map_get (db_tables d) ''trade_options'' = Some t"
    "lacks_column ''markIV'' t" "lacks_column ''delta'' t"
  shows "serves_entities exchanges (reached t d)"
proof -
  have in_column: "\<exists>k \<in> set (st_columns u). c = sc_name k \<and> sc_type k = EnumType x"
    if "map_ok (db_tables d')" "enum_in x n c ls d'" "map_get (db_tables d') n = Some u" for x n c ls d' u
    using that by (fastforce simp: enum_in_def enum_column_def column_exists_def on_all_tables)
  obtain k where k: "k \<in> set (st_columns t)" "sc_name k = ''asset''" "sc_type k = EnumType ''trade_options_asset_enum''"
    using in_column [of d "''trade_options_asset_enum''" "''trade_options''" "''asset''"] assms
    by (fastforce simp: initial_schema_def)
  obtain u where u: "map_get (db_tables d) ''trade_pairs'' = Some u"
    using assms(1) by (auto simp: initial_schema_def enum_in_def column_exists_def)
  obtain j where j: "j \<in> set (st_columns u)" "sc_name j = ''symbol''" "sc_type j = EnumType ''trade_pairs_symbol_enum''"
    using in_column [of d "''trade_pairs_symbol_enum''" "''trade_pairs''" "''symbol''"] assms u
    by (fastforce simp: initial_schema_def)
  have columns: "list_all2 (column_serves (reached t d)) (ta_columns mfiv_indices) (st_columns migrated_table)"
    by (simp add: column_serves_def mfiv_indices_def migrated_table_def created_table_def)
  have keys: "UniqueKey (ta_unique mfiv_indices) \<in> set (map snd (st_keys migrated_table))"
    "PrimaryKey (map co_name (filter co_primary (ta_columns mfiv_indices))) \<in> set (map snd (st_keys migrated_table))"
    by (simp_all add: mfiv_indices_def migrated_table_def created_table_def)
  have tables: "map_get (db_tables (reached t d)) ''trade_options'' = Some (widened t)"
    "map_get (db_tables (reached t d)) ''trade_pairs'' = Some u"
    using u by (simp_all add: reached_def)
  have types: "db_types (reached t d) ''trade_options_asset_enum'' = Some BaseCurrencyEnum"
    "db_types (reached t d) ''trade_pairs_symbol_enum'' = Some SYMBOLS"
    by (simp_all add: reached_def)
  have wide: "set (st_columns t) \<subseteq> set (st_columns (widened t))"
    "(column_of ''markIV'' NumericType)\<lparr> sc_notNull := False \<rparr> \<in> set (st_columns (widened t))"
    "(column_of ''delta'' NumericType)\<lparr> sc_notNull := False \<rparr> \<in> set (st_columns (widened t))"
    by (auto simp: widened_def)
  have options: "\<exists>k \<in> set (st_columns (widened t)). co_name c = sc_name k \<and> type_serves (reached t d) (co_type c) (sc_type k)"
    if "c \<in> set (ta_columns (trade_options exchanges))" "co_name c \<in> {''asset'', ''markIV'', ''delta''}" for c
  proof -
    have "(co_name c, co_type c) \<in> {(''asset'', EnumCol BaseCurrencyEnum), (''markIV'', DecimalCol), (''delta'', DecimalCol)}"
      using that by (auto simp: trade_options_def)
    with wide k types show ?thesis by (auto intro: bexI [of _ k] bexI [OF _ wide(2)] bexI [OF _ wide(3)])
  qed
  have pairs: "\<exists>k \<in> set (st_columns u). co_name c = sc_name k \<and> type_serves (reached t d) (co_type c) (sc_type k)"
    if "c \<in> set (ta_columns (trade_pairs exchanges))" "co_name c = ''symbol''" for c
  proof -
    have "co_type c = EnumCol SYMBOLS" using that by (auto simp: trade_pairs_def)
    with j types that(2) show ?thesis by (auto intro!: bexI [of _ j])
  qed
  have names: "ta_name mfiv_indices = ''mfiv_indices''" "ta_name (trade_options exchanges) = ''trade_options''"
    "ta_name (trade_pairs exchanges) = ''trade_pairs''"
    by (simp_all add: mfiv_indices_def trade_options_def trade_pairs_def)
  show ?thesis
    unfolding serves_entities_def names reached_table tables option.case list_all_iff
    using columns keys options pairs by blast
qed

section \<open>Round trip\<close>

text \<open>C13: the migrations, applied in their order to a database that has what they start from (the two
  enumerations without SOL, on the columns they belong to, and none of the names they introduce),
  all succeed; the schema then serves the entities of the code; and reverting them, last first,
  gives back the same database, its rows included.\<close>

theorem migrations_roundtrip:
  assumes "initial_schema d"
  shows "\<exists>d'. migrate migrations d = Inr d' \<and> serves_entities exchanges d' \<and> migrated_schema d' \<and> revert migrations d' = Inr d"
proof -
  obtain t where t: "map_get (db_tables d) ''trade_options'' = Some t" "lacks_column ''markIV'' t" "lacks_column ''delta'' t"
    using assms by (rule initial_schemaE)
  note up = migrate_reaches [OF assms t]
  let ?wide = "set_table ''trade_options'' (widened t) d"
  have "migrated_schema (reached t d)" by (rule reached_schema [OF assms t])
  then have reached_ok: "map_ok (db_tables (reached t d))"
    and enums: "enum_in ''trade_options_asset_enum'' ''trade_options'' ''asset'' BaseCurrencyEnum (reached t d)"
      "enum_in ''trade_pairs_symbol_enum'' ''trade_pairs'' ''symbol'' SYMBOLS (reached t d)"
    by (simp_all add: migrated_schema_def)
  have rows: "rows_of n (db_tables (reached t d)) = rows_of n (db_tables (with_indices t d))" if "n \<noteq> ''mfiv_indices''" for n
    using that by (simp add: rows_of_def reached_def)
  have fits: "list_all (castable (ETH_SYMBOLS @ BTC_SYMBOLS) ''symbol'') (rows_of ''trade_pairs'' (db_tables (reached t d)))"
    "list_all (castable [''ETH'', ''BTC''] ''asset'') (rows_of ''trade_options'' (db_tables (reached t d)))"
    using up(3,4) by (simp_all add: rows enum_in_def)
  have types: "(db_types d)(''trade_options_asset_enum'' := Some [''ETH'', ''BTC''],
      ''trade_pairs_symbol_enum'' := Some (ETH_SYMBOLS @ BTC_SYMBOLS)) = db_types d"
    using assms by (intro ext) (simp add: initial_schema_def enum_in_def)
  have table: "migrated_table\<lparr> st_keys := filter (\<lambda>x. fst x \<noteq> ''UQ_0eb4a2e6e99a906095e43c32f29'') (st_keys migrated_table) \<rparr> = created_table"
    by (simp add: migrated_table_def created_table_def)
  have "set_types [''ETH'', ''BTC''] (ETH_SYMBOLS @ BTC_SYMBOLS) (set_table ''mfiv_indices'' created_table (reached t d)) = with_indices t d"
    using types by (simp add: reached_def map_set_again fun_upd_twist)
  then have sol: "run_statements (mg_down AddSolAsset) (reached t d) = Inr (with_indices t d)"
    using sol_down [OF reached_ok enums reached_table] fits table by (simp add: migrated_table_def)
  have indices: "run_statements (mg_down AddRisklessRate) (with_indices t d) = Inr ?wide"
    using assms relation_names_table [of d "''mfiv_indices''"]
    by (intro indices_down; cases "map_get (db_tables d) ''mfiv_indices''")
      (auto simp: initial_schema_def relation_names_def list_all_iff)
  have delta: "run_statements (mg_down AddDeltaAndMarkIV) ?wide = Inr d"
    using assms by (intro delta_down [OF t]) (auto simp: initial_schema_def list_all_iff)
  have downs: "concat (map mg_down (rev migrations))
      = mg_down AddSolAsset @ mg_down AddRisklessRate @ mg_down AddDeltaAndMarkIV"
    by (simp add: migrations_def)
  have "revert migrations (reached t d) = Inr d"
    unfolding revert_def downs run_statements_append sol res_bind_simps indices delta by (rule refl)
  then show ?thesis
    using up(1) reached_serves [OF assms t] reached_schema [OF assms t] by auto
qed

section \<open>Reverting with data of SOL\<close>

lemma castable_without:
  assumes "list_all (castable (old @ added) c) rows" and "set old \<inter> set added = {}"
  shows "list_all (castable old c) rows \<longleftrightarrow> \<not> (\<exists>r \<in> set rows. \<exists>s \<in> set added. map_get r c = Some (Some s))"
  using assms by (fastforce simp: list_all_iff castable_def split: option.splits)

text \<open>C15: on a migrated database, with whatever rows were written since, taking SOL back is refused as
  soon as one option of SOL or one price of a symbol of SOL is stored, and the database stays as
  it is; otherwise it succeeds: the two enumerations lose SOL, the unique key of mfiv indices goes,
  and no table loses a row or changes a column.\<close>

theorem sol_asset_reverts_without_sol:
  assumes "migrated_schema d"
  shows "\<exists>t. map_get (db_tables d) ''mfiv_indices'' = Some t \<and>
    run_statements (mg_down AddSolAsset) d =
      (if (\<exists>r \<in> set (rows_of ''trade_options'' (db_tables d)). map_get r ''asset'' = Some (Some ''SOL''))
          \<or> (\<exists>r \<in> set (rows_of ''trade_pairs'' (db_tables d)). \<exists>s \<in> set SOL_SYMBOLS. map_get r ''symbol'' = Some (Some s))
       then refused ''invalid input value for enum''
       else Inr (d\<lparr> db_types := (db_types d)(''trade_options_asset_enum'' := Some [''ETH'', ''BTC''],
             ''trade_pairs_symbol_enum'' := Some (ETH_SYMBOLS @ BTC_SYMBOLS)),
           db_tables := map_set ''mfiv_indices'' (t\<lparr> st_keys :=
             filter (\<lambda>x. fst x \<noteq> ''UQ_0eb4a2e6e99a906095e43c32f29'') (st_keys t) \<rparr>) (db_tables d) \<rparr>))"
proof -
  obtain t where t: "map_get (db_tables d) ''mfiv_indices'' = Some t"
      "''UQ_0eb4a2e6e99a906095e43c32f29'' \<in> set (map fst (st_keys t))"
    using assms by (auto simp: migrated_schema_def split: option.splits)
  have ok: "map_ok (db_tables d)"
    and enums: "enum_in ''trade_options_asset_enum'' ''trade_options'' ''asset'' BaseCurrencyEnum d"
      "enum_in ''trade_pairs_symbol_enum'' ''trade_pairs'' ''symbol'' SYMBOLS d"
    using assms by (simp_all add: migrated_schema_def)
  have assets: "list_all (castable [''ETH'', ''BTC''] ''asset'') (rows_of ''trade_options'' (db_tables d))
      \<longleftrightarrow> \<not> (\<exists>r \<in> set (rows_of ''trade_options'' (db_tables d)). map_get r ''asset'' = Some (Some ''SOL''))"
    using castable_without [of "[''ETH'', ''BTC'']" "[''SOL'']"] enums(1) by (simp add: enum_in_def BaseCurrencyEnum_def)
  have symbols: "list_all (castable (ETH_SYMBOLS @ BTC_SYMBOLS) ''symbol'') (rows_of ''trade_pairs'' (db_tables d))
      \<longleftrightarrow> \<not> (\<exists>r \<in> set (rows_of ''trade_pairs'' (db_tables d)). \<exists>s \<in> set SOL_SYMBOLS. map_get r ''symbol'' = Some (Some s))"
    using enums(2) by (intro castable_without) (simp_all add: enum_in_def symbol_enums)
  show ?thesis
    unfolding sol_down [OF ok enums t] assets symbols using t(1) by (intro exI [of _ t]) auto
qed

section \<open>Samples\<close>

definition sample_database :: "string list \<Rightarrow> string list \<Rightarrow> sql_row list \<Rightarrow> sql_row list \<Rightarrow> database" where
  "sample_database assets symbols options pairs = \<lparr>
     db_types = [''trade_options_asset_enum'' \<mapsto> assets, ''trade_pairs_symbol_enum'' \<mapsto> symbols],
     db_tables =
      [(''trade_options'', \<lparr> st_columns = [column_of ''timestamp'' TimestamptzType,
           column_of ''asset'' (EnumType ''trade_options_asset_enum''), column_of ''symbol'' VarcharType],
         st_keys = [(''PK_options'', PrimaryKey [''timestamp'', ''asset'', ''symbol''])], st_rows = options \<rparr>),
       (''trade_pairs'', \<lparr> st_columns = [column_of ''timestamp'' TimestamptzType,
           column_of ''symbol'' (EnumType ''trade_pairs_symbol_enum'')],
         st_keys = [(''PK_pairs'', PrimaryKey [''timestamp'', ''symbol''])], st_rows = pairs \<rparr>)],
     db_indexes = [(''IDX_options'', ''trade_options'', [''timestamp''])] \<rparr>"

abbreviation sample_option_row :: "string \<Rightarrow> sql_row" where
  "sample_option_row a \<equiv> [(''timestamp'', Some ''2022-05-23T11:00:00.000Z''), (''asset'', Some a), (''symbol'', Some (a @ ''-27MAY22-30000-C''))]"

abbreviation sample_pair_row :: "string \<Rightarrow> sql_row" where
  "sample_pair_row s \<equiv> [(''timestamp'', Some ''2022-05-23T11:00:00.000Z''), (''symbol'', Some s)]"

lemmas sample_schema = sample_database_def symbol_enums map_ok_def map_keys_def map_get_def enum_in_def
  enum_column_def unused_type_def column_exists_def rows_of_def castable_def lacks_column_def relation_names_def

definition sample_initial :: database where
  "sample_initial = sample_database [''ETH'', ''BTC''] (ETH_SYMBOLS @ BTC_SYMBOLS)
     [sample_option_row ''ETH'', sample_option_row ''BTC''] [sample_pair_row ''ETH/USD'']"

lemma sample_initial_schema: "initial_schema sample_initial"
  by (simp add: sample_initial_def initial_schema_def sample_schema)

theorem migrations_roundtrip_witness:
  "\<exists>d'. migrate migrations sample_initial = Inr d' \<and> serves_entities [''deribit''] d' \<and> migrated_schema d'
     \<and> revert migrations d' = Inr sample_initial"
  by (rule migrations_roundtrip [OF sample_initial_schema])

definition sample_migrated :: "sql_row list \<Rightarrow> sql_row list \<Rightarrow> database" where
  "sample_migrated options pairs = set_table ''mfiv_indices'' migrated_table
     (sample_database BaseCurrencyEnum SYMBOLS options pairs)"

lemma sample_migrated_schema:
  "list_all (castable BaseCurrencyEnum ''asset'') options \<Longrightarrow> list_all (castable SYMBOLS ''symbol'') pairs \<Longrightarrow>
   migrated_schema (sample_migrated options pairs)"
  unfolding sample_migrated_def migrated_schema_def
  by (simp add: sample_database_def map_ok_def map_keys_def map_get_def map_set_def enum_in_def enum_column_def
      unused_type_def column_exists_def rows_of_def migrated_table_def created_table_def)

theorem sol_asset_reverts_without_sol_witness:
  "run_statements (mg_down AddSolAsset) (sample_migrated [sample_option_row ''SOL''] [sample_pair_row ''ETH/USD''])
     = refused ''invalid input value for enum''
   \<and> (\<exists>d. run_statements (mg_down AddSolAsset) (sample_migrated [sample_option_row ''BTC''] [sample_pair_row ''ETH/USD'']) = Inr d
      \<and> rows_of ''trade_options'' (db_tables d) = [sample_option_row ''BTC''])"
proof (intro conjI)
  have "migrated_schema (sample_migrated [sample_option_row ''SOL''] [sample_pair_row ''ETH/USD''])"
    by (rule sample_migrated_schema) (simp_all add: castable_def map_get_def symbol_enums)
  from sol_asset_reverts_without_sol [OF this]
  show "run_statements (mg_down AddSolAsset) (sample_migrated [sample_option_row ''SOL''] [sample_pair_row ''ETH/USD''])
     = refused ''invalid input value for enum''"
    by (simp add: sample_migrated_def sample_database_def rows_of_def map_get_def map_set_def)
  have "migrated_schema (sample_migrated [sample_option_row ''BTC''] [sample_pair_row ''ETH/USD''])"
    by (rule sample_migrated_schema) (simp_all add: castable_def map_get_def symbol_enums)
  from sol_asset_reverts_without_sol [OF this]
  show "\<exists>d. run_statements (mg_down AddSolAsset) (sample_migrated [sample_option_row ''BTC''] [sample_pair_row ''ETH/USD'']) = Inr d
      \<and> rows_of ''trade_options'' (db_tables d) = [sample_option_row ''BTC'']"
    by (auto simp: sample_migrated_def sample_database_def rows_of_def map_get_def map_set_def SOL_SYMBOLS_def)
qed

end
