(* ===== verification/Parameters.thy ===== *)
theory Parameters
  imports Tables WsApi Instruments
begin

text \<open>
  The parameter schemas of the actions of \<^verbatim>\<open>services/\<close>, the check the broker
  makes of them before a handler runs, and the parameters the handlers then read.  The validator
  belongs to moleculer; it is a parameter with the documented meaning of a schema as its laws: a
  value that is missing takes the default or is an error unless it is optional, a date is
  converted, every other value has to have the type and satisfy the restrictions that its rule
  gives, and parameters outside the schema pass through.
\<close>

section \<open>Values and schemas\<close>

text \<open>A value of the parameters; null and undefined are an absent key.\<close>

datatype param_value =
    TextValue string | NumberValue jsnum | BoolValue bool | DateValue jsdate
  | TextsValue "string list" | InstanceValue string | ObjectValue "(string \<times> param_value) list"

type_synonym action_params = "(string, param_value) jsmap"

text \<open>\<open>OneOf\<close> is the rule enum, and the rule string with an enum;
  \<open>NumberShape\<close> says whether it has to be an integer and positive;
  \<open>TextsShape\<close> an array of strings with its enum and its least size;
  \<open>DateShape\<close> whether it converts.\<close>

datatype shape =
    TextShape | OneOf "string list" | TextLike "string \<Rightarrow> bool" | NumberShape bool bool | DateShape bool
  | BoolShape | TextsShape "string list option" nat | InstanceShape string | ObjectShape "(string \<times> shape) list"

datatype presence = Required | Optional | Default "jsdate \<Rightarrow> param_value"

type_synonym schema = "(string \<times> shape \<times> presence) list"

fun number_like :: "bool \<Rightarrow> bool \<Rightarrow> jsnum \<Rightarrow> bool" where
  "number_like integer positive (Num r) \<longleftrightarrow> (integer \<longrightarrow> of_int \<lfloor>r\<rfloor> = r) \<and> (positive \<longrightarrow> 0 < r)"
| "number_like integer positive x \<longleftrightarrow> False"

fun has_shape :: "shape \<Rightarrow> param_value \<Rightarrow> bool" where
  "has_shape TextShape (TextValue s) = True"
| "has_shape (OneOf vs) (TextValue s) = (s \<in> set vs)"
| "has_shape (TextLike p) (TextValue s) = p s"
| "has_shape (NumberShape i p) (NumberValue x) = number_like i p x"
| "has_shape (DateShape convert) (DateValue d) = (d \<noteq> None)"
| "has_shape BoolShape (BoolValue b) = True"
| "has_shape (TextsShape enum n) (TextsValue ss) =
     (n \<le> length ss \<and> (case enum of None \<Rightarrow> True | Some vs \<Rightarrow> set ss \<subseteq> set vs))"
| "has_shape (InstanceShape c) (InstanceValue k) = (k = c)"
| "has_shape (ObjectShape props) (ObjectValue ps) =
     list_all (\<lambda>(n, sh). case map_of ps n of None \<Rightarrow> False | Some v \<Rightarrow> has_shape sh v) props"
| "has_shape sh v = False"

text \<open>The conversion of a date: \<^verbatim>\<open>new Date(value)\<close>, whose reading of strings
  outside the ISO format is the parameter \<open>parse\<close>.\<close>

fun converted :: "(string \<Rightarrow> jsdate) \<Rightarrow> shape \<Rightarrow> param_value \<Rightarrow> param_value" where
  "converted parse (DateShape True) (TextValue s) = DateValue (parse_iso parse s)"
| "converted parse (DateShape True) (NumberValue x) = DateValue (new_date x)"
| "converted parse sh v = v"

definition field_accepted :: "(string \<Rightarrow> jsdate) \<Rightarrow> action_params \<Rightarrow> string \<times> shape \<times> presence \<Rightarrow> bool" where
  "field_accepted parse ps f = (case f of (n, sh, pr) \<Rightarrow>
     (case map_get ps n of Some v \<Rightarrow> has_shape sh (converted parse sh v) | None \<Rightarrow> pr \<noteq> Required))"

definition params_accepted :: "(string \<Rightarrow> jsdate) \<Rightarrow> schema \<Rightarrow> action_params \<Rightarrow> bool" where
  "params_accepted parse sc ps = list_all (field_accepted parse ps) sc"

definition fill_field :: "(string \<Rightarrow> jsdate) \<Rightarrow> jsdate \<Rightarrow> string \<times> shape \<times> presence \<Rightarrow> action_params \<Rightarrow> action_params" where
  "fill_field parse now f ps = (case f of (n, sh, pr) \<Rightarrow>
     (case map_get ps n of
        Some v \<Rightarrow> map_set n (converted parse sh v) ps
      | None \<Rightarrow> (case pr of Default d \<Rightarrow> map_set n (d now) ps | _ \<Rightarrow> ps)))"

definition params_filled :: "(string \<Rightarrow> jsdate) \<Rightarrow> jsdate \<Rightarrow> schema \<Rightarrow> action_params \<Rightarrow> action_params" where
  "params_filled parse now sc ps = fold (fill_field parse now) sc ps"

lemma map_get_fill_other: "fst f \<noteq> m \<Longrightarrow> map_get (fill_field parse now f ps) m = map_get ps m"
  by (cases f) (auto simp: fill_field_def split: option.splits presence.splits)

lemma map_get_filled_other:
  "m \<notin> fst ` set sc \<Longrightarrow> map_get (params_filled parse now sc ps) m = map_get ps m"
  unfolding params_filled_def by (induction sc arbitrary: ps) (auto simp: map_get_fill_other)

lemma map_get_filled:
  assumes "distinct (map fst sc)" and "(n, sh, pr) \<in> set sc"
  shows "map_get (params_filled parse now sc ps) n =
    (case map_get ps n of Some v \<Rightarrow> Some (converted parse sh v)
     | None \<Rightarrow> (case pr of Default d \<Rightarrow> Some (d now) | _ \<Rightarrow> None))"
  using assms
proof (induction sc arbitrary: ps)
  case (Cons f sc)
  show ?case
  proof (cases "f = (n, sh, pr)")
    case True
    then have "map_get (params_filled parse now sc (fill_field parse now f ps)) n = map_get (fill_field parse now f ps) n"
      using Cons.prems(1) by (intro map_get_filled_other) auto
    then show ?thesis
      using True by (auto simp: params_filled_def fill_field_def split: option.splits presence.splits)
  next
    case False
    with Cons.prems(2) have "(n, sh, pr) \<in> set sc" by auto
    moreover from this Cons.prems(1) have "fst f \<noteq> n" by (auto simp: image_iff)
    ultimately show ?thesis
      using Cons by (simp add: params_filled_def map_get_fill_other)
  qed
qed simp

section \<open>The validator\<close>

locale validator =
  fixes parse :: "string \<Rightarrow> jsdate" and validate :: "jsdate \<Rightarrow> schema \<Rightarrow> action_params \<Rightarrow> action_params result"
  assumes accepts: "params_accepted parse sc ps \<Longrightarrow> validate now sc ps = Inr (params_filled parse now sc ps)"
    and refuses: "\<not> params_accepted parse sc ps \<Longrightarrow> \<exists>e. validate now sc ps = Inl e"
begin

lemma validated_iff: "validate now sc ps = Inr qs \<longleftrightarrow> params_accepted parse sc ps \<and> qs = params_filled parse now sc ps"
  using accepts [of sc ps now] refuses [of sc ps now] by (cases "params_accepted parse sc ps") auto

text \<open>What a handler finds under a name of its schema.\<close>

lemma validated_field:
  assumes "validate now sc ps = Inr qs" and "distinct (map fst sc)" and "(n, sh, pr) \<in> set sc"
  shows "(\<exists>v. map_get qs n = Some v \<and> has_shape sh v) \<or> (map_get ps n = None \<and> pr = Optional \<and> map_get qs n = None)
    \<or> (map_get ps n = None \<and> (\<exists>d. pr = Default d \<and> map_get qs n = Some (d now)))"
proof -
  have "field_accepted parse ps (n, sh, pr)" and "qs = params_filled parse now sc ps"
    using assms(1,3) by (auto simp: validated_iff params_accepted_def list_all_iff)
  then show ?thesis
    by (cases pr) (auto simp: map_get_filled [OF assms(2,3)] field_accepted_def split: option.splits)
qed

end

definition check_params :: "(string \<Rightarrow> jsdate) \<Rightarrow> jsdate \<Rightarrow> schema \<Rightarrow> action_params \<Rightarrow> action_params result" where
  "check_params parse now sc ps =
     (if params_accepted parse sc ps then Inr (params_filled parse now sc ps)
      else Inl (ErrObj MoleculerClientErrorClass ''Parameters validation error!'' (Some 422) (Some ''VALIDATION_ERROR'')))"

interpretation schema_check: validator parse "check_params parse" for parse
  by unfold_locales (simp_all add: check_params_def)

section \<open>The schemas of the actions\<close>

abbreviation default_text :: "string \<Rightarrow> presence" where
  "default_text s \<equiv> Default (\<lambda>now. TextValue s)"

definition estimate_rules :: "string list \<Rightarrow> schema" where
  "estimate_rules MFIV_ASSETS =
     [(''at'', TextShape, Required),
      (''exchange'', OneOf [''deribit''], default_text ''deribit''),
      (''methodology'', OneOf [''MFIV''], default_text ''MFIV''),
      (''asset'', OneOf MFIV_ASSETS, Required),
      (''timePeriod'', TextLike period_pattern, default_text ''14D''),
      (''symbolType'', OneOf [''option''], default_text ''option''),
      (''expiryType'', TextShape, default_text ''FridayT08:00:00Z''),
      (''contractType'', TextsShape (Some [''call_option'', ''put_option'']) 0, Required)]"

text \<open>\<^verbatim>\<open>new Date("2022-01-01T00:00:00.000Z")\<close>.\<close>

definition backfill_start :: jsdate where
  "backfill_start = Some 1640995200000"

lemma backfill_start_text: "to_iso_string backfill_start = Inr ''2022-01-01T00:00:00.000Z''"
  by code_simp

definition backfill_rules :: "string list \<Rightarrow> string list \<Rightarrow> schema" where
  "backfill_rules EXCHANGES MFIV_ASSETS =
     [(''exchange'', OneOf EXCHANGES, default_text ''deribit''),
      (''timePeriod'', TextShape, Required),
      (''asset'', OneOf MFIV_ASSETS, Required),
      (''replayFrom'', DateShape True, Default (\<lambda>now. DateValue backfill_start)),
      (''replayTo'', DateShape True, Default (\<lambda>now. DateValue now))]"

definition api_mfiv_rules :: "string list \<Rightarrow> schema" where
  "api_mfiv_rules MFIV_ASSETS =
     [(''apiKey'', TextShape, Required),
      (''interval'', OneOf [''5M'', ''15M'', ''1H'', ''1D''], default_text ''15M''),
      (''dateFrom'', DateShape True, Default (\<lambda>now. DateValue backfill_start)),
      (''dateTo'', DateShape True, Default (\<lambda>now. DateValue now)),
      (''timePeriod'', TextShape, Required),
      (''asset'', OneOf MFIV_ASSETS, Required)]"

definition summaries_rules :: schema where
  "summaries_rules = [(''expiry'', TextShape, Required)]"

definition refresh_rules :: "string list \<Rightarrow> schema" where
  "refresh_rules MFIV_ASSETS =
     [(''exchange'', OneOf [''deribit''], default_text ''deribit''),
      (''asset'', OneOf MFIV_ASSETS, Required),
      (''type'', OneOf [''option''], default_text ''option''),
      (''contractType'', TextsShape None 0, Default (\<lambda>now. TextsValue [''call_option'', ''put_option'']))]"

definition instrumentInfo_rules :: "string list \<Rightarrow> schema" where
  "instrumentInfo_rules MFIV_ASSETS =
     [(''timestamp'', TextShape, Required)] @ refresh_rules MFIV_ASSETS @
     [(''active'', BoolShape, Default (\<lambda>now. BoolValue True)),
      (''expirationDates'', TextsShape None 1, Required)]"

definition available_rules :: "string list \<Rightarrow> schema" where
  "available_rules MFIV_ASSETS =
     [(''exchange'', OneOf [''deribit''], default_text ''deribit''), (''asset'', OneOf MFIV_ASSETS, Required)]"

definition risklessRate_rules :: schema where
  "risklessRate_rules = [(''source'', OneOf [''AAVE''], default_text ''AAVE'')]"

definition generate_rules :: schema where
  "generate_rules =
     [(''type'', OneOf TOKEN_TYPES, default_text ''api-key''),
      (''expireInNumDays'', NumberShape True True, Optional),
      (''expiry'', DateShape False, Optional),
      (''owner'', TextShape, default_text ''volatility'')]"

definition check_rules :: schema where
  "check_rules = [(''type'', OneOf TOKEN_TYPES, Required), (''token'', TextShape, Required), (''owner'', TextShape, Optional)]"

definition remove_rules :: schema where
  "remove_rules = [(''type'', OneOf TOKEN_TYPES, Required), (''token'', TextShape, Required)]"

text \<open>The rule string knows no \<^verbatim>\<open>value\<close>, so every MIME type passes.\<close>

definition store_rules :: schema where
  "store_rules =
     [(''key'', TextShape, Required),
      (''data'', InstanceShape ''Buffer'', Required),
      (''metadata'', ObjectShape [(''fileSize'', NumberShape True True), (''mimeType'', TextShape), (''requestId'', TextShape)], Required)]"

section \<open>What the handlers read\<close>

definition text_at :: "string \<Rightarrow> action_params \<Rightarrow> string option" where
  "text_at n ps = (case map_get ps n of Some (TextValue s) \<Rightarrow> Some s | _ \<Rightarrow> None)"

definition date_at :: "string \<Rightarrow> action_params \<Rightarrow> jsdate option" where
  "date_at n ps = (case map_get ps n of Some (DateValue d) \<Rightarrow> Some d | _ \<Rightarrow> None)"

definition texts_at :: "string \<Rightarrow> action_params \<Rightarrow> string list option" where
  "texts_at n ps = (case map_get ps n of Some (TextsValue ss) \<Rightarrow> Some ss | _ \<Rightarrow> None)"

definition estimate_of :: "action_params \<Rightarrow> estimate_params option" where
  "estimate_of ps =
     (case (text_at ''at'' ps, text_at ''methodology'' ps, text_at ''timePeriod'' ps, text_at ''asset'' ps,
        text_at ''exchange'' ps, text_at ''symbolType'' ps, texts_at ''contractType'' ps, text_at ''expiryType'' ps) of
        (Some at_text, Some m, Some tp, Some a, Some x, Some sy, Some c, Some et) \<Rightarrow>
          Some \<lparr> ep_at = at_text, ep_methodology = m, ep_timePeriod = tp, ep_asset = a, ep_exchange = x,
            ep_symbolType = sy, ep_contractType = c, ep_expiryType = et \<rparr>
      | _ \<Rightarrow> None)"

definition backfill_of :: "action_params \<Rightarrow> backfill_params option" where
  "backfill_of ps =
     (case (text_at ''exchange'' ps, text_at ''timePeriod'' ps, text_at ''asset'' ps,
        date_at ''replayFrom'' ps, date_at ''replayTo'' ps) of
        (Some x, Some tp, Some a, Some from, Some to) \<Rightarrow>
          Some \<lparr> bp_exchange = x, bp_timePeriod = tp, bp_asset = a, bp_replayFrom = from, bp_replayTo = to \<rparr>
      | _ \<Rightarrow> None)"

definition api_mfiv_of :: "action_params \<Rightarrow> api_mfiv_params option" where
  "api_mfiv_of ps =
     (case (text_at ''apiKey'' ps, text_at ''interval'' ps, date_at ''dateFrom'' ps, date_at ''dateTo'' ps,
        text_at ''timePeriod'' ps, text_at ''asset'' ps) of
        (Some k, Some i, Some from, Some to, Some tp, Some a) \<Rightarrow>
          Some \<lparr> ap_apiKey = k, ap_interval = i, ap_dateFrom = from, ap_dateTo = to, ap_timePeriod = tp, ap_asset = a \<rparr>
      | _ \<Rightarrow> None)"

text \<open>The request of the cron service as the values it sends; an unset setting is undefined.\<close>

definition optional_text :: "string \<Rightarrow> string option \<Rightarrow> action_params" where
  "optional_text n v = (case v of None \<Rightarrow> [] | Some s \<Rightarrow> [(n, TextValue s)])"

definition request_values :: "estimate_request \<Rightarrow> action_params" where
  "request_values r = [(''at'', TextValue (er_at r)), (''asset'', TextValue (er_asset r))]
     @ optional_text ''exchange'' (es_exchange r) @ optional_text ''methodology'' (es_methodology r)
     @ optional_text ''timePeriod'' (es_timePeriod r) @ optional_text ''symbolType'' (es_symbolType r)
     @ optional_text ''expiryType'' (es_expiryType r) @ [(''contractType'', TextsValue (es_contractType r))]"

lemma map_get_request_values:
  "map_get (request_values r) n =
    (if n = ''at'' then Some (TextValue (er_at r)) else if n = ''asset'' then Some (TextValue (er_asset r))
     else if n = ''exchange'' then map_option TextValue (es_exchange r)
     else if n = ''methodology'' then map_option TextValue (es_methodology r)
     else if n = ''timePeriod'' then map_option TextValue (es_timePeriod r)
     else if n = ''symbolType'' then map_option TextValue (es_symbolType r)
     else if n = ''expiryType'' then map_option TextValue (es_expiryType r)
     else if n = ''contractType'' then Some (TextsValue (es_contractType r)) else None)"
  by (simp add: request_values_def optional_text_def map_get_def map_add_def split: option.splits)

lemma contract_types: "set ts \<subseteq> {x, y} \<longleftrightarrow> list_all (\<lambda>t. t = x \<or> t = y) ts"
  by (auto simp: list_all_iff)

lemma distinct_rules:
  "distinct (map fst (estimate_rules A))" "distinct (map fst (backfill_rules X A))" "distinct (map fst (api_mfiv_rules A))"
  by (simp_all add: estimate_rules_def backfill_rules_def api_mfiv_rules_def)

section \<open>The actions\<close>

text \<open>A handler runs on the parameters the validator returns.  Reading them never fails, which the
  lemmas below show; the type error is what a missing one would be.\<close>

definition validated_action ::
  "(jsdate \<Rightarrow> schema \<Rightarrow> action_params \<Rightarrow> action_params result) \<Rightarrow> schema \<Rightarrow> (action_params \<Rightarrow> 'p option)
   \<Rightarrow> jsdate \<Rightarrow> action_params \<Rightarrow> 'p result" where
  "validated_action validate sc read now ps =
     res_bind (validate now sc ps) (\<lambda>qs. case read qs of None \<Rightarrow> Inl type_error | Some p \<Rightarrow> Inr p)"

definition estimate_action ::
  "(jsdate \<Rightarrow> schema \<Rightarrow> action_params \<Rightarrow> action_params result) \<Rightarrow> string list \<Rightarrow> index_env \<Rightarrow> jsdate \<Rightarrow> string
   \<Rightarrow> action_params \<Rightarrow> index_service \<Rightarrow> estimate_response result \<times> index_service" where
  "estimate_action validate MFIV_ASSETS E now requestId ps s =
     (case validated_action validate (estimate_rules MFIV_ASSETS) estimate_of now ps of
        Inl e \<Rightarrow> (Inl e, s)
      | Inr params \<Rightarrow> estimate E requestId params s)"

definition backfill_action ::
  "(jsdate \<Rightarrow> schema \<Rightarrow> action_params \<Rightarrow> action_params result) \<Rightarrow> string list \<Rightarrow> string list \<Rightarrow> dayjs_lib \<Rightarrow> jsdate
   \<Rightarrow> string \<Rightarrow> string \<Rightarrow> action_params \<Rightarrow> backfill_status result" where
  "backfill_action validate EXCHANGES MFIV_ASSETS D now requestID nodeID ps =
     res_bind (validated_action validate (backfill_rules EXCHANGES MFIV_ASSETS) backfill_of now ps)
       (backfill_mfiv D requestID nodeID)"

definition api_mfiv_action ::
  "(jsdate \<Rightarrow> schema \<Rightarrow> action_params \<Rightarrow> action_params result) \<Rightarrow> string list
   \<Rightarrow> (string \<Rightarrow> string \<Rightarrow> 'd \<Rightarrow> (bool \<times> 'd) result)
   \<Rightarrow> (mfiv_query \<Rightarrow> 'd \<Rightarrow> mfiv_point list result)
   \<Rightarrow> (nat \<Rightarrow> mfiv_point list \<Rightarrow> mfiv_point list) \<Rightarrow> jsdate \<Rightarrow> action_params \<Rightarrow> 'd
   \<Rightarrow> (paginated_response \<times> 'd) result" where
  "api_mfiv_action validate MFIV_ASSETS tokens_check getMany takeNth now ps d =
     res_bind (validated_action validate (api_mfiv_rules MFIV_ASSETS) api_mfiv_of now ps)
       (\<lambda>params. mfiv_action tokens_check getMany takeNth params d)"

text \<open>The helper that other services ask the instrument service with: a context or a service makes the
  call, anything else is an error.\<close>

datatype caller = ContextCaller | ServiceCaller | OtherCaller string

definition instrumentInfos :: "(string \<Rightarrow> info_params \<Rightarrow> 'r result) \<Rightarrow> caller \<Rightarrow> info_params \<Rightarrow> 'r result" where
  "instrumentInfos call ctx params =
     (let suffix = to_lower (ip_asset params) in
      case ctx of
        OtherCaller c \<Rightarrow> Inl (ErrObj MoleculerClientErrorClass
          (''Expected Context or Broker but received '' @ c) (Some 500) (Some ''VG_HELPER_ERROR''))
      | _ \<Rightarrow> call (''instrument_info-'' @ suffix @ ''.instrumentInfo'') params)"

section \<open>Reading what was validated\<close>

lemma has_shape_text:
  "has_shape TextShape v \<longleftrightarrow> (\<exists>s. v = TextValue s)"
  "has_shape (OneOf vs) v \<longleftrightarrow> (\<exists>s \<in> set vs. v = TextValue s)"
  "has_shape (TextLike p) v \<longleftrightarrow> (\<exists>s. v = TextValue s \<and> p s)"
  "has_shape (DateShape c) v \<longleftrightarrow> (\<exists>t. v = DateValue (Some t))"
  "has_shape (TextsShape e n) v \<longleftrightarrow> (\<exists>ss. v = TextsValue ss \<and> n \<le> length ss \<and> (\<forall>vs. e = Some vs \<longrightarrow> set ss \<subseteq> set vs))"
  by (cases v; auto split: option.splits)+

text \<open>The check the rate service is guarded by is the one of its schema, with the default filled in for
  a missing source.\<close>

lemma riskless_source_rules:
  "params_accepted parse risklessRate_rules [(''source'', TextValue source)] \<longleftrightarrow> risklessRate_params source = Inr ()"
  "params_accepted parse risklessRate_rules []"
  "map_get (params_filled parse now risklessRate_rules []) ''source'' = Some (TextValue ''AAVE'')"
  by (simp_all add: params_accepted_def risklessRate_rules_def field_accepted_def risklessRate_params_def
      map_get_def params_filled_def fill_field_def map_set_def)

text \<open>The value of a field after the validation: one of its shape, a default among the permitted
  ones included.\<close>

context validator
begin

lemma validated_value:
  assumes "validate now sc ps = Inr qs" and "distinct (map fst sc)" and "(n, sh, pr) \<in> set sc" and "pr \<noteq> Optional"
    and "\<And>d. pr = Default d \<Longrightarrow> has_shape sh (d now)"
  shows "\<exists>v. map_get qs n = Some v \<and> has_shape sh v"
proof -
  consider v where "map_get qs n = Some v" "has_shape sh v" | d where "pr = Default d" "map_get qs n = Some (d now)"
    using validated_field [OF assms(1-3)] assms(4) by blast
  then show ?thesis using assms(5) by cases auto
qed

lemma estimate_read:
  assumes "validate now (estimate_rules A) ps = Inr qs"
  obtains p where "estimate_of qs = Some p" "valid_estimate A p"
proof -
  note field = validated_value [OF assms distinct_rules(1)]
  have "\<exists>s. map_get qs ''at'' = Some (TextValue s)"
    using field [of "''at''"] by (fastforce simp: estimate_rules_def has_shape_text)
  moreover have "map_get qs ''exchange'' = Some (TextValue ''deribit'')"
    using field [of "''exchange''"] by (fastforce simp: estimate_rules_def has_shape_text)
  moreover have "map_get qs ''methodology'' = Some (TextValue ''MFIV'')"
    using field [of "''methodology''"] by (fastforce simp: estimate_rules_def has_shape_text)
  moreover have "\<exists>s \<in> set A. map_get qs ''asset'' = Some (TextValue s)"
    using field [of "''asset''"] by (fastforce simp: estimate_rules_def has_shape_text)
  moreover have "\<exists>s. map_get qs ''timePeriod'' = Some (TextValue s) \<and> period_pattern s"
    using field [of "''timePeriod''" "TextLike period_pattern" "default_text ''14D''"]
    by (fastforce simp: estimate_rules_def has_shape_text period_pattern_def is_digit_def)
  moreover have "map_get qs ''symbolType'' = Some (TextValue ''option'')"
    using field [of "''symbolType''"] by (fastforce simp: estimate_rules_def has_shape_text)
  moreover have "\<exists>s. map_get qs ''expiryType'' = Some (TextValue s)"
    using field [of "''expiryType''"] by (fastforce simp: estimate_rules_def has_shape_text)
  moreover have "\<exists>ss. map_get qs ''contractType'' = Some (TextsValue ss) \<and> set ss \<subseteq> {''call_option'', ''put_option''}"
    using field [of "''contractType''"] by (fastforce simp: estimate_rules_def has_shape_text)
  ultimately show thesis
    using that by (auto simp: estimate_of_def text_at_def texts_at_def valid_estimate_def contract_types)
qed

lemma backfill_read:
  assumes "validate now (backfill_rules X A) ps = Inr qs" and "now \<noteq> None" and "''deribit'' \<in> set X"
  obtains p start stop where "backfill_of qs = Some p" "bp_exchange p \<in> set X" "bp_asset p \<in> set A"
    "bp_replayFrom p = Some start" "bp_replayTo p = Some stop"
proof -
  note field = validated_value [OF assms(1) distinct_rules(2)]
  have "\<exists>s \<in> set X. map_get qs ''exchange'' = Some (TextValue s)"
    using field [of "''exchange''"] assms(3) by (fastforce simp: backfill_rules_def has_shape_text)
  moreover have "\<exists>s. map_get qs ''timePeriod'' = Some (TextValue s)"
    using field [of "''timePeriod''"] by (fastforce simp: backfill_rules_def has_shape_text)
  moreover have "\<exists>s \<in> set A. map_get qs ''asset'' = Some (TextValue s)"
    using field [of "''asset''"] by (fastforce simp: backfill_rules_def has_shape_text)
  moreover have "\<exists>t. map_get qs ''replayFrom'' = Some (DateValue (Some t))"
    using field [of "''replayFrom''"] by (fastforce simp: backfill_rules_def has_shape_text backfill_start_def)
  moreover have "\<exists>t. map_get qs ''replayTo'' = Some (DateValue (Some t))"
    using field [of "''replayTo''"] assms(2) by (fastforce simp: backfill_rules_def has_shape_text)
  ultimately show thesis
    using that by (auto simp: backfill_of_def text_at_def date_at_def)
qed

lemma api_mfiv_read:
  assumes "validate now (api_mfiv_rules A) ps = Inr qs" and "now \<noteq> None"
  obtains p n where "api_mfiv_of qs = Some p" "ap_asset p \<in> set A" "map_get filterMap (ap_interval p) = Some n"
    "n \<in> {1, 3, 11, 287}" "ap_dateFrom p \<noteq> None" "ap_dateTo p \<noteq> None"
proof -
  note field = validated_value [OF assms(1) distinct_rules(3)]
  have "\<exists>s. map_get qs ''apiKey'' = Some (TextValue s)"
    using field [of "''apiKey''"] by (fastforce simp: api_mfiv_rules_def has_shape_text)
  moreover have "\<exists>s \<in> {''5M'', ''15M'', ''1H'', ''1D''}. map_get qs ''interval'' = Some (TextValue s)"
    using field [of "''interval''"] by (fastforce simp: api_mfiv_rules_def has_shape_text)
  moreover have "\<exists>s. map_get qs ''timePeriod'' = Some (TextValue s)"
    using field [of "''timePeriod''"] by (fastforce simp: api_mfiv_rules_def has_shape_text)
  moreover have "\<exists>s \<in> set A. map_get qs ''asset'' = Some (TextValue s)"
    using field [of "''asset''"] by (fastforce simp: api_mfiv_rules_def has_shape_text)
  moreover have "\<exists>t. map_get qs ''dateFrom'' = Some (DateValue (Some t))"
    using field [of "''dateFrom''"] by (fastforce simp: api_mfiv_rules_def has_shape_text backfill_start_def)
  moreover have "\<exists>t. map_get qs ''dateTo'' = Some (DateValue (Some t))"
    using field [of "''dateTo''"] assms(2) by (fastforce simp: api_mfiv_rules_def has_shape_text)
  ultimately show thesis
    using that by (auto simp: api_mfiv_of_def text_at_def date_at_def filterMap_def map_get_def)
qed

end

section \<open>Properties\<close>

lemma period_pattern_default: "period_pattern ''14D''"
  by (simp add: period_pattern_def is_digit_def)

lemma request_accepted: "params_accepted parse (estimate_rules A) (request_values r) \<longleftrightarrow> valid_estimate A (estimate_with_defaults r)"
proof -
  have text_case: "(case map_option TextValue v of None \<Rightarrow> Q | Some w \<Rightarrow> P w) \<longleftrightarrow> (case v of None \<Rightarrow> Q | Some t \<Rightarrow> P (TextValue t))" for v P Q
    by (cases v) simp_all
  show ?thesis
    unfolding params_accepted_def estimate_rules_def valid_estimate_def estimate_with_defaults_def or_default_def
    using period_pattern_default
    by (simp add: field_accepted_def map_get_request_values text_case contract_types split: option.splits)
qed

lemma request_read:
  "valid_estimate A (estimate_with_defaults r) \<Longrightarrow> estimate_of (params_filled parse now (estimate_rules A) (request_values r)) = Some (estimate_with_defaults r)"
proof -
  let ?qs = "params_filled parse now (estimate_rules A) (request_values r)"
  have field: "map_get ?qs n = (case map_get (request_values r) n of Some v \<Rightarrow> Some (converted parse sh v)
      | None \<Rightarrow> (case pr of Default d \<Rightarrow> Some (d now) | _ \<Rightarrow> None))"
    if "(n, sh, pr) \<in> set (estimate_rules A)" for n sh pr
    by (rule map_get_filled [OF distinct_rules(1) that])
  have defaulted: "text_at n ?qs = Some (or_default v d)"
    if "(n, sh, default_text d) \<in> set (estimate_rules A)" "map_get (request_values r) n = map_option TextValue v"
      "\<And>s. converted parse sh (TextValue s) = TextValue s" for n sh d v
    using field [OF that(1)] that(2,3) by (cases v) (simp_all add: text_at_def)
  have "text_at ''exchange'' ?qs = Some (or_default (es_exchange r) ''deribit'')"
    "text_at ''methodology'' ?qs = Some (or_default (es_methodology r) ''MFIV'')"
    "text_at ''timePeriod'' ?qs = Some (or_default (es_timePeriod r) ''14D'')"
    "text_at ''symbolType'' ?qs = Some (or_default (es_symbolType r) ''option'')"
    "text_at ''expiryType'' ?qs = Some (or_default (es_expiryType r) ''FridayT08:00:00Z'')"
    using defaulted [of "''exchange''" "OneOf [''deribit'']" "''deribit''"]
      defaulted [of "''methodology''" "OneOf [''MFIV'']" "''MFIV''"]
      defaulted [of "''timePeriod''" "TextLike period_pattern" "''14D''"]
      defaulted [of "''symbolType''" "OneOf [''option'']" "''option''"]
      defaulted [of "''expiryType''" TextShape "''FridayT08:00:00Z''"]
    by (simp_all add: estimate_rules_def map_get_request_values)
  moreover have "text_at ''at'' ?qs = Some (er_at r)" "text_at ''asset'' ?qs = Some (er_asset r)"
    using field [of "''at''" TextShape Required] field [of "''asset''" "OneOf A" Required]
    by (simp_all add: estimate_rules_def map_get_request_values text_at_def)
  moreover have "texts_at ''contractType'' ?qs = Some (es_contractType r)"
    using field [of "''contractType''" "TextsShape (Some [''call_option'', ''put_option'']) 0" Required]
    by (simp add: estimate_rules_def map_get_request_values texts_at_def)
  ultimately show ?thesis
    by (simp add: estimate_of_def estimate_with_defaults_def)
qed

text \<open>C16: the request that the cron service builds from its settings passes the validation of the
  index service exactly when the settings that are set are permitted ones, and the handler then
  reads the request completed by the defaults of the schema; otherwise the call is refused.\<close>

theorem cron_request_validated:
  assumes "validator parse validate"
  shows "if valid_estimate A (estimate_with_defaults r)
    then validated_action validate (estimate_rules A) estimate_of now (request_values r) = Inr (estimate_with_defaults r)
    else \<exists>e. validated_action validate (estimate_rules A) estimate_of now (request_values r) = Inl e"
proof (cases "valid_estimate A (estimate_with_defaults r)")
  case True
  then have "params_accepted parse (estimate_rules A) (request_values r)" by (simp add: request_accepted)
  from validator.accepts [OF assms this] True show ?thesis
    by (simp add: validated_action_def request_read)
next
  case False
  then have "\<not> params_accepted parse (estimate_rules A) (request_values r)" by (simp add: request_accepted)
  then obtain e where "validate now (estimate_rules A) (request_values r) = Inl e"
    using validator.refuses [OF assms] by blast
  with False show ?thesis
    by (simp add: validated_action_def)
qed

lemma period_pattern_split:
  assumes "period_pattern tp"
  shows "tp = butlast tp @ [last tp]" "list_all is_digit (butlast tp)" "butlast tp \<noteq> []"
proof -
  have two: "2 \<le> length tp" using assms by (simp add: period_pattern_def)
  then have "tp \<noteq> []" by auto
  then show "tp = butlast tp @ [last tp]" by simp
  show "list_all is_digit (butlast tp)" using assms by (simp add: period_pattern_def)
  show "butlast tp \<noteq> []" using two by (cases tp rule: rev_cases) auto
qed

lemma period_of_pattern:
  assumes "period_pattern tp"
  shows "timePeriodToInteger tp =
    (if last tp = CHR ''d'' then Inl (js_error ''Expected timePeriod to be of the format \"<number>D\"'')
     else if dec_val (butlast tp) = 0 then Inl (js_error ''Expected timePeriod to be > 0'')
     else Inr (Num (of_int (dec_val (butlast tp)))))"
proof -
  note tp = period_pattern_split [OF assms]
  have D: "CHR ''D'' \<notin> set (butlast tp)"
    using tp(2) by (auto simp: list_all_iff dest: digit_not_special(1))
  show ?thesis
  proof (cases "last tp = CHR ''d''")
    case True
    have "CHR ''D'' \<notin> set tp" by (subst tp(1)) (use D True in simp)
    with True show ?thesis by (simp add: timePeriodToInteger_no_D)
  next
    case False
    then have "last tp = CHR ''D''" using assms by (auto simp: period_pattern_def)
    then have *: "tp = butlast tp @ [CHR ''D'']" using tp(1) by simp
    have "timePeriodToInteger (ds @ CHR ''D'' # []) =
        (if dec_val ds = 0 then Inl (js_error ''Expected timePeriod to be > 0'')
         else Inr (Num (of_int (dec_val ds))))"
      if "CHR ''D'' \<notin> set ds" "list_all is_digit ds" "ds \<noteq> []" for ds
      using that by (simp add: timePeriodToInteger_def index_of_append string_to_number_digits)
    from this [OF D tp(2,3)] * False show ?thesis by metis
  qed
qed

text \<open>C14: a call of the estimate action that the schema does not permit is refused.  One that it
  permits runs the handler on the configured exchange, methodology and symbol type, a known asset
  and a number of days; but the pattern of the days also permits a lower case d and zero days, and
  with those the handler throws, with nothing announced or saved.  Any other number is read as
  the number it is.\<close>

theorem estimate_action_period:
  assumes "validator parse validate"
  shows "if params_accepted parse (estimate_rules A) ps
    then \<exists>p. estimate_of (params_filled parse now (estimate_rules A) ps) = Some p
      \<and> valid_estimate A p
      \<and> estimate_action validate A E now requestId ps s = estimate E requestId p s
      \<and> (if last (ep_timePeriod p) = CHR ''d'' \<or> dec_val (butlast (ep_timePeriod p)) = 0
         then \<exists>e. estimate_action validate A E now requestId ps s = (Inl e, s)
         else last (ep_timePeriod p) = CHR ''D''
           \<and> timePeriodToInteger (ep_timePeriod p) = Inr (Num (of_int (dec_val (butlast (ep_timePeriod p))))))
    else \<exists>e. estimate_action validate A E now requestId ps s = (Inl e, s)"
proof (cases "params_accepted parse (estimate_rules A) ps")
  case True
  note valid = validator.accepts [OF assms True, of now]
  obtain p where p: "estimate_of (params_filled parse now (estimate_rules A) ps) = Some p"
      "valid_estimate A p"
    by (rule validator.estimate_read [OF assms valid])
  then have pattern: "period_pattern (ep_timePeriod p)" by (simp add: valid_estimate_def)
  have run: "estimate_action validate A E now requestId ps s = estimate E requestId p s"
    by (simp add: estimate_action_def validated_action_def valid p(1))
  have fails: "\<exists>e. estimate E requestId p s = (Inl e, s)" if "timePeriodToInteger (ep_timePeriod p) = Inl e" for e
    using that by (simp add: estimate_def indexOperation_def mfivDates_def)
  have ends: "last (ep_timePeriod p) \<in> {CHR ''D'', CHR ''d''}"
    using pattern by (simp add: period_pattern_def)
  have "if last (ep_timePeriod p) = CHR ''d'' \<or> dec_val (butlast (ep_timePeriod p)) = 0
      then \<exists>e. estimate E requestId p s = (Inl e, s)
      else last (ep_timePeriod p) = CHR ''D''
        \<and> timePeriodToInteger (ep_timePeriod p) = Inr (Num (of_int (dec_val (butlast (ep_timePeriod p)))))"
    using fails period_of_pattern [OF pattern] ends by (auto split: if_splits)
  with p True show ?thesis
    unfolding run [symmetric] by (auto intro!: exI [of _ p] simp: run)
next
  case False
  then obtain e where "validate now (estimate_rules A) ps = Inl e"
    using validator.refuses [OF assms] by blast
  with False show ?thesis
    by (simp add: estimate_action_def validated_action_def)
qed

text \<open>A call of the backfill action that passes the validation has dates, its own or the defaults,
  so that formatting them cannot throw: the answer is that it is processing, unless the time period
  is none.  A date that cannot be read, an unknown exchange or asset is refused before.\<close>

theorem backfill_action_outcome:
  assumes "validator parse validate" and "now \<noteq> None" and "''deribit'' \<in> set X"
  shows "if params_accepted parse (backfill_rules X A) ps
    then \<exists>p start stop. backfill_of (params_filled parse now (backfill_rules X A) ps) = Some p
      \<and> bp_exchange p \<in> set X \<and> bp_asset p \<in> set A \<and> bp_replayFrom p = Some start \<and> bp_replayTo p = Some stop
      \<and> backfill_action validate X A D now requestID nodeID ps =
         (case timePeriodToInteger (bp_timePeriod p) of
            Inl e \<Rightarrow> Inl e
          | Inr _ \<Rightarrow> Inr \<lparr> bs_status = ''processing'', bs_reqId = requestID, bs_nodeId = nodeID \<rparr>)
    else \<exists>e. backfill_action validate X A D now requestID nodeID ps = Inl e"
proof (cases "params_accepted parse (backfill_rules X A) ps")
  case True
  note valid = validator.accepts [OF assms(1) True, of now]
  obtain p start stop where p: "backfill_of (params_filled parse now (backfill_rules X A) ps) = Some p"
      "bp_exchange p \<in> set X" "bp_asset p \<in> set A" "bp_replayFrom p = Some start" "bp_replayTo p = Some stop"
    by (rule validator.backfill_read [OF assms(1) valid assms(2,3)])
  have "backfill_action validate X A D now requestID nodeID ps =
      (case timePeriodToInteger (bp_timePeriod p) of
         Inl e \<Rightarrow> Inl e
       | Inr _ \<Rightarrow> Inr \<lparr> bs_status = ''processing'', bs_reqId = requestID, bs_nodeId = nodeID \<rparr>)"
    by (simp add: backfill_action_def validated_action_def valid p backfill_mfiv_def backfill_calculator_def
        to_iso_string_def new_vix_def Let_def split: sum.splits)
  with p True show ?thesis by (auto intro!: exI [of _ p])
next
  case False
  then obtain e where "validate now (backfill_rules X A) ps = Inl e"
    using validator.refuses [OF assms(1)] by blast
  with False show ?thesis
    by (simp add: backfill_action_def validated_action_def)
qed

text \<open>A validated call of the mfiv action of the websocket service is thinned by a known interval, so
  only a failing query empties the page of an authorized caller.\<close>

lemma api_mfiv_action_interval:
  assumes "validator parse validate" and "now \<noteq> None" and "params_accepted parse (api_mfiv_rules A) ps"
  shows "\<exists>p n. api_mfiv_of (params_filled parse now (api_mfiv_rules A) ps) = Some p \<and> n \<in> {1, 3, 11, 287} \<and> ap_asset p \<in> set A \<and>
    api_mfiv_action validate A tokens_check getMany takeNth now ps d =
      res_bind (handleAuthorize2 tokens_check (ap_apiKey p) d) (\<lambda>(_, d').
        case queryMfiv getMany p d' of
          Inl e \<Rightarrow> Inr (empty_page, d')
        | Inr arr \<Rightarrow> Inr (\<lparr> pr_data = takeNth n arr, pr_prev = None, pr_next = None \<rparr>, d'))"
proof -
  note valid = validator.accepts [OF assms(1,3), of now]
  obtain p n where p: "api_mfiv_of (params_filled parse now (api_mfiv_rules A) ps) = Some p" "ap_asset p \<in> set A"
      "map_get filterMap (ap_interval p) = Some n" "n \<in> {1, 3, 11, 287}"
    by (rule validator.api_mfiv_read [OF assms(1) valid assms(2)])
  then show ?thesis
    by (intro exI [of _ p] exI [of _ n]) (simp add: api_mfiv_action_def validated_action_def valid mfiv_action_def)
qed

section \<open>Samples\<close>

definition sample_request :: "string option \<Rightarrow> estimate_request" where
  "sample_request period = \<lparr> es_exchange = Some ''deribit'', es_methodology = Some ''MFIV'', es_timePeriod = period,
     es_symbolType = None, es_expiryType = None, es_contractType = [''call_option'', ''put_option''],
     er_at = iso_string 1651363200000, er_asset = ''ETH'' \<rparr>"

lemma sample_settings:
  "valid_estimate [''ETH'', ''BTC''] (estimate_with_defaults (sample_request None))" "valid_estimate [''ETH'', ''BTC''] (estimate_with_defaults (sample_request (Some ''14d'')))"
  "\<not> valid_estimate [''ETH'', ''BTC''] (estimate_with_defaults (sample_request (Some ''two weeks'')))"
  by (simp_all add: valid_estimate_def estimate_with_defaults_def sample_request_def period_pattern_def is_digit_def)

lemma cron_request_validated_witness:
  "validated_action (check_params (\<lambda>_. None)) (estimate_rules [''ETH'', ''BTC'']) estimate_of (Some 0) (request_values (sample_request None))
     = Inr (estimate_with_defaults (sample_request None))
   \<and> (\<exists>e. validated_action (check_params (\<lambda>_. None)) (estimate_rules [''ETH'', ''BTC'']) estimate_of (Some 0)
       (request_values (sample_request (Some ''two weeks''))) = Inl e)"
  using cron_request_validated [OF schema_check.validator_axioms, of "[''ETH'', ''BTC'']" "sample_request None" "\<lambda>_. None" "Some 0"]
    cron_request_validated [OF schema_check.validator_axioms, of "[''ETH'', ''BTC'']" "sample_request (Some ''two weeks'')" "\<lambda>_. None" "Some 0"]
    sample_settings by simp

lemma estimate_action_period_witness:
  "\<exists>e. estimate_action (check_params (\<lambda>_. None)) [''ETH'', ''BTC''] (index_env0 (\<lambda>_ _ _. Inl type_error)) (Some 0) ''r''
     (request_values (sample_request (Some ''14d''))) sample_service = (Inl e, sample_service)"
proof -
  let ?ps = "request_values (sample_request (Some ''14d''))"
  have ok: "params_accepted (\<lambda>_. None) (estimate_rules [''ETH'', ''BTC'']) ?ps"
    by (simp add: request_accepted sample_settings)
  have "estimate_of (params_filled (\<lambda>_. None) (Some 0) (estimate_rules [''ETH'', ''BTC'']) ?ps)
      = Some (estimate_with_defaults (sample_request (Some ''14d'')))"
    by (rule request_read [OF sample_settings(2)])
  moreover have "ep_timePeriod (estimate_with_defaults (sample_request (Some ''14d''))) = ''14d''"
    by (simp add: estimate_with_defaults_def sample_request_def)
  ultimately show ?thesis
    using estimate_action_period [OF schema_check.validator_axioms, of "\<lambda>_. None" "[''ETH'', ''BTC'']" ?ps "Some 0"
        "index_env0 (\<lambda>_ _ _. Inl type_error)" "''r''" sample_service]
    unfolding if_P [OF ok] by (elim exE conjE) simp
qed

lemma backfill_action_outcome_witness:
  "backfill_action (check_params (\<lambda>_. None)) [''deribit''] [''ETH''] utc_dayjs (Some 1651363200000) ''r'' ''n''
     [(''timePeriod'', TextValue ''14D''), (''asset'', TextValue ''ETH''), (''replayTo'', NumberValue (Num 1651363200000))]
   = Inr \<lparr> bs_status = ''processing'', bs_reqId = ''r'', bs_nodeId = ''n'' \<rparr>"
proof -
  let ?ps = "[(''timePeriod'', TextValue ''14D''), (''asset'', TextValue ''ETH''), (''replayTo'', NumberValue (Num 1651363200000))]"
  have date: "time_clip (trunc_real 1651363200000) = Some 1651363200000"
    using trunc_real_of_int [of 1651363200000] by (simp add: time_clip_def max_time_def)
  have ok: "params_accepted (\<lambda>_. None) (backfill_rules [''deribit''] [''ETH'']) ?ps"
    by (simp add: params_accepted_def backfill_rules_def field_accepted_def map_get_def date)
  have "map_get (params_filled (\<lambda>_. None) (Some 1651363200000) (backfill_rules [''deribit''] [''ETH'']) ?ps) ''timePeriod''
      = Some (TextValue ''14D'')"
    by (subst map_get_filled [OF distinct_rules(2), of _ TextShape Required]) (simp_all add: backfill_rules_def map_get_def)
  then have period: "backfill_of (params_filled (\<lambda>_. None) (Some 1651363200000) (backfill_rules [''deribit''] [''ETH'']) ?ps) = Some p
      \<Longrightarrow> bp_timePeriod p = ''14D''" for p
    by (auto simp: backfill_of_def text_at_def split: option.splits)
  have tp: "timePeriodToInteger ''14D'' = Inr (Num (of_int 14))"
    using timePeriodToInteger_digits [of "''14''" "[]"] by (simp add: is_digit_def dec_val_def digit_val_def)
  show ?thesis
    using backfill_action_outcome [OF schema_check.validator_axioms, of "Some 1651363200000" "[''deribit'']" "\<lambda>_. None"
        "[''ETH'']" ?ps utc_dayjs "''r''" "''n''"] ok tp
    by (auto dest!: period)
qed

end
