(* ===== verification/Spec2Isabelle.thy ===== *)
theory Spec2Isabelle
  imports Buckets MfivDates VixV2 Instruments Ingest IndexService Tokens Backfill WsApi TradeServices WsSocket VixBook VixV1Run Rate Live Helpers Cron Middleware
    Configuration Scripts Startup Tables Dashboard CronMixin SocialAuth OpenApi I18n Gateway Generators Broker Calculator Channels Freshness Migrations Parameters
begin

text \<open>
  \<^bold>\<open>volatility-services.\<close>  The repository is a set of moleculer services that compute
  the volatility index MFIV from option data of an exchange.  The ingest service receives option
  summaries and caches the latest one of every symbol; the cron service asks the index service for an
  estimate every so often; the index service collects the summaries of the near and the next expiry
  from the ingest service, computes the index, broadcasts the evidence and saves a row; the ws service
  publishes the index on a channel, replays history on request, answers queries over the saved rows and
  authorizes sockets with the tokens of the token service.  The rate service reads the riskless rate
  from a contract and broadcasts it to the index service; the instrument service answers which options
  are listed; the trade services and the backfill service fill tables from streams and replays.  Two
  calculators (\<^verbatim>\<open>vix_calculator.ts\<close> and \<^verbatim>\<open>vix_calculator_v2.ts\<close>)
  compute indices over a replay.

  \<^bold>\<open>Theories.\<close>  Paths are under \<^verbatim>\<open>src/\<close>; names of definitions are
  those of the source, with the class or file in front where one name occurs twice.

  \<^item> \<open>Prelude\<close>: JavaScript numbers (exact reals with NaN and the infinities), strings as
    lists of ASCII characters, insertion-ordered maps (\<open>jsmap\<close>) and their lemmas.
  \<^item> \<open>Errors\<close>: \<^verbatim>\<open>lib/errors\<close>, \<^verbatim>\<open>lib/failure.ts\<close>,
    \<^verbatim>\<open>lib/handlers/errors.ts\<close>.  A fallible or asynchronous operation returns
    \<open>thrown + 'a\<close>; every throw, rejection and early return is a branch.
  \<^item> \<open>JsDate\<close>, \<open>Dayjs\<close>: the ECMAScript Date as its time value, ISO printing and
    parsing, and the date library as the record \<open>dayjs_lib\<close> with the laws \<open>dayjs_utc\<close>.
  \<^item> \<open>TimePeriod\<close>, \<open>MfivDates\<close>, \<open>BuildExpiries\<close>:
    \<^verbatim>\<open>lib/utils/time_period.ts\<close>, \<^verbatim>\<open>date.ts\<close>,
    \<^verbatim>\<open>ensure.ts\<close>, \<^verbatim>\<open>lib/expiries.ts\<close> and
    \<^verbatim>\<open>lib/utils/expiries.ts\<close>: time periods, the Friday schedule, the selection of
    the near and next expiry.
  \<^item> \<open>MarketData\<close>, \<open>Buckets\<close>: the records of the data and
    \<^verbatim>\<open>computables/\<close>: time and tick buckets of options and trades.
  \<^item> \<open>VixV2\<close>, \<open>VixBook\<close>, \<open>VixV1\<close>, \<open>VixV1Run\<close>: the
    calculators.  State is the record of the fields with the trace of the callbacks; the exchange is a
    function from the number of the stream to the messages it delivers.
  \<^item> \<open>Calculator\<close>: what the clients of the two calculators rely on, as interfaces that both
    of them satisfy.
  \<^item> \<open>Instruments\<close>, \<open>Ingest\<close>, \<open>IndexService\<close>, \<open>Tokens\<close>,
    \<open>Backfill\<close>, \<open>TradeServices\<close>, \<open>WsApi\<close>, \<open>WsSocket\<close>,
    \<open>Rate\<close>, \<open>Cron\<close>: the services under \<^verbatim>\<open>services/\<close> with their
    helpers, clients and entities.  A service is a record of its fields; an action, an event handler or
    a cron tick is a function from the state to its answer and the new state, with what it sends, saves
    and broadcasts recorded in order.
  \<^item> \<open>Helpers\<close>: \<^verbatim>\<open>lib/utils/helpers.ts\<close>, among them the wait for the
    database at the start of a service.
  \<^item> \<open>Middleware\<close>: \<^verbatim>\<open>middlewares/check-permissions.middleware.js\<close> and
    the mixins for board membership, memoizing and configuration.
  \<^item> \<open>Live\<close>: the ingest, the rate and the index service side by side, their events as the steps
    \<open>live_step\<close> of an interleaving, and the invariant of its runs.
  \<^item> \<open>Channels\<close>: the sockets of the ws service in that system: clients come with a key, send
    messages and leave, handlers act one effect at a time, announced indices are published.
  \<^item> \<open>Freshness\<close>: the same system with a clock and the cache of the broker in front of the
    summaries action: every state and every answer carries its time.  Also the cached action alone
    among the messages of a feed (\<open>serve\<close>), and what an answer of it was read from.
  \<^item> \<open>Parameters\<close>: the parameter schemas of the actions as data, what the validation of a call
    accepts and fills in, and the actions that run behind it.
  \<^item> \<open>Migrations\<close>: \<^verbatim>\<open>migrations/\<close>, the statements as data and what
    they do to a schema and its rows.
  \<^item> \<open>Configuration\<close>: \<^verbatim>\<open>configuration/\<close>, the guarded JSON parser and the
    requests of the streams of option summaries.
  \<^item> \<open>Scripts\<close>: \<^verbatim>\<open>scripts/daily_mfiv.ts\<close>, a client of the websocket service
    that replays a period day by day, with the request its socket is authorized by; and
    \<^verbatim>\<open>scripts/download.cjs\<close>, which prints the datasets of the options.
  \<^item> \<open>Startup\<close>: name, dependencies and settings of every service under
    \<^verbatim>\<open>services/\<close>, the relation \<open>up\<close> of the services that can come up in a
    deployment of several processes, and \<open>up_by\<close> with the times of the processes and the time
    each service waits for its dependencies.
  \<^item> \<open>Tables\<close>: the columns of \<^verbatim>\<open>entities/\<close>, the rows of the services as
    cells, and what it takes for a row to conform.
  \<^item> \<open>Broker\<close>: \<^verbatim>\<open>moleculer.config.ts\<close>, the data source,
    \<^verbatim>\<open>ormconfig.js\<close> and the secret manager; the retries of a call, with the variables of
    the environment the runner overwrites the policy with.
  \<^item> \<open>Dashboard\<close>: \<^verbatim>\<open>graph.ts\<close>, \<^verbatim>\<open>feedtest.ts\<close>,
    \<^verbatim>\<open>scripts/historical_replay.ts\<close> and the test service, with \<open>JsMath\<close> for
    \<^verbatim>\<open>Math.max\<close> and \<^verbatim>\<open>Math.min\<close>.
  \<^item> \<open>CronMixin\<close>, \<open>SocialAuth\<close>, \<open>OpenApi\<close>, \<open>I18n\<close>, \<open>Gateway\<close>,
    \<open>Generators\<close>: the other mixins and middlewares of the gateway: cron jobs, social login, the
    generated documentation, the route of the translations (over an explicit store of objects and the
    namespaces in the options of i18next), the
    search of entities, database services and the files written at the start.
  \<^item> this theory: the properties that span services (feed to channel, the running system, sockets of
    the running system, contract to estimate, cron tick to channel).

  \<^bold>\<open>What the lemmas show.\<close>  \<open>BuildExpiries\<close> and \<open>MfivDates\<close> characterise
  the expiries that are chosen; \<open>Buckets\<close> proves that the accumulators compute the partition
  of a stream into runs of one interval and lose no message; \<open>Ingest\<close> has the invariant of the
  cache under every interleaving of requests with a message that is being stored; the calculators end,
  keep their books well formed, stay on the Friday schedule, report no faster than asked and
  interpolate between the variances of two expiries; \<open>Scripts\<close> has what the daily script collects,
  when it is let in and when it waits forever; \<open>VixBook\<close> gives the contents of the book
  and equates the contribution with the sum of the white paper; \<open>Tokens\<close> and \<open>WsApi\<close>
  follow a key from generation over authorization to removal; \<open>Rate\<close> shows where a rate comes
  from and what is saved of a run; \<open>Middleware\<close> says for whom the handler of an action runs;
  \<open>Helpers\<close> decides when the wait for the database settles, and when it never does; \<open>Live\<close>
  has where the options and the rate of every announced evidence come from, in every interleaving,
  and what a saved row has of the evidence it belongs to,
  and \<open>Channels\<close> that a published message is genuine and reaches only authorized subscribers;
  \<open>Freshness\<close> bounds the age of every option in an announced evidence; \<open>Migrations\<close> shows
  that the migrations lead to a schema that serves the entities and back, and when taking SOL out is
  refused; \<open>Parameters\<close> says which calls reach the handlers of the estimate, backfill and mfiv
  actions and what they then read;
  \<open>Calculator\<close> that the fuel of the calculators decides nothing but whether there is an answer;
  \<open>Startup\<close> decides which deployments come up, and by when; \<open>Tables\<close> says when a saved row has the types
  of its table; \<open>Broker\<close> how often a failing call is tried; \<open>Dashboard\<close> what is drawn of a
  feed; the theories of the gateway which jobs run, which routes exist, whom they serve and what a
  request changes of the objects of the program.

  \<^bold>\<open>Parameters and interfaces.\<close>  Code that is not in the repository is an argument:
  moleculer's broker and cacher, dayjs, transducist, neverthrow's combine, the exchange, the database,
  the index computation of \<^verbatim>\<open>node-volatility-mfiv\<close>, web3 and axios, the random bytes
  and the hash of tokens, JSON, the validator, and the text of a number.  What the services rely on is
  stated as locales (\<open>dayjs_utc\<close>, \<open>grouping\<close>, \<open>cacher\<close>, \<open>combining\<close>,
  \<open>chain_max\<close>, \<open>taking_nth\<close>, \<open>index_table\<close>, \<open>token_store\<close>,
  \<open>error_classes\<close>, \<open>bucketing\<close>, \<open>retrying\<close>, \<open>runner\<close>, \<open>pubsub\<close>, \<open>streaming\<close>,
  \<open>calculator\<close>, \<open>expiring\<close>, \<open>validator\<close>) and every locale is interpreted; properties name the
  interface as a hypothesis and their witnesses use the interpretation.

  \<^bold>\<open>Loops.\<close>  Streams are finite lists of messages that end or fail.  A calculator opens a
  new stream at every rollover: \<open>summaryStream\<close> and \<open>v1_summaryStream\<close> carry fuel for
  the number of streams.  \<open>fetchIndex_returns\<close> needs one stream per millisecond of the period,
  since a rollover is only known to move the date forward; \<open>v1_fetchIndex_returns\<close> one per week
  and two more, since the first calculator rolls on Fridays.  The wait for the buffer of a socket has
  fuel; the wait for the database and the daily loop are partial functions, \<open>None\<close> when they go on
  forever.

  \<^bold>\<open>Left out.\<close>  Logging and metrics; rounding of numbers and characters outside ASCII;
  microseconds of dates, except in the text of a Date; drawing on the terminal; the schemas of actions
  whose handlers run only inside the process are stated and not composed with them.  PostgreSQL is
  modelled as far as the migrations use it: the order of columns, defaults other than the creation
  date and the table of applied migrations are left out.
  \<^bold>\<open>Not modelled:\<close> type declarations, which have no behaviour; the options of tools; the prompt
  command, which the broker does not load; files that only export what others declare, and calls of a
  library or of an action in one line (\<^verbatim>\<open>datasources/tardis.ts\<close>,
  \<^verbatim>\<open>events/mfiv.ts\<close>, \<^verbatim>\<open>service_helpers/rate_helper.ts\<close>,
  \<^verbatim>\<open>service_helpers/ipfs_helper.ts\<close>, \<^verbatim>\<open>repositories/ipfs_repository.ts\<close>);
  and three files of the template that only call a library.  The tests are not part of the program.
\<close>

section \<open>From the feed to the channel\<close>

text \<open>The event of an index of the action's methodology is one the ws service listens to, and its
  handler publishes what it carries.\<close>

lemma listens_index:
  assumes "CHR ''.'' \<notin> set timePeriod" "CHR ''.'' \<notin> set asset"
  shows "listens (''MFIV'' @ ''.'' @ timePeriod @ ''.'' @ asset @ ''.index.created'')"
proof -
  have "split_on (CHR ''.'') (asset @ ''.index.created'') = [asset, ''index'', ''created'']"
    using split_on_append [OF assms(2), of "''index.created''"] by simp
  then have "split_on (CHR ''.'') (timePeriod @ ''.'' @ asset @ ''.index.created'') = [timePeriod, asset, ''index'', ''created'']"
    using split_on_append [OF assms(1), of "asset @ ''.index.created''"] by simp
  then show ?thesis by (simp add: listens_def)
qed

lemma announced_published:
  assumes "Announced event ev [''ws''] \<in> set (xs_effects (lv_index (rm_live r)))" "listens event"
  shows "rooms_step W H r (r\<lparr> rm_app := hl_publish H (fst (index_created ev)) (IndexMessage (snd (index_created ev))) (rm_app r) \<rparr>)"
  using rooms_step.Publish [OF assms(1) _ assms(2), of W H] by (simp add: publish_index_def case_prod_beta)

lemma evidence_published:
  assumes "ep_methodology params = ''MFIV''" "CHR ''.'' \<notin> set (ep_timePeriod params)" "CHR ''.'' \<notin> set (ep_asset params)"
    and "\<forall>ctx p r. xe_compute E ctx p = Inr r \<longrightarrow> mr_asset r = mc_asset ctx"
    and "estimate E requestId params s = (Inr (Evidence ev), s')"
  shows "Announced (''MFIV'' @ ''.'' @ ep_timePeriod params @ ''.'' @ ep_asset params @ ''.index.created'') ev [''ws'']
      \<in> set (xs_effects s')"
    and "lv_index (rm_live r) = s' \<Longrightarrow> rooms_step W H r (r\<lparr> rm_app :=
      hl_publish H (''MFIV/'' @ to_upper (ep_timePeriod params) @ ''/'' @ ep_asset params)
        (IndexMessage (snd (index_created ev))) (rm_app r) \<rparr>)"
    and "xd_dVol (snd (index_created ev)) = mr_dVol (me_result ev)" "xd_invdVol (snd (index_created ev)) = mr_invdVol (me_result ev)"
    and "xd_timestamp (snd (index_created ev)) = mp_at (me_params ev)"
proof -
  have o: "mc_methodology (me_context ev) = ep_methodology params"
    "mc_timePeriod (me_context ev) = ep_timePeriod params" "mc_asset (me_context ev) = ep_asset params"
    "xe_compute E (me_context ev) (me_params ev) = Inr (me_result ev)"
    using estimate_Evidence [OF assms(5)] by auto
  show event: "Announced (''MFIV'' @ ''.'' @ ep_timePeriod params @ ''.'' @ ep_asset params @ ''.index.created'') ev [''ws'']
      \<in> set (xs_effects s')"
    using estimate_announced [OF assms(5)] unfolding assms(1) .
  have "to_upper ''MFIV'' = ''MFIV''" by (simp add: to_upper_def upper_char_def)
  then have channel: "fst (index_created ev) = ''MFIV/'' @ to_upper (ep_timePeriod params) @ ''/'' @ ep_asset params"
    using o assms(4) by (simp add: index_created_def Let_def assms(1))
  show "rooms_step W H r (r\<lparr> rm_app :=
      hl_publish H (''MFIV/'' @ to_upper (ep_timePeriod params) @ ''/'' @ ep_asset params)
        (IndexMessage (snd (index_created ev))) (rm_app r) \<rparr>)"
    if "lv_index (rm_live r) = s'"
    using event unfolding that [symmetric] channel [symmetric]
    by (rule announced_published) (rule listens_index [OF assms(2,3)])
qed (simp_all add: index_created_def Let_def)

text \<open>C1: the path of an index through the services.  Summaries arrive at the ingest service at their
  times, and its action is called through the cache of the broker, by estimates and by anyone else.
  When an estimate at the time \<open>now\<close> whose two calls are among them answers with an evidence, the
  index was computed over exactly the latest summaries of the near and of the next expiry among the
  messages received until then, but for the newest ones: what a call did not see is no older than the
  two minutes the cache keeps an answer, its lag and the time the calls took (an expiry never seen is
  left out).  The evidence is broadcast to the ws group under the event of its methodology, period and
  asset, which the ws service listens to; and its handler publishes the result with the time of the
  estimate on the channel of these three.\<close>

theorem feed_to_channel:
  assumes "cacher lib" "combining combine" "expiring A lag" "sorted (map fst events)"
    and "list_all (\<lambda>m. four_digit_year (os_expirationDate m)) (fed events)"
    and "answered_in_course A lib combine (new_ingest c) events patience now E"
    and "mfivDates (parse_iso (xe_parse E) (ep_at params)) (ep_timePeriod params) (ep_expiryType params) None = Inr dates"
    and "nearExpiration dates = iso_string near" "nextExpiration dates = iso_string next"
    and "four_digit_year near" "four_digit_year next"
    and "ep_methodology params = ''MFIV''" "CHR ''.'' \<notin> set (ep_timePeriod params)" "CHR ''.'' \<notin> set (ep_asset params)"
    and "\<forall>ctx p r. xe_compute E ctx p = Inr r \<longrightarrow> mr_asset r = mc_asset ctx"
    and "estimate E requestId params s = (Inr (Evidence ev), s')"
  shows "(\<exists>i j. mp_options (me_params ev) = latest_summaries near (fed (take i events)) @ latest_summaries next (fed (take j events))
      \<and> (\<forall>(v, x) \<in> set (drop i events) \<union> set (drop j events). now - (patience + 120000 + lag) \<le> v))
    \<and> Announced (''MFIV'' @ ''.'' @ ep_timePeriod params @ ''.'' @ ep_asset params @ ''.index.created'') ev [''ws'']
        \<in> set (xs_effects s')
    \<and> (\<exists>data. (\<forall>W H r. lv_index (rm_live r) = s' \<longrightarrow>
          rooms_step W H r (r\<lparr> rm_app :=
            hl_publish H (''MFIV/'' @ to_upper (ep_timePeriod params) @ ''/'' @ ep_asset params) (IndexMessage data) (rm_app r) \<rparr>))
        \<and> xd_dVol data = mr_dVol (me_result ev) \<and> xd_invdVol data = mr_invdVol (me_result ev)
        \<and> xd_timestamp data = mp_at (me_params ev))"
proof -
  obtain options where o: "optionSummariesLists E (ep_asset params) dates = Inr options"
    "mp_options (me_params ev) = options"
    using estimate_Evidence [OF assms(16)] assms(7) by auto
  have fetch: "\<exists>k. (\<forall>(v, x) \<in> set (drop k events). now - (patience + 120000 + lag) \<le> v)
      \<and> fulfilled (xe_call E action (iso_string e) asset) = map Some (latest_summaries e (fed (take k events)))"
    if e: "four_digit_year e" for e action asset
  proof -
    obtain k t where k: "process (Some lib) (fed (take k events)) (new_ingest c) = Inr t"
      "xe_call E action (iso_string e) asset = summaries (Some lib) combine (iso_string e) t"
      "\<forall>(v, x) \<in> set (drop k events). now - (patience + summaries_ttl + lag) \<le> v"
      using answered_recently [OF assms(3,4,6), of action "iso_string e" asset] by blast
    have "fed events = fed (take k events) @ fed (drop k events)" by (simp flip: fed_append)
    then have "list_all (\<lambda>m. four_digit_year (os_expirationDate m)) (fed (take k events))" using assms(5) by simp
    from cacher.fetch_latest [OF assms(1,2) k(1) e this]
    have "fulfilled (xe_call E action (iso_string e) asset) = map Some (latest_summaries e (fed (take k events)))"
      by (simp add: k(2) summaries_def fulfilled_def latest_summaries_def)
    with k(3) show ?thesis by (auto simp: summaries_ttl_def)
  qed
  let ?action = "''ingest-'' @ to_lower (ep_asset params) @ ''.summaries''"
  obtain i j where ij: "\<forall>(v, x) \<in> set (drop i events) \<union> set (drop j events). now - (patience + 120000 + lag) \<le> v"
    "fulfilled (xe_call E ?action (iso_string near) (ep_asset params)) = map Some (latest_summaries near (fed (take i events)))"
    "fulfilled (xe_call E ?action (iso_string next) (ep_asset params)) = map Some (latest_summaries next (fed (take j events)))"
    using fetch [OF assms(10), of ?action "ep_asset params"] fetch [OF assms(11), of ?action "ep_asset params"] by blast
  have "map Some options = map Some (latest_summaries near (fed (take i events)) @ latest_summaries next (fed (take j events)))"
    using o(1) ij(2,3) by (simp add: optionSummariesLists_iff assms(8,9))
  then have options: "options = latest_summaries near (fed (take i events)) @ latest_summaries next (fed (take j events))"
    by (simp only: inj_map_eq_map [OF inj_Some])
  note published = evidence_published [OF assms(12-16)]
  have "\<exists>data. (\<forall>W H r. lv_index (rm_live r) = s' \<longrightarrow>
          rooms_step W H r (r\<lparr> rm_app :=
            hl_publish H (''MFIV/'' @ to_upper (ep_timePeriod params) @ ''/'' @ ep_asset params) (IndexMessage data) (rm_app r) \<rparr>))
        \<and> xd_dVol data = mr_dVol (me_result ev) \<and> xd_invdVol data = mr_invdVol (me_result ev)
        \<and> xd_timestamp data = mp_at (me_params ev)"
    by (intro exI [of _ "snd (index_created ev)"] conjI allI impI) ((erule published(2) | rule published(3) published(4) published(5))+)
  with o(2) options ij(1) published(1) show ?thesis by blast
qed

definition fed_env :: "(string, option_summary) jsmap ingest_service \<Rightarrow> index_env" where
  "fed_env feed = index_env0 (\<lambda>action expiry asset. summaries (Some memory_cacher) promise_all expiry feed)"

abbreviation sample_feed :: "option_summary list" where
  "sample_feed \<equiv> [tick ''A'' 1652428800000 (Num 1), tick ''B'' 1653033600000 (Num 2)]"

lemma sample_fed:
  assumes "process (Some memory_cacher) sample_feed (new_ingest []) = Inr feed"
  shows "mfivDates (parse_iso (xe_parse (fed_env feed)) (ep_at sample_estimate)) (ep_timePeriod sample_estimate)
      (ep_expiryType sample_estimate) None =
    Inr \<lparr> nearExpiration = iso_string 1652428800000, nextExpiration = iso_string 1653033600000,
      rollover = iso_string 1651824000000, expiry_asset = None \<rparr>"
    and "\<exists>ev s'. estimate (fed_env feed) requestId sample_estimate s = (Inr (Evidence ev), s')"
proof -
  let ?E = "fed_env feed"
  have y: "list_all (\<lambda>m. four_digit_year (os_expirationDate m)) sample_feed"
    "four_digit_year 1652428800000" "four_digit_year 1653033600000"
    by (simp_all add: tick_def)
  have "timePeriodToInteger ''14D'' = Inr (Num (of_int (7 * 2)))"
    using timePeriodToInteger_digits [of "''14''" "[]"] by (simp add: is_digit_def dec_val_def digit_val_def)
  from mfivDates_weeks [OF this, of 1651363200000 None]
  show d: "mfivDates (parse_iso (xe_parse ?E) (ep_at sample_estimate)) (ep_timePeriod sample_estimate)
      (ep_expiryType sample_estimate) None =
    Inr \<lparr> nearExpiration = iso_string 1652428800000, nextExpiration = iso_string 1653033600000,
      rollover = iso_string 1651824000000, expiry_asset = None \<rparr>"
    by (simp add: sample_estimate_def fed_env_def index_env0_def parse_iso_string time_clip_four_digit max_time_def
        next_friday8_def friday8_origin_def four_digit_year_def)
  have p: "parse_iso (xe_parse ?E) (ep_at sample_estimate) = Some 1651363200000"
    by (simp add: sample_estimate_def fed_env_def index_env0_def parse_iso_string time_clip_four_digit)
  have c: "xe_call ?E = (\<lambda>action expiry asset. summaries (Some memory_cacher) promise_all expiry feed)"
    by (simp add: fed_env_def index_env0_def)
  note fetch = cacher.fetch_latest [OF memory.cacher_axioms neverthrow.combining_axioms assms _ y(1)]
  have latest: "latest_summaries 1652428800000 sample_feed \<noteq> []"
    "listed_symbols 1652428800000 sample_feed \<noteq> []" "listed_symbols 1653033600000 sample_feed \<noteq> []"
    by (simp_all add: latest_summaries_def listed_symbols_def tick_def set_add_def)
  have "optionSummariesLists ?E (ep_asset sample_estimate)
      \<lparr> nearExpiration = iso_string 1652428800000, nextExpiration = iso_string 1653033600000,
      rollover = iso_string 1651824000000, expiry_asset = None \<rparr>
    = Inr (latest_summaries 1652428800000 sample_feed @ latest_summaries 1653033600000 sample_feed)"
    using latest(2,3) by (simp add: optionSummariesLists_iff c fulfilled_def summaries_def fetch y)
  moreover have "\<exists>r. xe_compute ?E ctx q = Inr r" "xe_broadcast ?E n = Inr ()" for ctx q n
    by (simp_all add: fed_env_def index_env0_def)
  ultimately show "\<exists>ev s'. estimate ?E requestId sample_estimate s = (Inr (Evidence ev), s')"
    using estimate_succeeds [OF d _ _ p] latest(1) by fastforce
qed

lemma feed_to_channel_witness:
  "\<exists>feed ev s'. process (Some memory_cacher) sample_feed (new_ingest []) = Inr feed
    \<and> estimate (fed_env feed) ''r'' sample_estimate sample_service = (Inr (Evidence ev), s')
    \<and> (\<exists>i j. mp_options (me_params ev) = latest_summaries 1652428800000 (take i sample_feed)
        @ latest_summaries 1653033600000 (take j sample_feed))
    \<and> Announced ''MFIV.14D.ETH.index.created'' ev [''ws''] \<in> set (xs_effects s')"
proof -
  obtain feed where f: "process (Some memory_cacher) sample_feed (new_ingest []) = Inr feed"
    by (simp add: process_message_def store_def receive_def memory_cacher_def)
  define events :: "(int \<times> feed_event) list" where "events = map (\<lambda>m. (0, Fed m)) sample_feed"
  have events: "sorted (map fst events)" "fed (take k events) = take k sample_feed" for k
    by (simp_all add: events_def take_Cons' split: nat.splits)
  have y: "list_all (\<lambda>m. four_digit_year (os_expirationDate m)) (fed events)"
    "four_digit_year 1652428800000" "four_digit_year 1653033600000"
    by (simp_all add: tick_def events_def)
  have served: "serve entry_list memory_cacher promise_all events (new_ingest [], ac_new entry_list) = Inr (feed, [])"
    using f by (auto simp: events_def res_bind_Inr_iff)
  have c: "answered_in_course entry_list memory_cacher promise_all (new_ingest []) events 0 0 (fed_env feed)"
    unfolding answered_in_course_def
  proof (intro allI, rule exI [of _ events], rule exI [of _ "[]"], intro exI [of _ 0] exI [of _ feed] exI [of _ "[] :: (string \<times> option_summary option list \<times> int) list"] conjI)
    fix action expiry asset
    show "xe_call (fed_env feed) action expiry asset =
        fst (cached_summaries entry_list memory_cacher promise_all expiry 0 feed [])"
      by (simp add: fed_env_def index_env0_def cached_summaries_def entry_list_def split: sum.splits)
    show "\<forall>(v, x) \<in> set events. v \<le> 0" by (simp add: events_def)
  qed (use served in simp_all)
  have r: "\<forall>ctx q r. xe_compute (fed_env feed) ctx q = Inr r \<longrightarrow> mr_asset r = mc_asset ctx"
    by (auto simp: fed_env_def index_env0_def)
  obtain ev s' where e: "estimate (fed_env feed) ''r'' sample_estimate sample_service = (Inr (Evidence ev), s')"
    using sample_fed(2) [OF f] by blast
  have m: "ep_methodology sample_estimate = ''MFIV''" "CHR ''.'' \<notin> set (ep_timePeriod sample_estimate)"
    "CHR ''.'' \<notin> set (ep_asset sample_estimate)" by (simp_all add: sample_estimate_def)
  note t = feed_to_channel [OF memory.cacher_axioms neverthrow.combining_axioms memory_entries.expiring_axioms events(1)
      y(1) c sample_fed(1) [OF f] _ _ y(2,3) m r e, simplified]
  have "\<exists>i j. mp_options (me_params ev) = latest_summaries 1652428800000 (take i sample_feed)
        @ latest_summaries 1653033600000 (take j sample_feed)"
    using conjunct1 [OF t] unfolding events(2) by blast
  moreover have "Announced ''MFIV.14D.ETH.index.created'' ev [''ws''] \<in> set (xs_effects s')"
    using conjunct1 [OF conjunct2 [OF t]] by (simp add: sample_estimate_def)
  ultimately show ?thesis using f e by blast
qed

section \<open>The running system\<close>

text \<open>C2: every run of the running system, whatever the interleaving of messages, stores, ticks of the
  rate service and estimates.  Every evidence that has been announced was computed over at least one
  option, each of them the summary of a message that had been received (with absent prices as 0),
  and with a rate that was read from the contract or the built-in default.  Every saved row comes
  after the announcement of an evidence whose row it is: it has the asset, exchange, methodology and
  period of its context and the time and expiries of its parameters, and its values are the printed
  results of its computation.\<close>

theorem live_estimates_sourced:
  assumes "cacher lib" "combining combine" "\<forall>y. ch_get lib c y = Inr None"
    and "live_reachable lib combine save name envs (new_live c env skipPersist) s"
  shows "(\<forall>ev \<in> set (announced_evidence (xs_effects (lv_index s))).
      mp_options (me_params ev) \<noteq> []
      \<and> (\<forall>o' \<in> set (mp_options (me_params ev)). \<exists>m \<in> set (lv_received s).
           o' = summaryWithDefaults m (Num 0) (Num 0) (Num 0))
      \<and> (mc_rate (me_context ev) = default_rate \<or> (\<exists>E \<in> envs. \<exists>r. provideRateResponse E = Inr r
           \<and> mc_rate (me_context ev) = interest_rate.truncate r)))
    \<and> (\<forall>before row after. xs_effects (lv_index s) = before @ Saved row # after \<longrightarrow>
        (\<exists>ev \<in> set (announced_evidence before). row_of (set (lv_asked s)) row ev))"
proof -
  have "live_inv lib envs (new_live c env skipPersist)"
    using assms(3) by (simp add: live_inv_def new_live_def ingest_sourced_def new_ingest_def)
  from cacher.live_inv_reachable [OF assms(1,4,2) this]
  have inv: "\<forall>ev \<in> set (announced_evidence (xs_effects (lv_index s))).
      sourced_evidence (lv_received s) (contract_rates envs) ev"
    "saved_after (set (lv_asked s)) {} (xs_effects (lv_index s))"
    by (simp_all add: live_inv_def)
  from inv(2) have "\<exists>ev \<in> set (announced_evidence before). row_of (set (lv_asked s)) row ev"
    if "xs_effects (lv_index s) = before @ Saved row # after" for before row after
    by (simp add: that saved_after_append)
  with inv(1) show ?thesis
    unfolding sourced_evidence_def sent_summaries_def contract_rates_def by blast
qed

text \<open>A run in which the rate is read, the two messages of \<open>sample_feed\<close> are stored and an
  estimate is answered.\<close>

lemma sample_stored:
  obtains l feed where
    "live_reachable memory_cacher promise_all Inr ''index'' {sample_rate_env 1} (new_live [] (\<lambda>_. None) False) l"
    "process (Some memory_cacher) sample_feed (new_ingest []) = Inr feed" "lv_ingest l = feed" "feed \<in> set (lv_seen l)"
    "lv_received l = sample_feed" "xs_effects (lv_index l) = []"
proof -
  let ?run = "live_reachable memory_cacher promise_all Inr ''index'' {sample_rate_env 1} (new_live [] (\<lambda>_. None) False)"
  obtain feed where f: "process (Some memory_cacher) sample_feed (new_ingest []) = Inr feed"
    by (simp add: process_message_def store_def receive_def memory_cacher_def)
  let ?s0 = "live_tick Inr ''index'' (sample_rate_env 1)
    (new_live ([] :: (string, option_summary) jsmap) (\<lambda>_. None) False)"
  have r0: "?run ?s0"
    by (rule live_reachable.Step [OF live_reachable.Start live_step.RateTick]) simp
  have s0: "lv_ingest ?s0 = new_ingest []" "lv_received ?s0 = []" "lv_seen ?s0 = [new_ingest []]"
    "xs_effects (lv_index ?s0) = []"
    by (simp_all add: live_tick_def Let_def new_live_def)
  have "\<exists>s1. ?run s1 \<and> lv_ingest s1 = feed \<and> lv_received s1 = lv_received ?s0 @ sample_feed
      \<and> lv_index s1 = lv_index ?s0 \<and> feed \<in> set (lv_seen s1)"
    using live_process [OF r0, of sample_feed feed]
    by (simp only: s0 f list.set) (simp add: new_ingest_def)
  then obtain s1 where s1: "?run s1" "lv_ingest s1 = feed" "lv_received s1 = lv_received ?s0 @ sample_feed"
    "lv_index s1 = lv_index ?s0" "feed \<in> set (lv_seen s1)" by blast
  show thesis
  proof (rule that [OF s1(1) f s1(2,5)])
    show "lv_received s1 = sample_feed" unfolding s1(3) s0(2) by (rule append_Nil)
    show "xs_effects (lv_index s1) = []" unfolding s1(4) by (rule s0(4))
  qed
qed

lemma sample_live:
  obtains l s0 ev feed where
    "live_reachable memory_cacher promise_all Inr ''index'' {sample_rate_env 1} (new_live [] (\<lambda>_. None) False) l"
    "lv_received l = sample_feed" "estimate (fed_env feed) ''r'' sample_estimate s0 = (Inr (Evidence ev), lv_index l)"
proof -
  let ?run = "live_reachable memory_cacher promise_all Inr ''index'' {sample_rate_env 1} (new_live [] (\<lambda>_. None) False)"
  obtain l feed where l: "?run l" "process (Some memory_cacher) sample_feed (new_ingest []) = Inr feed"
    "feed \<in> set (lv_seen l)" "lv_received l = sample_feed"
    by (rule sample_stored)
  obtain ev x where e: "estimate (fed_env feed) ''r'' sample_estimate (lv_index l) = (Inr (Evidence ev), x)"
    using sample_fed(2) [OF l(2)] by blast
  have "answered_by memory_cacher promise_all (lv_seen l) (fed_env feed)"
    using l(3) by (auto simp: answered_by_def fed_env_def index_env0_def)
  then have "?run (l\<lparr> lv_index := x, lv_asked := lv_asked l @ [fed_env feed] \<rparr>)"
    by (rule live_reachable.Step [OF l(1) live_step.Estimate [OF _ e]])
  from that [OF this] l(4) e show thesis by simp
qed

lemma live_estimates_sourced_witness:
  "\<exists>s ev. live_reachable memory_cacher promise_all Inr ''index'' {sample_rate_env 1}
      (new_live [] (\<lambda>_. None) False) s
    \<and> ev \<in> set (announced_evidence (xs_effects (lv_index s))) \<and> mp_options (me_params ev) \<noteq> []
    \<and> (\<forall>o' \<in> set (mp_options (me_params ev)). os_symbol o' \<in> {''A'', ''B''})"
proof -
  obtain l s0 ev feed where l: "live_reachable memory_cacher promise_all Inr ''index'' {sample_rate_env 1}
      (new_live [] (\<lambda>_. None) False) l" "lv_received l = sample_feed"
    and e: "estimate (fed_env feed) ''r'' sample_estimate s0 = (Inr (Evidence ev), lv_index l)"
    by (rule sample_live)
  have ev: "ev \<in> set (announced_evidence (xs_effects (lv_index l)))" by (rule estimate_announces [OF e])
  have "\<forall>y. ch_get memory_cacher [] y = Inr None" by (simp add: memory_cacher_def)
  note live = live_estimates_sourced [OF memory.cacher_axioms neverthrow.combining_axioms this l(1)]
  have options: "mp_options (me_params ev) \<noteq> []"
    "\<forall>o' \<in> set (mp_options (me_params ev)). \<exists>m \<in> set sample_feed. o' = summaryWithDefaults m (Num 0) (Num 0) (Num 0)"
    using bspec [OF conjunct1 [OF live], of ev] ev unfolding l(2) by blast+
  have "\<forall>o' \<in> set (mp_options (me_params ev)). os_symbol o' \<in> {''A'', ''B''}"
  proof
    fix o'
    assume "o' \<in> set (mp_options (me_params ev))"
    then obtain m where m: "m \<in> set sample_feed" "o' = summaryWithDefaults m (Num 0) (Num 0) (Num 0)"
      using bspec [OF options(2)] by auto
    then show "os_symbol o' \<in> {''A'', ''B''}" by (auto simp: summaryWithDefaults_def tick_def)
  qed
  with l(1) ev options(1) show ?thesis by blast
qed

section \<open>Through the cache of the broker\<close>

text \<open>Both expiries are asked for at time 0 and again a hundred seconds later, when the cache answers;
  the estimate is made then.\<close>

lemma sample_requests:
  assumes "process (Some memory_cacher) sample_feed (new_ingest []) = Inr feed"
  obtains near after vs ws where "near \<noteq> after" "summaries (Some memory_cacher) promise_all near feed = Inr vs"
    "summaries (Some memory_cacher) promise_all after feed = Inr ws"
    "\<And>k. k \<noteq> near \<Longrightarrow> k \<noteq> after \<Longrightarrow> \<exists>e. summaries (Some memory_cacher) promise_all k feed = Inl e"
proof -
  let ?near = "iso_string 1652428800000" and ?after = "iso_string 1653033600000"
  have y: "list_all (\<lambda>m. four_digit_year (os_expirationDate m)) sample_feed"
    "four_digit_year 1652428800000" "four_digit_year 1653033600000"
    by (simp_all add: tick_def)
  note fetch = cacher.fetch_latest [OF memory.cacher_axioms neverthrow.combining_axioms assms _ y(1)]
  have listed: "listed_symbols 1652428800000 sample_feed \<noteq> []" "listed_symbols 1653033600000 sample_feed \<noteq> []"
    by (simp_all add: listed_symbols_def tick_def)
  have none: "map_get (ig_expiryMap feed) k = None" if "k \<noteq> ?near" "k \<noteq> ?after" for k
    using process_expiry_keys [OF assms, of k] that
    by (cases "map_get (ig_expiryMap feed) k") (auto simp: new_ingest_def tick_def)
  have "\<exists>e. summaries (Some memory_cacher) promise_all k feed = Inl e" if "k \<noteq> ?near" "k \<noteq> ?after" for k
    using none [OF that] by (simp add: summaries_def fetchOptionSummaries_def)
  moreover have "\<exists>vs. summaries (Some memory_cacher) promise_all ?near feed = Inr vs"
    "\<exists>ws. summaries (Some memory_cacher) promise_all ?after feed = Inr ws"
    using fetch [OF y(2)] fetch [OF y(3)] listed by (simp_all add: summaries_def)
  moreover have "?near \<noteq> ?after" using y(2,3) by (simp add: iso_string_eq_iff)
  ultimately show thesis using that [of ?near ?after] by blast
qed

lemma estimates_are_fresh_witness:
  "\<exists>s ev. fresh_reachable memory_cacher promise_all Inr ''index'' {sample_rate_env 1} entry_list 0
      (new_fresh entry_list 0 (new_live [] (\<lambda>_. None) False)) s
    \<and> (100000, ev) \<in> set (fr_announced s) \<and> mp_options (me_params ev) \<noteq> []
    \<and> (\<forall>o' \<in> set (mp_options (me_params ev)). \<exists>(u, ms) \<in> set (fr_stored s). - 20000 \<le> u \<and> u \<le> 100000 \<and> newest ms o')"
proof -
  let ?l0 = "new_live ([] :: (string, option_summary) jsmap) (\<lambda>_. None) False"
  let ?run = "fresh_reachable memory_cacher promise_all Inr ''index'' {sample_rate_env 1} entry_list 0 (new_fresh entry_list 0 ?l0)"
  obtain l feed where l: "live_reachable memory_cacher promise_all Inr ''index'' {sample_rate_env 1} ?l0 l"
    "process (Some memory_cacher) sample_feed (new_ingest []) = Inr feed" "lv_ingest l = feed" "xs_effects (lv_index l) = []"
    by (rule sample_stored)
  obtain near after vs ws where req: "near \<noteq> after" "summaries (Some memory_cacher) promise_all near feed = Inr vs"
    "summaries (Some memory_cacher) promise_all after feed = Inr ws"
    "\<And>k. k \<noteq> near \<Longrightarrow> k \<noteq> after \<Longrightarrow> \<exists>e. summaries (Some memory_cacher) promise_all k feed = Inl e"
    using sample_requests [OF l(2)] by blast
  define s1 where "s1 = (new_fresh entry_list 0 ?l0)\<lparr> fr_live := l \<rparr>"
  have run1: "?run s1"
    unfolding s1_def
    by (rule fresh_quiet [OF _ _ fresh_reachable.Start]) (use l(1,4) in \<open>simp_all add: new_fresh_def new_live_def\<close>)
  have "cached_summaries entry_list memory_cacher promise_all near 0 feed [] = (Inr vs, [(near, vs, 120000)])"
    using req(2) by (simp add: cached_summaries_def entry_list_def summaries_ttl_def)
  with fresh_answer [OF run1, of near vs "[(near, vs, 120000)]"]
  have "?run (s1\<lparr> fr_cache := [(near, vs, 120000)], fr_stored := [(0, stored l)], fr_answers := [(0, near, vs)] \<rparr>)"
    (is "fresh_reachable _ _ _ _ _ _ _ _ ?s2") by (simp add: s1_def new_fresh_def l(3))
  moreover define c where "c = [(after, ws, 120000 :: int), (near, vs, 120000)]"
  have "cached_summaries entry_list memory_cacher promise_all after 0 feed [(near, vs, 120000)] = (Inr ws, c)"
    using req(1,3) by (simp add: cached_summaries_def entry_list_def summaries_ttl_def c_def)
  ultimately have "?run (?s2\<lparr> fr_cache := c, fr_stored := replicate 2 (0, stored l), fr_answers := [(0, near, vs), (0, after, ws)] \<rparr>)"
    (is "fresh_reachable _ _ _ _ _ _ _ _ ?s3")
    using fresh_answer [of _ _ _ _ _ _ _ _ ?s2 after ws c] by (simp add: s1_def new_fresh_def l(3) numeral_2_eq_2)
  then have "?run (?s3\<lparr> fr_now := 100000 \<rparr>)" (is "fresh_reachable _ _ _ _ _ _ _ _ ?s4")
    by (rule fresh_reachable.Step [OF _ fresh_step.Clock]) (simp add: s1_def new_fresh_def)
  moreover have hit: "cached_summaries entry_list memory_cacher promise_all near 100000 feed c = (Inr vs, c)"
    "cached_summaries entry_list memory_cacher promise_all after 100000 feed c = (Inr ws, c)"
    using req(1) by (simp_all add: cached_summaries_def entry_list_def c_def)
  ultimately have "?run (?s4\<lparr> fr_stored := fr_stored ?s4 @ [(100000, stored l)], fr_answers := fr_answers ?s4 @ [(100000, near, vs)] \<rparr>)"
    (is "fresh_reachable _ _ _ _ _ _ _ _ ?s5")
    using fresh_answer [of _ _ _ _ _ _ _ _ ?s4 near vs c] by (simp add: s1_def new_fresh_def l(3))
  then have run6: "?run (?s5\<lparr> fr_stored := fr_stored ?s5 @ [(100000, stored l)], fr_answers := fr_answers ?s5 @ [(100000, after, ws)] \<rparr>)"
    (is "fresh_reachable _ _ _ _ _ _ _ _ ?s6")
    using fresh_answer [of _ _ _ _ _ _ _ _ ?s5 after ws c] hit(2) by (simp add: s1_def new_fresh_def l(3))
  have live: "fr_live ?s6 = l" "fr_now ?s6 = 100000" "fr_announced ?s6 = []"
    "(100000, near, vs) \<in> set (fr_answers ?s6)" "(100000, after, ws) \<in> set (fr_answers ?s6)"
    by (simp_all add: s1_def new_fresh_def)
  have calls: "answered_in_time 0 ?s6 (fed_env feed)"
    unfolding answered_in_time_def
  proof (intro allI)
    fix action k asset
    have "xe_call (fed_env feed) action k asset = summaries (Some memory_cacher) promise_all k feed"
      by (simp add: fed_env_def index_env0_def)
    then show "(\<exists>e. xe_call (fed_env feed) action k asset = Inl e) \<or> (\<exists>(u, k', vs) \<in> set (fr_answers ?s6).
        k' = k \<and> fr_now ?s6 - 0 \<le> u \<and> xe_call (fed_env feed) action k asset = Inr vs)"
      using req(2-4) live(2,4,5) by (cases "k = near"; cases "k = after") fastforce+
  qed
  obtain ev x where e: "estimate (fed_env feed) ''r'' sample_estimate (lv_index l) = (Inr (Evidence ev), x)"
    using sample_fed(2) [OF l(2)] by blast
  let ?s7 = "?s6\<lparr> fr_live := l\<lparr> lv_index := x, lv_asked := lv_asked l @ [fed_env feed] \<rparr>, fr_announced := map (Pair 100000) (new_announced (lv_index l) x) \<rparr>"
  have run7: "?run ?s7"
    using fresh_reachable.Step [OF run6 fresh_step.Asked [OF calls, unfolded live(1), OF e]] by (simp add: s1_def new_fresh_def)
  have ev: "(100000, ev) \<in> set (fr_announced ?s7)"
    using estimate_announces [OF e] by (simp add: new_announced_def l(4))
  have "\<forall>y. ch_get memory_cacher [] y = Inr None" by (simp add: memory_cacher_def)
  from estimates_are_fresh [OF memory_entries.expiring_axioms memory.cacher_axioms neverthrow.combining_axioms this run7]
  have "\<forall>o' \<in> set (mp_options (me_params ev)). \<exists>(u, ms) \<in> set (fr_stored ?s7). 100000 - (0 + 120000 + 0) \<le> u \<and> u \<le> 100000 \<and> newest ms o'"
    using ev by blast
  moreover have "mp_options (me_params ev) \<noteq> []" using estimate_Evidence [OF e] by auto
  ultimately show ?thesis using run7 ev by (intro exI [of _ ?s7] exI [of _ ev]) simp
qed

section \<open>From the system to the sockets\<close>

text \<open>C3: what a socket is sent.  In every interleaving of clients, handlers, exchange, rates and
  estimates, a message published to a socket went to one whose request carried a key of the table
  of tokens, not expired then, and which had subscribed to exactly this channel.  On the channel of
  the clients it is the body of a message that a client sent; on every other channel it is an index
  that the index service announced for the channel, over options that had been received and with a
  rate read from the contract or the built-in one: no client can put a message there.\<close>

theorem channel_messages_genuine:
  assumes "pubsub H" "cacher (wl_lib W)" "combining (wl_combine W)" "\<forall>y. ch_get (wl_lib W) c y = Inr None"
    and "token_store (wl_token_db W) rows ok" "\<forall>(d, now) \<in> wl_token_states W. ok d"
    and "rooms_reachable W H (new_rooms H (new_live c env skipPersist)) s"
    and "(channel, m) \<in> set (hl_delivered H (rm_app s) i)"
  shows "(\<exists>req key d now r. (i, req) \<in> set (rm_admitted s) \<and> request_api_key (wl_query W) req = Inr key \<and> key \<noteq> []
        \<and> (d, now) \<in> wl_token_states W \<and> r \<in> set (rows d) \<and> accepted_row (wl_tokens W) now key r)
    \<and> (\<exists>q. (i, q) \<in> set (rm_heard s) \<and> cm_type q = ''SUBSCRIBE'' \<and> cm_channel q = Present channel)
    \<and> (case m of
         ClientMessage body \<Rightarrow> channel = ''CLIENT_MESSAGE''
           \<and> (\<exists>j q. (j, q) \<in> set (rm_heard s) \<and> cm_type q = ''CLIENT_MESSAGE'' \<and> cm_body q = body)
       | IndexMessage data \<Rightarrow> channel \<noteq> ''CLIENT_MESSAGE''
           \<and> (\<exists>ev \<in> set (announced_evidence (xs_effects (lv_index (rm_live s)))). index_created ev = (channel, data)
                \<and> sourced_evidence (lv_received (rm_live s)) (contract_rates (wl_envs W)) ev))"
proof -
  have "live_inv (wl_lib W) (wl_envs W) (new_live c env skipPersist)"
    using assms(4) by (simp add: live_inv_def new_live_def ingest_sourced_def new_ingest_def)
  moreover have "rm_live (new_rooms H (new_live c env skipPersist)) = new_live c env skipPersist"
    by (simp add: new_rooms_def)
  ultimately have sourced: "\<forall>ev \<in> set (announced_evidence (xs_effects (lv_index (rm_live s)))).
      sourced_evidence (lv_received (rm_live s)) (contract_rates (wl_envs W)) ev"
    using cacher.live_inv_reachable [OF assms(2) rooms_live [OF assms(7)] assms(3)] by (simp add: live_inv_def)
  have inv: "hub_ok H s (rm_app s)" "clients_ok W s"
    using pubsub.rooms_inv_reachable [OF assms(1,7)] by (simp_all add: rooms_inv_def)
  have sent: "asked s i channel" "genuine s channel m" using inv(1) assms(8) by (auto simp: hub_ok_def)
  then obtain q where q: "(i, q) \<in> set (rm_heard s)" "cm_type q = ''SUBSCRIBE''" "cm_channel q = Present channel"
    unfolding asked_def by blast
  then obtain req where req: "(i, req) \<in> set (rm_admitted s)" "let_in W req"
    using inv(2) by (force simp: clients_ok_def)
  then obtain d now d' where d: "(d, now) \<in> wl_token_states W"
    "handleAuthorize (wl_query W) (tokens_service (wl_tokens W) (wl_token_db W) now) req d = Inr (True, d')"
    unfolding let_in_def by blast
  then have "ok d" using assms(6) by blast
  from authorized_key [OF assms(5) this d(2)] have key:
    "\<exists>key r. request_api_key (wl_query W) req = Inr key \<and> key \<noteq> [] \<and> r \<in> set (rows d)
      \<and> accepted_row (wl_tokens W) now key r" by blast
  have "channel \<noteq> ''CLIENT_MESSAGE''" if "index_created ev = (channel, data)" for ev data
    using that by (rule index_channel)
  with sent(2) sourced have "case m of
      ClientMessage body \<Rightarrow> channel = ''CLIENT_MESSAGE'' \<and> said s body
    | IndexMessage data \<Rightarrow> channel \<noteq> ''CLIENT_MESSAGE''
        \<and> (\<exists>ev \<in> set (announced_evidence (xs_effects (lv_index (rm_live s)))). index_created ev = (channel, data)
             \<and> sourced_evidence (lv_received (rm_live s)) (contract_rates (wl_envs W)) ev)"
    unfolding genuine_def by (cases m) auto
  then show ?thesis using key req(1) d(1) q unfolding said_def by blast
qed

text \<open>A client with the key of \<open>sample_row\<close> subscribes before the run of \<open>sample_live\<close>.\<close>

definition sample_sockets :: "((string, option_summary) jsmap, string, token_table) surroundings" where
  "sample_sockets = \<lparr> wl_lib = memory_cacher, wl_combine = promise_all, wl_save = Inr, wl_name = ''index'',
     wl_envs = {sample_rate_env 1}, wl_query = no_query, wl_tokens = sample_token_env, wl_token_db = table_db,
     wl_token_states = {((1, [sample_row]), 5)},
     wl_parse = (\<lambda>_. Inr (subscribe_message\<lparr> cm_channel := Present ''MFIV/14D/ETH'' \<rparr>)) \<rparr>"

lemma channel_messages_genuine_witness:
  "\<exists>s data. rooms_reachable sample_sockets (list_hub []) (new_rooms (list_hub []) (new_live [] (\<lambda>_. None) False)) s
    \<and> (''MFIV/14D/ETH'', IndexMessage data) \<in> set (hl_delivered (list_hub []) (rm_app s) 0)
    \<and> (\<exists>ev. index_created ev = (''MFIV/14D/ETH'', data) \<and> sourced_evidence sample_feed (contract_rates {sample_rate_env 1}) ev)"
proof -
  let ?H = "list_hub [] :: (channel_message, channel_message hub) hub_lib"
  let ?l0 = "new_live ([] :: (string, option_summary) jsmap) (\<lambda>_. None) False"
  let ?run = "rooms_reachable sample_sockets ?H (new_rooms ?H ?l0)"
  let ?q = "subscribe_message\<lparr> cm_channel := Present ''MFIV/14D/ETH'' \<rparr>"
  obtain d' where "handleAuthorize no_query (tokens_service sample_token_env table_db 5) (bearer_request ''abc'')
      (1, [sample_row]) = Inr (True, d')"
    using sample_admitted by blast
  then have req: "let_in sample_sockets (bearer_request ''abc'')" by (auto simp: let_in_def sample_sockets_def)
  define s1 where "s1 = \<lparr> rm_live = ?l0, rm_app = hl_new ?H, rm_open = [0], rm_jobs = [(0, ws_open [])],
    rm_admitted = [(0, bearer_request ''abc'')], rm_heard = [] \<rparr>"
  have "?run s1"
    using rooms_reachable.Step [OF rooms_reachable.Start rooms_step.Connect [OF req, of 0 "new_rooms ?H ?l0" ?H "[]"]]
    by (simp add: new_rooms_def s1_def)
  moreover have "ws_message sample_env (\<lambda>_. []) (\<lambda>_. None) 0 (\<lambda>_. ValidTrue) [] (wl_parse sample_sockets) [] [] =
      Some ([SubscribedTo (Present ''MFIV/14D/ETH'')], Inr ())"
    by (simp add: ws_message_def sample_sockets_def subscribe_message_def)
  ultimately have "?run (s1\<lparr> rm_heard := [(0, ?q)], rm_jobs := [(0, ws_open []), (0, [SubscribedTo (Present ''MFIV/14D/ETH'')])] \<rparr>)"
    (is "rooms_reachable _ _ _ ?s")
    using rooms_reachable.Step [of sample_sockets ?H _ s1, OF _ rooms_step.Hear [of 0 s1 sample_sockets "[]" ?q]]
    by (fastforce simp: s1_def sample_sockets_def)
  moreover have "rooms_step sample_sockets ?H ?s (act ?H 0 (SubscribedTo (Present ''MFIV/14D/ETH''))
      (?s\<lparr> rm_jobs := [(0, ws_open [])] @ (0, []) # [] \<rparr>))"
    by (rule rooms_step.Perform) simp
  ultimately have "?run (act ?H 0 (SubscribedTo (Present ''MFIV/14D/ETH'')) (?s\<lparr> rm_jobs := [(0, ws_open [])] @ (0, []) # [] \<rparr>))"
    (is "rooms_reachable _ _ _ ?s2") by (rule rooms_reachable.Step)
  moreover obtain l s0 ev feed where l: "live_reachable memory_cacher promise_all Inr ''index'' {sample_rate_env 1} ?l0 l"
    "lv_received l = sample_feed" and e: "estimate (fed_env feed) ''r'' sample_estimate s0 = (Inr (Evidence ev), lv_index l)"
    by (rule sample_live)
  ultimately have "?run (?s2\<lparr> rm_live := l \<rparr>)"
    by (intro rooms_background) (simp_all add: sample_sockets_def s1_def)
  moreover have "Announced ''MFIV.14D.ETH.index.created'' ev [''ws''] \<in> set (xs_effects (lv_index (rm_live (?s2\<lparr> rm_live := l \<rparr>))))"
    using estimate_announced [OF e] by (simp add: sample_estimate_def)
  moreover have "listens ''MFIV.14D.ETH.index.created''" by (simp add: listens_def)
  ultimately have run: "?run (?s2\<lparr> rm_live := l, rm_app := publish_index ?H ev (rm_app ?s2) \<rparr>)" (is "rooms_reachable _ _ _ ?s3")
    using rooms_reachable.Step [OF _ rooms_step.Publish] by fastforce
  have ctx: "mc_methodology (me_context ev) = ''MFIV''" "mc_timePeriod (me_context ev) = ''14D''" "mc_asset (me_context ev) = ''ETH''"
    and result: "xe_compute (fed_env feed) (me_context ev) (me_params ev) = Inr (me_result ev)"
    using estimate_Evidence [OF e] by (auto simp: sample_estimate_def)
  have "mr_asset (me_result ev) = mc_asset (me_context ev)"
    using arg_cong [OF result, of projr] by (simp add: fed_env_def index_env0_def) (metis mfiv_result.select_convs(1))
  then have "fst (index_created ev) = ''MFIV/14D/ETH''"
    by (simp add: index_created_def Let_def ctx to_upper_def upper_char_def)
  then obtain data where data: "index_created ev = (''MFIV/14D/ETH'', data)" by (cases "index_created ev") simp
  have sent: "(''MFIV/14D/ETH'', IndexMessage data) \<in> set (hl_delivered ?H (rm_app ?s3) 0)"
    by (simp add: publish_index_def data s1_def list_hub_def hub_publish_def)
  have W: "cacher (wl_lib sample_sockets)" "combining (wl_combine sample_sockets)" "\<forall>y. ch_get (wl_lib sample_sockets) [] y = Inr None"
    "token_store (wl_token_db sample_sockets) snd table_ok" "\<forall>(d, now) \<in> wl_token_states sample_sockets. table_ok d"
    using memory.cacher_axioms neverthrow.combining_axioms table.token_store_axioms sample_row_ok
    by (simp_all add: sample_sockets_def memory_cacher_def)
  from channel_messages_genuine [OF uws.pubsub_axioms W run sent] l(2)
  have "\<exists>ev. index_created ev = (''MFIV/14D/ETH'', data) \<and> sourced_evidence sample_feed (contract_rates {sample_rate_env 1}) ev"
    by (auto simp: sample_sockets_def)
  with run sent show ?thesis by blast
qed


section \<open>From the contract to the estimate\<close>


section \<open>From the schedule to the channel\<close>

text \<open>C27: a tick of one of the jobs of the cron service on the documented settings.  It makes exactly
  one call, to the estimate action of the index service of its asset, and never rejects because of the
  answer.  When that service answers with an evidence, the estimate is that of the tick's time for the
  two Fridays one and two weeks after the next one, it has been broadcast under an event the ws service
  listens to, and the handler publishes its result on the channel MFIV/14D of the asset.\<close>

theorem cron_tick_to_channel:
  assumes "env ''CRON_METHODOLOGY'' = None" "env ''CRON_INTERVAL'' = None" "env ''CRON_EXPIRY_TYPE'' = None"
    and "\<And>r. \<exists>json. stringify r = Inr json" "\<And>action r. call action r \<noteq> Inl NaNVal"
    and "cron_jobs env = Inr jobs" "(name, cronTime, asset) \<in> set jobs"
    and "cron_estimate_tick call stringify (Some t) asset (cron_settings env) = (outcome, calls)"
    and "four_digit_year t" "four_digit_year (t + 22 * msPerDay)"
    and "\<forall>ctx p r. xe_compute E ctx p = Inr r \<longrightarrow> mr_asset r = mc_asset ctx"
  shows "outcome = Inr () \<and> (\<exists>request. calls = [(''index-'' @ to_lower asset @ ''.estimate'', request)]
    \<and> (\<forall>requestId s ev s'. estimate E requestId (estimate_with_defaults request) s = (Inr (Evidence ev), s') \<longrightarrow>
        mp_at (me_params ev) = iso_string t
        \<and> mp_nearDate (me_params ev) = iso_string (next_friday8 t + msPerWeek)
        \<and> mp_nextDate (me_params ev) = iso_string (next_friday8 t + 2 * msPerWeek)
        \<and> Announced (''MFIV.14D.'' @ asset @ ''.index.created'') ev [''ws''] \<in> set (xs_effects s')
        \<and> (\<exists>data. xd_dVol data = mr_dVol (me_result ev) \<and> xd_timestamp data = iso_string t
             \<and> (\<forall>W H r. lv_index (rm_live r) = s' \<longrightarrow> rooms_step W H r
                  (r\<lparr> rm_app := hl_publish H (''MFIV/14D/'' @ asset) (IndexMessage data) (rm_app r) \<rparr>)))))"
proof -
  define request where "request = \<lparr> es_exchange = es_exchange (cron_settings env), es_methodology = None,
      es_timePeriod = None, es_symbolType = es_symbolType (cron_settings env), es_expiryType = None,
      es_contractType = es_contractType (cron_settings env), er_at = iso_string t, er_asset = asset \<rparr>"
  let ?params = "estimate_with_defaults request" and ?action = "''index-'' @ to_lower asset @ ''.estimate''"
  have asset: "asset \<in> {''ETH'', ''BTC''}" using assms(6,7) by (auto simp: cron_jobs_def res_bind_Inr_iff)
  have out: "outcome = Inr ()" "calls = [(?action, request)]"
    using assms(4) [of "projr (call ?action request)"] assms(5) [of ?action request] assms(8)
    by (auto simp: cron_estimate_tick_def computeAndStoreEstimate_def service_estimate_def to_iso_string_Some
        Let_def cron_settings_def assms(1-3) from_promise_def handleError_returns async_map_def request_def
        split: prod.splits sum.splits)
  have p: "parse_iso (xe_parse E) (ep_at ?params) = Some t" "ep_timePeriod ?params = ''14D''"
    "ep_expiryType ?params = FridayT08" "ep_methodology ?params = ''MFIV''" "ep_asset ?params = asset"
    using assms(9) by (simp_all add: estimate_with_defaults_def request_def parse_iso_string time_clip_four_digit FridayT08_def)
  have w: "timePeriodToInteger ''14D'' = Inr (Num (of_int (7 * 2)))"
    using timePeriodToInteger_digits [of "''14''" "[]"] by (simp add: is_digit_def dec_val_def digit_val_def)
  have "\<bar>t + 7 * 2 * msPerDay\<bar> \<le> max_time"
    using assms(9,10) by (auto simp: four_digit_year_def max_time_def)
  note dates = mfivDates_weeks [OF w this assms(9,10)]
  have "mp_at (me_params ev) = iso_string t
      \<and> mp_nearDate (me_params ev) = iso_string (next_friday8 t + msPerWeek)
      \<and> mp_nextDate (me_params ev) = iso_string (next_friday8 t + 2 * msPerWeek)
      \<and> Announced (''MFIV.14D.'' @ asset @ ''.index.created'') ev [''ws''] \<in> set (xs_effects s')
      \<and> (\<exists>data. xd_dVol data = mr_dVol (me_result ev) \<and> xd_timestamp data = iso_string t
           \<and> (\<forall>W H r. lv_index (rm_live r) = s' \<longrightarrow> rooms_step W H r
                (r\<lparr> rm_app := hl_publish H (''MFIV/14D/'' @ asset) (IndexMessage data) (rm_app r) \<rparr>)))"
    if e: "estimate E requestId ?params s = (Inr (Evidence ev), s')" for requestId s ev s'
  proof -
    have dots: "CHR ''.'' \<notin> set (ep_timePeriod ?params)" "CHR ''.'' \<notin> set (ep_asset ?params)"
      using asset unfolding p by auto
    have "to_upper ''14D'' = ''14D''" by (simp add: to_upper_def upper_char_def)
    note published = evidence_published [OF p(4) dots assms(11) e, unfolded p(2,5) this]
    have at: "mp_at (me_params ev) = iso_string t" using estimate_at [OF e] by (auto simp: p)
    have "\<exists>data. xd_dVol data = mr_dVol (me_result ev) \<and> xd_timestamp data = iso_string t
        \<and> (\<forall>W H r. lv_index (rm_live r) = s' \<longrightarrow> rooms_step W H r
             (r\<lparr> rm_app := hl_publish H (''MFIV/14D/'' @ asset) (IndexMessage data) (rm_app r) \<rparr>))"
      by (intro exI [of _ "snd (index_created ev)"] conjI allI impI)
        (rule published(3), rule published(5) [unfolded at], use published(2) in simp)
    then show ?thesis
      using estimate_Evidence [OF e] published(1) at by (auto simp: p dates)
  qed
  then show ?thesis using out by blast
qed


lemma cron_tick_to_channel_witness:
  "\<exists>request ev s'. cron_estimate_tick (\<lambda>action r. (Inr action :: string result)) Inr (Some 1651363200000) ''ETH''
      (cron_settings (\<lambda>_. None)) = (Inr (), [(''index-eth.estimate'', request)])
    \<and> estimate (index_env0 (\<lambda>_ _ _. Inr [Some sample_option])) ''r'' (estimate_with_defaults request) sample_service
        = (Inr (Evidence ev), s')
    \<and> mp_at (me_params ev) = iso_string 1651363200000
    \<and> Announced ''MFIV.14D.ETH.index.created'' ev [''ws''] \<in> set (xs_effects s')"
proof -
  let ?call = "\<lambda>action r. (Inr action :: string result)"
  let ?env = "\<lambda>n. if n \<in> {''CRON_MFIV_ETH_UPDATE_CRONTIME'', ''CRON_MFIV_BTC_UPDATE_CRONTIME''} then Some ''0 */5 * * * *'' else None"
  have settings: "cron_settings ?env = cron_settings (\<lambda>_. None)" by (simp add: cron_settings_def)
  have jobs: "cron_jobs ?env = Inr [(''MFIV.14D.ETH.ESTIMATE'', ''0 */5 * * * *'', ''ETH''), (''MFIV.14D.BTC.ESTIMATE'', ''0 */5 * * * *'', ''BTC'')]"
    by (simp add: cron_jobs_def ensure_def to_upper_def upper_char_def char_of_def bit_0)
  obtain outcome calls where c: "cron_estimate_tick ?call Inr (Some 1651363200000) ''ETH'' (cron_settings ?env) = (outcome, calls)"
    by force
  have y: "four_digit_year 1651363200000" "four_digit_year (1651363200000 + 22 * msPerDay)"
    by (simp_all add: four_digit_year_def)
  let ?E = "index_env0 (\<lambda>_ _ _. Inr [Some sample_option])"
  have r: "\<forall>ctx q r. xe_compute ?E ctx q = Inr r \<longrightarrow> mr_asset r = mc_asset ctx"
    by (auto simp: index_env0_def)
  have "to_lower ''ETH'' = ''eth''"
    by (simp add: to_lower_def lower_char_def char_of_def bit_0)
  with cron_tick_to_channel [OF _ _ _ _ _ jobs _ c y r, of "''MFIV.14D.ETH.ESTIMATE''" "''0 */5 * * * *''"]
  obtain request where t: "outcome = Inr ()" "calls = [(''index-eth.estimate'', request)]"
    "\<And>requestId s ev s'. estimate ?E requestId (estimate_with_defaults request) s = (Inr (Evidence ev), s') \<Longrightarrow>
      mp_at (me_params ev) = iso_string 1651363200000
      \<and> Announced ''MFIV.14D.ETH.index.created'' ev [''ws''] \<in> set (xs_effects s')"
    by simp blast
  have "er_at request = iso_string 1651363200000" "es_timePeriod request = None" "es_expiryType request = None"
    using c unfolding t(2)
    by (auto simp: cron_estimate_tick_def computeAndStoreEstimate_def service_estimate_def to_iso_string_Some
        Let_def cron_settings_def split: prod.splits)
  then obtain ev s' where e: "estimate ?E ''r'' (estimate_with_defaults request) sample_service = (Inr (Evidence ev), s')"
    using sample_estimated_for [of "estimate_with_defaults request" sample_service]
    by (auto simp: estimate_with_defaults_def FridayT08_def)
  show ?thesis using c e t(3) [OF e] unfolding t(1,2) settings by blast
qed

end
